(* ===== verification/Prelude.thy ===== *)
theory Prelude
  imports Main "HOL-Library.Word" "HOL-Library.AList"
begin

text \<open>
  Shared vocabulary of the development: the machine integers and byte strings of the
  C++ code, the character classes of \<^verbatim>\<open><cctype>\<close> in the C locale, the operations of
  \<^verbatim>\<open>std::string_view\<close> the parsers use, decimal printing (\<^verbatim>\<open>std::to_string\<close>), big-endian
  integers (\<^verbatim>\<open>htobe16/32/64\<close>), and \<^verbatim>\<open>std::unordered_map\<close> as an association list whose
  order stands for the unspecified iteration order, with its contract as a locale.
  The collection \<open>cpp\<close> holds the unfolding rules of these operations.
\<close>

unbundle bit_operations_syntax

named_theorems cpp \<open>operations of the C++ standard library, unfolded\<close>

type_synonym u8 = "8 word"
type_synonym u16 = "16 word"
type_synonym u32 = "32 word"
type_synonym u64 = "64 word"
type_synonym bytes = "8 word list"

section \<open>Outcomes\<close>

text \<open>
  What a C++ call can do besides returning: throw (\<open>Throw\<close>, with the message the code
  gives) or run into undefined behaviour (\<open>UB\<close>: an index out of range,
  \<^verbatim>\<open>pop_back\<close> on an empty container, \<^verbatim>\<open>remove_prefix\<close> past the end).
\<close>

datatype failure = Throw string | UB string

type_synonym 'a outcome = "failure + 'a"

definition bind_outcome :: "'a outcome \<Rightarrow> ('a \<Rightarrow> 'b outcome) \<Rightarrow> 'b outcome" where
  "bind_outcome m f = (case m of Inl e \<Rightarrow> Inl e | Inr x \<Rightarrow> f x)"

lemma bind_outcome_simps [simp]:
  "bind_outcome (Inl e) f = Inl e"
  "bind_outcome (Inr x) f = f x"
  by (simp_all add: bind_outcome_def)

lemma bind_outcome_eq_Inr:
  "bind_outcome m f = Inr y \<longleftrightarrow> (\<exists>x. m = Inr x \<and> f x = Inr y)"
  by (cases m) auto

section \<open>Characters and strings\<close>

definition byte_of :: "char \<Rightarrow> u8" where
  "byte_of c = of_nat (of_char c)"

definition char_of_byte :: "u8 \<Rightarrow> char" where
  "char_of_byte b = char_of (unat b)"

lemma of_char_less_256 [simp]: "of_char c < (256::nat)"
  by (cases c) (simp add: of_char_def horner_sum_simps)

lemma unat_byte_of [simp]: "unat (byte_of c) = of_char c"
  by (simp add: byte_of_def unat_of_nat take_bit_eq_mod)

lemma char_of_byte_of [simp]: "char_of_byte (byte_of c) = c"
  by (simp add: char_of_byte_def)

lemma unat_u8_less [simp]: "unat (b :: u8) < 256"
  using unsigned_less [of b, where ?'a = nat] by simp

lemma byte_of_char_of_byte [simp]: "byte_of (char_of_byte b) = b"
  by (simp add: byte_of_def char_of_byte_def of_char_mod_256)

definition isdigit :: "char \<Rightarrow> bool" where
  "isdigit c \<longleftrightarrow> 48 \<le> (of_char c :: nat) \<and> (of_char c :: nat) \<le> 57"

definition isspace :: "char \<Rightarrow> bool" where
  "isspace c \<longleftrightarrow> (of_char c :: nat) = 32 \<or> (9 \<le> (of_char c :: nat) \<and> (of_char c :: nat) \<le> 13)"

definition isblank :: "char \<Rightarrow> bool" where
  "isblank c \<longleftrightarrow> (of_char c :: nat) = 32 \<or> (of_char c :: nat) = 9"

definition tolower :: "char \<Rightarrow> char" where
  "tolower c = (if 65 \<le> (of_char c :: nat) \<and> (of_char c :: nat) \<le> 90
     then char_of ((of_char c :: nat) + 32) else c)"

definition digit_value :: "char \<Rightarrow> nat" where
  "digit_value c = of_char c - 48"

abbreviation CR :: char where "CR \<equiv> CHR 0x0D"
abbreviation LF :: char where "LF \<equiv> CHR 0x0A"
abbreviation CRLF :: string where "CRLF \<equiv> [CR, LF]"

text \<open>\<^verbatim>\<open>s.compare(0, n, lit) == 0\<close> with \<^verbatim>\<open>n\<close> the length of the literal.\<close>

definition starts_with :: "'a list \<Rightarrow> 'a list \<Rightarrow> bool" where
  "starts_with lit s \<longleftrightarrow> take (length lit) s = lit"

lemma starts_with_append [simp]: "starts_with lit (lit @ s)"
  by (simp add: starts_with_def)

lemma starts_with_iff: "starts_with lit s \<longleftrightarrow> (\<exists>t. s = lit @ t)"
  by (metis append_take_drop_id starts_with_def append_eq_conv_conj)

text \<open>\<^verbatim>\<open>strncasecmp(s, lit, n) == 0\<close> with \<^verbatim>\<open>n\<close> the length of the literal; the data
  behind the view is read as a NUL-terminated string, so a shorter \<^verbatim>\<open>s\<close> differs.\<close>

definition strncasecmp_eq :: "string \<Rightarrow> string \<Rightarrow> bool" where
  "strncasecmp_eq s lit \<longleftrightarrow> map tolower (take (length lit) s) = map tolower lit"

text \<open>\<^verbatim>\<open>find_first_of\<close> over a set of symbols: the text before the first one, the symbol
  itself, and the text after it.\<close>

fun split_at :: "('a \<Rightarrow> bool) \<Rightarrow> 'a list \<Rightarrow> ('a list \<times> 'a \<times> 'a list) option" where
  "split_at P [] = None"
| "split_at P (x # xs) = (if P x then Some ([], x, xs)
     else map_option (\<lambda>(a, c, b). (x # a, c, b)) (split_at P xs))"

lemma split_at_None [simp]: "split_at P xs = None \<longleftrightarrow> (\<forall>x \<in> set xs. \<not> P x)"
  by (induction xs) auto

lemma split_at_Cons_Some:
  "split_at P (x # xs) = Some (a, c, b) \<longleftrightarrow>
     (if P x then a = [] \<and> c = x \<and> b = xs
      else \<exists>a'. a = x # a' \<and> split_at P xs = Some (a', c, b))"
  by (cases "split_at P xs") auto

lemma split_at_Some:
  "split_at P xs = Some (a, c, b) \<longleftrightarrow> xs = a @ c # b \<and> P c \<and> (\<forall>x \<in> set a. \<not> P x)"
proof (induction xs arbitrary: a)
  case Nil
  then show ?case by simp
next
  case (Cons x xs)
  then show ?case
    by (cases a) (auto simp: split_at_Cons_Some simp del: split_at.simps)
qed

lemma split_at_append [simp]:
  "\<forall>x \<in> set a. \<not> P x \<Longrightarrow> P c \<Longrightarrow> split_at P (a @ c # b) = Some (a, c, b)"
  by (simp add: split_at_Some)

lemma split_at_length: "split_at P xs = Some (a, c, b) \<Longrightarrow> length b < length xs"
  by (auto simp: split_at_Some)

definition dropWhileEnd :: "('a \<Rightarrow> bool) \<Rightarrow> 'a list \<Rightarrow> 'a list" where
  "dropWhileEnd P xs = rev (dropWhile P (rev xs))"

definition trim_with :: "('a \<Rightarrow> bool) \<Rightarrow> 'a list \<Rightarrow> 'a list" where
  "trim_with P xs = dropWhileEnd P (dropWhile P xs)"

lemma dropWhileEnd_id: "xs \<noteq> [] \<Longrightarrow> \<not> P (last xs) \<Longrightarrow> dropWhileEnd P xs = xs"
  by (cases xs rule: rev_cases) (auto simp: dropWhileEnd_def)

lemma trim_with_id:
  assumes "xs = [] \<or> (\<not> P (hd xs) \<and> \<not> P (last xs))"
  shows "trim_with P xs = xs"
proof (cases xs)
  case Nil
  then show ?thesis by (simp add: trim_with_def dropWhileEnd_def)
next
  case (Cons y ys)
  with assms have "dropWhile P xs = xs" "xs \<noteq> []" "\<not> P (last xs)" by simp_all
  then show ?thesis by (simp add: trim_with_def dropWhileEnd_id)
qed

lemma dropWhileEnd_append_ws:
  "\<forall>x \<in> set ws. P x \<Longrightarrow> dropWhileEnd P (xs @ ws) = dropWhileEnd P xs"
  by (simp add: dropWhileEnd_def dropWhile_append)

lemma trim_with_none: "\<forall>x \<in> set xs. \<not> P x \<Longrightarrow> trim_with P xs = xs"
  by (rule trim_with_id) (cases xs; auto)

lemma map_filter_append [simp]: "List.map_filter f (xs @ ys) = List.map_filter f xs @ List.map_filter f ys"
  by (induction xs) (auto simp: List.map_filter_def)

lemma nth_list_update_if: "m < length xs \<Longrightarrow> xs[i := x] ! m = (if i = m then x else xs ! m)"
  by (cases "i < length xs") auto

text \<open>Induction over a list in steps of three.\<close>

lemma list_induct_by3 [case_names Nil One Two Step]:
  "P [] \<Longrightarrow> (\<And>a. P [a]) \<Longrightarrow> (\<And>a b. P [a, b]) \<Longrightarrow>
     (\<And>a b c xs. P xs \<Longrightarrow> P (a # b # c # xs)) \<Longrightarrow> P xs"
  by induction_schema (pat_completeness, lexicographic_order)

section \<open>Decimal numbers\<close>

text \<open>\<^verbatim>\<open>std::to_string\<close> of an unsigned integer.\<close>

fun to_string :: "nat \<Rightarrow> string" where
  "to_string n = (if n < 10 then [char_of (48 + n)]
     else to_string (n div 10) @ [char_of (48 + n mod 10)])"

declare to_string.simps [simp del]

lemma of_char_digit [simp]: "d < 10 \<Longrightarrow> of_char (char_of (48 + d) :: char) = (48 + d :: nat)"
  by (simp add: of_char_mod_256)

lemma isdigit_digit [simp]: "d < (10::nat) \<Longrightarrow> isdigit (char_of (48 + d))"
  by (simp add: isdigit_def)

lemma digit_value_digit [simp]: "d < 10 \<Longrightarrow> digit_value (char_of (48 + d)) = d"
  by (simp add: digit_value_def)

lemma to_string_digits: "\<forall>c \<in> set (to_string n). isdigit c"
proof (induction n rule: to_string.induct)
  case (1 n)
  show ?case
  proof (cases "n < 10")
    case True
    then show ?thesis by (simp add: to_string.simps [of n])
  next
    case False
    with 1 show ?thesis by (simp add: to_string.simps [of n])
  qed
qed

lemma to_string_nonempty [simp]: "to_string n \<noteq> []"
  by (subst to_string.simps) simp

text \<open>The digit loop shared by the number parsers, over unbounded naturals.\<close>

definition digits_value :: "nat \<Rightarrow> string \<Rightarrow> nat" where
  "digits_value n cs = foldl (\<lambda>v c. v * 10 + digit_value c) n cs"

lemma digits_value_to_string: "digits_value 0 (to_string n) = n"
proof (induction n rule: to_string.induct)
  case (1 n)
  show ?case
  proof (cases "n < 10")
    case True
    then show ?thesis by (simp add: to_string.simps [of n] digits_value_def)
  next
    case False
    with 1 have "digits_value 0 (to_string (n div 10)) = n div 10" by simp
    with False show ?thesis
      by (simp add: to_string.simps [of n] digits_value_def)
  qed
qed

section \<open>Big-endian integers\<close>

definition be16 :: "u16 \<Rightarrow> bytes" where
  "be16 w = [ucast (drop_bit 8 w), ucast w]"

definition be32 :: "u32 \<Rightarrow> bytes" where
  "be32 w = [ucast (drop_bit 24 w), ucast (drop_bit 16 w), ucast (drop_bit 8 w), ucast w]"

definition be64 :: "u64 \<Rightarrow> bytes" where
  "be64 w = be32 (ucast (drop_bit 32 w)) @ be32 (ucast w)"

definition rd16 :: "bytes \<Rightarrow> u16" where
  "rd16 bs = push_bit 8 (ucast (bs ! 0)) OR ucast (bs ! 1)"

definition rd32 :: "bytes \<Rightarrow> u32" where
  "rd32 bs = push_bit 24 (ucast (bs ! 0)) OR push_bit 16 (ucast (bs ! 1))
     OR push_bit 8 (ucast (bs ! 2)) OR ucast (bs ! 3)"

definition rd64 :: "bytes \<Rightarrow> u64" where
  "rd64 bs = push_bit 32 (ucast (rd32 (take 4 bs))) OR ucast (rd32 (drop 4 bs))"

lemma length_be [simp]: "length (be16 w) = 2" "length (be32 v) = 4" "length (be64 u) = 8"
  by (simp_all add: be16_def be32_def be64_def)

lemma rd16_be16 [simp]: "rd16 (be16 w @ rest) = w"
  by (rule bit_word_eqI) (auto simp: rd16_def be16_def bit_simps)

lemma rd32_be32 [simp]: "rd32 (be32 w @ rest) = w"
proof (rule bit_word_eqI)
  fix n assume "n < LENGTH(32)"
  then consider "n < 8" | "8 \<le> n" "n < 16" | "16 \<le> n" "n < 24" | "24 \<le> n" "n < 32"
    by fastforce
  then show "bit (rd32 (be32 w @ rest)) n = bit w n"
    by cases (auto simp: rd32_def be32_def bit_simps)
qed

lemma rd32_be32_nil [simp]: "rd32 (be32 w) = w"
  using rd32_be32 [of w "[]"] by simp

lemma rd64_be64 [simp]: "rd64 (be64 w @ rest) = w"
proof -
  have "drop 4 (be64 w @ rest) = be32 (ucast w) @ rest" "take 4 (be64 w @ rest) = be32 (ucast (drop_bit 32 w))"
    by (simp_all add: be64_def)
  then show ?thesis
    by (intro bit_word_eqI) (auto simp: rd64_def bit_simps)
qed

section \<open>C strings\<close>

text \<open>What is read through a pointer to a string: the characters before the first NUL.\<close>

definition c_str :: "string \<Rightarrow> string" where
  "c_str s = takeWhile (\<lambda>c. c \<noteq> CHR 0x00) s"

lemma c_str_id: "CHR 0x00 \<notin> set s \<Longrightarrow> c_str s = s"
  by (simp add: c_str_def takeWhile_eq_all_conv) metis

end
