(* ===== verification/Flags.thy ===== *)
theory Flags
  imports Prelude
begin

text \<open>
  The option enumerations of \<^verbatim>\<open>include/core/config/cconfig.h\<close> and the flag sets over them,
  \<^verbatim>\<open>core::ci::cflag\<close> of \<^verbatim>\<open>include/core/util/cflag.h\<close> (a 32-bit \<^verbatim>\<open>uint\<close> with one bit per
  enumerator), the channel type read off a channel's name (\<^verbatim>\<open>ChannelType\<close>) and the names
  of channel types and hooks (\<^verbatim>\<open>Str\<close> of \<^verbatim>\<open>medium.h\<close>). That the enumerators are pairwise
  disjoint bits is the locale \<open>flag_enum\<close>, interpreted for every enumeration.
\<close>

unbundle bit_operations_syntax

section \<open>Enumerations\<close>

datatype protocols_t = proto_none | proto_pusher | proto_websocket | proto_mqtt3
datatype api_driver_t = api_disable | api_pusher | api_push1st
datatype channels_t = ch_none | ch_pub | ch_priv | ch_pres | ch_prot
datatype hook_trigger_t = hook_none | hook_reg | hook_unreg | hook_join | hook_leave | hook_push

fun protocols_code :: "protocols_t \<Rightarrow> u32" where
  "protocols_code proto_none = 0"
| "protocols_code proto_pusher = 1"
| "protocols_code proto_websocket = 2"
| "protocols_code proto_mqtt3 = 4"

fun api_code :: "api_driver_t \<Rightarrow> u32" where
  "api_code api_disable = 0"
| "api_code api_pusher = 1"
| "api_code api_push1st = 2"

fun channels_code :: "channels_t \<Rightarrow> u32" where
  "channels_code ch_none = 0"
| "channels_code ch_pub = 1"
| "channels_code ch_priv = 2"
| "channels_code ch_pres = 4"
| "channels_code ch_prot = 8"

fun hook_code :: "hook_trigger_t \<Rightarrow> u32" where
  "hook_code hook_none = 0"
| "hook_code hook_reg = 1"
| "hook_code hook_unreg = 2"
| "hook_code hook_join = 4"
| "hook_code hook_leave = 8"
| "hook_code hook_push = 16"

section \<open>cflag\<close>

type_synonym cflag = u32

definition cflag_Empty :: "cflag \<Rightarrow> bool" where
  "cflag_Empty f \<longleftrightarrow> f = 0"

definition cflag_or :: "cflag \<Rightarrow> u32 \<Rightarrow> u32" where
  "cflag_or f e = f OR e"

definition cflag_and :: "cflag \<Rightarrow> u32 \<Rightarrow> u32" where
  "cflag_and f e = f AND e"

definition cflag_add :: "cflag \<Rightarrow> u32 \<Rightarrow> cflag" where
  "cflag_add f e = f OR e"

definition cflag_sub :: "cflag \<Rightarrow> u32 \<Rightarrow> cflag" where
  "cflag_sub f e = f AND NOT e"

lemmas cflag_defs = cflag_Empty_def cflag_or_def cflag_and_def cflag_add_def cflag_sub_def

text \<open>\<^verbatim>\<open>if (flags & e)\<close>: the mask is not zero.\<close>

abbreviation has_flag :: "cflag \<Rightarrow> u32 \<Rightarrow> bool" where
  "has_flag f e \<equiv> cflag_and f e \<noteq> 0"

locale flag_enum =
  fixes code :: "'e \<Rightarrow> u32"
  assumes disjoint: "a \<noteq> b \<Longrightarrow> code a AND code b = 0"
begin

lemma add_sets: "code a \<noteq> 0 \<Longrightarrow> has_flag (cflag_add f (code a)) (code a)"
  by (simp add: cflag_defs bit.conj_disj_distrib2)

lemma add_keeps: "a \<noteq> b \<Longrightarrow> has_flag (cflag_add f (code a)) (code b) \<longleftrightarrow> has_flag f (code b)"
  by (simp add: cflag_defs bit.conj_disj_distrib2 disjoint)

lemma sub_clears: "\<not> has_flag (cflag_sub f (code a)) (code a)"
  by (simp add: cflag_defs and.assoc)

lemma code_and_not:
  assumes "a \<noteq> b"
  shows "NOT (code a) AND code b = code b"
proof -
  have "code b = (code a OR NOT (code a)) AND code b" by simp
  also have "\<dots> = (code a AND code b) OR (NOT (code a) AND code b)"
    by (simp only: bit.conj_disj_distrib2)
  finally show ?thesis using disjoint [OF assms] by simp
qed

lemma sub_keeps: "a \<noteq> b \<Longrightarrow> has_flag (cflag_sub f (code a)) (code b) \<longleftrightarrow> has_flag f (code b)"
  by (simp add: cflag_defs and.assoc code_and_not)

text \<open>A flag set built from a list of enumerators, as \<^verbatim>\<open>Map\<close> of \<^verbatim>\<open>cconfig.cpp\<close> builds it.\<close>

lemma foldl_add:
  "has_flag (foldl (\<lambda>f e. cflag_add f (code e)) f0 es) (code b) \<longleftrightarrow>
     (code b \<noteq> 0 \<and> b \<in> set es) \<or> has_flag f0 (code b)"
proof (induction es arbitrary: f0)
  case Nil
  then show ?case by simp
next
  case (Cons e es)
  have "has_flag (cflag_add f0 (code e)) (code b) \<longleftrightarrow> (code b \<noteq> 0 \<and> b = e) \<or> has_flag f0 (code b)"
    by (cases "b = e") (auto simp: add_keeps add_sets, auto simp: cflag_defs)
  with Cons.IH show ?case by auto
qed

end

interpretation protocols_flags: flag_enum protocols_code
  by unfold_locales (rename_tac a b, case_tac a; case_tac b; simp)

interpretation api_flags: flag_enum api_code
  by unfold_locales (rename_tac a b, case_tac a; case_tac b; simp)

interpretation channels_flags: flag_enum channels_code
  by unfold_locales (rename_tac a b, case_tac a; case_tac b; simp)

interpretation hook_flags: flag_enum hook_code
  by unfold_locales (rename_tac a b, case_tac a; case_tac b; simp)

section \<open>Channel types and names\<close>

definition ChannelType :: "string \<Rightarrow> channels_t" where
  "ChannelType Name =
     (if starts_with ''private-'' Name then ch_priv
      else if starts_with ''presence-'' Name then ch_pres
      else if starts_with ''protected-'' Name then ch_prot
      else ch_pub)"

fun Str_hook :: "hook_trigger_t \<Rightarrow> string" where
  "Str_hook hook_reg = ''register''"
| "Str_hook hook_unreg = ''unregister''"
| "Str_hook hook_join = ''join''"
| "Str_hook hook_leave = ''leave''"
| "Str_hook hook_push = ''push''"
| "Str_hook hook_none = ''none''"

fun Str_channel :: "channels_t \<Rightarrow> string" where
  "Str_channel ch_pub = ''public''"
| "Str_channel ch_priv = ''private''"
| "Str_channel ch_pres = ''presence''"
| "Str_channel ch_prot = ''protected''"
| "Str_channel ch_none = ''none''"

definition MaxChannelNameLength :: nat where
  "MaxChannelNameLength = 255"

lemma ChannelType_not_none [simp]: "ChannelType Name \<noteq> ch_none"
  by (simp add: ChannelType_def)

end
