(* ===== verification/Base64.thy ===== *)
theory Base64
  imports Prelude
begin

text \<open>
  The two Base64 codecs: \<^verbatim>\<open>ci::cbase62\<close> (\<^verbatim>\<open>source/core/util/cbase62.cpp\<close>, a URL-safe alphabet
  padded with \<^verbatim>\<open>~\<close>, used for access tokens) and \<^verbatim>\<open>http::ToBase64/FromBase64\<close>
  (\<^verbatim>\<open>source/http/chttp.cpp\<close>, the standard alphabet padded with \<^verbatim>\<open>=\<close>, used for the WebSocket
  handshake and for basic authentication). The source has the same two loops twice, over
  different tables, so the loops take the table and the padding character as arguments. What the
  round trip needs of a table is the locale \<open>base64_alphabet\<close>; both tables interpret it.
\<close>

unbundle bit_operations_syntax

section \<open>Tables\<close>

definition safebase64TableEncode :: string where
  "safebase64TableEncode =
     ''ABCDEFGHIJKLMNOPQRSTUVWXYZ'' @ ''abcdefghijklmnopqrstuvwxyz'' @ ''0123456789'' @ ''-_''"

definition base64TableEncode :: string where
  "base64TableEncode =
     ''ABCDEFGHIJKLMNOPQRSTUVWXYZ'' @ ''abcdefghijklmnopqrstuvwxyz'' @ ''0123456789+/''"

definition safebase64TableDecode :: bytes where
  "safebase64TableDecode =
  [255, 255, 255, 255, 255, 255, 255, 255, 255, 255, 255, 255, 255, 255, 255, 255,
   255, 255, 255, 255, 255, 255, 255, 255, 255, 255, 255, 255, 255, 255, 255, 255,
   255, 255, 255, 255, 255, 255, 255, 255, 255, 255, 255, 255, 255, 62, 255, 255,
   52, 53, 54, 55, 56, 57, 58, 59, 60, 61, 255, 255, 255, 254, 255, 255,
   255, 0, 1, 2, 3, 4, 5, 6, 7, 8, 9, 10, 11, 12, 13, 14,
   15, 16, 17, 18, 19, 20, 21, 22, 23, 24, 25, 255, 255, 255, 255, 63,
   255, 26, 27, 28, 29, 30, 31, 32, 33, 34, 35, 36, 37, 38, 39, 40,
   41, 42, 43, 44, 45, 46, 47, 48, 49, 50, 51, 255, 255, 255, 255, 255,
   255, 255, 255, 255, 255, 255, 255, 255, 255, 255, 255, 255, 255, 255, 255, 255,
   255, 255, 255, 255, 255, 255, 255, 255, 255, 255, 255, 255, 255, 255, 255, 255,
   255, 255, 255, 255, 255, 255, 255, 255, 255, 255, 255, 255, 255, 255, 255, 255,
   255, 255, 255, 255, 255, 255, 255, 255, 255, 255, 255, 255, 255, 255, 255, 255,
   255, 255, 255, 255, 255, 255, 255, 255, 255, 255, 255, 255, 255, 255, 255, 255,
   255, 255, 255, 255, 255, 255, 255, 255, 255, 255, 255, 255, 255, 255, 255, 255,
   255, 255, 255, 255, 255, 255, 255, 255, 255, 255, 255, 255, 255, 255, 255, 255,
   255, 255, 255, 255, 255, 255, 255, 255, 255, 255, 255, 255, 255, 255, 255, 255]"

definition base64TableDecode :: bytes where
  "base64TableDecode =
  [255, 255, 255, 255, 255, 255, 255, 255, 255, 255, 255, 255, 255, 255, 255, 255,
   255, 255, 255, 255, 255, 255, 255, 255, 255, 255, 255, 255, 255, 255, 255, 255,
   255, 255, 255, 255, 255, 255, 255, 255, 255, 255, 255, 62, 255, 255, 255, 63,
   52, 53, 54, 55, 56, 57, 58, 59, 60, 61, 255, 255, 255, 254, 255, 255,
   255, 0, 1, 2, 3, 4, 5, 6, 7, 8, 9, 10, 11, 12, 13, 14,
   15, 16, 17, 18, 19, 20, 21, 22, 23, 24, 25, 255, 255, 255, 255, 255,
   255, 26, 27, 28, 29, 30, 31, 32, 33, 34, 35, 36, 37, 38, 39, 40,
   41, 42, 43, 44, 45, 46, 47, 48, 49, 50, 51, 255, 255, 255, 255, 255,
   255, 255, 255, 255, 255, 255, 255, 255, 255, 255, 255, 255, 255, 255, 255, 255,
   255, 255, 255, 255, 255, 255, 255, 255, 255, 255, 255, 255, 255, 255, 255, 255,
   255, 255, 255, 255, 255, 255, 255, 255, 255, 255, 255, 255, 255, 255, 255, 255,
   255, 255, 255, 255, 255, 255, 255, 255, 255, 255, 255, 255, 255, 255, 255, 255,
   255, 255, 255, 255, 255, 255, 255, 255, 255, 255, 255, 255, 255, 255, 255, 255,
   255, 255, 255, 255, 255, 255, 255, 255, 255, 255, 255, 255, 255, 255, 255, 255,
   255, 255, 255, 255, 255, 255, 255, 255, 255, 255, 255, 255, 255, 255, 255, 255,
   255, 255, 255, 255, 255, 255, 255, 255, 255, 255, 255, 255, 255, 255, 255, 255]"

section \<open>Encoding\<close>

text \<open>The bit operations that spread three bytes over four sextets, as the loop body has them.\<close>

definition sextet0 :: "u8 \<Rightarrow> u8" where
  "sextet0 a = drop_bit 2 (a AND 0xfc)"

definition sextet1 :: "u8 \<Rightarrow> u8 \<Rightarrow> u8" where
  "sextet1 a b = push_bit 4 (a AND 0x03) + drop_bit 4 (b AND 0xf0)"

definition sextet2 :: "u8 \<Rightarrow> u8 \<Rightarrow> u8" where
  "sextet2 b c = push_bit 2 (b AND 0x0f) + drop_bit 6 (c AND 0xc0)"

definition sextet3 :: "u8 \<Rightarrow> u8" where
  "sextet3 c = c AND 0x3f"

definition char_array_4 :: "u8 \<Rightarrow> u8 \<Rightarrow> u8 \<Rightarrow> bytes" where
  "char_array_4 a b c = [sextet0 a, sextet1 a b, sextet2 b c, sextet3 c]"

text \<open>
  The loop over the source: \<open>arr\<close> holds the first \<^verbatim>\<open>i\<close> bytes of \<^verbatim>\<open>char_array_3\<close> and is
  emitted and emptied (\<^verbatim>\<open>i = 0\<close>) when it has three.
\<close>

fun enc_loop :: "string \<Rightarrow> bytes \<Rightarrow> bytes \<Rightarrow> string \<Rightarrow> string \<times> bytes" where
  "enc_loop tbl [] arr ret = (ret, arr)"
| "enc_loop tbl (x # source) arr ret =
     (let arr' = arr @ [x] in
      if length arr' = 3
      then enc_loop tbl source []
             (ret @ map (\<lambda>s. tbl ! unat s) (char_array_4 (arr' ! 0) (arr' ! 1) (arr' ! 2)))
      else enc_loop tbl source arr' ret)"

text \<open>After the loop: the \<^verbatim>\<open>i\<close> bytes left over are padded with zeros, their \<^verbatim>\<open>i + 1\<close> sextets
  are emitted, and \<^verbatim>\<open>3 - i\<close> padding characters follow.\<close>

definition enc_tail :: "string \<Rightarrow> char \<Rightarrow> bytes \<Rightarrow> string" where
  "enc_tail tbl pad arr =
     (let i = length arr; a3 = arr @ replicate (3 - i) 0 in
      if i = 0 then []
      else map (\<lambda>s. tbl ! unat s) (take (i + 1) (char_array_4 (a3 ! 0) (a3 ! 1) (a3 ! 2)))
           @ replicate (3 - i) pad)"

definition enc_with :: "string \<Rightarrow> char \<Rightarrow> bytes \<Rightarrow> string" where
  "enc_with tbl pad source =
     (let (ret, arr) = enc_loop tbl source [] [] in ret @ enc_tail tbl pad arr)"

definition cbase62_Encode :: "bytes \<Rightarrow> string" where
  "cbase62_Encode source = enc_with safebase64TableEncode (CHR ''~'') source"

definition ToBase64 :: "bytes \<Rightarrow> string" where
  "ToBase64 source = enc_with base64TableEncode (CHR ''='') source"

section \<open>Decoding\<close>

text \<open>The loop over whole groups of four characters (\<^verbatim>\<open>length & ~3\<close>); a rest is ignored.\<close>

fun dec_quads :: "bytes \<Rightarrow> string \<Rightarrow> bytes" where
  "dec_quads tbl (a # b # c # d # rest) =
     (let t = (\<lambda>x. tbl ! of_char x) in
      [push_bit 2 (t a) OR drop_bit 4 (t b),
       push_bit 4 (t b) OR drop_bit 2 (t c),
       (push_bit 6 (t c) AND 0xc0) OR t d]) @ dec_quads tbl rest"
| "dec_quads tbl _ = []"

text \<open>One byte is dropped for every padding character at the end; \<^verbatim>\<open>pop_back\<close> on an empty
  result is undefined behaviour.\<close>

fun pop_pads :: "char \<Rightarrow> string \<Rightarrow> bytes \<Rightarrow> bytes outcome" where
  "pop_pads pad [] result = Inr result"
| "pop_pads pad (c # rsource) result =
     (if c = pad
      then (if result = [] then Inl (UB ''pop_back on an empty container'')
            else pop_pads pad rsource (butlast result))
      else Inr result)"

definition dec_with :: "bytes \<Rightarrow> char \<Rightarrow> string \<Rightarrow> bytes outcome" where
  "dec_with tbl pad source =
     (if source = [] then Inr [] else pop_pads pad (rev source) (dec_quads tbl source))"

definition cbase62_Decode :: "string \<Rightarrow> bytes outcome" where
  "cbase62_Decode source = dec_with safebase64TableDecode (CHR ''~'') source"

definition FromBase64 :: "string \<Rightarrow> bytes outcome" where
  "FromBase64 source = dec_with base64TableDecode (CHR ''='') source"

section \<open>Sextets\<close>

lemma less_8_cases:
  "(n::nat) < LENGTH(8) \<Longrightarrow>
     n = 0 \<or> n = 1 \<or> n = 2 \<or> n = 3 \<or> n = 4 \<or> n = 5 \<or> n = 6 \<or> n = 7"
  by auto

lemma sextet1_or: "sextet1 a b = push_bit 4 (a AND 0x03) OR drop_bit 4 (b AND 0xf0)"
proof -
  have "push_bit 4 (a AND 0x03) AND drop_bit 4 (b AND 0xf0) = 0"
    by (rule bit_word_eqI, drule less_8_cases, elim disjE) (simp_all add: bit_simps)
  then show ?thesis by (simp add: sextet1_def disjunctive_add_eq_or)
qed

lemma sextet2_or: "sextet2 b c = push_bit 2 (b AND 0x0f) OR drop_bit 6 (c AND 0xc0)"
proof -
  have "push_bit 2 (b AND 0x0f) AND drop_bit 6 (c AND 0xc0) = 0"
    by (rule bit_word_eqI, drule less_8_cases, elim disjE) (simp_all add: bit_simps)
  then show ?thesis by (simp add: sextet2_def disjunctive_add_eq_or)
qed

lemmas sextet_defs = sextet0_def sextet1_or sextet2_or sextet3_def

lemma join_bytes:
  "push_bit 2 (sextet0 a) OR drop_bit 4 (sextet1 a b) = a"
  "push_bit 4 (sextet1 a b) OR drop_bit 2 (sextet2 b c) = b"
  "(push_bit 6 (sextet2 b c) AND 0xc0) OR sextet3 c = c"
  by (rule bit_word_eqI, drule less_8_cases, elim disjE, simp_all add: sextet_defs bit_simps)+

lemma and_3f_less: "unat (x AND 0x3f :: u8) < 64"
proof -
  have "unat (x AND 0x3f) \<le> unat (0x3f :: u8)"
    by (rule word_and_le1 [THEN word_le_nat_alt [THEN iffD1]])
  then show ?thesis by simp
qed

lemma sextet_and_3f:
  "sextet0 a = sextet0 a AND 0x3f" "sextet1 a b = sextet1 a b AND 0x3f"
  "sextet2 b c = sextet2 b c AND 0x3f" "sextet3 c = sextet3 c AND 0x3f"
  by (rule bit_word_eqI, drule less_8_cases, elim disjE, simp_all add: sextet_defs bit_simps)+

lemma sextets_less: "\<forall>x \<in> set (char_array_4 a b c). unat x < 64"
  by (simp add: char_array_4_def)
    (metis and_3f_less sextet_and_3f(1) sextet_and_3f(2) sextet_and_3f(3) sextet_and_3f(4))

section \<open>The codec as a function of three-byte groups\<close>

fun enc_ref :: "string \<Rightarrow> char \<Rightarrow> bytes \<Rightarrow> string" where
  "enc_ref tbl pad (a # b # c # rest) =
     map (\<lambda>s. tbl ! unat s) (char_array_4 a b c) @ enc_ref tbl pad rest"
| "enc_ref tbl pad arr = enc_tail tbl pad arr"

lemma enc_loop_ref:
  "(let (ret', arr) = enc_loop tbl xs [] ret in ret' @ enc_tail tbl pad arr) = ret @ enc_ref tbl pad xs"
  by (induction tbl pad xs arbitrary: ret rule: enc_ref.induct) (simp_all add: enc_tail_def)

lemma enc_with_ref: "enc_with tbl pad xs = enc_ref tbl pad xs"
  using enc_loop_ref [of tbl xs "[]" pad] by (simp add: enc_with_def)

locale base64_alphabet =
  fixes enc :: string and dec :: bytes and pad :: char
  assumes length_enc: "length enc = 64"
    and dec_enc: "i < 64 \<Longrightarrow> dec ! of_char (enc ! i) = of_nat i"
    and pad_fresh: "pad \<notin> set enc"
begin

lemma dec_enc_sextet:
  "x \<in> set (char_array_4 a b c) \<Longrightarrow> dec ! of_char (enc ! unat x) = x"
  using sextets_less [of a b c] by (simp add: dec_enc)

lemma dec_quad:
  "dec_quads dec (map (\<lambda>s. enc ! unat s) (char_array_4 a b c) @ rest) = [a, b, c] @ dec_quads dec rest"
  using dec_enc_sextet [of _ a b c]
  by (simp add: char_array_4_def Let_def join_bytes)

lemma enc_not_pad: "x \<in> set (char_array_4 a b c) \<Longrightarrow> enc ! unat x \<noteq> pad"
  using sextets_less [of a b c] pad_fresh length_enc by (metis nth_mem)

text \<open>Decoding an encoding gives the bytes back, followed by one byte per padding character.\<close>

lemma dec_enc_ref:
  "\<exists>junk cs. dec_quads dec (enc_ref enc pad xs) = xs @ junk
     \<and> rev (enc_ref enc pad xs) = replicate (length junk) pad @ cs
     \<and> (cs = [] \<or> hd cs \<noteq> pad)"
proof (induction xs rule: list_induct_by3)
  case Nil
  then show ?case by (simp add: enc_tail_def)
next
  case (One a)
  have "dec ! of_char (enc ! unat x) = x \<and> enc ! unat x \<noteq> pad"
    if "x \<in> {sextet0 a, sextet1 a 0}" for x
    using that dec_enc_sextet [of x a 0 0] enc_not_pad [of x a 0 0]
    by (auto simp: char_array_4_def)
  moreover have "enc_ref enc pad [a] =
      [enc ! unat (sextet0 a), enc ! unat (sextet1 a 0), pad, pad]"
    by (simp add: enc_tail_def char_array_4_def Let_def numeral_eq_Suc)
  ultimately show ?case
    by (intro exI [of _ "drop 1 (dec_quads dec (enc_ref enc pad [a]))"]
        exI [of _ "[enc ! unat (sextet1 a 0), enc ! unat (sextet0 a)]"])
      (simp add: Let_def join_bytes)
next
  case (Two a b)
  have "dec ! of_char (enc ! unat x) = x \<and> enc ! unat x \<noteq> pad"
    if "x \<in> {sextet0 a, sextet1 a b, sextet2 b 0}" for x
    using that dec_enc_sextet [of x a b 0] enc_not_pad [of x a b 0]
    by (auto simp: char_array_4_def)
  moreover have "enc_ref enc pad [a, b] =
      [enc ! unat (sextet0 a), enc ! unat (sextet1 a b), enc ! unat (sextet2 b 0), pad]"
    by (simp add: enc_tail_def char_array_4_def Let_def numeral_eq_Suc)
  ultimately show ?case
    by (intro exI [of _ "drop 2 (dec_quads dec (enc_ref enc pad [a, b]))"]
        exI [of _ "[enc ! unat (sextet2 b 0), enc ! unat (sextet1 a b), enc ! unat (sextet0 a)]"])
      (simp add: Let_def join_bytes)
next
  case (Step a b c xs)
  then obtain junk cs where ih: "dec_quads dec (enc_ref enc pad xs) = xs @ junk"
    "rev (enc_ref enc pad xs) = replicate (length junk) pad @ cs" "cs = [] \<or> hd cs \<noteq> pad"
    by blast
  have "enc ! unat (sextet3 c) \<noteq> pad"
    by (rule enc_not_pad [of _ a b c]) (simp add: char_array_4_def)
  with ih show ?case
    by (intro exI [of _ junk] exI [of _ "cs @ rev (map (\<lambda>s. enc ! unat s) (char_array_4 a b c))"])
      (cases cs; simp add: dec_quad; simp add: char_array_4_def)
qed

lemma pop_pads_junk:
  "cs = [] \<or> hd cs \<noteq> pad \<Longrightarrow>
     pop_pads pad (replicate (length junk) pad @ cs) (xs @ junk) = Inr xs"
proof (induction junk rule: rev_induct)
  case Nil
  then show ?case by (cases cs) auto
next
  case (snoc j junk)
  then show ?case by (simp add: butlast_append flip: append_assoc)
qed

theorem roundtrip: "dec_with dec pad (enc_with enc pad xs) = Inr xs"
proof -
  obtain junk cs where "dec_quads dec (enc_ref enc pad xs) = xs @ junk"
    "rev (enc_ref enc pad xs) = replicate (length junk) pad @ cs" "cs = [] \<or> hd cs \<noteq> pad"
    using dec_enc_ref by blast
  then have "pop_pads pad (rev (enc_ref enc pad xs)) (dec_quads dec (enc_ref enc pad xs)) = Inr xs"
    by (simp add: pop_pads_junk)
  then show ?thesis
    by (cases "enc_ref enc pad xs") (auto simp: dec_with_def enc_with_ref)
qed

end

lemma safebase64_table:
  "\<forall>i \<in> set [0..<64]. safebase64TableDecode ! of_char (safebase64TableEncode ! i) = of_nat i"
  by code_simp

lemma base64_table:
  "\<forall>i \<in> set [0..<64]. base64TableDecode ! of_char (base64TableEncode ! i) = of_nat i"
  by code_simp

interpretation cbase62: base64_alphabet safebase64TableEncode safebase64TableDecode "CHR ''~''"
proof unfold_locales
  show "length safebase64TableEncode = 64" by (simp add: safebase64TableEncode_def)
  show "CHR ''~'' \<notin> set safebase64TableEncode" by (simp add: safebase64TableEncode_def)
  show "safebase64TableDecode ! of_char (safebase64TableEncode ! i) = of_nat i" if "i < 64" for i
    using safebase64_table that by simp
qed

interpretation http64: base64_alphabet base64TableEncode base64TableDecode "CHR ''=''"
proof unfold_locales
  show "length base64TableEncode = 64" by (simp add: base64TableEncode_def)
  show "CHR ''='' \<notin> set base64TableEncode" by (simp add: base64TableEncode_def)
  show "base64TableDecode ! of_char (base64TableEncode ! i) = of_nat i" if "i < 64" for i
    using base64_table that by simp
qed

lemma length_enc_ref: "length (enc_ref tbl pad xs) = 4 * ((length xs + 2) div 3)"
proof (induction xs rule: list_induct_by3)
  case (Step a b c xs)
  have "(length xs + 3 + 2) div 3 = (length xs + 2) div 3 + 1" by presburger
  with Step show ?case by (simp add: char_array_4_def)
qed (simp_all add: enc_tail_def char_array_4_def)

lemma length_dec_quads [simp]: "length (dec_quads tbl s) = 3 * (length s div 4)"
  by (induction tbl s rule: dec_quads.induct) (simp_all add: Let_def div_add_self1)

text \<open>The number of padding characters a text ends with.\<close>

definition trailing :: "char \<Rightarrow> string \<Rightarrow> nat" where
  "trailing pad s = length (takeWhile (\<lambda>c. c = pad) (rev s))"

lemma pop_pads_eq:
  "pop_pads pad rs res =
     (let n = length (takeWhile (\<lambda>c. c = pad) rs) in
      if n \<le> length res then Inr (take (length res - n) res)
      else Inl (UB ''pop_back on an empty container''))"
proof (induction rs arbitrary: res)
  case Nil
  then show ?case by simp
next
  case (Cons c rs)
  then show ?case
    by (cases res rule: rev_cases) (auto simp: Let_def butlast_append)
qed

lemma set_enc_ref:
  assumes "length tbl = 64"
  shows "set (enc_ref tbl pad xs) \<subseteq> insert pad (set tbl)"
proof -
  have sym: "tbl ! unat x \<in> set tbl" if "x \<in> set (char_array_4 a b c)" for x a b c
    using sextets_less [of a b c] that assms by (auto intro: nth_mem)
  show ?thesis
  proof (induction xs rule: list_induct_by3)
    case (Step a b c xs)
    with sym [of _ a b c] show ?case by auto
  qed (auto simp: enc_tail_def dest!: in_set_takeD intro: sym)
qed

section \<open>Properties\<close>

text \<open>
  an access token survives its transport encoding: decoding what \<^verbatim>\<open>cbase62::Encode\<close>
  produced returns the bytes that were encoded, for every byte string (no undefined
  \<^verbatim>\<open>pop_back\<close>, no byte lost to the padding).
\<close>

theorem cbase62_roundtrip: "cbase62_Decode (cbase62_Encode source) = Inr source"
  by (simp add: cbase62_Decode_def cbase62_Encode_def cbase62.roundtrip)

text \<open>
  the same for \<^verbatim>\<open>http::ToBase64\<close> and \<^verbatim>\<open>http::FromBase64\<close>, and the encoded text has the
  length the format prescribes: four characters for every started group of three bytes.
\<close>

theorem base64_roundtrip:
  "FromBase64 (ToBase64 value) = Inr value \<and>
   length (ToBase64 value) = 4 * ((length value + 2) div 3)"
  using http64.roundtrip [of "value"]
  by (simp add: FromBase64_def ToBase64_def enc_with_ref length_enc_ref)

text \<open>
  \<^verbatim>\<open>cbase62::Decode\<close> pops one byte for every trailing \<^verbatim>\<open>~\<close> without looking at how many it
  has: it is undefined exactly on the inputs with more trailing padding than decoded bytes, and on
  every other input it returns the decoded groups shortened by the padding.
\<close>

theorem cbase62_Decode_defined:
  "cbase62_Decode source =
     (if trailing (CHR ''~'') source \<le> 3 * (length source div 4)
      then Inr (take (3 * (length source div 4) - trailing (CHR ''~'') source)
                     (dec_quads safebase64TableDecode source))
      else Inl (UB ''pop_back on an empty container''))"
  by (simp add: cbase62_Decode_def dec_with_def pop_pads_eq trailing_def Let_def)

end
