(* ===== verification/Containers.thy ===== *)
theory Containers
  imports Prelude
begin

text \<open>
  The containers the broker is built on. \<^verbatim>\<open>std::unordered_map\<close> is an association list with
  distinct keys: the order of the list stands for the iteration order, which the standard
  leaves unspecified, so nothing proved later may depend on it. Its contract is the locale
  \<open>unordered_map\<close>, with what the clients use proved once inside it, and the association
  lists interpret it. The queues of \<^verbatim>\<open>casyncqueue\<close>, \<^verbatim>\<open>cratelimiter\<close> and the garbage
  collector of \<^verbatim>\<open>cpoll\<close> are the locale \<open>fifo_queue\<close>.
\<close>

section \<open>std::unordered_map\<close>

type_synonym ('k, 'v) umap = "('k \<times> 'v) list"

definition um_find :: "('k, 'v) umap \<Rightarrow> 'k \<Rightarrow> 'v option" where
  "um_find m k = map_of m k"

definition um_emplace :: "'k \<Rightarrow> 'v \<Rightarrow> ('k, 'v) umap \<Rightarrow> ('k, 'v) umap" where
  "um_emplace k v m = (if k \<in> fst ` set m then m else m @ [(k, v)])"

definition um_assign :: "'k \<Rightarrow> 'v \<Rightarrow> ('k, 'v) umap \<Rightarrow> ('k, 'v) umap" where
  "um_assign k v m = AList.update k v m"

definition um_erase :: "'k \<Rightarrow> ('k, 'v) umap \<Rightarrow> ('k, 'v) umap" where
  "um_erase k m = filter (\<lambda>p. fst p \<noteq> k) m"

definition um_wf :: "('k, 'v) umap \<Rightarrow> bool" where
  "um_wf m \<longleftrightarrow> distinct (map fst m)"

lemmas um_defs [cpp] = um_find_def um_emplace_def um_assign_def um_erase_def um_wf_def

locale unordered_map =
  fixes find :: "'m \<Rightarrow> 'k \<Rightarrow> 'v option"
    and emplace :: "'k \<Rightarrow> 'v \<Rightarrow> 'm \<Rightarrow> 'm"
    and assign :: "'k \<Rightarrow> 'v \<Rightarrow> 'm \<Rightarrow> 'm"
    and erase :: "'k \<Rightarrow> 'm \<Rightarrow> 'm"
    and invar :: "'m \<Rightarrow> bool"
  assumes find_emplace:
      "invar m \<Longrightarrow> find (emplace k v m) j = (if find m k = None \<and> j = k then Some v else find m j)"
    and find_assign: "invar m \<Longrightarrow> find (assign k v m) j = (if j = k then Some v else find m j)"
    and find_erase: "invar m \<Longrightarrow> find (erase k m) j = (if j = k then None else find m j)"
    and invar_emplace: "invar m \<Longrightarrow> invar (emplace k v m)"
    and invar_assign: "invar m \<Longrightarrow> invar (assign k v m)"
    and invar_erase: "invar m \<Longrightarrow> invar (erase k m)"
begin

lemma emplace_present: "invar m \<Longrightarrow> find m k = Some w \<Longrightarrow> find (emplace k v m) = find m"
  by (auto simp: find_emplace)

lemma emplace_defined: "invar m \<Longrightarrow> find (emplace k v m) k \<noteq> None"
  by (simp add: find_emplace)

lemma erase_after_emplace:
  "invar m \<Longrightarrow> find m k = None \<Longrightarrow> find (erase k (emplace k v m)) = find m"
  by (auto simp: find_emplace find_erase invar_emplace)

text \<open>A loop of \<^verbatim>\<open>emplace\<close> calls: the first binding of a key wins.\<close>

fun emplace_all :: "('k \<times> 'v) list \<Rightarrow> 'm \<Rightarrow> 'm" where
  "emplace_all [] m = m"
| "emplace_all (p # ps) m = emplace_all ps (emplace (fst p) (snd p) m)"

lemma invar_emplace_all: "invar m \<Longrightarrow> invar (emplace_all ps m)"
  by (induction ps arbitrary: m) (simp_all add: invar_emplace)

lemma find_emplace_all:
  "invar m \<Longrightarrow> find (emplace_all ps m) j =
     (case find m j of Some w \<Rightarrow> Some w | None \<Rightarrow> map_of ps j)"
proof (induction ps arbitrary: m)
  case Nil
  then show ?case by (simp split: option.splits)
next
  case (Cons p ps)
  then show ?case
    by (cases p) (auto simp: invar_emplace find_emplace split: option.splits)
qed

text \<open>A loop of \<^verbatim>\<open>erase\<close> calls removes exactly the keys it names.\<close>

fun erase_all :: "'k list \<Rightarrow> 'm \<Rightarrow> 'm" where
  "erase_all [] m = m"
| "erase_all (k # ks) m = erase_all ks (erase k m)"

lemma find_erase_all:
  "invar m \<Longrightarrow> find (erase_all ks m) j = (if j \<in> set ks then None else find m j)"
  by (induction ks arbitrary: m) (auto simp: invar_erase find_erase)

end

lemma um_find_emplace:
  "um_find (um_emplace k v m) j = (if um_find m k = None \<and> j = k then Some v else um_find m j)"
  by (auto simp: cpp map_add_def dom_map_of_conv_image_fst [symmetric] domIff
      split: option.splits)

lemma um_find_assign [simp]: "um_find (um_assign k v m) j = (if j = k then Some v else um_find m j)"
  by (simp add: cpp update_conv')

lemma um_find_erase [simp]: "um_find (um_erase k m) j = (if j = k then None else um_find m j)"
  by (induction m) (auto simp: cpp)

lemma um_wf_emplace [simp]: "um_wf m \<Longrightarrow> um_wf (um_emplace k v m)"
  by (simp add: cpp image_iff)

lemma um_wf_assign [simp]: "um_wf m \<Longrightarrow> um_wf (um_assign k v m)"
  by (simp add: cpp distinct_update)

lemma um_wf_filter [simp]: "um_wf m \<Longrightarrow> um_wf (filter P m)"
  by (simp add: um_wf_def distinct_map_filter)

lemma um_wf_erase [simp]: "um_wf m \<Longrightarrow> um_wf (um_erase k m)"
  by (simp add: um_erase_def)

interpretation um: unordered_map um_find um_emplace um_assign um_erase um_wf
  by unfold_locales (simp_all add: um_find_emplace)

lemma um_find_Nil [simp]: "um_find [] k = None"
  by (simp add: um_find_def)

lemma um_wf_Nil [simp]: "um_wf []"
  by (simp add: um_wf_def)

lemma um_find_iff: "um_wf m \<Longrightarrow> um_find m k = Some v \<longleftrightarrow> (k, v) \<in> set m"
  by (simp add: cpp)

lemma um_find_None: "um_find m k = None \<longleftrightarrow> k \<notin> fst ` set m"
  by (simp add: um_find_def map_of_eq_None_iff)

lemma um_find_filter:
  "um_wf m \<Longrightarrow> um_find (filter P m) k =
     (case um_find m k of None \<Rightarrow> None | Some v \<Rightarrow> if P (k, v) then Some v else None)"
  by (induction m) (auto simp: cpp map_of_eq_None_iff image_iff split: option.split)

section \<open>First-in first-out queues\<close>

locale fifo_queue =
  fixes enqueue :: "'a \<Rightarrow> 'q \<Rightarrow> 'q"
    and dequeue :: "'q \<Rightarrow> ('a \<times> 'q) option"
    and content :: "'q \<Rightarrow> 'a list"
  assumes content_enqueue: "content (enqueue x q) = content q @ [x]"
    and dequeue_content:
      "(case content q of [] \<Rightarrow> dequeue q = None
        | x # xs \<Rightarrow> (\<exists>q'. dequeue q = Some (x, q') \<and> content q' = xs))"
begin

fun enqueue_all :: "'a list \<Rightarrow> 'q \<Rightarrow> 'q" where
  "enqueue_all [] q = q"
| "enqueue_all (x # xs) q = enqueue_all xs (enqueue x q)"

fun drain :: "nat \<Rightarrow> 'q \<Rightarrow> 'a list \<times> 'q" where
  "drain 0 q = ([], q)"
| "drain (Suc n) q = (case dequeue q of None \<Rightarrow> ([], q)
     | Some (x, q') \<Rightarrow> (let (xs, q'') = drain n q' in (x # xs, q'')))"

lemma content_enqueue_all: "content (enqueue_all xs q) = content q @ xs"
  by (induction xs arbitrary: q) (simp_all add: content_enqueue)

lemma drain_order: "fst (drain n q) = take n (content q)"
proof (induction n arbitrary: q)
  case 0
  then show ?case by simp
next
  case (Suc n)
  show ?case
  proof (cases "content q")
    case Nil
    with dequeue_content [of q] show ?thesis by simp
  next
    case (Cons x xs)
    with dequeue_content [of q] obtain q' where "dequeue q = Some (x, q')" "content q' = xs"
      by auto
    with Cons Suc.IH [of q'] show ?thesis by (auto simp: split_beta)
  qed
qed

lemma jobs_run_in_order: "content q = [] \<Longrightarrow> fst (drain (length xs) (enqueue_all xs q)) = xs"
  by (simp add: drain_order content_enqueue_all)

end

end
