(* ===== verification/Http.thy ===== *)
theory Http
  imports Containers "HOL-Library.Sublist"
begin

text \<open>
  The HTTP text layer of \<^verbatim>\<open>source/http/chttp.cpp\<close>: the tokenizer (\<^verbatim>\<open>ParserNext\<close>, \<^verbatim>\<open>SplitBy\<close>), the
  number readers, the request and response parsers, and the small text helpers. A
  \<^verbatim>\<open>std::string_view\<close> that a function advances is the text it still covers; the position in the
  buffer, which the end-of-header test and the returned length use, is the difference of the
  lengths. Reads outside a view are the \<open>UB\<close> failure.
\<close>

section \<open>Tokens and numbers\<close>

datatype errno = EBADMSG | ENODATA | EPROTONOSUPPORT | EMSGSIZE | ENOMEM | ECONNABORTED
  | ECONNRESET | ENOTCONN | EPROTO | EACCES | ENOTDIR | EBADFD | EAGAIN | EPIPE | ETIMEDOUT
  | ENOENT | EPERM | ESTRPIPE | EREMOTEIO | EBADF | ESOCKTNOSUPPORT | EEXIST | EBADSLT | EINVAL
  | EALREADY | EBADE | EINPROGRESS | ENETDOWN | ENOPROTOOPT | EHOSTDOWN | ENONET | EHOSTUNREACH
  | EOPNOTSUPP | ENETUNREACH | EMFILE | EOTHER

type_synonym headers_t = "(string, string) umap"

definition ParserNext :: "string \<Rightarrow> char \<Rightarrow> string \<times> string" where
  "ParserNext data symbol =
     (if data = [] then ([], [])
      else (trim_with isspace (takeWhile (\<lambda>c. c \<noteq> symbol) data),
            dropWhile isspace (dropWhile (\<lambda>c. c \<noteq> symbol) data)))"

text \<open>\<^verbatim>\<open>SplitBy\<close>: the separator found (\<open>None\<close> for 0), the new \<^verbatim>\<open>result\<close> and the new \<^verbatim>\<open>data\<close>; both are
  left alone when no separator is found.\<close>

definition SplitBy :: "string \<Rightarrow> string \<Rightarrow> string \<Rightarrow> char option \<times> string \<times> string" where
  "SplitBy symbols data result =
     (case split_at (\<lambda>c. c \<in> set symbols) data of
        None \<Rightarrow> (None, result, data)
      | Some (before, ch, after) \<Rightarrow> (Some ch, before, after))"

text \<open>\<^verbatim>\<open>size_t\<close> arithmetic: the value wraps modulo \<open>2 ^ 64\<close>.\<close>

definition number_loop :: "string \<Rightarrow> u64" where
  "number_loop s = foldl (\<lambda>v c. v * 10 + of_nat (digit_value c)) 0 (takeWhile isdigit s)"

definition ParseNumber :: "string \<Rightarrow> u64" where
  "ParseNumber s = number_loop (dropWhile isspace s)"

definition ToNumber :: "string \<Rightarrow> u64" where
  "ToNumber s = number_loop s"

definition TrimBlank :: "string \<Rightarrow> string" where
  "TrimBlank s = trim_with isblank s"

definition ToLower :: "string \<Rightarrow> string" where
  "ToLower s = map tolower s"

definition GetValue :: "headers_t \<Rightarrow> string \<Rightarrow> string \<Rightarrow> string" where
  "GetValue headers header dflt = (case um_find headers header of Some v \<Rightarrow> v | None \<Rightarrow> dflt)"

definition IsConnectionKeepAlive :: "headers_t \<Rightarrow> bool" where
  "IsConnectionKeepAlive headers =
     (case um_find headers ''connection'' of
        Some v \<Rightarrow> \<not> strncasecmp_eq v ''keep-alive''
      | None \<Rightarrow> False)"

section \<open>The request parser\<close>

record uri_t =
  uriFull :: string
  uriPath :: string
  uriPathList :: "string list"
  uriArgs :: "(string \<times> string) list"

definition empty_uri :: uri_t where
  "empty_uri = \<lparr>uriFull = [], uriPath = [], uriPathList = [], uriArgs = []\<rparr>"

definition uri_At :: "uri_t \<Rightarrow> nat \<Rightarrow> string outcome" where
  "uri_At u idx = (if idx < length (uriPathList u) then Inr (uriPathList u ! idx)
     else Inl (UB ''uriPathList index out of range''))"

definition uri_Arg :: "uri_t \<Rightarrow> string \<Rightarrow> string" where
  "uri_Arg u name = (case map_of (uriArgs u) name of Some v \<Rightarrow> v | None \<Rightarrow> [])"

text \<open>The loop over the path: its parts, and the text after \<^verbatim>\<open>?\<close> (the parameters).\<close>

function path_loop :: "string \<Rightarrow> string list \<times> string" where
  "path_loop uripath =
     (if uripath = [] then ([], [])
      else case SplitBy ''/?'' uripath [] of
        (Some ch, part, rest) \<Rightarrow>
          (if ch = CHR ''/'' then
             (let (parts, params) = path_loop rest in
              ((if part \<noteq> [] then [part] else []) @ parts, params))
           else ((if part \<noteq> [] then [part] else []), rest))
      | (None, part, rest) \<Rightarrow> ((if rest \<noteq> [] then [rest] else []), []))"
  by pat_completeness auto
termination
  by (relation "measure length")
    (auto simp: SplitBy_def dest: split_at_length split: option.splits)

declare path_loop.simps [simp del]

definition param_arg :: "string \<Rightarrow> string \<times> string" where
  "param_arg param =
     (case SplitBy ''='' param [] of
        (Some ch, key, rest) \<Rightarrow> (key, rest)
      | (None, key, rest) \<Rightarrow> (param, []))"

function args_loop :: "string \<Rightarrow> (string \<times> string) list" where
  "args_loop paramslist =
     (if paramslist = [] then []
      else case SplitBy ''&'' paramslist [] of
        (Some ch, param, rest) \<Rightarrow> param_arg param # args_loop rest
      | (None, param, rest) \<Rightarrow> [param_arg rest])"
  by pat_completeness auto
termination
  by (relation "measure length")
    (auto simp: SplitBy_def dest: split_at_length split: option.splits)

declare args_loop.simps [simp del]

definition parse_uri :: "string \<Rightarrow> uri_t" where
  "parse_uri uri =
     (if uri = [] then empty_uri
      else let (parts, paramslist) = path_loop uri in
        \<lparr>uriFull = uri,
         uriPath = takeWhile (\<lambda>c. c \<noteq> CHR ''?'' \<and> c \<noteq> CHR '' '') uri,
         uriPathList = (if hd uri = CHR ''/'' then [''/''] else []) @ parts,
         uriArgs = args_loop paramslist\<rparr>)"

definition eod :: string where
  "eod = CRLF @ CRLF"

text \<open>\<^verbatim>\<open>eod == std::string_view{request.data() - 4, 4}\<close>: the four characters of the buffer that
  precede the current position.\<close>

definition at_eod :: "string \<Rightarrow> string \<Rightarrow> bool" where
  "at_eod buf rest \<longleftrightarrow> take 4 (drop (length buf - length rest - 4) buf) = eod"

lemma ParserNext_length:
  "length (snd (ParserNext data symbol)) \<le> length data"
  by (auto simp: ParserNext_def intro: order_trans [OF length_dropWhile_le])

function header_loop :: "string \<Rightarrow> string \<Rightarrow> headers_t \<Rightarrow> errno option \<times> headers_t \<times> string" where
  "header_loop buf request headers =
     (if request = [] then (None, headers, [])
      else let (hk, r) = ParserNext request (CHR '':'') in
        if hk \<noteq> [] \<and> r \<noteq> [] then
          (let (v, r') = ParserNext (tl r) LF;
               headers' = um_emplace (ToLower hk) v headers in
           if \<not> at_eod buf r' then header_loop buf r' headers' else (None, headers', r'))
        else (Some EBADMSG, headers, r))"
  by pat_completeness auto
termination
proof (relation "measure (\<lambda>(buf, request, headers). length request)", goal_cases)
  case 1
  then show ?case by simp
next
  case (2 buf request headers x hk r xa v r' headers')
  have "length r \<le> length request" "length r' \<le> length (tl r)"
    using ParserNext_length [of request "CHR '':''"] ParserNext_length [of "tl r" LF] 2
    by (metis snd_conv)+
  with 2 show ?case by (cases r) auto
qed

declare header_loop.simps [simp del]

record http_request =
  rq_method :: string
  rq_uri :: uri_t
  rq_headers :: headers_t
  rq_content :: string
  rq_contentLength :: u64

definition empty_request :: http_request where
  "empty_request = \<lparr>rq_method = [], rq_uri = empty_uri, rq_headers = [],
     rq_content = [], rq_contentLength = 0\<rparr>"

definition http_proto :: "string \<Rightarrow> bool" where
  "http_proto proto \<longleftrightarrow> starts_with ''HTTP/'' proto \<or> starts_with ''RTSP/1.'' proto"

text \<open>\<^verbatim>\<open>ParseRequest\<close>: the returned length or error, and the output parameters as the call leaves
  them.\<close>

definition ParseRequest :: "string \<Rightarrow> (errno + nat) \<times> http_request" where
  "ParseRequest buf =
     (let (m, r1) = ParserNext buf (CHR '' '');
          (uri, r2) = ParserNext r1 (CHR '' '');
          (proto, r3) = ParserNext r2 LF in
      if http_proto proto then
        (case header_loop buf r3 [] of
           (Some e, headers, r4) \<Rightarrow> (Inl e, empty_request\<lparr>rq_method := m, rq_headers := headers\<rparr>)
         | (None, headers, r4) \<Rightarrow>
             (let rq = \<lparr>rq_method = m, rq_uri = parse_uri uri, rq_headers = headers,
                        rq_content = [], rq_contentLength = 0\<rparr>;
                  pos = length buf - length r4 in
              case um_find headers ''content-length'' of
                None \<Rightarrow> (Inr pos, rq)
              | Some v \<Rightarrow>
                  (let n = ParseNumber v in
                   if length r4 < unat n
                   then (Inl ENODATA, rq\<lparr>rq_content := r4, rq_contentLength := n\<rparr>)
                   else (Inr (pos + unat n),
                         rq\<lparr>rq_content := take (unat n) r4, rq_contentLength := n\<rparr>))))
      else (Inl EPROTONOSUPPORT, empty_request\<lparr>rq_method := m\<rparr>))"

section \<open>The response parser\<close>

record http_response =
  rs_code :: string
  rs_msg :: string
  rs_headers :: headers_t
  rs_content :: string
  rs_contentLength :: u64

text \<open>The loop of \<^verbatim>\<open>ParseResponse\<close> does not test that text is left after the header's name:
  \<^verbatim>\<open>remove_prefix(1)\<close> on an empty view is undefined.\<close>

function rheader_loop :: "string \<Rightarrow> string \<Rightarrow> headers_t \<Rightarrow>
    (errno option \<times> headers_t \<times> string) outcome" where
  "rheader_loop buf stream headers =
     (if stream = [] then Inr (None, headers, [])
      else let (hk, r) = ParserNext stream (CHR '':'') in
        if hk \<noteq> [] then
          (if r = [] then Inl (UB ''remove_prefix on an empty view'')
           else let (v, r') = ParserNext (tl r) LF;
                    headers' = um_emplace (ToLower hk) v headers in
             if \<not> at_eod buf r' then rheader_loop buf r' headers' else Inr (None, headers', r'))
        else Inr (Some ENODATA, headers, r))"
  by pat_completeness auto
termination
proof (relation "measure (\<lambda>(buf, stream, headers). length stream)", goal_cases)
  case 1
  then show ?case by simp
next
  case (2 buf stream headers x hk r xa v r' headers')
  have "length r \<le> length stream" "length r' \<le> length (tl r)"
    using ParserNext_length [of stream "CHR '':''"] ParserNext_length [of "tl r" LF] 2
    by (metis snd_conv)+
  with 2 show ?case by (cases r) auto
qed

declare rheader_loop.simps [simp del]

fun contains_sub :: "string \<Rightarrow> string \<Rightarrow> bool" where
  "contains_sub pat [] = (pat = [])"
| "contains_sub pat (x # xs) = (starts_with pat (x # xs) \<or> contains_sub pat xs)"

definition ParseResponse :: "string \<Rightarrow> ((errno + nat) \<times> http_response) outcome" where
  "ParseResponse buf =
     (let none = \<lparr>rs_code = [], rs_msg = [], rs_headers = [], rs_content = [], rs_contentLength = 0\<rparr> in
      if \<not> contains_sub eod buf then Inr (Inl ENODATA, none)
      else
       let (proto, r1) = ParserNext buf (CHR '' '');
           (code, r2) = ParserNext r1 (CHR '' '');
           (msg, r3) = ParserNext r2 LF;
           rs = none\<lparr>rs_code := code, rs_msg := msg\<rparr> in
       if http_proto proto then
         bind_outcome (rheader_loop buf r3 []) (\<lambda>(err, headers, r4).
           case err of
             Some e \<Rightarrow> Inr (Inl e, rs\<lparr>rs_headers := headers\<rparr>)
           | None \<Rightarrow>
               (let rs = rs\<lparr>rs_headers := headers\<rparr>; pos = length buf - length r4 in
                if (case um_find headers ''transfer-encoding'' of
                      Some v \<Rightarrow> contains_sub ''chunked'' v | None \<Rightarrow> False)
                then Inr (Inr pos, rs\<lparr>rs_content := r4\<rparr>)
                else case um_find headers ''content-length'' of
                  None \<Rightarrow> Inr (Inr pos, rs)
                | Some v \<Rightarrow>
                    (let n = ParseNumber v in
                     if length r4 < unat n
                     then Inr (Inl ENODATA, rs\<lparr>rs_content := r4, rs_contentLength := n\<rparr>)
                     else Inr (Inr (pos + unat n),
                               rs\<lparr>rs_content := take (unat n) r4, rs_contentLength := n\<rparr>))))
       else Inr (Inl EPROTONOSUPPORT, rs))"

section \<open>Where the parsers stop\<close>

lemma suffix_dropWhile: "suffix (dropWhile P xs) xs"
  by (metis suffixI takeWhile_dropWhile_id)

lemma ParserNext_suffix: "suffix (snd (ParserNext data symbol)) data"
  by (auto simp: ParserNext_def intro: suffix_order.trans suffix_dropWhile)

lemma header_loop_suffix:
  "suffix request buf \<Longrightarrow> suffix (snd (snd (header_loop buf request headers))) buf"
proof (induction buf request headers rule: header_loop.induct)
  case (1 buf request headers)
  obtain hk r where n1: "ParserNext request (CHR '':'') = (hk, r)" by fastforce
  obtain v r' where n2: "ParserNext (tl r) LF = (v, r')" by fastforce
  have r: "suffix r buf" using ParserNext_suffix [of request] n1 "1.prems"
    by (metis snd_conv suffix_order.trans)
  have "suffix (tl r) buf" using r by (metis suffix_order.trans suffix_tl)
  then have r': "suffix r' buf" using ParserNext_suffix [of "tl r" LF] n2
    by (metis snd_conv suffix_order.trans)
  have "suffix (snd (snd (header_loop buf r' (um_emplace (ToLower hk) v headers)))) buf"
    if "request \<noteq> []" "hk \<noteq> []" "r \<noteq> []" "\<not> at_eod buf r'"
    using "1.IH" [OF that(1) refl, of hk r _ v r'] n1 n2 that r' by simp
  then show ?case
    using n1 n2 r r' by (subst header_loop.simps) (auto simp: Let_def)
qed

lemma suffix_take_drop: "suffix r buf \<Longrightarrow> drop (length buf - length r) buf = r"
  by (auto elim: suffixE)

text \<open>
  A request that parses is delimited by the returned length: it lies inside the received
  buffer, and the content handed to the handler is exactly the last \<^verbatim>\<open>Content-Length\<close> bytes
  before it, so no handler is given a byte that was not received.
\<close>

theorem ParseRequest_content:
  assumes "ParseRequest buf = (Inr n, rq)"
  shows "n \<le> length buf \<and> length (rq_content rq) = unat (rq_contentLength rq) \<and>
     drop (n - unat (rq_contentLength rq)) (take n buf) = rq_content rq"
proof -
  obtain m r1 where 1: "ParserNext buf (CHR '' '') = (m, r1)" by fastforce
  obtain uri r2 where 2: "ParserNext r1 (CHR '' '') = (uri, r2)" by fastforce
  obtain proto r3 where 3: "ParserNext r2 LF = (proto, r3)" by fastforce
  obtain err hs r4 where 4: "header_loop buf r3 [] = (err, hs, r4)" by (metis prod_cases3)
  have "suffix r3 buf"
    using ParserNext_suffix [of buf] ParserNext_suffix [of r1] ParserNext_suffix [of r2] 1 2 3
    by (metis snd_conv suffix_order.trans)
  from header_loop_suffix [OF this, of "[]"] 4 obtain pre where buf: "buf = pre @ r4"
    by (auto elim: suffixE)
  show ?thesis
    using assms 1 2 3 4 buf
    by (auto simp: ParseRequest_def Let_def split: option.splits if_splits)
qed

definition sample_request :: string where
  "sample_request = ''GET / HTTP/1.1'' @ CRLF @ ''Content-Length: 2'' @ CRLF @ CRLF @ ''hi!''"

lemma sample_request_parse:
  "ParseRequest sample_request =
     (Inr 39, \<lparr>rq_method = ''GET'', rq_uri = parse_uri ''/'',
        rq_headers = [(''content-length'', ''2'')], rq_content = ''hi'', rq_contentLength = 2\<rparr>)"
  by code_simp

text \<open>Of the three bytes after the head of this request two are its content.\<close>

theorem ParseRequest_content_witness:
  "\<exists>n rq. ParseRequest sample_request = (Inr n, rq) \<and> n = 39 \<and> n \<le> length sample_request
     \<and> length (rq_content rq) = unat (rq_contentLength rq)
     \<and> drop (n - unat (rq_contentLength rq)) (take n sample_request) = rq_content rq"
proof -
  obtain n rq where pr: "ParseRequest sample_request = (Inr n, rq)" "n = 39"
    by (simp add: sample_request_parse)
  from ParseRequest_content [OF pr(1)] pr show ?thesis by blast
qed

end
