(* ===== verification/HttpText.thy ===== *)
theory HttpText
  imports Http
begin

text \<open>
  The remaining text helpers of \<^verbatim>\<open>source/http/chttp.cpp\<close> (hexadecimal numbers, \<^verbatim>\<open>FindFirstOf\<close>, the
  bracket matcher \<^verbatim>\<open>ExtractJson\<close>, \<^verbatim>\<open>Unquote\<close>, the \<^verbatim>\<open>Range\<close> header) and the reason phrases of
  \<^verbatim>\<open>source/http/httpmsg.cpp\<close>. Signed values (\<^verbatim>\<open>ssize_t\<close>) are integers: where they would leave
  their range the C++ is undefined.
\<close>

section \<open>Reason phrases\<close>

definition response_codes :: "(string \<times> string) list" where
  "response_codes =
   [(''100'', ''Continue''),
    (''101'', ''Switching Protocols''),
    (''102'', ''Processing''),
    (''200'', ''OK''),
    (''201'', ''Created''),
    (''202'', ''Accepted''),
    (''203'', ''Non-Authoritative Information''),
    (''204'', ''No Content''),
    (''205'', ''Reset Content''),
    (''206'', ''Partial Content''),
    (''207'', ''Multi-Status''),
    (''208'', ''Already Reported''),
    (''226'', ''IM Used''),
    (''300'', ''Multiple Choices''),
    (''301'', ''Moved Permanently''),
    (''302'', ''Moved Temporarily''),
    (''302'', ''Found''),
    (''303'', ''See Other''),
    (''304'', ''Not Modified''),
    (''305'', ''Use Proxy''),
    (''306'', ''Reserved''),
    (''307'', ''Temporary Redirect''),
    (''308'', ''Permanent Redirect''),
    (''400'', ''Bad Request''),
    (''401'', ''Unauthorized''),
    (''402'', ''Payment Required''),
    (''403'', ''Forbidden''),
    (''404'', ''Not Found''),
    (''405'', ''Method Not Allowed''),
    (''406'', ''Not Acceptable''),
    (''407'', ''Proxy Authentication Required''),
    (''408'', ''Request Timeout''),
    (''409'', ''Conflict''),
    (''410'', ''Gone''),
    (''411'', ''Length Required''),
    (''412'', ''Precondition Failed''),
    (''413'', ''Payload Too Large''),
    (''414'', ''URI Too Long''),
    (''415'', ''Unsupported Media Type''),
    (''416'', ''Range Not Satisfiable''),
    (''417'', ''Expectation Failed''),
    (''418'', ''I'' @ [CHR 0x27] @ ''m a teapot''),
    (''419'', ''Authentication Timeout''),
    (''422'', ''Unprocessable Entity''),
    (''423'', ''Locked''),
    (''424'', ''Failed Dependency''),
    (''426'', ''Upgrade Required''),
    (''428'', ''Precondition Required''),
    (''429'', ''Too Many Requests''),
    (''431'', ''Request Header Fields Too Large''),
    (''449'', ''Retry With''),
    (''451'', ''Unavailable For Legal Reasons''),
    (''499'', ''Client Closed Request''),
    (''500'', ''Internal Server Error''),
    (''501'', ''Not Implemented''),
    (''502'', ''Bad Gateway''),
    (''503'', ''Service Unavailable''),
    (''504'', ''Gateway Timeout''),
    (''505'', ''HTTP Version Not Supported''),
    (''506'', ''Variant Also Negotiates''),
    (''507'', ''Insufficient Storage''),
    (''508'', ''Loop Detected''),
    (''509'', ''Bandwidth Limit Exceeded''),
    (''510'', ''Not Extended''),
    (''511'', ''Network Authentication Required''),
    (''520'', ''Unknown Error''),
    (''521'', ''Web Server Is Down''),
    (''522'', ''Connection Timed Out''),
    (''523'', ''Origin Is Unreachable''),
    (''524'', ''A Timeout Occurred''),
    (''525'', ''SSL Handshake Failed''),
    (''526'', ''Invalid SSL Certificate'')]"

text \<open>The table holds \<^verbatim>\<open>302\<close> twice; a map built from an initializer list keeps the first.\<close>

definition GetMessage :: "string \<Rightarrow> string" where
  "GetMessage code =
     (case map_of response_codes code of Some m \<Rightarrow> m | None \<Rightarrow> ''Unknown HTTP error'')"

section \<open>Hexadecimal numbers and searching\<close>

definition hex_digit :: "char \<Rightarrow> nat option" where
  "hex_digit ch =
     (let n = of_char ch in
      if 48 \<le> n \<and> n \<le> 57 then Some (n - 48)
      else if 97 \<le> n \<and> n \<le> 102 then Some (10 + (n - 97))
      else if 65 \<le> n \<and> n \<le> 70 then Some (10 + (n - 65))
      else None)"

text \<open>\<^verbatim>\<open>FromHex\<close>: the value is kept in 64 bits; -1 (all ones) on a character that is no digit.\<close>

fun FromHex_loop :: "u64 \<Rightarrow> string \<Rightarrow> u64" where
  "FromHex_loop val [] = val"
| "FromHex_loop val (ch # data) =
     (case hex_digit ch of
        None \<Rightarrow> - 1
      | Some d \<Rightarrow> FromHex_loop (push_bit 4 val + of_nat d) data)"

definition FromHex :: "string \<Rightarrow> u64" where
  "FromHex data = FromHex_loop 0 data"

text \<open>\<^verbatim>\<open>FindFirstOf\<close>: the text before the separator and the text left in the view.\<close>

fun FindFirstOf :: "string \<Rightarrow> string \<Rightarrow> (string \<times> string) option" where
  "FindFirstOf pat [] = None"
| "FindFirstOf pat (x # xs) =
     (if starts_with pat (x # xs) then Some ([], drop (length pat) (x # xs))
      else map_option (\<lambda>(a, b). (x # a, b)) (FindFirstOf pat xs))"

section \<open>ExtractJson\<close>

text \<open>\<^verbatim>\<open>ExtractJson\<close>: the index of the brace that closes the first opened one, -1 if there is none;
  the stack is popped without a test, which is undefined when it is empty.\<close>

fun ExtractJson_loop :: "nat \<Rightarrow> string \<Rightarrow> string \<Rightarrow> int outcome" where
  "ExtractJson_loop i stack [] = Inr (-1)"
| "ExtractJson_loop i stack (c # cs) =
     (if c = CHR ''{'' then ExtractJson_loop (Suc i) (c # stack) cs
      else if c = CHR ''}'' then
        (case stack of
           [] \<Rightarrow> Inl (UB ''pop on an empty stack'')
         | _ # stack' \<Rightarrow>
             if stack' = [] then Inr (int i) else ExtractJson_loop (Suc i) stack' cs)
      else ExtractJson_loop (Suc i) stack cs)"

definition ExtractJson :: "string \<Rightarrow> int outcome" where
  "ExtractJson str = ExtractJson_loop 0 [] str"

section \<open>Unquote\<close>

text \<open>\<^verbatim>\<open>Unquote\<close> drops every backslash that is followed by a double quote, and the quote; a backslash
  at the end makes it read one character past the view.\<close>

fun Unquote :: "string \<Rightarrow> string outcome" where
  "Unquote [] = Inr []"
| "Unquote (c # cs) =
     (if of_char c = (92::nat) then
        (case cs of
           [] \<Rightarrow> Inl (UB ''read past the end of the view'')
         | d # ds \<Rightarrow>
             if of_char d = (34::nat) then Unquote ds
             else bind_outcome (Unquote (d # ds)) (\<lambda>r. Inr (c # r)))
      else bind_outcome (Unquote cs) (\<lambda>r. Inr (c # r)))"

section \<open>Ranges\<close>

text \<open>One of the digit loops of \<^verbatim>\<open>IsGetRange\<close>: digits up to \<open>stop\<close>, which is consumed; \<open>None\<close> (the
  call returns false) on any other character.\<close>

fun range_digits :: "char \<Rightarrow> int \<Rightarrow> string \<Rightarrow> (int \<times> string) option" where
  "range_digits stop v [] = Some (v, [])"
| "range_digits stop v (ch # rng) =
     (if isdigit ch then range_digits stop (v * 10 + int (digit_value ch)) rng
      else if ch = stop then Some (v, rng) else None)"

definition IsGetRange :: "headers_t \<Rightarrow> (int \<times> int) option outcome" where
  "IsGetRange headers =
     (case um_find headers ''range'' of
        None \<Rightarrow> Inr None
      | Some rng \<Rightarrow>
          if starts_with ''bytes='' rng then
            (case drop 6 rng of
               [] \<Rightarrow> Inl (UB ''front of an empty view'')
             | c # cs \<Rightarrow>
                 if c \<noteq> CHR ''-'' then
                   (case range_digits (CHR ''-'') 0 (c # cs) of
                      None \<Rightarrow> Inr None
                    | Some (from, rest) \<Rightarrow>
                        (case range_digits (CHR '','') (-1) rest of
                           None \<Rightarrow> Inr None
                         | Some (to, rest') \<Rightarrow> Inr (Some (from, to))))
                 else
                   (case range_digits (CHR '','') 0 cs of
                      None \<Rightarrow> Inr None
                    | Some (from, rest) \<Rightarrow> Inr (Some (from, -1))))
          else Inr None)"

definition int_to_string :: "int \<Rightarrow> string" where
  "int_to_string i = (if i < 0 then CHR ''-'' # to_string (nat (- i)) else to_string (nat i))"

definition RangeHeader :: "int \<Rightarrow> int \<Rightarrow> nat \<Rightarrow> bool \<Rightarrow> string" where
  "RangeHeader from to ContentLength withoutLength =
     (let cl = int ContentLength;
          (from, to) = (if to = 0 then (from, cl - 1)
                        else if from < 0 then (cl + from, cl - (cl + from))
                        else (from, to));
          to = to - from + 1 in
      ''bytes '' @ int_to_string from @ ''-'' @ int_to_string (from + to - 1) @ ''/''
      @ (if \<not> withoutLength then to_string ContentLength else ''*''))"

section \<open>Properties\<close>

lemma foldl_from:
  "foldl (\<lambda>v c. v * 10 + int (digit_value c)) a cs = a * 10 ^ length cs + int (digits_value 0 cs)"
proof (induction cs rule: rev_induct)
  case Nil
  then show ?case by (simp add: digits_value_def)
next
  case (snoc c cs)
  then show ?case by (simp add: digits_value_def algebra_simps)
qed

lemma range_digits_all:
  "\<forall>c \<in> set cs. isdigit c \<Longrightarrow>
     range_digits stop v cs = Some (foldl (\<lambda>v c. v * 10 + int (digit_value c)) v cs, [])"
  by (induction cs arbitrary: v) auto

lemma range_digits_stop:
  "\<forall>c \<in> set cs. isdigit c \<Longrightarrow> \<not> isdigit stop \<Longrightarrow>
     range_digits stop v (cs @ stop # rest) =
       Some (foldl (\<lambda>v c. v * 10 + int (digit_value c)) v cs, rest)"
  by (induction cs arbitrary: v) auto

text \<open>
  \<^verbatim>\<open>IsGetRange\<close> starts the upper bound of a range at -1 and accumulates its digits onto that: for
  \<^verbatim>\<open>bytes=a-b\<close> it reports \<open>a\<close> and \<open>b - 10 ^ k\<close>, with \<open>k\<close> the number of digits of \<open>b\<close>, never \<open>b\<close>.
\<close>

theorem IsGetRange_upper_bound:
  "IsGetRange [(''range'', ''bytes='' @ to_string a @ ''-'' @ to_string b)] =
     Inr (Some (int a, int b - 10 ^ length (to_string b)))"
proof -
  obtain c cs where a: "to_string a = c # cs" by (cases "to_string a") auto
  have c: "isdigit c" "c \<noteq> CHR ''-''"
    using to_string_digits [of a] a by (auto simp: isdigit_def)
  have "range_digits (CHR ''-'') 0 (to_string a @ CHR ''-'' # to_string b) =
      Some (int a, to_string b)"
    by (subst range_digits_stop)
      (use to_string_digits [of a] in \<open>simp_all add: foldl_from digits_value_to_string isdigit_def\<close>)
  moreover have "range_digits (CHR '','') (-1) (to_string b) =
      Some (int b - 10 ^ length (to_string b), [])"
    by (simp add: range_digits_all to_string_digits foldl_from digits_value_to_string)
  ultimately show ?thesis
    using a c by (simp add: IsGetRange_def um_find_def starts_with_def)
qed

text \<open>The stack of \<^verbatim>\<open>ExtractJson\<close> holds only opening braces, so its height is what matters.\<close>

definition depth :: "string \<Rightarrow> int" where
  "depth s = int (count_list s (CHR ''{'')) - int (count_list s (CHR ''}''))"

lemma depth_simps [simp]:
  "depth [] = 0"
  "depth (c # cs) = (if c = CHR ''{'' then 1 else if c = CHR ''}'' then -1 else 0) + depth cs"
  by (simp_all add: depth_def)

lemma depth_append [simp]: "depth (xs @ ys) = depth xs + depth ys"
  by (simp add: depth_def)

lemma ExtractJson_loop_result:
  "ExtractJson_loop i stack cs = Inr r \<Longrightarrow> r \<noteq> -1 \<Longrightarrow>
     \<exists>pre post. cs = pre @ CHR ''}'' # post \<and> r = int (i + length pre)
       \<and> int (length stack) + depth pre = 1"
proof (induction i stack cs rule: ExtractJson_loop.induct)
  case (1 i stack)
  then show ?case by simp
next
  case (2 i stack c cs)
  consider (lbrace) "c = CHR ''{''" | (rbrace) "c = CHR ''}''"
    | (other) "c \<noteq> CHR ''{''" "c \<noteq> CHR ''}''" by blast
  then show ?case
  proof cases
    case lbrace
    with 2 obtain pre post where "cs = pre @ CHR ''}'' # post" "r = int (Suc i + length pre)"
      "int (length (c # stack)) + depth pre = 1" by force
    with lbrace show ?thesis by (intro exI [of _ "c # pre"] exI [of _ post]) auto
  next
    case rbrace
    then obtain d stack' where st: "stack = d # stack'" using "2.prems" by (cases stack) auto
    show ?thesis
    proof (cases "stack' = []")
      case True
      with 2 rbrace st show ?thesis by (intro exI [of _ "[]"] exI [of _ cs]) auto
    next
      case False
      with 2 rbrace st obtain pre post where "cs = pre @ CHR ''}'' # post"
        "r = int (Suc i + length pre)" "int (length stack') + depth pre = 1" by force
      with rbrace st show ?thesis by (intro exI [of _ "c # pre"] exI [of _ post]) auto
    qed
  next
    case other
    with 2 obtain pre post where "cs = pre @ CHR ''}'' # post" "r = int (Suc i + length pre)"
      "int (length stack) + depth pre = 1" by force
    with other show ?thesis by (intro exI [of _ "c # pre"] exI [of _ post]) auto
  qed
qed

text \<open>
  the document \<^verbatim>\<open>ExtractJson\<close> delimits is balanced: an index it returns is that of a closing
  brace, and up to and including it there are as many closing as opening braces.
\<close>

theorem ExtractJson_balanced:
  assumes "ExtractJson str = Inr r" "r \<noteq> -1"
  shows "0 \<le> r \<and> nat r < length str \<and> str ! nat r = CHR ''}'' \<and> depth (take (nat r + 1) str) = 0"
proof -
  obtain pre post where "str = pre @ CHR ''}'' # post" "r = int (length pre)" "depth pre = 1"
    using ExtractJson_loop_result [of 0 "[]" str r] assms by (auto simp: ExtractJson_def)
  then show ?thesis by (simp add: nth_append)
qed

theorem ExtractJson_balanced_witness:
  "0 \<le> (6::int) \<and> nat 6 < length ''{a{b}c}d'' \<and> ''{a{b}c}d'' ! nat 6 = CHR ''}''
     \<and> depth (take (nat 6 + 1) ''{a{b}c}d'') = 0"
  by (rule ExtractJson_balanced) (simp_all add: ExtractJson_def)

end
