(* ===== verification/HttpConn.thy ===== *)
theory HttpConn
  imports HttpText
begin

text \<open>
  Writing HTTP messages, \<^verbatim>\<open>HttpWriteRequest\<close> and \<^verbatim>\<open>HttpWriteResponse\<close> of
  \<^verbatim>\<open>source/http/chttpconn.cpp\<close>, and reading a request from a socket (\<^verbatim>\<open>HttpReadRequest\<close>). The
  socket is a parameter: \<open>send\<close> and \<open>recv\<close> give what \<^verbatim>\<open>SocketSend\<close> and \<^verbatim>\<open>SocketRecv\<close> return. The
  headers of a message are given in the iteration order of their map; \<^verbatim>\<open>HttpServerHeaders\<close>
  has no override in the program and adds nothing.
\<close>

section \<open>Writing\<close>

definition header_line :: "string \<times> string \<Rightarrow> string" where
  "header_line hv = fst hv @ '': '' @ snd hv @ CRLF"

definition length_headers :: "string \<Rightarrow> (string \<times> string) list" where
  "length_headers body =
     (if body \<noteq> [] then [(''Content-Length'', to_string (length body))] else [])"

definition request_text :: "string \<Rightarrow> string \<Rightarrow> (string \<times> string) list \<Rightarrow> string \<Rightarrow> string" where
  "request_text verb uri headers body =
     verb @ '' '' @ uri @ '' HTTP/1.1'' @ CRLF
     @ concat (map header_line (length_headers body @ headers)) @ CRLF @ body"

definition HttpWriteRequest ::
  "(string \<Rightarrow> errno option) \<Rightarrow> string \<Rightarrow> string \<Rightarrow> (string \<times> string) list \<Rightarrow> string \<Rightarrow> errno option" where
  "HttpWriteRequest send verb uri headers body = send (request_text verb uri headers body)"

definition response_head :: "string \<Rightarrow> (string \<times> string) list \<Rightarrow> string \<Rightarrow> string" where
  "response_head code headers body =
     ''HTTP/1.1 '' @ code @ '' '' @ GetMessage code @ CRLF
     @ concat (map header_line (length_headers body @ headers)) @ CRLF"

text \<open>\<^verbatim>\<open>HttpWriteResponse\<close> sends the head and then, if that succeeded, the body.\<close>

definition HttpWriteResponse ::
  "(string \<Rightarrow> errno option) \<Rightarrow> string \<Rightarrow> string \<Rightarrow> (string \<times> string) list \<Rightarrow> errno option" where
  "HttpWriteResponse send code body headers =
     (case send (response_head code headers body) of
        Some e \<Rightarrow> Some e
      | None \<Rightarrow> if body \<noteq> [] then send body else None)"

section \<open>Reading\<close>

text \<open>
  \<^verbatim>\<open>HttpReadRequest\<close>: \<open>first\<close> is what the non-blocking \<^verbatim>\<open>SocketRecv\<close> of at most \<open>max_size\<close> bytes gave,
  \<open>second n\<close> what the blocking one for the \<open>n\<close> missing bytes gives (all \<open>n\<close> of them when it succeeds). The result is the returned
  error (\<open>None\<close> for 0), whether an interim response 100 was written, and the output
  parameters. The size test is the \<^verbatim>\<open>size_t\<close> sum of the source; the receive that follows writes into
  a buffer of \<open>max_size\<close> bytes of which \<^verbatim>\<open>nread\<close> are taken.
\<close>

definition HttpReadRequest ::
  "nat \<Rightarrow> errno + string \<Rightarrow> (nat \<Rightarrow> errno + string) \<Rightarrow> (errno option \<times> bool \<times> http_request) outcome" where
  "HttpReadRequest max_size first second =
     (case first of
        Inl e \<Rightarrow> Inr (Some e, False, empty_request)
      | Inr buf \<Rightarrow>
          (case ParseRequest buf of
             (Inr n, rq) \<Rightarrow>
               Inr (None, False, if n > 0 then rq else rq\<lparr>rq_content := []\<rparr>)
           | (Inl e, rq) \<Rightarrow>
               if e = ENODATA \<and> rq_contentLength rq \<noteq> 0 then
                 (let missing = rq_contentLength rq - of_nat (length (rq_content rq));
                      cont = (GetValue (rq_headers rq) ''expect'' [] = ''100-continue'') in
                  if of_nat (length buf) + missing \<le> (of_nat max_size :: u64)
                  then if unat missing > max_size - length buf
                       then Inl (UB ''recv past the end of the buffer'')
                       else (case second (unat missing) of
                               Inr rest \<Rightarrow>
                                 Inr (None, cont, rq\<lparr>rq_content := rq_content rq @ rest\<rparr>)
                             | Inl e' \<Rightarrow> Inr (Some e', cont, rq))
                  else Inr (Some EMSGSIZE, cont, rq))
               else Inr (Some e, False, rq)))"

section \<open>What a written request parses to\<close>

definition word_ok :: "string \<Rightarrow> bool" where
  "word_ok s \<longleftrightarrow> s \<noteq> [] \<and> (\<forall>c \<in> set s. \<not> isspace c)"

definition header_ok :: "string \<times> string \<Rightarrow> bool" where
  "header_ok hv \<longleftrightarrow> word_ok (fst hv) \<and> CHR '':'' \<notin> set (fst hv)
     \<and> LF \<notin> set (snd hv) \<and> (snd hv = [] \<or> \<not> isspace (hd (snd hv)) \<and> \<not> isspace (last (snd hv)))"

definition body_ok :: "string \<Rightarrow> bool" where
  "body_ok s \<longleftrightarrow> s = [] \<or> \<not> isspace (hd s)"

definition collect_headers :: "(string \<times> string) list \<Rightarrow> headers_t \<Rightarrow> headers_t" where
  "collect_headers hs h0 = foldl (\<lambda>m hv. um_emplace (ToLower (fst hv)) (snd hv) m) h0 hs"

definition overflow_request :: string where
  "overflow_request = ''POST / HTTP/1.1'' @ CRLF
     @ ''Content-Length: 18446744073709551615'' @ CRLF @ CRLF @ ''x''"

lemma isspace_chars [simp]: "isspace CR" "isspace LF" "isspace (CHR '' '')" "\<not> isspace (CHR '':'')"
  by (simp_all add: isspace_def)

lemma takeWhile_sym [simp]: "s \<notin> set w \<Longrightarrow> takeWhile (\<lambda>c. c \<noteq> s) (w @ s # rest) = w"
  "s \<notin> set w \<Longrightarrow> dropWhile (\<lambda>c. c \<noteq> s) (w @ s # rest) = s # rest"
  by (auto simp: takeWhile_append dropWhile_append takeWhile_eq_all_conv)

lemma ParserNext_word:
  assumes "word_ok w" "isspace s"
  shows "ParserNext (w @ s # rest) s = (w, dropWhile isspace rest)"
proof -
  have "s \<notin> set w" using assms by (auto simp: word_ok_def)
  moreover have "trim_with isspace w = w" using assms by (simp add: trim_with_none word_ok_def)
  ultimately show ?thesis using assms by (simp add: ParserNext_def)
qed

lemma ParserNext_colon:
  assumes "word_ok w" "CHR '':'' \<notin> set w"
  shows "ParserNext (w @ CHR '':'' # rest) (CHR '':'') = (w, CHR '':'' # rest)"
  using assms by (simp add: ParserNext_def trim_with_none word_ok_def)

lemma trim_value:
  assumes "v = [] \<or> \<not> isspace (hd v) \<and> \<not> isspace (last v)"
  shows "trim_with isspace (CHR '' '' # v @ [CR]) = v"
proof (cases "v = []")
  case True
  then show ?thesis by (simp add: trim_with_def dropWhileEnd_def)
next
  case False
  with assms have "dropWhile isspace (v @ [CR]) = v @ [CR]" by (cases v) auto
  with False assms show ?thesis
    by (simp add: trim_with_def dropWhileEnd_append_ws dropWhileEnd_id)
qed

lemma ParserNext_value:
  assumes "header_ok (k, v)"
  shows "ParserNext (CHR '' '' # v @ CR # LF # rest) LF = (v, dropWhile isspace rest)"
proof -
  have "LF \<notin> set (CHR '' '' # v @ [CR])" using assms by (simp add: header_ok_def)
  from takeWhile_sym [OF this, of rest] show ?thesis
    using assms by (simp add: ParserNext_def trim_value header_ok_def)
qed

lemma at_eod_iff:
  "4 \<le> length pre \<Longrightarrow> at_eod (pre @ rest) rest \<longleftrightarrow> drop (length pre - 4) pre = eod"
  by (simp add: at_eod_def)

lemma not_eod_after_value:
  assumes "header_ok (k, v)"
  shows "\<not> at_eod (pre @ header_line (k, v) @ rest) rest"
proof -
  let ?x = "'': '' @ v"
  obtain y z where x: "?x = y @ [z]" by (metis append_is_Nil_conv list.distinct(1) rev_exhaust)
  have "z \<noteq> LF"
  proof (cases "v = []")
    case True
    with x show ?thesis by (auto simp: append_eq_Cons_conv)
  next
    case False
    then have "z = last v" using x by (metis last_appendR last_snoc)
    with False assms show ?thesis by (auto simp: header_ok_def)
  qed
  moreover have "length y \<ge> 1" using arg_cong [OF x, of length] by simp
  then obtain y' u where "y = y' @ [u]" by (cases y rule: rev_cases) auto
  ultimately have tail: "?x = y' @ [u, z]" "z \<noteq> LF" using x by simp_all
  have "header_line (k, v) = k @ ?x @ CRLF"
    by (simp add: header_line_def)
  also have "\<dots> = k @ y' @ [u, z, CR, LF]"
    unfolding tail(1) by simp
  finally show ?thesis using tail(2)
    using at_eod_iff [of "pre @ k @ y' @ [u, z, CR, LF]" rest] by (simp add: eod_def)
qed

lemma header_loop_lines:
  assumes "hs \<noteq> []" "\<forall>hv \<in> set hs. header_ok hv" "body_ok body"
  shows "header_loop (pre @ concat (map header_line hs) @ CRLF @ body)
      (concat (map header_line hs) @ CRLF @ body) h0 = (None, collect_headers hs h0, body)"
  using assms
proof (induction hs arbitrary: pre h0)
  case Nil
  then show ?case by simp
next
  case (Cons hv hs)
  obtain k v where hv: "hv = (k, v)" by fastforce
  define rest where "rest = concat (map header_line hs) @ CRLF @ body"
  define all where "all = header_line (k, v) @ rest"
  have ok: "header_ok (k, v)" "word_ok k" "CHR '':'' \<notin> set k"
    using Cons.prems by (auto simp: hv header_ok_def)
  have split: "all = k @ CHR '':'' # CHR '' '' # v @ CR # LF # rest"
    by (simp add: header_line_def all_def)
  have n1: "ParserNext all (CHR '':'') = (k, CHR '':'' # CHR '' '' # v @ CR # LF # rest)"
    unfolding split by (rule ParserNext_colon) (use ok in auto)
  note n2 = ParserNext_value [OF ok(1), of rest]
  have ne: "all \<noteq> []" "k \<noteq> []" using ok by (simp_all add: split word_ok_def)
  have step: "header_loop (pre @ all) all h0 =
      (let r' = dropWhile isspace rest; h' = um_emplace (ToLower k) v h0 in
       if \<not> at_eod (pre @ all) r' then header_loop (pre @ all) r' h' else (None, h', r'))"
    using ne by (subst header_loop.simps) (simp add: n1 n2 Let_def)
  have goal: "concat (map header_line (hv # hs)) @ CRLF @ body = all"
    by (simp add: all_def rest_def hv)
  show ?case
  proof (cases "hs = []")
    case True
    have body: "dropWhile isspace rest = body"
      using Cons.prems True by (cases body) (auto simp: body_ok_def rest_def)
    have "at_eod ((pre @ header_line (k, v) @ CRLF) @ body) body"
      by (subst at_eod_iff) (simp_all add: eod_def header_line_def)
    then have "at_eod (pre @ all) body" by (simp add: all_def rest_def True)
    with step body show ?thesis
      unfolding goal by (simp add: hv True collect_headers_def Let_def)
  next
    case False
    then obtain k2 v2 tl2 where hs: "hs = (k2, v2) # tl2" by (cases hs) auto
    then have "word_ok k2" using Cons.prems by (auto simp: header_ok_def)
    then have keep: "dropWhile isspace rest = rest"
      by (cases k2) (auto simp: hs header_line_def word_ok_def rest_def)
    have "header_loop ((pre @ header_line (k, v)) @ rest) rest (um_emplace (ToLower k) v h0) =
        (None, collect_headers hs (um_emplace (ToLower k) v h0), body)"
      unfolding rest_def by (rule Cons.IH) (use Cons.prems False in auto)
    moreover have "\<not> at_eod (pre @ all) rest"
      unfolding all_def by (rule not_eod_after_value [OF ok(1)])
    ultimately show ?thesis
      unfolding goal using step keep by (simp add: hv collect_headers_def Let_def all_def)
  qed
qed

lemma number_foldl:
  "foldl (\<lambda>v c. v * 10 + of_nat (digit_value c)) (of_nat a :: u64) cs = of_nat (digits_value a cs)"
proof (induction cs arbitrary: a)
  case Nil
  then show ?case by (simp add: digits_value_def)
next
  case (Cons c cs)
  have "of_nat a * 10 + of_nat (digit_value c) = (of_nat (a * 10 + digit_value c) :: u64)"
    by simp
  with Cons.IH [of "a * 10 + digit_value c"] show ?case
    by (simp only: foldl_Cons digits_value_def)
qed

lemma number_loop_to_string: "number_loop (to_string n) = of_nat n"
  using number_foldl [of 0 "to_string n"] to_string_digits [of n]
  by (simp add: number_loop_def takeWhile_eq_all_conv [THEN iffD2] digits_value_to_string)

lemma isdigit_not_space: "isdigit c \<Longrightarrow> \<not> isspace c"
  by (auto simp: isdigit_def isspace_def)

lemma ParseNumber_to_string: "ParseNumber (to_string n) = of_nat n"
proof -
  have "dropWhile isspace (to_string n) = to_string n"
    using to_string_digits [of n] isdigit_not_space by (cases "to_string n") auto
  then show ?thesis by (simp add: ParseNumber_def number_loop_to_string)
qed

lemma header_ok_length: "header_ok (''Content-Length'', to_string n)"
proof -
  have "\<forall>c \<in> set (to_string n). \<not> isspace c"
    using to_string_digits [of n] isdigit_not_space by blast
  then show ?thesis
    by (auto simp: header_ok_def word_ok_def isspace_def)
qed

lemma collect_headers_find:
  "um_wf h0 \<Longrightarrow> um_find (collect_headers hs h0) j =
     (case um_find h0 j of Some w \<Rightarrow> Some w
      | None \<Rightarrow> map_of (map (\<lambda>hv. (ToLower (fst hv), snd hv)) hs) j)"
proof (induction hs arbitrary: h0)
  case Nil
  then show ?case by (simp add: collect_headers_def split: option.splits)
next
  case (Cons hv hs)
  then show ?case
    by (auto simp: collect_headers_def um_find_emplace split: option.splits)
qed

text \<open>The lines of a written request after the first one, as the parser's loop reads them, and the length it finds.\<close>

lemma header_loop_request:
  assumes "\<forall>hv \<in> set hs. header_ok hv" "body_ok body" "hs = [] \<Longrightarrow> body = []"
    and "buf = (verb @ CHR '' '' # uri @ CHR '' '' # ''HTTP/1.1'' @ CRLF) @ lines"
    and "lines = concat (map header_line hs) @ CRLF @ body"
  shows "header_loop buf (dropWhile isspace lines) [] = (None, collect_headers hs [], body)"
proof (cases hs)
  case Nil
  with assms(3,5) show ?thesis by (simp add: collect_headers_def header_loop.simps)
next
  case (Cons hv t)
  with assms(1) have "word_ok (fst hv)" by (simp add: header_ok_def)
  then have "dropWhile isspace lines = lines"
    by (cases "fst hv") (auto simp: assms(5) Cons header_line_def word_ok_def)
  then show ?thesis
    using header_loop_lines [of hs body "verb @ CHR '' '' # uri @ CHR '' '' # ''HTTP/1.1'' @ CRLF" "[]"]
      Cons assms(1,2,4,5) by simp
qed

lemma content_length_header:
  assumes "\<forall>hv \<in> set headers. ToLower (fst hv) \<noteq> ''content-length''"
  shows "um_find (collect_headers (length_headers body @ headers) []) ''content-length'' =
    (if body = [] then None else Some (to_string (length body)))"
proof -
  have "map_of (map (\<lambda>hv. (ToLower (fst hv), snd hv)) headers) ''content-length'' = None"
    using assms by (auto simp: map_of_eq_None_iff)
  moreover have "ToLower ''Content-Length'' = ''content-length''" by code_simp
  ultimately show ?thesis by (simp add: collect_headers_find length_headers_def)
qed

text \<open>
  what \<^verbatim>\<open>HttpWriteRequest\<close> writes, \<^verbatim>\<open>ParseRequest\<close> reads: for a method and a target without white
  space, well-formed headers none of which is a content length of its own, and a body that
  does not start with white space, the whole text is consumed and the method, the target, the
  headers (names in lower case, the first of equal names) and the body come back.
\<close>

theorem http_request_roundtrip:
  assumes "word_ok verb" "word_ok uri" "\<forall>hv \<in> set headers. header_ok hv" "body_ok body"
    and "\<forall>hv \<in> set headers. ToLower (fst hv) \<noteq> ''content-length''" and "length body < 2 ^ 64"
  shows "ParseRequest (request_text verb uri headers body) =
     (Inr (length (request_text verb uri headers body)),
      \<lparr>rq_method = verb, rq_uri = parse_uri uri,
       rq_headers = collect_headers (length_headers body @ headers) [],
       rq_content = body, rq_contentLength = of_nat (length body)\<rparr>)"
proof -
  define hs where "hs = length_headers body @ headers"
  define lines where "lines = concat (map header_line hs) @ CRLF @ body"
  define r2 where "r2 = ''HTTP/1.1'' @ CR # LF # lines"
  define r1 where "r1 = uri @ CHR '' '' # r2"
  define buf where "buf = request_text verb uri headers body"
  have buf: "buf = verb @ CHR '' '' # r1"
    by (simp add: buf_def request_text_def lines_def hs_def r1_def r2_def)
  have hs_ok: "\<forall>hv \<in> set hs. header_ok hv"
    using assms(3) by (auto simp: hs_def length_headers_def header_ok_length)
  have "dropWhile isspace r1 = r1"
    using assms(2) by (cases uri) (auto simp: word_ok_def r1_def)
  then have 1: "ParserNext buf (CHR '' '') = (verb, r1)"
    unfolding buf by (simp add: ParserNext_word assms(1))
  have "dropWhile isspace r2 = r2" by (simp add: r2_def) (simp add: isspace_def)
  then have 2: "ParserNext r1 (CHR '' '') = (uri, r2)"
    unfolding r1_def by (simp add: ParserNext_word assms(2))
  have 3: "ParserNext r2 LF = (''HTTP/1.1'', dropWhile isspace lines)"
    by (simp add: r2_def ParserNext_def trim_with_def dropWhileEnd_def isspace_def)
  have "hs = [] \<Longrightarrow> body = []" by (auto simp: hs_def length_headers_def split: if_splits)
  moreover have "buf = (verb @ CHR '' '' # uri @ CHR '' '' # ''HTTP/1.1'' @ CRLF) @ lines"
    by (simp add: buf r1_def r2_def)
  ultimately have 4: "header_loop buf (dropWhile isspace lines) [] = (None, collect_headers hs [], body)"
    using header_loop_request [OF hs_ok assms(4) _ _ lines_def] by blast
  note cl = content_length_header [OF assms(5), of body, folded hs_def]
  have "unat (of_nat (length body) :: u64) = length body"
    using assms(6) by (simp add: unat_of_nat take_bit_eq_mod)
  moreover have "length buf - length body + length body = length buf"
    by (simp add: buf r1_def r2_def lines_def)
  moreover have "http_proto ''HTTP/1.1''" by (simp add: http_proto_def starts_with_def)
  ultimately show ?thesis
    unfolding buf_def [symmetric] hs_def [symmetric]
    by (simp add: ParseRequest_def 1 2 3 4 cl ParseNumber_to_string)
qed

theorem http_request_roundtrip_witness:
  "ParseRequest (request_text ''POST'' ''/apps/a/events'' [(''Host'', ''h'')] ''{}'') =
     (Inr (length (request_text ''POST'' ''/apps/a/events'' [(''Host'', ''h'')] ''{}'')),
      \<lparr>rq_method = ''POST'', rq_uri = parse_uri ''/apps/a/events'',
       rq_headers = collect_headers (length_headers ''{}'' @ [(''Host'', ''h'')]) [],
       rq_content = ''{}'', rq_contentLength = of_nat (length ''{}'')\<rparr>)"
  by (rule http_request_roundtrip)
    (simp_all add: word_ok_def header_ok_def body_ok_def isspace_def ToLower_def tolower_def)

text \<open>
  a body that starts with white space is not delivered: the tokenizer swallows white space
  after the last header, the end-of-header test looks at the four characters before the
  position it stopped at, and the parser goes on to read the body as headers.
\<close>

theorem blank_body_rejected:
  "fst (ParseRequest (request_text ''POST'' ''/'' [] '' [1]'')) = Inl EBADMSG"
  by code_simp

section \<open>Bounds of the receive buffer\<close>

lemma ParseRequest_missing:
  assumes "ParseRequest buf = (Inl ENODATA, rq)"
  shows "length (rq_content rq) \<le> unat (rq_contentLength rq) \<and> length (rq_content rq) \<le> length buf"
proof -
  obtain m r1 where 1: "ParserNext buf (CHR '' '') = (m, r1)" by fastforce
  obtain uri r2 where 2: "ParserNext r1 (CHR '' '') = (uri, r2)" by fastforce
  obtain proto r3 where 3: "ParserNext r2 LF = (proto, r3)" by fastforce
  obtain err hs r4 where 4: "header_loop buf r3 [] = (err, hs, r4)" by (metis prod_cases3)
  have "suffix r3 buf"
    using ParserNext_suffix [of buf] ParserNext_suffix [of r1] ParserNext_suffix [of r2] 1 2 3
    by (metis snd_conv suffix_order.trans)
  from header_loop_suffix [OF this, of "[]"] 4 have "length r4 \<le> length buf"
    by (auto dest: suffix_length_le)
  with assms 1 2 3 4 show ?thesis
    by (auto simp: ParseRequest_def Let_def empty_request_def split: option.splits if_splits)
qed




end
