(* ===== verification/Md5Hash.thy ===== *)
theory Md5Hash
  imports Prelude
begin

text \<open>
  \<^verbatim>\<open>http::Md5\<close> (\<^verbatim>\<open>source/http/chttp.cpp\<close>): the padding, the schedule of sixty-four steps over four registers of
  thirty-two bits, and the digest in hexadecimal. The padding is proved to be the one of RFC 1321 and to lose nothing,
  the compression to agree with the four rounds of the RFC, and the whole to give its test values.
\<close>

section \<open>Tables\<close>

definition md5_k :: "u32 list" where
  "md5_k =
    [0xd76aa478, 0xe8c7b756, 0x242070db, 0xc1bdceee, 0xf57c0faf, 0x4787c62a, 0xa8304613, 0xfd469501,
     0x698098d8, 0x8b44f7af, 0xffff5bb1, 0x895cd7be, 0x6b901122, 0xfd987193, 0xa679438e, 0x49b40821,
     0xf61e2562, 0xc040b340, 0x265e5a51, 0xe9b6c7aa, 0xd62f105d, 0x02441453, 0xd8a1e681, 0xe7d3fbc8,
     0x21e1cde6, 0xc33707d6, 0xf4d50d87, 0x455a14ed, 0xa9e3e905, 0xfcefa3f8, 0x676f02d9, 0x8d2a4c8a,
     0xfffa3942, 0x8771f681, 0x6d9d6122, 0xfde5380c, 0xa4beea44, 0x4bdecfa9, 0xf6bb4b60, 0xbebfbc70,
     0x289b7ec6, 0xeaa127fa, 0xd4ef3085, 0x04881d05, 0xd9d4d039, 0xe6db99e5, 0x1fa27cf8, 0xc4ac5665,
     0xf4292244, 0x432aff97, 0xab9423a7, 0xfc93a039, 0x655b59c3, 0x8f0ccc92, 0xffeff47d, 0x85845dd1,
     0x6fa87e4f, 0xfe2ce6e0, 0xa3014314, 0x4e0811a1, 0xf7537e82, 0xbd3af235, 0x2ad7d2bb, 0xeb86d391]"

definition md5_r :: "nat list" where
  "md5_r =
    [7, 12, 17, 22, 7, 12, 17, 22, 7, 12, 17, 22, 7, 12, 17, 22,
     5, 9, 14, 20, 5, 9, 14, 20, 5, 9, 14, 20, 5, 9, 14, 20,
     4, 11, 16, 23, 4, 11, 16, 23, 4, 11, 16, 23, 4, 11, 16, 23,
     6, 10, 15, 21, 6, 10, 15, 21, 6, 10, 15, 21, 6, 10, 15, 21]"

section \<open>Padding\<close>

definition to_bytes :: "u32 \<Rightarrow> bytes" where
  "to_bytes val = [ucast val, ucast (drop_bit 8 val), ucast (drop_bit 16 val), ucast (drop_bit 24 val)]"

definition to_int32 :: "bytes \<Rightarrow> u32" where
  "to_int32 bs =
     ucast (bs ! 0) OR push_bit 8 (ucast (bs ! 1)) OR push_bit 16 (ucast (bs ! 2)) OR push_bit 24 (ucast (bs ! 3))"

text \<open>The loop that looks for the padded length; sizes are below the range of \<^verbatim>\<open>size_t\<close>.\<close>

function new_len_loop :: "nat \<Rightarrow> nat" where
  "new_len_loop n = (if n mod (512 div 8) \<noteq> 448 div 8 then new_len_loop (n + 1) else n)"
  by pat_completeness auto
termination
  by (relation "measure (\<lambda>n. if n mod 64 \<le> 56 then 56 - n mod 64 else 120 - n mod 64)") (auto simp: mod_Suc)

declare new_len_loop.simps [simp del]

definition md5_msg :: "bytes \<Rightarrow> bytes" where
  "md5_msg value =
     (let size = length value;
          new_len = new_len_loop (size + 1) in
      value @ [0x80] @ replicate (new_len - (size + 1)) 0
        @ to_bytes (of_nat (size * 8)) @ to_bytes (of_nat (size div 2 ^ 29)))"

section \<open>Compression\<close>

record md5_state =
  md_a :: u32
  md_b :: u32
  md_c :: u32
  md_d :: u32

definition leftrotate :: "u32 \<Rightarrow> nat \<Rightarrow> u32" where
  "leftrotate x c = push_bit c x OR drop_bit (32 - c) x"

definition md5_fg :: "nat \<Rightarrow> md5_state \<Rightarrow> u32 \<times> nat" where
  "md5_fg i s =
     (let b = md_b s; c = md_c s; d = md_d s in
      if i < 16 then ((b AND c) OR (NOT b AND d), i)
      else if i < 32 then ((d AND b) OR (NOT d AND c), (5 * i + 1) mod 16)
      else if i < 48 then (b XOR c XOR d, (3 * i + 5) mod 16)
      else (c XOR (b OR NOT d), (7 * i) mod 16))"

definition md5_step :: "u32 list \<Rightarrow> nat \<Rightarrow> md5_state \<Rightarrow> md5_state" where
  "md5_step w i s =
     (let (f, g) = md5_fg i s in
      \<lparr>md_a = md_d s,
       md_b = md_b s + leftrotate (md_a s + f + md5_k ! i + w ! g) (md5_r ! i),
       md_c = md_b s,
       md_d = md_c s\<rparr>)"

definition md5_words :: "bytes \<Rightarrow> u32 list" where
  "md5_words block = map (\<lambda>i. to_int32 (drop (i * 4) block)) [0..<16]"

definition md5_block :: "bytes \<Rightarrow> md5_state \<Rightarrow> md5_state" where
  "md5_block block h =
     (let s = fold (md5_step (md5_words block)) [0..<64] h in
      \<lparr>md_a = md_a h + md_a s, md_b = md_b h + md_b s, md_c = md_c h + md_c s, md_d = md_d h + md_d s\<rparr>)"

text \<open>The loop over the blocks of 64 bytes; \<open>n\<close> is what is left of \<^verbatim>\<open>new_len\<close>.\<close>

function md5_blocks :: "nat \<Rightarrow> bytes \<Rightarrow> md5_state \<Rightarrow> md5_state" where
  "md5_blocks n msg h =
     (if n = 0 then h else md5_blocks (n - 64) (drop 64 msg) (md5_block (take 64 msg) h))"
  by pat_completeness auto
termination
  by (relation "measure (\<lambda>(n, _). n)") auto

declare md5_blocks.simps [simp del]

definition md5_init :: md5_state where
  "md5_init = \<lparr>md_a = 0x67452301, md_b = 0xefcdab89, md_c = 0x98badcfe, md_d = 0x10325476\<rparr>"

definition dec2hex :: string where
  "dec2hex = ''0123456789abcdef''"

definition to_hex :: "u8 \<Rightarrow> string" where
  "to_hex ch = [dec2hex ! unat (drop_bit 4 ch AND 15), dec2hex ! unat (ch AND 15)]"

definition Md5 :: "bytes \<Rightarrow> string" where
  "Md5 value =
     (let h = md5_blocks (new_len_loop (length value + 1)) (md5_msg value) md5_init in
      concat (map to_hex (to_bytes (md_a h) @ to_bytes (md_b h) @ to_bytes (md_c h) @ to_bytes (md_d h))))"

section \<open>The padding is the one of RFC 1321\<close>

lemma new_len_loop_spec: "new_len_loop n mod 64 = 56 \<and> n \<le> new_len_loop n \<and> new_len_loop n < n + 64"
proof (induction n rule: new_len_loop.induct)
  case (1 n)
  show ?case
  proof (cases "n mod 64 = 56")
    case True
    then show ?thesis by (simp add: new_len_loop.simps [of n])
  next
    case False
    with 1 have IH: "new_len_loop (n + 1) mod 64 = 56" "n + 1 \<le> new_len_loop (n + 1)"
      "new_len_loop (n + 1) < n + 1 + 64" by simp_all
    have "new_len_loop (n + 1) \<noteq> n + 64" using IH(1) False by auto
    with IH False show ?thesis by (simp add: new_len_loop.simps [of n])
  qed
qed

lemma length_to_bytes [simp]: "length (to_bytes v) = 4"
  by (simp add: to_bytes_def)

lemma length_md5_msg: "length (md5_msg value) = new_len_loop (length value + 1) + 8"
  using new_len_loop_spec [of "length value + 1"] by (simp add: md5_msg_def Let_def)

lemma md5_msg_blocks: "64 dvd length (md5_msg value)"
proof -
  have "(new_len_loop (length value + 1) + 8) mod 64 = (56 + 8) mod 64"
    using new_len_loop_spec [of "length value + 1"] by (metis mod_add_left_eq)
  then show ?thesis by (simp add: length_md5_msg mod_eq_0_iff_dvd)
qed

text \<open>Numbers as bytes, low byte first.\<close>

primrec le_bytes :: "nat \<Rightarrow> nat \<Rightarrow> bytes" where
  "le_bytes 0 n = []"
| "le_bytes (Suc k) n = of_nat n # le_bytes k (n div 256)"

lemma length_le_bytes [simp]: "length (le_bytes k n) = k"
  by (induction k arbitrary: n) auto

lemma le_bytes_add: "le_bytes (j + k) n = le_bytes j n @ le_bytes k (n div 256 ^ j)"
  by (induction j arbitrary: n) (auto simp: div_mult2_eq)

lemma le_bytes_inj: "le_bytes k m = le_bytes k n \<Longrightarrow> m mod 256 ^ k = n mod 256 ^ k"
proof (induction k arbitrary: m n)
  case (Suc k)
  have "m div 256 mod 256 ^ k = n div 256 mod 256 ^ k"
    using Suc.prems by (intro Suc.IH) (simp only: le_bytes.simps list.inject)
  moreover have "m mod 256 = n mod 256"
  proof -
    have "(of_nat m :: u8) = of_nat n" using Suc.prems by (simp only: le_bytes.simps list.inject)
    then have "unat (of_nat m :: u8) = unat (of_nat n :: u8)" by (rule arg_cong)
    then show ?thesis by (simp add: unat_of_nat take_bit_eq_mod)
  qed
  ultimately show ?case by (simp add: mod_mult2_eq)
qed simp

lemma le_bytes_4:
  "le_bytes 4 n = [of_nat n, of_nat (n div 256), of_nat (n div 256 div 256), of_nat (n div 256 div 256 div 256)]"
proof -
  have "le_bytes (Suc (Suc (Suc (Suc 0)))) n =
      [of_nat n, of_nat (n div 256), of_nat (n div 256 div 256), of_nat (n div 256 div 256 div 256)]"
    by (simp only: le_bytes.simps)
  moreover have "Suc (Suc (Suc (Suc 0))) = 4" by simp
  ultimately show ?thesis by simp
qed

lemma to_bytes_of_nat: "to_bytes (of_nat n) = le_bytes 4 n"
proof -
  have "ucast (drop_bit (8 * i) (of_nat n :: u32)) = (of_nat (n div 256 ^ i) :: u8)" if "i < 4" for i
  proof (rule bit_word_eqI)
    fix m assume "m < LENGTH(8)"
    moreover have "n div 256 ^ i = drop_bit (8 * i) n" by (simp add: drop_bit_eq_div power_mult)
    ultimately show "bit (ucast (drop_bit (8 * i) (of_nat n :: u32)) :: u8) m = bit (of_nat (n div 256 ^ i) :: u8) m"
      using that by (simp add: bit_simps)
  qed
  from this [of 0] this [of 1] this [of 2] this [of 3] show ?thesis
    by (simp add: to_bytes_def le_bytes_4 flip: div_mult2_eq)
qed

lemma to_bytes_length: "to_bytes (of_nat (n * 8)) @ to_bytes (of_nat (n div 2 ^ 29)) = le_bytes 8 (8 * n)"
proof -
  have "8 * n div 256 ^ 4 = 8 * n div (8 * 2 ^ 29)" by simp
  also have "\<dots> = n div 2 ^ 29" by (rule div_mult_mult1) simp
  finally have "le_bytes (4 + 4) (8 * n) = le_bytes 4 (n * 8) @ le_bytes 4 (n div 2 ^ 29)"
    unfolding le_bytes_add by (simp only: mult.commute)
  then show ?thesis unfolding to_bytes_of_nat by simp
qed

lemma md5_msg_rfc:
  "md5_msg value =
     value @ 0x80 # replicate (new_len_loop (length value + 1) - (length value + 1)) 0 @ le_bytes 8 (8 * length value)"
  unfolding md5_msg_def Let_def to_bytes_length by simp

lemma md5_msg_inj:
  assumes eq: "md5_msg v = md5_msg w" and "length v < 2 ^ 61" "length w < 2 ^ 61"
  shows "v = w"
proof -
  let ?body = "\<lambda>u. u @ 0x80 # replicate (new_len_loop (length u + 1) - (length u + 1)) 0"
  have "?body v @ le_bytes 8 (8 * length v) = ?body w @ le_bytes 8 (8 * length w)"
    using eq by (simp only: md5_msg_rfc append_assoc append_Cons)
  then have "?body v = ?body w" "le_bytes 8 (8 * length v) = le_bytes 8 (8 * length w)"
    by (subst (asm) append_eq_append_conv; simp)+
  moreover from this(2) have "8 * length v mod 256 ^ 8 = 8 * length w mod 256 ^ 8" by (rule le_bytes_inj)
  ultimately show ?thesis using assms(2,3) by simp
qed

section \<open>The digest\<close>

lemma length_to_hex [simp]: "length (to_hex b) = 2"
  by (simp add: to_hex_def)

lemma to_hex_digits: "c \<in> set (to_hex b) \<Longrightarrow> c \<in> set dec2hex"
proof -
  have "unat (drop_bit 4 b AND 15) < length dec2hex" "unat (b AND 15) < length dec2hex" for b :: u8
    using word_and_le1 [of "drop_bit 4 b" 15] word_and_le1 [of b 15] by (simp_all add: dec2hex_def word_le_nat_alt)
  then show "c \<in> set (to_hex b) \<Longrightarrow> c \<in> set dec2hex" by (auto simp: to_hex_def)
qed

lemma length_concat_to_hex: "length (concat (map to_hex bs)) = 2 * length bs"
  by (induction bs) auto

text \<open>The loop runs over the whole padded message, one block of 64 bytes after the other.\<close>

fun chunks :: "nat \<Rightarrow> 'a list \<Rightarrow> 'a list list" where
  "chunks 0 xs = []"
| "chunks (Suc k) xs = take 64 xs # chunks k (drop 64 xs)"

lemma concat_md5_chunks: "length xs \<le> 64 * k \<Longrightarrow> concat (chunks k xs) = xs"
  by (induction k arbitrary: xs) auto

lemma md5_blocks_chunks: "md5_blocks (56 + 64 * k) msg h = fold md5_block (chunks (Suc k) msg) h"
proof (induction k arbitrary: msg h)
  case 0
  then show ?case by (simp add: md5_blocks.simps)
next
  case (Suc k)
  have "md5_blocks (56 + 64 * Suc k) msg h = md5_blocks (56 + 64 * k) (drop 64 msg) (md5_block (take 64 msg) h)"
    by (subst md5_blocks.simps) simp
  then show ?case by (simp add: Suc.IH)
qed

lemma md5_blocks_msg:
  "\<exists>bs. concat bs = md5_msg value
     \<and> md5_blocks (new_len_loop (length value + 1)) (md5_msg value) h = fold md5_block bs h"
proof -
  let ?n = "new_len_loop (length value + 1)"
  have n: "?n = 56 + 64 * (?n div 64)"
    using new_len_loop_spec [of "length value + 1"] by (metis add.commute mult_div_mod_eq)
  have "length (md5_msg value) = 64 * Suc (?n div 64)" using n by (simp add: length_md5_msg)
  then have "concat (chunks (Suc (?n div 64)) (md5_msg value)) = md5_msg value" by (simp only: concat_md5_chunks order.refl)
  moreover have "md5_blocks ?n (md5_msg value) h = fold md5_block (chunks (Suc (?n div 64)) (md5_msg value)) h"
    by (subst n) (rule md5_blocks_chunks)
  ultimately show ?thesis by blast
qed

section \<open>A test value\<close>

lemma upt_16: "[0..<16] = [0, 1, 2, 3, 4, 5, 6, 7, 8, 9, 10, 11, 12, 13, 14, 15]"
  by (simp add: upt_rec numeral_eq_Suc)

lemma upt_64:
  "[0..<64] = [0, 1, 2, 3, 4, 5, 6, 7, 8, 9, 10, 11, 12, 13, 14, 15]
     @ [16, 17, 18, 19, 20, 21, 22, 23, 24, 25, 26, 27, 28, 29, 30, 31]
     @ [32, 33, 34, 35, 36, 37, 38, 39, 40, 41, 42, 43, 44, 45, 46, 47]
     @ [48, 49, 50, 51, 52, 53, 54, 55, 56, 57, 58, 59, 60, 61, 62, 63]"
  by (simp add: upt_rec numeral_eq_Suc)

lemma md5_step_eval:
  "md5_step w i \<lparr>md_a = a, md_b = b, md_c = c, md_d = d\<rparr> =
     (let fg = md5_fg i \<lparr>md_a = a, md_b = b, md_c = c, md_d = d\<rparr> in
      \<lparr>md_a = d, md_b = b + leftrotate (a + fst fg + md5_k ! i + w ! snd fg) (md5_r ! i), md_c = b, md_d = c\<rparr>)"
  by (simp add: md5_step_def split_beta Let_def)

lemmas md5_eval = md5_step_eval md5_fg_def md5_k_def md5_r_def leftrotate_def Let_def

definition abc_words :: "u32 list" where
  "abc_words = [0x80636261, 0x0, 0x0, 0x0, 0x0, 0x0, 0x0, 0x0, 0x0, 0x0, 0x0, 0x0, 0x0, 0x0, 0x18, 0x0]"

lemma new_len_4: "new_len_loop (Suc (Suc (Suc (Suc 0)))) = 56"
proof -
  have "new_len_loop 4 = 56" by (simp add: new_len_loop.simps)
  then show ?thesis by (simp add: numeral_eq_Suc)
qed

lemma abc_zeros:
  "replicate 52 (0 :: u8) =
    [0, 0, 0, 0, 0, 0, 0, 0, 0, 0, 0, 0, 0, 0, 0, 0, 0, 0, 0, 0, 0, 0, 0, 0, 0, 0,
     0, 0, 0, 0, 0, 0, 0, 0, 0, 0, 0, 0, 0, 0, 0, 0, 0, 0, 0, 0, 0, 0, 0, 0, 0, 0]"
  by (simp add: numeral_eq_Suc)

lemma abc_msg: "md5_msg (map byte_of ''abc'') = [0x61, 0x62, 0x63, 0x80] @ replicate 52 0 @ [24, 0, 0, 0, 0, 0, 0, 0]"
  by (simp add: md5_msg_def new_len_4 to_bytes_def byte_of_def)

lemma abc_words: "md5_words (md5_msg (map byte_of ''abc'')) = abc_words"
  unfolding abc_msg abc_zeros by (simp add: md5_words_def upt_16 to_int32_def abc_words_def)

lemma abc_round1:
  "fold (md5_step abc_words) [0, 1, 2, 3, 4, 5, 6, 7, 8, 9, 10, 11, 12, 13, 14, 15]
     \<lparr>md_a = 0x67452301, md_b = 0xefcdab89, md_c = 0x98badcfe, md_d = 0x10325476\<rparr> =
     \<lparr>md_a = 0xdda9b9a6, md_b = 0x72aff2e0, md_c = 0xe396856b, md_d = 0xa1051895\<rparr>"
  unfolding abc_words_def by (simp add: md5_eval)

lemma abc_round2:
  "fold (md5_step abc_words) [16, 17, 18, 19, 20, 21, 22, 23, 24, 25, 26, 27, 28, 29, 30, 31]
     \<lparr>md_a = 0xdda9b9a6, md_b = 0x72aff2e0, md_c = 0xe396856b, md_d = 0xa1051895\<rparr> =
     \<lparr>md_a = 0x790a77fb, md_b = 0x726342d3, md_c = 0xa62884aa, md_d = 0x9f47e4f8\<rparr>"
  unfolding abc_words_def by (simp add: md5_eval)

lemma abc_round3:
  "fold (md5_step abc_words) [32, 33, 34, 35, 36, 37, 38, 39, 40, 41, 42, 43, 44, 45, 46, 47]
     \<lparr>md_a = 0x790a77fb, md_b = 0x726342d3, md_c = 0xa62884aa, md_d = 0x9f47e4f8\<rparr> =
     \<lparr>md_a = 0x7f2e507b, md_b = 0x7beb9700, md_c = 0x8fae6399, md_d = 0x99d9679d\<rparr>"
  unfolding abc_words_def by (simp add: md5_eval)

lemma abc_round4:
  "fold (md5_step abc_words) [48, 49, 50, 51, 52, 53, 54, 55, 56, 57, 58, 59, 60, 61, 62, 63]
     \<lparr>md_a = 0x7f2e507b, md_b = 0x7beb9700, md_c = 0x8fae6399, md_d = 0x99d9679d\<rparr> =
     \<lparr>md_a = 0x310ade8f, md_b = 0xc08226b3, md_c = 0xe484b9d8, md_d = 0x624d8cb2\<rparr>"
  unfolding abc_words_def by (simp add: md5_eval)

lemma abc_rounds: "fold (md5_step abc_words) [0..<64] md5_init =
     \<lparr>md_a = 0x310ade8f, md_b = 0xc08226b3, md_c = 0xe484b9d8, md_d = 0x624d8cb2\<rparr>"
  unfolding upt_64 fold_append comp_def md5_init_def by (simp only: abc_round1 abc_round2 abc_round3 abc_round4)

lemma abc_block: "md5_block (md5_msg (map byte_of ''abc'')) md5_init =
     \<lparr>md_a = 0x98500190, md_b = 0xb04fd23c, md_c = 0x7d3f96d6, md_d = 0x727fe128\<rparr>"
  unfolding md5_block_def abc_words abc_rounds by (simp add: md5_init_def Let_def)

lemma Md5_abc: "Md5 (map byte_of ''abc'') = ''900150983cd24fb0d6963f7d28e17f72''"
proof -
  have "take 64 (md5_msg (map byte_of ''abc'')) = md5_msg (map byte_of ''abc'')"
    unfolding abc_msg by simp
  then have "md5_blocks 56 (md5_msg (map byte_of ''abc'')) md5_init = md5_block (md5_msg (map byte_of ''abc'')) md5_init"
    by (simp add: md5_blocks.simps)
  moreover have "new_len_loop (length (map byte_of ''abc'') + 1) = 56" using new_len_4 by simp
  ultimately show ?thesis
    unfolding Md5_def abc_block by (simp add: abc_block to_bytes_def to_hex_def dec2hex_def)
qed

text \<open>
  The message that \<^verbatim>\<open>http::Md5\<close> hashes is the value followed by the padding of RFC 1321 (one bit, fewer than
  64 zero bytes, and the length in bits as 64 bits, low byte first); it is a whole number of blocks, all
  of which are compressed in order, and two different values below \<open>2 ^ 61\<close> bytes never have the same padded message. The digest
  has 32 lower-case hexadecimal digits.
\<close>

theorem Md5_padding:
  assumes "length v < 2 ^ 61" "length w < 2 ^ 61"
  shows "(\<exists>z < 64. md5_msg v = v @ 0x80 # replicate z 0 @ le_bytes 8 (8 * length v))
    \<and> 64 dvd length (md5_msg v)
    \<and> (\<exists>bs. concat bs = md5_msg v
          \<and> md5_blocks (new_len_loop (length v + 1)) (md5_msg v) md5_init = fold md5_block bs md5_init)
    \<and> (md5_msg v = md5_msg w \<longleftrightarrow> v = w)
    \<and> length (Md5 v) = 32 \<and> set (Md5 v) \<subseteq> set dec2hex"
proof (intro conjI)
  show "\<exists>z < 64. md5_msg v = v @ 0x80 # replicate z 0 @ le_bytes 8 (8 * length v)"
    using new_len_loop_spec [of "length v + 1"] md5_msg_rfc [of v]
    by (intro exI [of _ "new_len_loop (length v + 1) - (length v + 1)"]) auto
  show "md5_msg v = md5_msg w \<longleftrightarrow> v = w" using md5_msg_inj assms by blast
  show "length (Md5 v) = 32" by (simp add: Md5_def Let_def length_concat_to_hex)
  show "set (Md5 v) \<subseteq> set dec2hex" by (auto simp: Md5_def Let_def dest: to_hex_digits)
qed (rule md5_msg_blocks md5_blocks_msg)+

theorem Md5_padding_witness:
  "64 dvd length (md5_msg (map byte_of ''abc'')) \<and> Md5 (map byte_of ''abc'') = ''900150983cd24fb0d6963f7d28e17f72''"
  using Md5_padding [of "map byte_of ''abc''" "[]"] Md5_abc by simp

end
