(* ===== verification/Regex.thy ===== *)
theory Regex
  imports Prelude
begin

text \<open>
  The part of \<^verbatim>\<open>std::regex\<close> (ECMAScript grammar) that the addresses, the log and the authentication header
  use: a backtracking matcher whose results are listed in the order in which it tries them, so that the first
  one is the one the library reports, with the text of every group. An iteration is over one class of
  characters, which is how every expression of the program is written. For expressions without back references and
  assertions the matcher accepts exactly the language of the expression.
\<close>

section \<open>Expressions and the matcher\<close>

datatype regex =
    Eps
  | Cls "char \<Rightarrow> bool"
  | Seq regex regex
  | Alt regex regex
  | Many "char \<Rightarrow> bool"
  | ManyLazy "char \<Rightarrow> bool"
  | Grp nat regex
  | BackRef nat
  | NotAhead regex
  | Eol

type_synonym captures = "(nat \<times> string) list"

text \<open>What is left after none, one, two \<open>\<dots>\<close> characters of the class.\<close>

fun class_rests :: "(char \<Rightarrow> bool) \<Rightarrow> string \<Rightarrow> string list" where
  "class_rests P [] = [[]]"
| "class_rests P (x # s) = (x # s) # (if P x then class_rests P s else [])"

primrec matches :: "regex \<Rightarrow> string \<Rightarrow> captures \<Rightarrow> (string \<times> captures) list" where
  "matches Eps s c = [(s, c)]"
| "matches (Cls P) s c = (case s of [] \<Rightarrow> [] | x # s' \<Rightarrow> if P x then [(s', c)] else [])"
| "matches (Seq r1 r2) s c = concat (map (\<lambda>(s', c'). matches r2 s' c') (matches r1 s c))"
| "matches (Alt r1 r2) s c = matches r1 s c @ matches r2 s c"
| "matches (Many P) s c = map (\<lambda>t. (t, c)) (rev (class_rests P s))"
| "matches (ManyLazy P) s c = map (\<lambda>t. (t, c)) (class_rests P s)"
| "matches (Grp n r) s c =
     map (\<lambda>(s', c'). (s', (n, take (length s - length s') s) # c')) (matches r s c)"
| "matches (BackRef n) s c =
     (case map_of c n of
        None \<Rightarrow> []
      | Some v \<Rightarrow> if starts_with v s then [(drop (length v) s, c)] else [])"
| "matches (NotAhead r) s c = (if matches r s c = [] then [(s, c)] else [])"
| "matches Eol s c = (if s = [] then [(s, c)] else [])"

text \<open>\<^verbatim>\<open>std::regex_match\<close>: the first way to match that uses up the whole text. A group that took no part reads as
  empty.\<close>

definition regex_match :: "regex \<Rightarrow> string \<Rightarrow> captures option" where
  "regex_match r s = map_option snd (find (\<lambda>(s', c). s' = []) (matches r s []))"

definition group :: "captures \<Rightarrow> nat \<Rightarrow> string" where
  "group c n = (case map_of c n of None \<Rightarrow> [] | Some t \<Rightarrow> t)"

text \<open>\<^verbatim>\<open>std::regex_iterator\<close>: the leftmost match, then the leftmost one in what follows it (for expressions that
  never match the empty text).\<close>

fun regex_search :: "regex \<Rightarrow> string \<Rightarrow> (string \<times> captures) option" where
  "regex_search r s =
     (case matches r s [] of
        m # _ \<Rightarrow> Some m
      | [] \<Rightarrow> (case s of [] \<Rightarrow> None | _ # s' \<Rightarrow> regex_search r s'))"

declare regex_search.simps [simp del]

function regex_iterate :: "regex \<Rightarrow> string \<Rightarrow> captures list" where
  "regex_iterate r s =
     (case regex_search r s of
        None \<Rightarrow> []
      | Some (s', c) \<Rightarrow> c # (if length s' < length s then regex_iterate r s' else []))"
  by pat_completeness auto
termination
  by (relation "measure (\<lambda>(_, s). length s)") auto

declare regex_iterate.simps [simp del]

section \<open>Notation of the expressions\<close>

definition Lit :: "string \<Rightarrow> regex" where
  "Lit s = foldr (\<lambda>x r. Seq (Cls (\<lambda>y. y = x)) r) s Eps"

definition Opt :: "regex \<Rightarrow> regex" where
  "Opt r = Alt r Eps"

definition Some1 :: "(char \<Rightarrow> bool) \<Rightarrow> regex" where
  "Some1 P = Seq (Cls P) (Many P)"

fun Seqs :: "regex list \<Rightarrow> regex" where
  "Seqs [] = Eps"
| "Seqs [r] = r"
| "Seqs (r # rs) = Seq r (Seqs rs)"

text \<open>Between \<open>m\<close> and \<open>m + n\<close> characters of a class.\<close>

fun upto_opt :: "nat \<Rightarrow> (char \<Rightarrow> bool) \<Rightarrow> regex" where
  "upto_opt 0 P = Eps"
| "upto_opt (Suc n) P = Opt (Seq (Cls P) (upto_opt n P))"

fun times :: "nat \<Rightarrow> nat \<Rightarrow> (char \<Rightarrow> bool) \<Rightarrow> regex" where
  "times 0 n P = upto_opt n P"
| "times (Suc m) n P = Seq (Cls P) (times m n P)"

definition word_char :: "char \<Rightarrow> bool" where
  "word_char c \<longleftrightarrow> isdigit c \<or> c = CHR ''_''
     \<or> (65 \<le> (of_char c :: nat) \<and> (of_char c :: nat) \<le> 90) \<or> (97 \<le> (of_char c :: nat) \<and> (of_char c :: nat) \<le> 122)"

definition dot :: "char \<Rightarrow> bool" where
  "dot c \<longleftrightarrow> c \<noteq> LF \<and> c \<noteq> CR"

section \<open>The language of an expression\<close>

primrec lang :: "regex \<Rightarrow> string set" where
  "lang Eps = {[]}"
| "lang (Cls P) = {[x] | x. P x}"
| "lang (Seq r1 r2) = {s @ t | s t. s \<in> lang r1 \<and> t \<in> lang r2}"
| "lang (Alt r1 r2) = lang r1 \<union> lang r2"
| "lang (Many P) = {s. \<forall>x \<in> set s. P x}"
| "lang (ManyLazy P) = {s. \<forall>x \<in> set s. P x}"
| "lang (Grp n r) = lang r"
| "lang (BackRef n) = {}"
| "lang (NotAhead r) = {}"
| "lang Eol = {}"

primrec plain :: "regex \<Rightarrow> bool" where
  "plain Eps = True"
| "plain (Cls P) = True"
| "plain (Seq r1 r2) = (plain r1 \<and> plain r2)"
| "plain (Alt r1 r2) = (plain r1 \<and> plain r2)"
| "plain (Many P) = True"
| "plain (ManyLazy P) = True"
| "plain (Grp n r) = plain r"
| "plain (BackRef n) = False"
| "plain (NotAhead r) = False"
| "plain Eol = False"

lemma set_class_rests: "t \<in> set (class_rests P s) \<longleftrightarrow> (\<exists>u. s = u @ t \<and> (\<forall>x \<in> set u. P x))"
proof (induction s)
  case (Cons x s)
  show ?case
  proof (cases "t = x # s")
    case False
    then have "(\<exists>u. x # s = u @ t \<and> (\<forall>y \<in> set u. P y)) \<longleftrightarrow> P x \<and> (\<exists>u. s = u @ t \<and> (\<forall>y \<in> set u. P y))"
      by (auto simp: Cons_eq_append_conv)
    with False Cons.IH show ?thesis by simp
  qed auto
qed auto

lemma matches_suffix: "(s', c') \<in> set (matches r s c) \<Longrightarrow> \<exists>t. s = t @ s'"
proof (induction r arbitrary: s c s' c')
  case (Seq r1 r2)
  then show ?case by fastforce
next
  case (BackRef n)
  then show ?case by (auto split: option.splits if_splits) (metis append_take_drop_id)
qed (auto simp: set_class_rests split: list.splits if_splits)

lemma set_matches_Seq:
  "(s', c') \<in> set (matches (Seq r1 r2) s c) \<longleftrightarrow>
     (\<exists>s1 c1. (s1, c1) \<in> set (matches r1 s c) \<and> (s', c') \<in> set (matches r2 s1 c1))"
  by fastforce

lemma set_matches_Alt:
  "(s', c') \<in> set (matches (Alt r1 r2) s c) \<longleftrightarrow>
     (s', c') \<in> set (matches r1 s c) \<or> (s', c') \<in> set (matches r2 s c)"
  by simp

lemma set_matches_Cls:
  "(s', c') \<in> set (matches (Cls P) s c) \<longleftrightarrow> c' = c \<and> (\<exists>x. s = x # s' \<and> P x)"
  by (auto split: list.splits)

lemma set_matches_Many:
  "(s', c') \<in> set (matches (Many P) s c) \<longleftrightarrow> c' = c \<and> (\<exists>t. s = t @ s' \<and> (\<forall>x \<in> set t. P x))"
  "(s', c') \<in> set (matches (ManyLazy P) s c) \<longleftrightarrow> c' = c \<and> (\<exists>t. s = t @ s' \<and> (\<forall>x \<in> set t. P x))"
  by (auto simp: set_class_rests)

lemma set_matches_Grp:
  "(s', c') \<in> set (matches (Grp n r) s c) \<longleftrightarrow>
     (\<exists>t c1. c' = (n, t) # c1 \<and> s = t @ s' \<and> (s', c1) \<in> set (matches r s c))"
proof
  assume "(s', c') \<in> set (matches (Grp n r) s c)"
  then obtain c1 where "(s', c1) \<in> set (matches r s c)" "c' = (n, take (length s - length s') s) # c1" by auto
  moreover from this(1) obtain t where "s = t @ s'" using matches_suffix by blast
  ultimately show "\<exists>t c1. c' = (n, t) # c1 \<and> s = t @ s' \<and> (s', c1) \<in> set (matches r s c)" by auto
next
  assume "\<exists>t c1. c' = (n, t) # c1 \<and> s = t @ s' \<and> (s', c1) \<in> set (matches r s c)"
  then show "(s', c') \<in> set (matches (Grp n r) s c)" by (auto intro!: rev_image_eqI)
qed

lemma set_matches_Eps: "(s', c') \<in> set (matches Eps s c) \<longleftrightarrow> s' = s \<and> c' = c"
  by auto

lemma set_matches_Some1:
  "(s', c') \<in> set (matches (Some1 P) s c) \<longleftrightarrow> c' = c \<and> (\<exists>t. s = t @ s' \<and> t \<noteq> [] \<and> (\<forall>x \<in> set t. P x))"
proof
  assume "(s', c') \<in> set (matches (Some1 P) s c)"
  then obtain x t where "s = x # t @ s'" "P x" "\<forall>y \<in> set t. P y" "c' = c"
    by (auto simp: Some1_def set_matches_Seq set_matches_Cls set_matches_Many simp del: matches.simps)
  then show "c' = c \<and> (\<exists>t. s = t @ s' \<and> t \<noteq> [] \<and> (\<forall>x \<in> set t. P x))"
    by (intro conjI exI [of _ "x # t"]) auto
next
  assume "c' = c \<and> (\<exists>t. s = t @ s' \<and> t \<noteq> [] \<and> (\<forall>x \<in> set t. P x))"
  then obtain t where "c' = c" "s = t @ s'" "t \<noteq> []" "\<forall>x \<in> set t. P x" by blast
  then show "(s', c') \<in> set (matches (Some1 P) s c)"
    by (cases t) (auto simp: Some1_def set_matches_Seq set_matches_Cls set_matches_Many simp del: matches.simps)
qed

lemma set_matches_Lit: "(s', c') \<in> set (matches (Lit l) s c) \<longleftrightarrow> c' = c \<and> s = l @ s'"
  by (induction l arbitrary: s)
    (auto simp: Lit_def set_matches_Seq set_matches_Cls set_matches_Eps simp del: matches.simps)

lemma set_matches_Opt:
  "(s', c') \<in> set (matches (Opt r) s c) \<longleftrightarrow> (s', c') \<in> set (matches r s c) \<or> s' = s \<and> c' = c"
  by (auto simp: Opt_def)

lemmas set_matches = set_matches_Seq set_matches_Alt set_matches_Cls set_matches_Many set_matches_Grp set_matches_Eps
  set_matches_Some1 set_matches_Lit set_matches_Opt

text \<open>Soundness and completeness of the matcher.\<close>

lemma matches_lang:
  "plain r \<Longrightarrow> (s', c') \<in> set (matches r s c) \<Longrightarrow> \<exists>t. s = t @ s' \<and> t \<in> lang r"
proof (induction r arbitrary: s c s' c')
  case (Seq r1 r2)
  then obtain s1 c1 where "(s1, c1) \<in> set (matches r1 s c)" "(s', c') \<in> set (matches r2 s1 c1)"
    unfolding set_matches_Seq by blast
  with Seq obtain t u where "s = t @ s1" "t \<in> lang r1" "s1 = u @ s'" "u \<in> lang r2"
    by (metis plain.simps(3))
  then show ?case by (auto intro: exI [of _ "t @ u"])
next
  case (Alt r1 r2)
  then show ?case by fastforce
qed (auto simp: set_class_rests split: list.splits if_splits)

lemma lang_matches:
  "plain r \<Longrightarrow> t \<in> lang r \<Longrightarrow> \<exists>c'. (s', c') \<in> set (matches r (t @ s') c)"
proof (induction r arbitrary: t s' c)
  case (Seq r1 r2)
  then obtain a b where t: "t = a @ b" "a \<in> lang r1" "b \<in> lang r2" by auto
  with Seq obtain c1 where "(b @ s', c1) \<in> set (matches r1 (a @ b @ s') c)" by (metis plain.simps(3))
  moreover obtain c2 where "(s', c2) \<in> set (matches r2 (b @ s') c1)" using Seq t by (metis plain.simps(3))
  ultimately show ?case unfolding set_matches_Seq t(1) by (metis append_assoc)
next
  case (Alt r1 r2)
  then show ?case by (metis Un_iff lang.simps(4) plain.simps(4) set_matches_Alt)
next
  case (Grp n r)
  then obtain c' where "(s', c') \<in> set (matches r (t @ s') c)" by (metis lang.simps(7) plain.simps(7))
  then show ?case unfolding set_matches_Grp by blast
qed (auto simp: set_class_rests image_iff)

lemma regex_match_Some: "regex_match r s = Some c \<Longrightarrow> ([], c) \<in> set (matches r s [])"
  by (auto simp: regex_match_def find_Some_iff) (metis nth_mem)

lemma regex_match_iff_lang: "plain r \<Longrightarrow> regex_match r s \<noteq> None \<longleftrightarrow> s \<in> lang r"
proof
  assume "plain r" "regex_match r s \<noteq> None"
  then show "s \<in> lang r" using matches_lang regex_match_Some by fastforce
next
  assume "plain r" "s \<in> lang r"
  then obtain c' where "([], c') \<in> set (matches r s [])" using lang_matches [of r s "[]" "[]"] by auto
  then have "find (\<lambda>(s', c). s' = []) (matches r s []) \<noteq> None" unfolding find_None_iff by blast
  then show "regex_match r s \<noteq> None" by (simp add: regex_match_def)
qed

lemma matches_none:
  "plain r \<Longrightarrow> (\<And>t s'. s = t @ s' \<Longrightarrow> t \<notin> lang r) \<Longrightarrow> matches r s c = []"
  using matches_lang [of r _ _ s c] by (cases "matches r s c") (auto, metis list.set_intros(1) surj_pair)

section \<open>The first match\<close>

text \<open>\<open>leads r s c s' c'\<close>: the first way in which \<open>r\<close> matches at the front of \<open>s\<close> leaves \<open>s'\<close>.\<close>

definition leads :: "regex \<Rightarrow> string \<Rightarrow> captures \<Rightarrow> string \<Rightarrow> captures \<Rightarrow> bool" where
  "leads r s c s' c' \<longleftrightarrow> (\<exists>ms. matches r s c = (s', c') # ms)"

lemma leads_Eps: "leads Eps s c s c"
  by (simp add: leads_def)

lemma leads_Cls: "P x \<Longrightarrow> leads (Cls P) (x # s) c s c"
  by (simp add: leads_def)

lemma leads_Seq: "leads r1 s c s1 c1 \<Longrightarrow> leads r2 s1 c1 s2 c2 \<Longrightarrow> leads (Seq r1 r2) s c s2 c2"
  by (auto simp: leads_def)

lemma leads_Alt: "leads r1 s c s' c' \<Longrightarrow> leads (Alt r1 r2) s c s' c'"
  by (auto simp: leads_def)

lemma leads_Alt2: "matches r1 s c = [] \<Longrightarrow> leads r2 s c s' c' \<Longrightarrow> leads (Alt r1 r2) s c s' c'"
  by (auto simp: leads_def)

lemma leads_Opt: "leads r s c s' c' \<Longrightarrow> leads (Opt r) s c s' c'"
  by (simp add: Opt_def leads_Alt)

lemma leads_Opt_none: "matches r s c = [] \<Longrightarrow> leads (Opt r) s c s c"
  by (simp add: Opt_def leads_Alt2 leads_Eps)

lemma last_class_rests:
  "\<forall>x \<in> set a. P x \<Longrightarrow> b = [] \<or> \<not> P (hd b) \<Longrightarrow> last (class_rests P (a @ b)) = b \<and> class_rests P (a @ b) \<noteq> []"
  by (induction a) (cases b; auto)+

lemma leads_Many:
  assumes "\<forall>x \<in> set a. P x" "b = [] \<or> \<not> P (hd b)"
  shows "leads (Many P) (a @ b) c b c"
proof -
  obtain cs where "class_rests P (a @ b) = cs @ [b]"
    using last_class_rests [OF assms] by (metis append_butlast_last_id)
  then show ?thesis by (simp add: leads_def)
qed

lemma leads_Some1:
  assumes "a \<noteq> []" "\<forall>x \<in> set a. P x" "b = [] \<or> \<not> P (hd b)"
  shows "leads (Some1 P) (a @ b) c b c"
proof -
  obtain x a' where a: "a = x # a'" using assms(1) by (cases a) auto
  have "leads (Cls P) (x # a' @ b) c (a' @ b) c" using assms(2) a by (intro leads_Cls) simp
  moreover have "leads (Many P) (a' @ b) c b c" using assms a by (intro leads_Many) simp_all
  ultimately show ?thesis unfolding Some1_def a by (metis append_Cons leads_Seq)
qed

lemma leads_Lit: "leads (Lit l) (l @ s) c s c"
proof (induction l)
  case (Cons x l)
  have "leads (Seq (Cls (\<lambda>y. y = x)) (Lit l)) (x # l @ s) c s c"
    by (rule leads_Seq [OF leads_Cls Cons.IH]) simp
  then show ?case by (simp add: Lit_def)
qed (simp add: Lit_def leads_Eps)

lemma leads_Grp: "leads r (t @ s) c s c' \<Longrightarrow> leads (Grp n r) (t @ s) c s ((n, t) # c')"
  by (auto simp: leads_def)

lemma regex_match_leads: "leads r s [] [] c \<Longrightarrow> regex_match r s = Some c"
  by (auto simp: leads_def regex_match_def)

lemmas leads_intros = leads_Eps leads_Cls leads_Seq leads_Opt leads_Many leads_Some1 leads_Lit leads_Grp

end
