(* ===== verification/Auth.thy ===== *)
theory Auth
  imports Md5Hash Regex Base64 HttpText
begin

text \<open>
  HTTP authentication (\<^verbatim>\<open>http::cauthchallenge\<close>, \<^verbatim>\<open>include/http/chttp.h\<close> and \<^verbatim>\<open>source/http/chttp.cpp\<close>): the challenge, the
  authorization header that answers it, and the check of that header, for the schemes basic and digest.
\<close>

section \<open>The challenge\<close>

datatype auth_t = AuthNone | AuthBasic | AuthDigest | AuthToken | AuthDisable

record cauthchallenge =
  ac_Stale :: bool
  ac_Type :: auth_t
  ac_Realm :: string
  ac_Domain :: string
  ac_Nonce :: string
  ac_Opaque :: string
  ac_Qop :: string
  ac_Algorithm :: string
  ac_User :: string
  ac_Pwd :: string
  ac_Response :: string

definition cauthchallenge_new :: "auth_t \<Rightarrow> string \<Rightarrow> string \<Rightarrow> string \<Rightarrow> cauthchallenge" where
  "cauthchallenge_new type realm user pwd =
     \<lparr>ac_Stale = False, ac_Type = type, ac_Realm = realm, ac_Domain = [], ac_Nonce = [], ac_Opaque = [], ac_Qop = [],
      ac_Algorithm = [], ac_User = user, ac_Pwd = pwd, ac_Response = []\<rparr>"

definition auth_Reset :: "cauthchallenge \<Rightarrow> cauthchallenge" where
  "auth_Reset ac = (cauthchallenge_new AuthNone [] [] [])\<lparr>ac_Algorithm := ''md5''\<rparr>"

section \<open>Reading the header\<close>

abbreviation quote :: char where
  "quote \<equiv> CHR 0x22"

text \<open>The expression \<^verbatim>\<open>([\w-]+)=("|)(?!\")(.*?)\2(,|$)\<close>.\<close>

definition opt_char :: "char \<Rightarrow> bool" where
  "opt_char c \<longleftrightarrow> word_char c \<or> c = CHR ''-''"

definition re_value :: regex where
  "re_value =
     Seq (Grp 3 (ManyLazy dot)) (Seq (BackRef 2) (Grp 4 (Alt (Lit '','') Eol)))"

definition re_keyvalue :: regex where
  "re_keyvalue =
     Seq (Grp 1 (Some1 opt_char)) (Seq (Lit ''='')
       (Seq (Grp 2 (Alt (Lit [quote]) Eps)) (Seq (NotAhead (Lit [quote])) re_value)))"

text \<open>One turn of the loop, for the option and its value (groups 1 and 3); the state has \<^verbatim>\<open>OptStale\<close> as well.\<close>

definition digest_option :: "string \<times> string \<Rightarrow> string \<times> cauthchallenge \<Rightarrow> string \<times> cauthchallenge" where
  "digest_option match st =
     (let (opt, val) = match; (stale, ac) = st in
      if starts_with ''realm'' opt then (stale, ac\<lparr>ac_Realm := val\<rparr>)
      else if starts_with ''domain'' opt then (stale, ac\<lparr>ac_Domain := val\<rparr>)
      else if starts_with ''nonce'' opt then (stale, ac\<lparr>ac_Nonce := val\<rparr>)
      else if starts_with ''opaque'' opt then (stale, ac\<lparr>ac_Opaque := val\<rparr>)
      else if starts_with ''stale'' opt then (val, ac)
      else if starts_with ''response'' opt then (stale, ac\<lparr>ac_Response := val\<rparr>)
      else if starts_with ''algorithm'' opt then (stale, ac\<lparr>ac_Algorithm := val\<rparr>)
      else if starts_with ''qop'' opt then (stale, ac\<lparr>ac_Qop := val\<rparr>)
      else (stale, ac))"

definition FromDigestHeader :: "string \<Rightarrow> cauthchallenge \<Rightarrow> cauthchallenge" where
  "FromDigestHeader authenticate_header ac =
     (let found = map (\<lambda>match. (group match 1, group match 3)) (regex_iterate re_keyvalue (drop 7 authenticate_header));
          (stale, ac') = fold digest_option found ([], ac) in
      ac'\<lparr>ac_Stale := (case stale of [] \<Rightarrow> False | c # _ \<Rightarrow> c = CHR ''t'' \<or> c = CHR ''T'')\<rparr>)"

definition SetFromHeader :: "string \<Rightarrow> cauthchallenge \<Rightarrow> cauthchallenge" where
  "SetFromHeader authenticate_header ac =
     (let ac = auth_Reset ac in
      if authenticate_header = [] then ac
      else if strncasecmp_eq authenticate_header ''Digest ''
      then (FromDigestHeader authenticate_header ac)\<lparr>ac_Type := AuthDigest\<rparr>
      else if strncasecmp_eq authenticate_header ''Basic '' then ac\<lparr>ac_Type := AuthBasic\<rparr>
      else ac)"

section \<open>Digest and headers\<close>

definition md5_str :: "string \<Rightarrow> string" where
  "md5_str s = Md5 (map byte_of s)"

definition Digest :: "cauthchallenge \<Rightarrow> string \<Rightarrow> string \<Rightarrow> string \<Rightarrow> string \<Rightarrow> string outcome" where
  "Digest ac user pwd method uri =
     bind_outcome (Unquote user) (\<lambda>u.
     bind_outcome (Unquote (ac_Realm ac)) (\<lambda>r.
     bind_outcome (Unquote pwd) (\<lambda>p.
       Inr (md5_str (md5_str (u @ '':'' @ r @ '':'' @ p) @ '':'' @ ac_Nonce ac @ '':'' @ md5_str (method @ '':'' @ uri))))))"

definition GetAuthenticateHeader :: "cauthchallenge \<Rightarrow> string \<Rightarrow> string \<times> string" where
  "GetAuthenticateHeader ac nonce =
     (case ac_Type ac of
        AuthBasic \<Rightarrow> (''WWW-Authenticate'', ''Basic realm='' @ ac_Realm ac)
      | AuthDigest \<Rightarrow> (''WWW-Authenticate'', ''Digest realm='' @ ac_Realm ac @ '', nonce='' @ nonce)
      | _ \<Rightarrow> ([], []))"

text \<open>\<^verbatim>\<open>%s\<close> prints a string up to its first NUL. \<^verbatim>\<open>snprintf\<close> returns the length the text would have; the result
  is built from that many characters of the buffer of 1024, the last of which is a NUL.\<close>

definition snprintf_1024 :: "string \<Rightarrow> string outcome" where
  "snprintf_1024 s =
     (if length s < 1024 then Inr s
      else if length s = 1024 then Inr (take 1023 s @ [CHR 0x00])
      else Inl (UB ''read past the end of the buffer''))"

definition quoted :: "string \<Rightarrow> string \<Rightarrow> string" where
  "quoted opt s = opt @ ''='' @ [quote] @ c_str s @ [quote]"

definition GetAuthorizationHeader ::
  "cauthchallenge \<Rightarrow> string \<Rightarrow> string \<Rightarrow> string \<Rightarrow> string \<Rightarrow> string outcome" where
  "GetAuthorizationHeader ac user pwd method uri =
     (case ac_Type ac of
        AuthDigest \<Rightarrow>
          bind_outcome (Digest ac user pwd method uri) (\<lambda>digest.
            snprintf_1024
              (''Authorization: Digest '' @ quoted ''username'' user @ '', '' @ quoted ''realm'' (ac_Realm ac) @ '', ''
               @ quoted ''nonce'' (ac_Nonce ac) @ '', '' @ quoted ''uri'' uri @ '', '' @ quoted ''response'' digest
               @ (if ac_Opaque ac = [] then [] else '', '' @ quoted ''opaque'' (ac_Opaque ac)) @ CRLF))
      | AuthBasic \<Rightarrow>
          snprintf_1024 (''Authorization: Basic '' @ c_str (ToBase64 (map byte_of (user @ '':'' @ pwd))) @ CRLF)
      | _ \<Rightarrow> Inr [])"

text \<open>\<^verbatim>\<open>Authorize\<close> reads the fields of a digest header into the object it checks them with.\<close>

definition Authorize :: "string \<Rightarrow> string \<Rightarrow> string \<Rightarrow> cauthchallenge \<Rightarrow> (bool \<times> cauthchallenge) outcome" where
  "Authorize authdata method uri ac =
     (case ac_Type ac of
        AuthNone \<Rightarrow> Inr (True, ac)
      | AuthBasic \<Rightarrow>
          if authdata \<noteq> [] \<and> strncasecmp_eq authdata ''Basic ''
          then bind_outcome (FromBase64 (drop 6 authdata)) (\<lambda>bs.
                 Inr (bs = map byte_of (ac_User ac @ '':'' @ ac_Pwd ac), ac))
          else Inr (False, ac)
      | AuthDigest \<Rightarrow>
          if authdata \<noteq> [] \<and> strncasecmp_eq authdata ''Digest ''
          then
            let ac = FromDigestHeader authdata ac in
            if ac_Response ac = [] then Inr (False, ac)
            else bind_outcome (Digest ac (ac_User ac) (ac_Pwd ac) method uri) (\<lambda>d. Inr (d = ac_Response ac, ac))
          else Inr (False, ac)
      | _ \<Rightarrow> Inr (False, ac))"

text \<open>\<^verbatim>\<open>GenNonce\<close>: \<open>rnd\<close> is the sequence of \<^verbatim>\<open>mrand48\<close>, taken as unsigned numbers of 64 bits. The array that is
  indexed has the NUL of its literal as its last element.\<close>

definition alphaNonce :: string where
  "alphaNonce = ''ABCDEFGHIJKLMNOPQRSTUVWXYZ'' @ ''abcdefghijklmnopqrstuvwxyz'' @ ''0123456789'' @ [CHR 0x00]"

definition GenNonce :: "(nat \<Rightarrow> u64) \<Rightarrow> nat \<Rightarrow> string" where
  "GenNonce rnd n = map (\<lambda>i. alphaNonce ! (unat (rnd i) mod length alphaNonce)) [0..<n]"

section \<open>Reading back what is printed\<close>

lemma lazy_skip:
  assumes "\<forall>x \<in> set v. P x" "\<And>a w. v = a @ w \<Longrightarrow> w \<noteq> [] \<Longrightarrow> F (w @ s) = []"
  shows "concat (map F (class_rests P (v @ s))) = concat (map F (class_rests P s))"
  using assms
proof (induction v)
  case (Cons x v)
  have "F ((x # v) @ s) = []" using Cons.prems(2) [of "[]" "x # v"] by simp
  moreover have "concat (map F (class_rests P (v @ s))) = concat (map F (class_rests P s))"
    using Cons.prems(1) Cons.prems(2) [of "x # a" for a] by (intro Cons.IH) auto
  ultimately show ?case using Cons.prems(1) by simp
qed simp

definition plain_value :: "string \<Rightarrow> bool" where
  "plain_value v \<longleftrightarrow> v \<noteq> [] \<and> (\<forall>x \<in> set v. dot x \<and> x \<noteq> quote)"

definition ends_field :: "string \<Rightarrow> string \<Rightarrow> bool" where
  "ends_field tail rest \<longleftrightarrow> tail = CHR '','' # rest \<or> tail = [] \<and> rest = []"

lemma leads_re_value:
  assumes v: "\<forall>x \<in> set v. dot x \<and> x \<noteq> quote" and "ends_field tail rest" and c: "map_of c 2 = Some [quote]"
  obtains c' where "leads re_value (v @ quote # tail) c rest ((4, c') # (3, v) # c)"
proof -
  define F where "F = (\<lambda>t. matches (Seq (BackRef 2) (Grp 4 (Alt (Lit '','') Eol))) t
      ((3, take (length (v @ quote # tail) - length t) (v @ quote # tail)) # c))"
  have "matches re_value (v @ quote # tail) c = concat (map F (class_rests dot (v @ quote # tail)))"
    by (simp add: re_value_def comp_def F_def)
  also have "\<dots> = concat (map F (class_rests dot (quote # tail)))"
  proof (rule lazy_skip)
    show "F (w @ quote # tail) = []" if "v = a @ w" "w \<noteq> []" for a w
      using that v c by (cases w) (auto simp: starts_with_def F_def)
  qed (use v in simp)
  finally have m: "matches re_value (v @ quote # tail) c = F (quote # tail) @ concat (map F (class_rests dot tail))"
    by (simp add: dot_def)
  have "\<exists>c'. F (quote # tail) = [(rest, (4, c') # (3, v) # c)]"
    using assms(2) c by (auto simp: F_def ends_field_def starts_with_def Lit_def)
  with m have "\<exists>c'. leads re_value (v @ quote # tail) c rest ((4, c') # (3, v) # c)"
    by (auto simp: leads_def)
  then show thesis using that by blast
qed

lemma opt_char_not: "\<not> opt_char (CHR ''='')" "\<not> opt_char (CHR '' '')"
  by (simp_all add: opt_char_def word_char_def isdigit_def)

lemma leads_keyvalue:
  assumes k: "k \<noteq> []" "\<forall>x \<in> set k. opt_char x" and v: "plain_value v" and tail: "ends_field tail rest"
  obtains c where "leads re_keyvalue (k @ ''='' @ [quote] @ v @ quote # tail) [] rest c" "group c 1 = k" "group c 3 = v"
proof -
  let ?c1 = "[(1, k)]" and ?c2 = "[(2, [quote]), (1, k)]"
  have 1: "leads (Grp 1 (Some1 opt_char)) (k @ ''='' @ [quote] @ v @ quote # tail) [] (''='' @ [quote] @ v @ quote # tail) ?c1"
    using k by (intro leads_Grp leads_Some1) (auto simp: opt_char_not)
  have 2: "leads (Lit ''='') (''='' @ [quote] @ v @ quote # tail) ?c1 ([quote] @ v @ quote # tail) ?c1"
    by (rule leads_Lit)
  have 3: "leads (Grp 2 (Alt (Lit [quote]) Eps)) ([quote] @ v @ quote # tail) ?c1 (v @ quote # tail) ?c2"
    by (intro leads_Grp leads_Alt leads_Lit)
  have 4: "leads (NotAhead (Lit [quote])) (v @ quote # tail) ?c2 (v @ quote # tail) ?c2"
    using v by (cases v) (auto simp: leads_def Lit_def plain_value_def)
  obtain c' where 5: "leads re_value (v @ quote # tail) ?c2 rest ((4, c') # (3, v) # ?c2)"
    by (rule leads_re_value [OF _ tail, of v ?c2]) (use v in \<open>auto simp: plain_value_def\<close>)
  have "leads re_keyvalue (k @ ''='' @ [quote] @ v @ quote # tail) [] rest ((4, c') # (3, v) # ?c2)"
    unfolding re_keyvalue_def by (rule leads_Seq [OF 1 leads_Seq [OF 2 leads_Seq [OF 3 leads_Seq [OF 4 5]]]])
  then show thesis by (rule that) (simp_all add: group_def)
qed

lemma regex_search_leads: "leads r s [] s' c \<Longrightarrow> regex_search r s = Some (s', c)"
  by (subst regex_search.simps) (auto simp: leads_def)

lemma keyvalue_skip_space: "regex_search re_keyvalue (CHR '' '' # s) = regex_search re_keyvalue s"
proof -
  have "matches re_keyvalue (CHR '' '' # s) [] = []" by (simp add: re_keyvalue_def Some1_def opt_char_not)
  then show ?thesis by (simp add: regex_search.simps [of _ "CHR '' '' # s"])
qed

fun fields_text :: "(string \<times> string) list \<Rightarrow> string" where
  "fields_text [] = []"
| "fields_text [(k, v)] = k @ ''='' @ [quote] @ v @ [quote]"
| "fields_text ((k, v) # fs) = k @ ''='' @ [quote] @ v @ [quote] @ '', '' @ fields_text fs"

definition field_ok :: "string \<times> string \<Rightarrow> bool" where
  "field_ok f \<longleftrightarrow> fst f \<noteq> [] \<and> (\<forall>x \<in> set (fst f). opt_char x) \<and> plain_value (snd f)"

lemma keyvalue_step:
  assumes "field_ok (k, v)" "ends_field tail rest" "pre = [] \<or> pre = '' ''"
  shows "map (\<lambda>m. (group m 1, group m 3)) (regex_iterate re_keyvalue (pre @ k @ ''='' @ [quote] @ v @ quote # tail)) =
    (k, v) # map (\<lambda>m. (group m 1, group m 3)) (regex_iterate re_keyvalue rest)"
proof -
  let ?s = "k @ ''='' @ [quote] @ v @ quote # tail"
  obtain c where c: "leads re_keyvalue ?s [] rest c" "group c 1 = k" "group c 3 = v"
    using assms(1,2) by (auto simp: field_ok_def elim: leads_keyvalue)
  have "regex_search re_keyvalue (pre @ ?s) = Some (rest, c)"
    using assms(3) regex_search_leads [OF c(1)] keyvalue_skip_space [of ?s] by auto
  moreover have "length rest < length (pre @ ?s)" using assms(2) by (auto simp: ends_field_def)
  ultimately show ?thesis using c(2,3) by (subst regex_iterate.simps) simp
qed

lemma regex_iterate_Nil: "regex_iterate re_keyvalue [] = []"
proof -
  have "matches re_keyvalue [] [] = []" by (simp add: re_keyvalue_def Some1_def)
  then show ?thesis by (simp add: regex_iterate.simps regex_search.simps)
qed

lemma iterate_fields:
  "\<forall>f \<in> set fs. field_ok f \<Longrightarrow> pre = [] \<or> pre = '' '' \<and> fs \<noteq> [] \<Longrightarrow>
     map (\<lambda>m. (group m 1, group m 3)) (regex_iterate re_keyvalue (pre @ fields_text fs)) = fs"
proof (induction fs arbitrary: pre rule: fields_text.induct)
  case 1
  then show ?case by (simp add: regex_iterate_Nil)
next
  case (2 k v)
  then show ?case
    using keyvalue_step [of k v "[]" "[]" pre] by (auto simp: ends_field_def regex_iterate_Nil)
next
  case (3 k v f fs)
  have "map (\<lambda>m. (group m 1, group m 3)) (regex_iterate re_keyvalue ('' '' @ fields_text (f # fs))) = f # fs"
    using 3(2) by (intro 3(1)) auto
  moreover have "ends_field ('', '' @ fields_text (f # fs)) ('' '' @ fields_text (f # fs))"
    by (simp add: ends_field_def)
  ultimately show ?case
    using keyvalue_step [of k v _ _ pre] 3(2,3) by (auto simp del: fields_text.simps(2,3) simp: fields_text.simps(3))
qed

section \<open>The check accepts what the client sends\<close>

definition printable :: "string \<Rightarrow> bool" where
  "printable v \<longleftrightarrow> plain_value v \<and> CHR 0x00 \<notin> set v"

definition unescaped :: "string \<Rightarrow> bool" where
  "unescaped v \<longleftrightarrow> (\<forall>c \<in> set v. of_char c \<noteq> (92 :: nat))"

lemma Unquote_unescaped: "unescaped v \<Longrightarrow> Unquote v = Inr v"
  by (induction v) (auto simp: unescaped_def)

lemma printable_Md5: "printable (Md5 v)" "length (Md5 v) = 32"
proof -
  have "set (Md5 v) \<subseteq> set dec2hex" by (auto simp: Md5_def Let_def dest: to_hex_digits)
  moreover have "\<forall>c \<in> set dec2hex. dot c \<and> c \<noteq> quote \<and> c \<noteq> CHR 0x00" by (simp add: dec2hex_def dot_def)
  moreover show l: "length (Md5 v) = 32" by (simp add: Md5_def Let_def length_concat_to_hex)
  ultimately show "printable (Md5 v)" unfolding printable_def plain_value_def by fastforce
qed

lemma Digest_Inr:
  assumes "unescaped user" "unescaped (ac_Realm ac)" "unescaped pwd"
  obtains d where "Digest ac user pwd method uri = Inr d" "printable d" "length d = 32"
  using assms printable_Md5 by (simp add: Digest_def Unquote_unescaped md5_str_def)

lemma Digest_cong:
  "ac_Realm ac = ac_Realm ac' \<Longrightarrow> ac_Nonce ac = ac_Nonce ac' \<Longrightarrow>
     Digest ac user pwd method uri = Digest ac' user pwd method uri"
  by (simp add: Digest_def)

definition auth_fields :: "cauthchallenge \<Rightarrow> string \<Rightarrow> string \<Rightarrow> string \<Rightarrow> (string \<times> string) list" where
  "auth_fields c user uri d =
     [(''username'', user), (''realm'', ac_Realm c), (''nonce'', ac_Nonce c), (''uri'', uri), (''response'', d)]
     @ (if ac_Opaque c = [] then [] else [(''opaque'', ac_Opaque c)])"

lemma fields_text_snoc: "fs \<noteq> [] \<Longrightarrow> fields_text (fs @ [(k, v)]) = fields_text fs @ '', '' @ fields_text [(k, v)]"
  by (induction fs rule: fields_text.induct) auto

lemma FromDigestHeader_fields:
  assumes "\<forall>f \<in> set fs. field_ok f"
  shows "FromDigestHeader (''Digest '' @ fields_text fs) ac =
    (case fold digest_option fs ([], ac) of
       (stale, ac') \<Rightarrow> ac'\<lparr>ac_Stale := (case stale of [] \<Rightarrow> False | c # _ \<Rightarrow> c = CHR ''t'' \<or> c = CHR ''T'')\<rparr>)"
proof -
  have "drop 7 (''Digest '' @ fields_text fs) = fields_text fs" by simp
  then show ?thesis
    using iterate_fields [OF assms, of "[]"] unfolding FromDigestHeader_def Let_def by simp
qed

lemma auth_fields_ok:
  assumes "printable user" "printable (ac_Realm c)" "printable (ac_Nonce c)" "printable uri" "printable d"
    "ac_Opaque c = [] \<or> printable (ac_Opaque c)"
  shows "\<forall>f \<in> set (auth_fields c user uri d). field_ok f"
  using assms
  by (auto simp: auth_fields_def field_ok_def printable_def opt_char_def word_char_def split: if_splits)

lemma fold_auth_fields:
  "fold digest_option (auth_fields c user uri d) ([], s) =
     ([], s\<lparr>ac_Realm := ac_Realm c, ac_Nonce := ac_Nonce c, ac_Response := d,
        ac_Opaque := if ac_Opaque c = [] then ac_Opaque s else ac_Opaque c\<rparr>)"
  by (simp add: auth_fields_def digest_option_def starts_with_def)

lemma GetAuthorizationHeader_digest:
  assumes "ac_Type c = AuthDigest" "Digest c user pwd method uri = Inr d" "length d = 32"
    "printable user" "printable (ac_Realm c)" "printable (ac_Nonce c)" "printable uri" "printable d"
    "ac_Opaque c = [] \<or> printable (ac_Opaque c)"
    "length user + length (ac_Realm c) + length (ac_Nonce c) + length uri + length (ac_Opaque c) \<le> 800"
  shows "GetAuthorizationHeader c user pwd method uri =
    Inr (''Authorization: '' @ (''Digest '' @ fields_text (auth_fields c user uri d)) @ CRLF)"
  using assms
  by (auto simp: GetAuthorizationHeader_def snprintf_1024_def quoted_def auth_fields_def printable_def c_str_id)

text \<open>
  C23: the digest header that a client prints for a challenge is read back by the server's check, which accepts it
  exactly if the digest over the server's user and password, with the realm and the nonce of the header, is the client's. The
  texts are non-empty without quotes, line ends and NUL and together at most 800 characters.
\<close>

theorem digest_authorized:
  assumes "ac_Type c = AuthDigest" "ac_Type s = AuthDigest"
    and "\<forall>v \<in> {user, ac_Realm c, ac_Nonce c, uri}. printable v" "ac_Opaque c = [] \<or> printable (ac_Opaque c)"
    and "\<forall>v \<in> {user, pwd, ac_Realm c, ac_User s, ac_Pwd s}. unescaped v"
    and "length user + length (ac_Realm c) + length (ac_Nonce c) + length uri + length (ac_Opaque c) \<le> 800"
  shows "\<exists>a s'. GetAuthorizationHeader c user pwd method uri = Inr (''Authorization: '' @ a @ CRLF)
    \<and> Authorize a method uri s =
        Inr (Digest c user pwd method uri = Digest c (ac_User s) (ac_Pwd s) method uri, s')
    \<and> ac_Realm s' = ac_Realm c \<and> ac_Nonce s' = ac_Nonce c"
proof -
  obtain d where d: "Digest c user pwd method uri = Inr d" "printable d" "length d = 32"
    using assms(5) by (auto intro: Digest_Inr)
  obtain d' where d': "Digest c (ac_User s) (ac_Pwd s) method uri = Inr d'"
    using assms(5) by (auto intro: Digest_Inr)
  let ?a = "''Digest '' @ fields_text (auth_fields c user uri d)"
  let ?s = "s\<lparr>ac_Realm := ac_Realm c, ac_Nonce := ac_Nonce c, ac_Response := d,
      ac_Opaque := if ac_Opaque c = [] then ac_Opaque s else ac_Opaque c, ac_Stale := False\<rparr>"
  have "\<forall>f \<in> set (auth_fields c user uri d). field_ok f" by (rule auth_fields_ok) (use assms(3,4) d in auto)
  then have "FromDigestHeader ?a s = ?s" by (simp only: FromDigestHeader_fields fold_auth_fields) simp
  moreover have "Digest ?s (ac_User s) (ac_Pwd s) method uri = Inr d'" using d' by (simp add: Digest_def)
  moreover have "strncasecmp_eq ?a ''Digest ''" by (simp add: strncasecmp_eq_def)
  ultimately have "Authorize ?a method uri s = Inr (d' = d, ?s)"
    using assms(2) d(2) by (simp add: Authorize_def Let_def printable_def plain_value_def del: append.simps)
  moreover have "GetAuthorizationHeader c user pwd method uri = Inr (''Authorization: '' @ ?a @ CRLF)"
    using assms d by (intro GetAuthorizationHeader_digest) auto
  ultimately show ?thesis using d d' by (intro exI [of _ ?a] exI [of _ ?s]) auto
qed

lemma FromDigestHeader_type: "ac_Type (FromDigestHeader h ac) = ac_Type ac"
proof -
  have "ac_Type (snd (fold digest_option fs st)) = ac_Type (snd st)" for fs st
    by (induction fs arbitrary: st) (auto simp: digest_option_def split: prod.splits)
  from this [of _ "([], ac)"] show ?thesis
    by (simp add: FromDigestHeader_def Let_def split: prod.splits) (metis snd_conv)
qed

definition sample_auth :: "string \<Rightarrow> string \<Rightarrow> cauthchallenge" where
  "sample_auth user pwd = (cauthchallenge_new AuthDigest ''api'' user pwd)\<lparr>ac_Nonce := ''n1''\<rparr>"

theorem digest_authorized_witness:
  "\<exists>a s'. GetAuthorizationHeader (sample_auth [] []) ''joe'' ''pw'' ''GET'' ''/a'' = Inr (''Authorization: '' @ a @ CRLF)
    \<and> Authorize a ''GET'' ''/a'' (sample_auth ''joe'' ''pw'') = Inr (True, s')"
  using digest_authorized [of "sample_auth [] []" "sample_auth ''joe'' ''pw''" "''joe''" "''/a''" "''pw''" "''GET''"]
  by (simp add: sample_auth_def cauthchallenge_new_def printable_def plain_value_def dot_def unescaped_def) blast

lemma c_str_ToBase64: "c_str (ToBase64 bs) = ToBase64 bs"
proof (rule c_str_id)
  have "set (ToBase64 bs) \<subseteq> insert (CHR ''='') (set base64TableEncode)"
    unfolding ToBase64_def enc_with_ref by (rule set_enc_ref) (simp add: base64TableEncode_def)
  then show "CHR 0x00 \<notin> set (ToBase64 bs)" by (auto simp: base64TableEncode_def)
qed

text \<open>The same for the scheme basic: accepted exactly for the server's user and password.\<close>

lemma basic_authorized:
  assumes "ac_Type c = AuthBasic" "ac_Type s = AuthBasic" "length user + length pwd \<le> 700"
  shows "\<exists>a. GetAuthorizationHeader c user pwd method uri = Inr (''Authorization: '' @ a @ CRLF)
    \<and> Authorize a method uri s = Inr (user @ '':'' @ pwd = ac_User s @ '':'' @ ac_Pwd s, s)"
proof -
  let ?t = "map byte_of (user @ '':'' @ pwd)" and ?a = "''Basic '' @ ToBase64 (map byte_of (user @ '':'' @ pwd))"
  have rt: "FromBase64 (ToBase64 ?t) = Inr ?t" "length (ToBase64 ?t) = 4 * ((length ?t + 2) div 3)"
    using base64_roundtrip [of ?t] by simp_all
  have "GetAuthorizationHeader c user pwd method uri = Inr (''Authorization: '' @ ?a @ CRLF)"
    using assms(1,3) rt(2) unfolding GetAuthorizationHeader_def c_str_ToBase64 by (simp add: snprintf_1024_def)
  moreover have "inj byte_of" by (metis injI char_of_byte_of)
  then have "?t = map byte_of (ac_User s @ '':'' @ ac_Pwd s) \<longleftrightarrow> user @ '':'' @ pwd = ac_User s @ '':'' @ ac_Pwd s"
    by (simp only: inj_map_eq_map)
  then have "Authorize ?a method uri s = Inr (user @ '':'' @ pwd = ac_User s @ '':'' @ ac_Pwd s, s)"
    using assms(2) rt(1) by (simp add: Authorize_def strncasecmp_eq_def del: map_append)
  ultimately show ?thesis by (intro exI [of _ ?a]) simp
qed

text \<open>A digest check leaves the fields it read in the object: after one accepted request, a header with no fields at
  all is accepted for the same method and address.\<close>

lemma digest_check_remembers:
  assumes "ac_Type ac = AuthDigest" "Authorize authdata method uri ac = Inr (True, ac')"
  shows "\<exists>ac''. Authorize ''Digest '' method uri ac' = Inr (True, ac'')"
proof -
  have type: "ac_Type ac' = AuthDigest" and r: "ac_Response ac' \<noteq> []"
    and d: "Digest ac' (ac_User ac') (ac_Pwd ac') method uri = Inr (ac_Response ac')"
    using assms by (auto simp: Authorize_def Let_def bind_outcome_eq_Inr FromDigestHeader_type split: if_splits)
  have "FromDigestHeader ''Digest '' ac' = ac'\<lparr>ac_Stale := False\<rparr>"
    using FromDigestHeader_fields [of "[]" ac'] by simp
  moreover have "Digest (ac'\<lparr>ac_Stale := False\<rparr>) (ac_User ac') (ac_Pwd ac') method uri = Inr (ac_Response ac')"
    using d by (simp add: Digest_def)
  ultimately show ?thesis using type r by (simp add: Authorize_def strncasecmp_eq_def)
qed

text \<open>A nonce may have a NUL in it, at which the printed header ends it.\<close>

lemma GenNonce_alphabet: "set (GenNonce rnd n) \<subseteq> set alphaNonce" "length (GenNonce rnd n) = n"
proof -
  have "unat (rnd i) mod length alphaNonce < length alphaNonce" for i by (simp add: alphaNonce_def)
  then show "set (GenNonce rnd n) \<subseteq> set alphaNonce" unfolding GenNonce_def using nth_mem by auto
qed (simp add: GenNonce_def)

lemma GenNonce_NUL: "c_str (GenNonce (\<lambda>i. if i = 0 then 0 else 62) 2) = ''A''"
proof -
  have "[0..<2] = [0, 1 :: nat]" by (simp add: upt_rec numeral_2_eq_2)
  then show ?thesis by (simp add: GenNonce_def alphaNonce_def c_str_def)
qed

end
