(* ===== verification/Router.thy ===== *)
theory Router
  imports Http
begin

text \<open>
  The route table of the HTTP API, \<^verbatim>\<open>http::crouter\<close> of \<^verbatim>\<open>include/http/crouter.h\<close>: how a route is
  split into parts (\<^verbatim>\<open>Explode\<close>), how the parts are compared with the path of a request
  (\<^verbatim>\<open>Compare\<close>), and the table itself (\<^verbatim>\<open>Add\<close>, \<^verbatim>\<open>Call\<close>), a \<^verbatim>\<open>std::multimap\<close> from the first part of a
  route to its entries in the order of their insertion. Reading a vector out of range is the
  failure \<open>UB\<close>. The specification of matching is \<open>route_match\<close>, a recursion over both lists.
\<close>

section \<open>Routes\<close>

record 'cb key_t =
  route_path :: "string list"
  route_callback :: 'cb

function explode_loop :: "string \<Rightarrow> string list" where
  "explode_loop route =
     (case split_at (\<lambda>c. c = CHR ''/'') route of
        None \<Rightarrow> [route]
      | Some (part, c, rest) \<Rightarrow> part # explode_loop rest)"
  by pat_completeness auto
termination
  by (relation "measure length") (auto dest: split_at_length)

declare explode_loop.simps [simp del]

definition Explode :: "string \<Rightarrow> string list outcome" where
  "Explode route =
     (if route = [] then Inr []
      else
        let (path, route) = (if hd route = CHR ''/'' then ([''/''], tl route) else ([], route)) in
        if route = [] then Inl (UB ''back of an empty view'')
        else let route = (if last route = CHR ''/'' then butlast route else route) in
          Inr (path @ explode_loop route))"

text \<open>\<^verbatim>\<open>Compare\<close>: the loop over the parts of the route from index \<open>n\<close> on; \<open>r\<close> is the path of the
  request, the result whether the route matches and the arguments collected so far.\<close>

fun compare_loop :: "nat \<Rightarrow> string list \<Rightarrow> string list \<Rightarrow> string list \<Rightarrow> (bool \<times> string list) outcome" where
  "compare_loop n [] r args = Inr (True, args)"
| "compare_loop n (p # path) r args =
     (if p = ''?'' then compare_loop (Suc n) path r (args @ [if n < length r then r ! n else []])
      else if p = ''*'' then
        (if n \<le> length r then Inr (True, args @ drop n r)
         else Inl (UB ''iterator past the end''))
      else if n < length r then
        (if p \<noteq> r ! n then Inr (False, args) else compare_loop (Suc n) path r args)
      else Inl (UB ''r index out of range''))"

definition Compare :: "string list \<Rightarrow> string list \<Rightarrow> (bool \<times> string list) outcome" where
  "Compare path r = compare_loop 1 (drop 1 path) r []"

type_synonym 'cb routes = "(string \<times> 'cb key_t) list"

definition Add :: "string \<Rightarrow> 'cb \<Rightarrow> 'cb routes \<Rightarrow> 'cb routes outcome" where
  "Add route callback routes =
     bind_outcome (Explode route) (\<lambda>path.
       if 1 < length path
       then Inr (routes @ [(path ! 1, \<lparr>route_path = path, route_callback = callback\<rparr>)])
       else Inl (Throw ''vector::at''))"

text \<open>\<^verbatim>\<open>Call\<close>: the callback that is run and its arguments, or \<open>None\<close> when it returns false.\<close>

fun call_loop :: "'cb key_t list \<Rightarrow> string list \<Rightarrow> ('cb \<times> string list) option outcome" where
  "call_loop [] r = Inr None"
| "call_loop (k # ks) r =
     bind_outcome (Compare (route_path k) r) (\<lambda>(ok, args).
       if ok then Inr (Some (route_callback k, args)) else call_loop ks r)"

definition equal_range :: "'cb routes \<Rightarrow> string \<Rightarrow> 'cb key_t list" where
  "equal_range routes key = map snd (filter (\<lambda>kv. fst kv = key) routes)"

definition Call :: "'cb routes \<Rightarrow> uri_t \<Rightarrow> ('cb \<times> string list) option outcome" where
  "Call routes uri =
     (let r = uriPathList uri in
      if 1 < length r then call_loop (equal_range routes (r ! 1)) r else Inr None)"

section \<open>What it means to match\<close>

text \<open>The specification: \<^verbatim>\<open>?\<close> takes one part (an empty one after the end), \<^verbatim>\<open>*\<close> all that are left, any
  other part itself; the parts of the request after the route are ignored.\<close>

fun route_match :: "string list \<Rightarrow> string list \<Rightarrow> string list option" where
  "route_match [] r = Some []"
| "route_match (p # ps) r =
     (if p = ''?'' then
        map_option (\<lambda>args. (case r of [] \<Rightarrow> [] | x # xs \<Rightarrow> x) # args) (route_match ps (tl r))
      else if p = ''*'' then Some r
      else if r \<noteq> [] \<and> p = hd r then route_match ps (tl r)
      else None)"

lemma compare_loop_match:
  assumes "length (takeWhile (\<lambda>p. p \<noteq> ''*'') ps) + n \<le> length r"
  shows "\<exists>b as. compare_loop n ps r args = Inr (b, as) \<and>
    (b \<longleftrightarrow> route_match ps (drop n r) \<noteq> None) \<and>
    (b \<longrightarrow> as = args @ the (route_match ps (drop n r)))"
  using assms
proof (induction n ps r args rule: compare_loop.induct)
  case (1 n r args)
  then show ?case by (intro exI [of _ True]) simp
next
  case (2 n p path r args)
  show ?case
  proof (cases "p = ''*''")
    case True
    with 2 have "n \<le> length r" by simp
    with True show ?thesis by (intro exI [of _ True] exI [of _ "args @ drop n r"]) simp
  next
    case star: False
    with "2.prems" have n: "n < length r" and fits: "length (takeWhile (\<lambda>p. p \<noteq> ''*'') path) + Suc n \<le> length r"
      by simp_all
    have r: "drop n r = r ! n # drop (Suc n) r" using n by (simp add: Cons_nth_drop_Suc)
    show ?thesis
    proof (cases "p = ''?''")
      case True
      from "2.IH"(1) [OF True fits] n True obtain b as where
        "compare_loop (Suc n) path r (args @ [r ! n]) = Inr (b, as)"
        "b \<longleftrightarrow> route_match path (drop (Suc n) r) \<noteq> None"
        "b \<longrightarrow> as = (args @ [r ! n]) @ the (route_match path (drop (Suc n) r))" by auto
      with True n r show ?thesis by auto
    next
      case False
      with 2 star n fits r show ?thesis by auto
    qed
  qed
qed

lemma Compare_spec:
  assumes "length (takeWhile (\<lambda>p. p \<noteq> ''*'') (tl path)) < length r"
  shows "\<exists>b as. Compare path r = Inr (b, as) \<and>
    (b \<longleftrightarrow> route_match (tl path) (tl r) \<noteq> None) \<and>
    (b \<longrightarrow> Some as = route_match (tl path) (tl r))"
proof -
  have "length (takeWhile (\<lambda>p. p \<noteq> ''*'') (tl path)) + 1 \<le> length r" using assms by simp
  from compare_loop_match [OF this, of "[]"] show ?thesis
    by (auto simp: Compare_def drop_Suc)
qed

text \<open>
  C26: comparing a route with the path of a request that has at least as many parts as the route
  has before a star is exactly the specification: it succeeds iff the route matches, and the
  callback is given the arguments of the match.
\<close>

theorem Compare_match:
  assumes "length (takeWhile (\<lambda>p. p \<noteq> ''*'') (tl path)) < length r"
  shows "\<exists>b as. Compare path r = Inr (b, as) \<and>
    (b \<longleftrightarrow> route_match (tl path) (tl r) \<noteq> None) \<and>
    (b \<longrightarrow> Some as = route_match (tl path) (tl r))"
  using assms by (rule Compare_spec)

theorem Compare_match_witness:
  "\<exists>b as. Compare [''/'', ''apps'', ''?'', ''events'', ''*''] [''/'', ''apps'', ''7'', ''events''] = Inr (b, as) \<and>
    (b \<longleftrightarrow> route_match [''apps'', ''?'', ''events'', ''*''] [''apps'', ''7'', ''events''] \<noteq> None) \<and>
    (b \<longrightarrow> Some as = route_match [''apps'', ''?'', ''events'', ''*''] [''apps'', ''7'', ''events''])"
  using Compare_match [of "[''/'', ''apps'', ''?'', ''events'', ''*'']" "[''/'', ''apps'', ''7'', ''events'']"]
  by simp

section \<open>Exploding a path\<close>

definition segment_ok :: "string \<Rightarrow> bool" where
  "segment_ok s \<longleftrightarrow> s \<noteq> [] \<and> CHR ''/'' \<notin> set s \<and> CHR ''?'' \<notin> set s"

definition join_path :: "string list \<Rightarrow> string" where
  "join_path segs = concat (map (\<lambda>s. CHR ''/'' # s) segs)"

lemma join_path_simps [simp]:
  "join_path [] = []"
  "join_path (s # segs) = CHR ''/'' # s @ join_path segs"
  by (simp_all add: join_path_def)

lemma explode_loop_join:
  "CHR ''/'' \<notin> set s \<Longrightarrow> \<forall>x \<in> set segs. segment_ok x \<Longrightarrow>
     explode_loop (s @ join_path segs) = s # segs"
proof (induction segs arbitrary: s)
  case Nil
  then have "split_at (\<lambda>c. c = CHR ''/'') s = None" by auto
  then show ?case by (subst explode_loop.simps) (simp del: split_at_None)
next
  case (Cons x segs)
  then have "split_at (\<lambda>c. c = CHR ''/'') (s @ CHR ''/'' # x @ join_path segs) =
      Some (s, CHR ''/'', x @ join_path segs)" by (intro split_at_append) auto
  with Cons show ?case
    by (simp add: explode_loop.simps [of "s @ CHR ''/'' # x @ join_path segs"] segment_ok_def)
qed

lemma last_join_path:
  "segs \<noteq> [] \<Longrightarrow> \<forall>x \<in> set segs. segment_ok x \<Longrightarrow> last (join_path segs) \<noteq> CHR ''/''"
proof (induction segs)
  case Nil
  then show ?case by simp
next
  case (Cons x segs)
  have "last x \<noteq> CHR ''/''" using Cons.prems by (metis last_in_set list.set_intros(1) segment_ok_def)
  with Cons show ?case by (cases "segs = []") (auto simp: segment_ok_def join_path_def)
qed

lemma Explode_join:
  assumes "segs \<noteq> []" "\<forall>x \<in> set segs. segment_ok x"
  shows "Explode (join_path segs) = Inr (''/'' # segs)"
proof -
  obtain s rest where segs: "segs = s # rest" using assms(1) by (cases segs) auto
  have s: "segment_ok s" "CHR ''/'' \<notin> set s" using assms(2) segs by (auto simp: segment_ok_def)
  have "last (s @ join_path rest) \<noteq> CHR ''/''"
    using last_join_path [OF assms] segs s by (auto simp: segment_ok_def)
  with s assms(2) segs show ?thesis
    by (auto simp: Explode_def explode_loop_join segment_ok_def)
qed

lemma path_loop_join:
  "CHR ''/'' \<notin> set s \<Longrightarrow> CHR ''?'' \<notin> set s \<Longrightarrow> \<forall>x \<in> set segs. segment_ok x \<Longrightarrow>
     path_loop (s @ join_path segs) = ((if s = [] then segs else s # segs), [])"
proof (induction segs arbitrary: s)
  case Nil
  then have "split_at (\<lambda>c. c \<in> set ''/?'') s = None" by auto
  then have "SplitBy ''/?'' s [] = (None, [], s)"
    unfolding SplitBy_def by (simp only: option.case)
  then show ?case by (subst path_loop.simps) simp
next
  case (Cons x segs)
  then have "split_at (\<lambda>c. c \<in> set ''/?'') (s @ CHR ''/'' # x @ join_path segs) =
      Some (s, CHR ''/'', x @ join_path segs)" by (intro split_at_append) auto
  with Cons show ?case
    by (simp add: path_loop.simps [of "s @ CHR ''/'' # x @ join_path segs"] SplitBy_def segment_ok_def)
qed

lemma uriPathList_join:
  assumes "segs \<noteq> []" "\<forall>x \<in> set segs. segment_ok x"
  shows "uriPathList (parse_uri (join_path segs)) = ''/'' # segs"
proof -
  have "path_loop ([] @ join_path segs) = (segs, [])"
    using path_loop_join [of "[]" segs] assms(2) by simp
  with assms show ?thesis by (cases segs) (auto simp: parse_uri_def)
qed

lemma route_match_self:
  "''*'' \<notin> set segs \<Longrightarrow> ''?'' \<notin> set segs \<Longrightarrow> route_match segs segs = Some []"
  by (induction segs) auto

text \<open>
  a route without wildcards is found: added as \<^verbatim>\<open>/a/b/...\<close> to an empty table, the
  request whose target is that text runs its callback, without arguments.
\<close>

theorem route_found:
  assumes "segs \<noteq> []" "\<forall>x \<in> set segs. segment_ok x \<and> x \<noteq> ''*''"
  shows "bind_outcome (Add (join_path segs) cb []) (\<lambda>rs. Call rs (parse_uri (join_path segs)))
    = Inr (Some (cb, []))"
proof -
  have ok: "\<forall>x \<in> set segs. segment_ok x" and star: "''*'' \<notin> set segs" "''?'' \<notin> set segs"
    using assms(2) by (auto simp: segment_ok_def)
  have path: "Explode (join_path segs) = Inr (''/'' # segs)"
    "uriPathList (parse_uri (join_path segs)) = ''/'' # segs"
    by (rule Explode_join uriPathList_join; use assms ok in simp)+
  have "length (takeWhile (\<lambda>p. p \<noteq> ''*'') (tl (''/'' # segs))) < length (''/'' # segs)"
    by (simp add: le_imp_less_Suc length_takeWhile_le)
  from Compare_spec [OF this] have "Compare (''/'' # segs) (''/'' # segs) = Inr (True, [])"
    using route_match_self [OF star] by auto
  with path assms(1) show ?thesis by (simp add: Add_def Call_def equal_range_def)
qed

theorem route_found_witness:
  "bind_outcome (Add ''/apps/list'' (2::nat) []) (\<lambda>rs. Call rs (parse_uri ''/apps/list''))
    = Inr (Some (2, []))"
  using route_found [of "[''apps'', ''list'']" 2] by (simp add: segment_ok_def)

end
