(* ===== verification/Websocket.thy ===== *)
theory Websocket
  imports Http Base64
begin

text \<open>
  Websocket frames, \<^verbatim>\<open>http::cwebsocket\<close> (\<^verbatim>\<open>include/http/cwebsocket.h\<close>, \<^verbatim>\<open>source/http/cwebsocket.cpp\<close>),
  and the frame reader and writer \<^verbatim>\<open>inet::cwsconnection\<close> (\<^verbatim>\<open>source/http/cwsconn.cpp\<close>). The masking
  key of \<^verbatim>\<open>RandMask\<close> and SHA-1 are parameters. The peer is a byte stream and the error that a read
  beyond its end gives; what a call does to the session is the list of its calls to the
  virtual functions, in order.
\<close>

unbundle bit_operations_syntax

section \<open>Frames\<close>

datatype opcode_t = op_more | op_text | op_binary | op_close | op_ping | op_pong

fun opcode_code :: "opcode_t \<Rightarrow> u8" where
  "opcode_code op_more = 0x0"
| "opcode_code op_text = 0x1"
| "opcode_code op_binary = 0x2"
| "opcode_code op_close = 0x8"
| "opcode_code op_ping = 0x9"
| "opcode_code op_pong = 0xa"

datatype close_t = NormalClosure | GoingAway | ProtoError | UnsupportedData | NoStatusReceived
  | AbnormalClosure | InvalidPayload | PolicyViolation | MessageToBig | MissingExtension
  | InternalError | ServiceRestart | TryAgainLater | BadGateway | TLSHandshake

fun close_code :: "close_t \<Rightarrow> u16" where
  "close_code NormalClosure = 1000"
| "close_code GoingAway = 1001"
| "close_code ProtoError = 1002"
| "close_code UnsupportedData = 1003"
| "close_code NoStatusReceived = 1005"
| "close_code AbnormalClosure = 1006"
| "close_code InvalidPayload = 1007"
| "close_code PolicyViolation = 1008"
| "close_code MessageToBig = 1009"
| "close_code MissingExtension = 1010"
| "close_code InternalError = 1011"
| "close_code ServiceRestart = 1012"
| "close_code TryAgainLater = 1013"
| "close_code BadGateway = 1014"
| "close_code TLSHandshake = 1015"

text \<open>The two bytes of \<^verbatim>\<open>frame_t\<close>: four bits of opcode, three reserved ones and the final bit; seven
  bits of length and the mask bit (bit fields from the least significant bit on).\<close>

definition frame_t :: "opcode_t \<Rightarrow> nat \<Rightarrow> bool \<Rightarrow> bool \<Rightarrow> bytes" where
  "frame_t opc len have_mask is_fin =
     [(opcode_code opc AND 0x0f) OR (if is_fin then 0x80 else 0),
      (of_nat len AND 0x7f) OR (if have_mask then 0x80 else 0)]"

definition frame_opcode :: "bytes \<Rightarrow> u8" where
  "frame_opcode packet = packet ! 0 AND 0x0f"

definition frame_len :: "bytes \<Rightarrow> nat" where
  "frame_len packet = unat (packet ! 1 AND 0x7f)"

definition frame_mask :: "bytes \<Rightarrow> bool" where
  "frame_mask packet \<longleftrightarrow> bit (packet ! 1) 7"

definition Mask :: "bytes \<Rightarrow> bytes \<Rightarrow> bytes" where
  "Mask msk bs = map (\<lambda>n. bs ! n XOR msk ! (n mod 4)) [0..<length bs]"

datatype frame_kind = Small | Medium | Large

text \<open>The head of the six frame structures, up to the masking key.\<close>

fun frame_head :: "frame_kind \<Rightarrow> opcode_t \<Rightarrow> nat \<Rightarrow> bool \<Rightarrow> bytes" where
  "frame_head Small opc len masked = frame_t opc len masked True"
| "frame_head Medium opc len masked = frame_t opc 126 masked True @ be16 (of_nat len)"
| "frame_head Large opc len masked = frame_t opc 127 masked True @ be64 (of_nat len)"

definition MakeUnFrame :: "frame_kind \<Rightarrow> opcode_t \<Rightarrow> bytes \<Rightarrow> bytes" where
  "MakeUnFrame kind opc msg = frame_head kind opc (length msg) False @ msg"

definition MakeFrame :: "bytes \<Rightarrow> frame_kind \<Rightarrow> opcode_t \<Rightarrow> bytes \<Rightarrow> bytes" where
  "MakeFrame key kind opc msg = frame_head kind opc (length msg) True @ key @ Mask key msg"

definition Make :: "bytes \<Rightarrow> opcode_t \<Rightarrow> bytes \<Rightarrow> bool \<Rightarrow> bytes" where
  "Make key opc msg masked =
     (if length msg < 126 then
        if \<not> masked \<or> msg = [] then MakeUnFrame Small opc msg else MakeFrame key Small opc msg
      else if length msg < 65536 then
        if \<not> masked then MakeUnFrame Medium opc msg else MakeFrame key Medium opc msg
      else
        if \<not> masked then MakeUnFrame Large opc msg else MakeFrame key Large opc msg)"

text \<open>The answer to \<^verbatim>\<open>Sec-WebSocket-Key\<close>.\<close>

definition SecKey :: "(bytes \<Rightarrow> bytes) \<Rightarrow> string \<Rightarrow> string" where
  "SecKey sha1 secKey =
     ToBase64 (sha1 (map byte_of secKey @ map byte_of ''258EAFA5-E914-47DA-95CA-C5AB0DC85B11''))"

section \<open>Reading and writing\<close>

text \<open>
  The calls of a session: a message, whose payload is \<open>None\<close> when its buffer was not received;
  a ping, a close, an error; and what is sent.
\<close>

datatype ws_event =
    OnWsMessage u8 "bytes option" nat
  | OnWsPing
  | OnWsClose
  | OnWsError errno
  | WsSend bytes

definition ws_recv :: "errno \<Rightarrow> nat \<Rightarrow> bytes \<Rightarrow> (errno + bytes) \<times> bytes" where
  "ws_recv fail n inp =
     (if n \<le> length inp then (Inr (take n inp), drop n inp) else (Inl fail, []))"

text \<open>\<^verbatim>\<open>WsSendMessage\<close> and \<^verbatim>\<open>WsWriteMessage\<close>: \<open>send\<close> is the result of \<^verbatim>\<open>WsSend\<close>; the second also reports
  an error to the session.\<close>

definition WsSendMessage ::
  "(bytes \<Rightarrow> errno option) \<Rightarrow> bytes \<Rightarrow> opcode_t \<Rightarrow> bytes \<Rightarrow> bool \<Rightarrow> errno option \<times> ws_event list" where
  "WsSendMessage send key opc msg masked =
     (let message = Make key opc msg masked in
      if message \<noteq> [] then (send message, [WsSend message]) else (Some ENOMEM, []))"

definition WsWriteMessage ::
  "(bytes \<Rightarrow> errno option) \<Rightarrow> bytes \<Rightarrow> opcode_t \<Rightarrow> bytes \<Rightarrow> bool \<Rightarrow> errno option \<times> ws_event list" where
  "WsWriteMessage send key opc msg masked =
     (let message = Make key opc msg masked in
      if message \<noteq> [] then
        (case send message of
           None \<Rightarrow> (None, [WsSend message])
         | Some res \<Rightarrow> (Some res, [WsSend message, OnWsError res]))
      else (Some ENOMEM, [OnWsError ENOMEM]))"

definition WsClose :: "(bytes \<Rightarrow> errno option) \<Rightarrow> close_t \<Rightarrow> ws_event list" where
  "WsClose send code = snd (WsWriteMessage send [] op_close (be16 (close_code code)) False)"

definition WsError :: "(bytes \<Rightarrow> errno option) \<Rightarrow> close_t \<Rightarrow> errno \<Rightarrow> ws_event list" where
  "WsError send code err = WsClose send code @ [OnWsError err]"

text \<open>What follows the payload in \<^verbatim>\<open>WsReadMessage\<close>: the switch over the opcode.\<close>

definition ws_dispatch ::
  "(bytes \<Rightarrow> errno option) \<Rightarrow> u8 \<Rightarrow> bytes option \<Rightarrow> nat \<Rightarrow> errno option \<times> ws_event list" where
  "ws_dispatch send opc msg nlength =
     (if opc = opcode_code op_text \<or> opc = opcode_code op_binary then
        (None, [OnWsMessage opc msg nlength])
      else if opc = opcode_code op_ping then
        (None, OnWsPing # snd (WsSendMessage send [] op_pong [] False))
      else if opc = opcode_code op_close then (None, [OnWsClose])
      else (Some ENODATA, WsClose send UnsupportedData @ [OnWsError ENODATA]))"

text \<open>The extended length: how many bytes it takes and its value.\<close>

definition extra_size :: "nat \<Rightarrow> nat" where
  "extra_size len = (if len < 126 then 0 else if len = 126 then 2 else 8)"

definition extra_length :: "nat \<Rightarrow> bytes \<Rightarrow> nat" where
  "extra_length len extra =
     (if len < 126 then len else if len = 126 then unat (rd16 extra) else unat (rd64 extra))"

text \<open>The payload: when it cannot be received the error is not looked at, the message is
  dispatched with the buffer as it is.\<close>

definition ws_payload ::
  "(bytes \<Rightarrow> errno option) \<Rightarrow> nat \<Rightarrow> errno \<Rightarrow> bytes \<Rightarrow> bytes \<Rightarrow> nat \<Rightarrow> bytes
     \<Rightarrow> (errno option \<times> ws_event list) \<times> bytes" where
  "ws_payload send maxMessageLength fail packet msk nlength inp =
     (if nlength = 0 then (ws_dispatch send (frame_opcode packet) (Some []) 0, inp)
      else if nlength < maxMessageLength then
        (case ws_recv fail nlength inp of
           (Inr msg, inp') \<Rightarrow>
             (ws_dispatch send (frame_opcode packet)
                (Some (if frame_mask packet then Mask msk msg else msg)) nlength, inp')
         | (Inl res, inp') \<Rightarrow> (ws_dispatch send (frame_opcode packet) None nlength, inp'))
      else ((Some EMSGSIZE, WsClose send MessageToBig @ [OnWsError EMSGSIZE]), inp))"

text \<open>\<^verbatim>\<open>WsReadMessage\<close>: the returned error, the calls made, and the rest of the stream.\<close>

definition WsReadMessage ::
  "(bytes \<Rightarrow> errno option) \<Rightarrow> nat \<Rightarrow> errno \<Rightarrow> bytes \<Rightarrow> (errno option \<times> ws_event list) \<times> bytes" where
  "WsReadMessage send maxMessageLength fail inp =
     (case ws_recv fail 2 inp of
        (Inl res, i1) \<Rightarrow> ((Some res, [OnWsError res]), i1)
      | (Inr packet, i1) \<Rightarrow>
          (case ws_recv fail (extra_size (frame_len packet)) i1 of
             (Inl res, i2) \<Rightarrow> ((Some res, [OnWsError res]), i2)
           | (Inr extra, i2) \<Rightarrow>
               (case (if frame_mask packet then ws_recv fail 4 i2 else (Inr [], i2)) of
                  (Inl res, i3) \<Rightarrow> ((Some res, [OnWsError res]), i3)
                | (Inr msk, i3) \<Rightarrow>
                    ws_payload send maxMessageLength fail packet msk
                      (extra_length (frame_len packet) extra) i3)))"

text \<open>The read loop of a session: one call of \<^verbatim>\<open>WsReadMessage\<close> for every readiness event.\<close>

fun ws_read_all ::
  "nat \<Rightarrow> (bytes \<Rightarrow> errno option) \<Rightarrow> nat \<Rightarrow> errno \<Rightarrow> bytes \<Rightarrow> ws_event list \<times> bytes" where
  "ws_read_all 0 send maxlen fail inp = ([], inp)"
| "ws_read_all (Suc n) send maxlen fail inp =
     (let ((res, evs), rest) = WsReadMessage send maxlen fail inp;
          (evs', rest') = ws_read_all n send maxlen fail rest in
      (evs @ evs', rest'))"

section \<open>Frame fields\<close>

lemma opcode_code_and: "(opcode_code opc AND 0x0f) = opcode_code opc"
  by (cases opc) simp_all

lemma opcode_code_inj: "opcode_code a = opcode_code b \<longleftrightarrow> a = b"
  by (cases a; cases b) simp_all

lemma frame_t_fields [simp]:
  "length (frame_t opc len m f) = 2"
  "frame_opcode (frame_t opc len m f @ rest) = opcode_code opc"
  "frame_mask (frame_t opc len m f @ rest) \<longleftrightarrow> m"
  by (cases opc; simp add: frame_t_def frame_opcode_def frame_mask_def bit_simps)+

lemma frame_t_len [simp]:
  assumes "len < 128"
  shows "frame_len (frame_t opc len m f @ rest) = len"
proof -
  have "((of_nat len AND 0x7f) OR (if m then 0x80 else 0)) AND 0x7f = (of_nat len AND 0x7f :: u8)"
    by (simp add: bit.conj_disj_distrib2 and.assoc)
  also have "\<dots> = take_bit 7 (of_nat len)" by (simp add: take_bit_eq_mask mask_eq_exp_minus_1)
  also have "unat \<dots> = len"
    using assms by (simp add: unsigned_take_bit_eq unsigned_of_nat take_bit_nat_eq_self)
  finally have "unat (((of_nat len AND 0x7f) OR (if m then 0x80 else 0)) AND (0x7f :: u8)) = len" .
  then show ?thesis by (simp add: frame_t_def frame_len_def)
qed

lemma Mask_length [simp]: "length (Mask msk bs) = length bs"
  by (simp add: Mask_def)

lemma Mask_Nil [simp]: "Mask msk [] = []"
  by (simp add: Mask_def)

lemma Mask_Mask [simp]: "Mask msk (Mask msk bs) = bs"
  by (rule nth_equalityI) (simp_all add: Mask_def xor.assoc)

lemma ws_recv_append [simp]:
  "n = length xs \<Longrightarrow> ws_recv fail n (xs @ rest) = (Inr xs, rest)"
  by (simp add: ws_recv_def)

section \<open>Delivery\<close>

definition data_opcode :: "opcode_t \<Rightarrow> bool" where
  "data_opcode opc \<longleftrightarrow> opc = op_text \<or> opc = op_binary"

lemma frame_head_split:
  "frame_head kind opc len m =
     frame_t opc (case kind of Small \<Rightarrow> len | Medium \<Rightarrow> 126 | Large \<Rightarrow> 127) m True
       @ (case kind of Small \<Rightarrow> [] | Medium \<Rightarrow> be16 (of_nat len) | Large \<Rightarrow> be64 (of_nat len))"
  by (cases kind) simp_all

definition kind_ok :: "frame_kind \<Rightarrow> nat \<Rightarrow> bool" where
  "kind_ok kind len \<longleftrightarrow>
     (case kind of Small \<Rightarrow> len < 126 | Medium \<Rightarrow> len < 2 ^ 16 | Large \<Rightarrow> len < 2 ^ 64)"

lemma recv_head:
  assumes "kind_ok kind len"
  shows "\<exists>packet extra. ws_recv fail 2 (frame_head kind opc len m @ rest) = (Inr packet, extra @ rest)
    \<and> frame_opcode packet = opcode_code opc \<and> frame_mask packet = m
    \<and> ws_recv fail (extra_size (frame_len packet)) (extra @ rest) = (Inr extra, rest)
    \<and> extra_length (frame_len packet) extra = len"
proof -
  define small where "small = (case kind of Small \<Rightarrow> len | Medium \<Rightarrow> 126 | Large \<Rightarrow> 127)"
  define extra where
    "extra = (case kind of Small \<Rightarrow> [] | Medium \<Rightarrow> be16 (of_nat len) | Large \<Rightarrow> be64 (of_nat len))"
  let ?packet = "frame_t opc small m True"
  have small: "small < 128" using assms by (cases kind) (simp_all add: small_def kind_ok_def)
  have packet: "frame_opcode ?packet = opcode_code opc" "frame_mask ?packet = m"
      "frame_len ?packet = small"
    using frame_t_fields(2,3) [of opc small m True "[]"] frame_t_len [OF small, of opc m True "[]"]
    by simp_all
  have "extra_size small = length extra" "extra_length small extra = len"
    using assms rd16_be16 [of _ "[]"] rd64_be64 [of _ "[]"]
    by (cases kind; simp add: small_def extra_def extra_size_def extra_length_def kind_ok_def
        unat_of_nat take_bit_nat_eq_self)+
  with packet show ?thesis
    by (intro exI [of _ ?packet] exI [of _ extra])
      (simp add: frame_head_split flip: small_def extra_def)
qed

lemma read_unmasked:
  assumes "kind_ok kind (length msg)" "length msg < maxlen"
  shows "WsReadMessage send maxlen fail (MakeUnFrame kind opc msg @ rest) =
    (ws_dispatch send (opcode_code opc) (Some msg) (length msg), rest)"
proof -
  from recv_head [OF assms(1)] obtain packet extra where
    "ws_recv fail 2 (frame_head kind opc (length msg) False @ msg @ rest) = (Inr packet, extra @ msg @ rest)"
    "frame_opcode packet = opcode_code opc" "frame_mask packet = False"
    "ws_recv fail (extra_size (frame_len packet)) (extra @ msg @ rest) = (Inr extra, msg @ rest)"
    "extra_length (frame_len packet) extra = length msg" by metis
  with assms show ?thesis by (auto simp: WsReadMessage_def MakeUnFrame_def ws_payload_def)
qed

lemma read_masked:
  assumes "kind_ok kind (length msg)" "length msg < maxlen" "length key = 4"
  shows "WsReadMessage send maxlen fail (MakeFrame key kind opc msg @ rest) =
    (ws_dispatch send (opcode_code opc) (Some msg) (length msg), rest)"
proof -
  let ?body = "key @ Mask key msg @ rest"
  from recv_head [OF assms(1)] obtain packet extra where
    "ws_recv fail 2 (frame_head kind opc (length msg) True @ ?body) = (Inr packet, extra @ ?body)"
    "frame_opcode packet = opcode_code opc" "frame_mask packet = True"
    "ws_recv fail (extra_size (frame_len packet)) (extra @ ?body) = (Inr extra, ?body)"
    "extra_length (frame_len packet) extra = length msg" by metis
  with assms show ?thesis
    by (auto simp: WsReadMessage_def MakeFrame_def ws_payload_def)
qed

lemma read_Make:
  assumes "length msg < maxlen" "length msg < 2 ^ 64" "length key = 4"
  shows "WsReadMessage send maxlen fail (Make key opc msg masked @ rest) =
    (ws_dispatch send (opcode_code opc) (Some msg) (length msg), rest)"
  using assms by (simp add: Make_def read_masked read_unmasked kind_ok_def)

text \<open>
  C27: frames are delivered: whatever sequence of text and binary messages a peer writes as
  frames of \<^verbatim>\<open>Make\<close>, masked or not and with any keys, the same number of calls of \<^verbatim>\<open>WsReadMessage\<close> hands
  the session exactly these messages, in order, and consumes exactly these frames, as long as
  every message is shorter than the limit.
\<close>

theorem ws_stream_delivery:
  assumes "\<forall>(key, opc, msg, masked) \<in> set frames.
      data_opcode opc \<and> length msg < maxlen \<and> length msg < 2 ^ 64 \<and> length key = 4"
  shows "ws_read_all (length frames) send maxlen fail
      (concat (map (\<lambda>(key, opc, msg, masked). Make key opc msg masked) frames) @ rest) =
    (map (\<lambda>(key, opc, msg, masked). OnWsMessage (opcode_code opc) (Some msg) (length msg)) frames, rest)"
  using assms
proof (induction frames)
  case Nil
  then show ?case by simp
next
  case (Cons f frames)
  obtain key opc msg masked where f: "f = (key, opc, msg, masked)" by (metis prod_cases4)
  with Cons.prems have "data_opcode opc" "length msg < maxlen" "length msg < 2 ^ 64" "length key = 4"
    by auto
  with Cons f show ?case by (auto simp: read_Make ws_dispatch_def data_opcode_def)
qed

theorem ws_stream_delivery_witness:
  "ws_read_all 2 (\<lambda>_. None) 1000 ECONNRESET
     (Make [1, 2, 3, 4] op_text [7, 8, 9] True @ Make [0, 0, 0, 0] op_binary [] False @ [5]) =
   ([OnWsMessage 1 (Some [7, 8, 9]) 3, OnWsMessage 2 (Some []) 0], [5])"
  using ws_stream_delivery [of "[([1, 2, 3, 4], op_text, [7, 8, 9], True), ([0, 0, 0, 0], op_binary, [], False)]"
      1000 "\<lambda>_. None" ECONNRESET "[5]"]
  by (simp add: data_opcode_def del: ws_read_all.simps flip: numeral_2_eq_2 numeral_3_eq_3)

section \<open>Limits and failures\<close>

lemma WsClose_events:
  "WsClose send code \<noteq> []" "OnWsMessage a b c \<notin> set (WsClose send code)"
  by (auto simp: WsClose_def WsWriteMessage_def Make_def MakeUnFrame_def frame_t_def Let_def
      split: option.splits)

lemma dispatch_message:
  "OnWsMessage opc msg n \<in> set (snd (ws_dispatch send p m k)) \<Longrightarrow> msg = m \<and> n = k"
  by (auto simp: ws_dispatch_def WsClose_events WsSendMessage_def Let_def split: if_splits)

lemma payload_message:
  assumes "ws_payload send maxlen fail packet msk k inp = ((res, evs), rest)"
    and "OnWsMessage opc msg n \<in> set evs"
  shows "(n = 0 \<or> n < maxlen) \<and> (case msg of None \<Rightarrow> True | Some bs \<Rightarrow> length bs = n)"
proof -
  have "msg = m \<and> n = j" if "ws_dispatch send p m j = (res, evs)" for p m j
    using dispatch_message [of opc msg n send p m j] that assms(2) by simp
  with assms show ?thesis
    by (fastforce simp: ws_payload_def ws_recv_def WsClose_events split: if_splits)
qed

text \<open>
  No message at or above the limit reaches the session: the length a handler is given is
  below \<^verbatim>\<open>maxMessageLength\<close> or zero, and when the payload is there it has that length.
\<close>

theorem ws_message_bounds:
  assumes "WsReadMessage send maxlen fail inp = ((res, evs), rest)"
    and "OnWsMessage opc msg n \<in> set evs"
  shows "(n = 0 \<or> n < maxlen) \<and> (case msg of None \<Rightarrow> True | Some bs \<Rightarrow> length bs = n)"
proof -
  have "\<exists>packet msk k i. ws_payload send maxlen fail packet msk k i = ((res, evs), rest)"
    using assms by (auto simp: WsReadMessage_def split: prod.splits sum.splits)
  then show ?thesis using payload_message assms(2) by blast
qed

theorem ws_message_bounds_witness:
  "((3::nat) = 0 \<or> (3::nat) < 10) \<and> (case Some [7, 8, 9 :: u8] of None \<Rightarrow> True | Some bs \<Rightarrow> length bs = 3)"
proof (rule ws_message_bounds)
  show "WsReadMessage (\<lambda>_. None) 10 ECONNRESET [0x81, 3, 7, 8, 9] =
      ((None, [OnWsMessage 1 (Some [7, 8, 9]) 3]), [])"
    by code_simp
qed simp

text \<open>
  the error of the read of the payload is not looked at: when the peer announces a text
  of \<open>n\<close> bytes and the connection ends before they arrive, \<^verbatim>\<open>OnWsMessage\<close> is still called, with the
  length \<open>n\<close> and a buffer that was never filled, and the call reports success.
\<close>

theorem ws_short_payload_dispatched:
  assumes "0 < n" "n < 126" "n < maxlen" "length part < n"
  shows "WsReadMessage send maxlen fail (frame_t op_text n False True @ part) =
    ((None, [OnWsMessage 1 None n]), [])"
proof -
  have "kind_ok Small n" using assms by (simp add: kind_ok_def)
  from recv_head [OF this] obtain packet extra where
    "ws_recv fail 2 (frame_head Small op_text n False @ part) = (Inr packet, extra @ part)"
    "frame_opcode packet = opcode_code op_text" "frame_mask packet = False"
    "ws_recv fail (extra_size (frame_len packet)) (extra @ part) = (Inr extra, part)"
    "extra_length (frame_len packet) extra = n" by metis
  moreover have "frame_t op_text n False True = frame_head Small op_text n False" by simp
  ultimately show ?thesis
    using assms unfolding WsReadMessage_def
    by (simp add: ws_payload_def ws_recv_def [of fail n] ws_dispatch_def del: frame_head.simps ws_recv_append)
qed

theorem ws_short_payload_dispatched_witness:
  "WsReadMessage (\<lambda>_. None) 100 ECONNRESET (frame_t op_text 20 False True @ [1, 2]) =
    ((None, [OnWsMessage 1 None 20]), [])"
  by (rule ws_short_payload_dispatched) simp_all

end
