(* ===== verification/Workers.thy ===== *)
theory Workers
  imports Containers "HOL-Library.Multiset"
begin

text \<open>
  The worker pool \<^verbatim>\<open>core::casyncqueue\<close> (\<^verbatim>\<open>source/core/util/casyncqueue.cpp\<close>) as a step relation whose
  steps are the critical sections of its mutex, the rate limiter \<^verbatim>\<open>cratelimiter\<close> of the SMPP
  service with its clock readings as inputs, and \<^verbatim>\<open>core::cspinlock\<close>. Their queues are
  interpretations of the locale \<open>fifo_queue\<close>.
\<close>

section \<open>casyncqueue\<close>

text \<open>A thread of the pool waits for a job, runs one, or has left \<^verbatim>\<open>ThreadRunner\<close>.\<close>

datatype 'j worker = Waiting | Running 'j | Finished

record 'j casyncqueue =
  quYet :: bool
  quJobs :: "'j list"
  quPool :: "'j worker list"

definition casyncqueue_new :: "nat \<Rightarrow> 'j casyncqueue" where
  "casyncqueue_new poolsize = \<lparr>quYet = True, quJobs = [], quPool = replicate poolsize Waiting\<rparr>"

definition Enqueue :: "'j \<Rightarrow> 'j casyncqueue \<Rightarrow> 'j casyncqueue" where
  "Enqueue job q = q\<lparr>quJobs := quJobs q @ [job]\<rparr>"

definition pop_job :: "'j casyncqueue \<Rightarrow> ('j \<times> 'j casyncqueue) option" where
  "pop_job q = (case quJobs q of [] \<Rightarrow> None | job # jobs \<Rightarrow> Some (job, q\<lparr>quJobs := jobs\<rparr>))"

interpretation asyncq: fifo_queue Enqueue pop_job quJobs
  by unfold_locales (auto simp: Enqueue_def pop_job_def split: list.splits)

text \<open>The steps: \<^verbatim>\<open>Enqueue\<close>, a thread that takes the front job, one that returns from its job, the
  destructor's \<^verbatim>\<open>quYet = false\<close>, and a thread that sees it and leaves.\<close>

datatype 'j qlabel = LEnqueue 'j | LTake nat 'j | LDone nat 'j | LStop | LExit nat

inductive qstep :: "'j casyncqueue \<Rightarrow> 'j qlabel \<Rightarrow> 'j casyncqueue \<Rightarrow> bool" where
  enqueue: "qstep q (LEnqueue job) (Enqueue job q)"
| take: "quYet q \<Longrightarrow> i < length (quPool q) \<Longrightarrow> quPool q ! i = Waiting \<Longrightarrow>
    pop_job q = Some (job, q') \<Longrightarrow>
    qstep q (LTake i job) (q'\<lparr>quPool := (quPool q)[i := Running job]\<rparr>)"
| finish: "i < length (quPool q) \<Longrightarrow> quPool q ! i = Running job \<Longrightarrow>
    qstep q (LDone i job) (q\<lparr>quPool := (quPool q)[i := Waiting]\<rparr>)"
| stop: "qstep q LStop (q\<lparr>quYet := False\<rparr>)"
| exit: "\<not> quYet q \<Longrightarrow> i < length (quPool q) \<Longrightarrow> quPool q ! i = Waiting \<Longrightarrow>
    qstep q (LExit i) (q\<lparr>quPool := (quPool q)[i := Finished]\<rparr>)"

inductive qexec :: "'j casyncqueue \<Rightarrow> 'j qlabel list \<Rightarrow> 'j casyncqueue \<Rightarrow> bool" where
  none: "qexec q [] q"
| more: "qexec q ls q' \<Longrightarrow> qstep q' l q'' \<Longrightarrow> qexec q (ls @ [l]) q''"

inductive_cases qstep_elims:
  "qstep q (LEnqueue job) q'" "qstep q (LTake i job) q'" "qstep q (LDone i job) q'"
  "qstep q LStop q'" "qstep q (LExit i) q'"

fun enqueued :: "'j qlabel list \<Rightarrow> 'j list" where
  "enqueued [] = []"
| "enqueued (LEnqueue j # ls) = j # enqueued ls"
| "enqueued (l # ls) = enqueued ls"

fun started :: "'j qlabel list \<Rightarrow> 'j list" where
  "started [] = []"
| "started (LTake i j # ls) = j # started ls"
| "started (l # ls) = started ls"

fun completed :: "'j qlabel list \<Rightarrow> 'j list" where
  "completed [] = []"
| "completed (LDone i j # ls) = j # completed ls"
| "completed (l # ls) = completed ls"

fun job_of :: "'j worker \<Rightarrow> 'j multiset" where
  "job_of (Running j) = {#j#}"
| "job_of w = {#}"

definition running_jobs :: "'j casyncqueue \<Rightarrow> 'j multiset" where
  "running_jobs q = (\<Sum>w\<leftarrow>quPool q. job_of w)"

lemma enqueued_append [simp]: "enqueued (ls @ ms) = enqueued ls @ enqueued ms"
  by (induction ls rule: enqueued.induct) simp_all

lemma started_append [simp]: "started (ls @ ms) = started ls @ started ms"
  by (induction ls rule: started.induct) simp_all

lemma completed_append [simp]: "completed (ls @ ms) = completed ls @ completed ms"
  by (induction ls rule: completed.induct) simp_all

lemma running_update:
  "i < length ws \<Longrightarrow>
     (\<Sum>w\<leftarrow>ws[i := v]. job_of w) + job_of (ws ! i) = (\<Sum>w\<leftarrow>ws. job_of w) + job_of v"
proof (induction ws arbitrary: i)
  case Nil
  then show ?case by simp
next
  case (Cons w ws)
  then show ?case by (cases i) (auto simp: ac_simps)
qed

lemma qstep_invariant:
  assumes "qstep q l q'"
  shows "started [l] @ quJobs q' = quJobs q @ enqueued [l]"
    and "running_jobs q' + mset (completed [l]) = running_jobs q + mset (started [l])"
    and "length (quPool q') = length (quPool q)"
  using assms
  by (induction rule: qstep.induct)
    (auto simp: Enqueue_def pop_job_def running_jobs_def split: list.splits
      dest: running_update [where v = "Running _"] running_update [where v = Waiting]
        running_update [where v = Finished])

lemma qexec_jobs:
  assumes "qexec q0 ls q"
  shows "started ls @ quJobs q = quJobs q0 @ enqueued ls \<and>
    running_jobs q0 + mset (started ls) = mset (completed ls) + running_jobs q \<and> length (quPool q) = length (quPool q0)"
  using assms
proof (induction rule: qexec.induct)
  case (none q)
  then show ?case by simp
next
  case (more q ls q' l q'')
  note inv = qstep_invariant [OF more.hyps(2)]
  have "started (ls @ [l]) @ quJobs q'' = (started ls @ quJobs q') @ enqueued [l]"
    using inv(1) by simp
  also have "\<dots> = quJobs q @ enqueued (ls @ [l])" using more.IH by simp
  finally have order: "started (ls @ [l]) @ quJobs q'' = quJobs q @ enqueued (ls @ [l])" .
  have "running_jobs q + mset (started (ls @ [l])) =
      mset (completed ls) + (running_jobs q' + mset (started [l]))"
    using more.IH by (metis (no_types, lifting) add.assoc mset_append started_append)
  also have "\<dots> = mset (completed (ls @ [l])) + running_jobs q''"
    unfolding inv(2) [symmetric] by (simp add: ac_simps)
  finally show ?case using order more.IH inv(3) by simp
qed

lemma casyncqueue_new_idle [simp]:
  "running_jobs (casyncqueue_new n) = {#}" "quJobs (casyncqueue_new n) = []" "length (quPool (casyncqueue_new n)) = n"
  by (induction n) (simp_all add: running_jobs_def casyncqueue_new_def)

text \<open>
  C35: every job runs once and jobs start in the order they were enqueued: in any execution of a
  pool, the jobs started so far followed by the queue are those enqueued, and those started
  are the completed and the running ones, as multisets.
\<close>

theorem casyncqueue_jobs:
  assumes "qexec (casyncqueue_new n) ls q"
  shows "started ls @ quJobs q = enqueued ls \<and>
    mset (started ls) = mset (completed ls) + running_jobs q \<and> length (quPool q) = n"
  using qexec_jobs [OF assms] by simp

lemma qexec_sample:
  "qexec (casyncqueue_new 1) [LEnqueue j, LTake 0 j, LDone 0 j]
     \<lparr>quYet = True, quJobs = [], quPool = [Waiting]\<rparr>"
proof -
  let ?q = "\<lambda>js w. \<lparr>quYet = True, quJobs = js, quPool = [w]\<rparr>"
  have "qexec (casyncqueue_new 1) ([] @ [LEnqueue j]) (?q [j] Waiting)"
    by (rule qexec.more [OF qexec.none])
      (use qstep.enqueue [of "casyncqueue_new 1" j] in \<open>simp add: casyncqueue_new_def Enqueue_def\<close>)
  then have "qexec (casyncqueue_new 1) (([] @ [LEnqueue j]) @ [LTake 0 j]) (?q [] (Running j))"
    by (rule qexec.more)
      (use qstep.take [of "?q [j] Waiting" 0 j "?q [] Waiting"] in \<open>simp add: pop_job_def\<close>)
  then have "qexec (casyncqueue_new 1) ((([] @ [LEnqueue j]) @ [LTake 0 j]) @ [LDone 0 j]) (?q [] Waiting)"
    by (rule qexec.more)
      (use qstep.finish [of 0 "?q [] (Running j)" j] in simp)
  then show ?thesis by simp
qed

theorem casyncqueue_jobs_witness:
  "started [LEnqueue (5::nat), LTake 0 5, LDone 0 5] @ [] = enqueued [LEnqueue 5, LTake 0 5, LDone 0 5] \<and>
   mset (started [LEnqueue (5::nat), LTake 0 5, LDone 0 5]) =
     mset (completed [LEnqueue 5, LTake 0 5, LDone 0 5])
       + running_jobs \<lparr>quYet = True, quJobs = [], quPool = [Waiting]\<rparr> \<and>
   length [Waiting :: nat worker] = 1"
  using casyncqueue_jobs [OF qexec_sample [of 5]] by simp

section \<open>cratelimiter\<close>

record 'j cratelimiter =
  rl_interval :: int
  rl_max_queue :: nat
  rl_queue :: "'j list"
  rl_nextDue :: int

text \<open>The constructor: at least one nanosecond tick per request, \<open>10 ^ 9\<close> over the rate.\<close>

definition cratelimiter_new :: "nat \<Rightarrow> nat \<Rightarrow> int \<Rightarrow> 'j cratelimiter" where
  "cratelimiter_new rps max_queue now =
     \<lparr>rl_interval = 1000000000 div int (if rps \<noteq> 0 then rps else 1), rl_max_queue = max_queue,
      rl_queue = [], rl_nextDue = now\<rparr>"

definition rl_Enqueue :: "'j \<Rightarrow> 'j cratelimiter \<Rightarrow> bool \<times> 'j cratelimiter" where
  "rl_Enqueue task rl =
     (if length (rl_queue rl) > rl_max_queue rl then (False, rl)
      else (True, rl\<lparr>rl_queue := rl_queue rl @ [task]\<rparr>))"

definition rl_pop :: "'j cratelimiter \<Rightarrow> ('j \<times> 'j cratelimiter) option" where
  "rl_pop rl = (case rl_queue rl of [] \<Rightarrow> None | job # jobs \<Rightarrow> Some (job, rl\<lparr>rl_queue := jobs\<rparr>))"

interpretation rlq: fifo_queue "\<lambda>j rl. rl\<lparr>rl_queue := rl_queue rl @ [j]\<rparr>" rl_pop rl_queue
  by unfold_locales (auto simp: rl_pop_def split: list.splits)

text \<open>One round of \<^verbatim>\<open>Run\<close>: the clock says \<open>now\<close>, the job answers \<open>skip\<close>; the time the job is due to
  start and the next due time. \<^verbatim>\<open>sleep_until\<close> returns no earlier than its argument.\<close>

definition rl_round :: "int \<Rightarrow> int \<Rightarrow> int \<Rightarrow> bool \<Rightarrow> int \<times> int" where
  "rl_round interval nextDue now skip =
     (let now = (if now < nextDue then nextDue else now) in
      (now, if skip then now else if nextDue < now then now + interval else nextDue + interval))"

fun rl_Run :: "int \<Rightarrow> int \<Rightarrow> (int \<times> bool) list \<Rightarrow> (int \<times> bool) list" where
  "rl_Run interval nextDue [] = []"
| "rl_Run interval nextDue ((now, skip) # rounds) =
     (let (start, due) = rl_round interval nextDue now skip in
      (start, skip) # rl_Run interval due rounds)"

lemma length_rl_Run [simp]: "length (rl_Run interval due rounds) = length rounds"
  by (induction rounds arbitrary: due) (auto simp: Let_def split_beta)

definition sent_in :: "(int \<times> bool) list \<Rightarrow> nat" where
  "sent_in xs = length (filter (\<lambda>x. \<not> snd x) xs)"

lemma rl_Run_not_before:
  assumes "0 \<le> interval" "j < length rounds"
  shows "due + interval * int (sent_in (take j (rl_Run interval due rounds)))
    \<le> fst (rl_Run interval due rounds ! j)"
  using assms(2)
proof (induction rounds arbitrary: due j)
  case Nil
  then show ?case by simp
next
  case (Cons r rounds)
  obtain now skip where r: "r = (now, skip)" by fastforce
  obtain start due' where round: "rl_round interval due now skip = (start, due')" by fastforce
  have le: "due \<le> start" "due + (if skip then 0 else interval) \<le> due'"
    using round assms(1) by (auto simp: rl_round_def Let_def split: if_splits)
  show ?case
  proof (cases j)
    case 0
    with r round le show ?thesis by (simp add: sent_in_def)
  next
    case (Suc k)
    with Cons.IH [of k due'] Cons.prems r round le show ?thesis
      by (auto simp: sent_in_def algebra_simps split: if_splits)
  qed
qed

text \<open>
  The rate is kept: between the job at position \<open>i\<close> and a later one at position \<open>j\<close> there is
  an interval for every job in between, the first included, that was really sent, whatever
  the clock says and whichever jobs are skipped.
\<close>

theorem cratelimiter_spacing:
  assumes "0 \<le> interval" "i < j" "j < length rounds"
  shows "fst (rl_Run interval due rounds ! i)
      + interval * int (sent_in (drop i (take j (rl_Run interval due rounds))))
    \<le> fst (rl_Run interval due rounds ! j)"
  using assms(2,3)
proof (induction rounds arbitrary: due i j)
  case Nil
  then show ?case by simp
next
  case (Cons r rounds)
  obtain now skip where r: "r = (now, skip)" by fastforce
  obtain start due' where round: "rl_round interval due now skip = (start, due')" by fastforce
  obtain k where j: "j = Suc k" using Cons.prems by (cases j) auto
  show ?case
  proof (cases i)
    case 0
    have "start + (if skip then 0 else interval) \<le> due'"
      using round assms(1) by (auto simp: rl_round_def Let_def split: if_splits)
    with rl_Run_not_before [OF assms(1), of k rounds due'] 0 j r round Cons.prems show ?thesis
      by (auto simp: sent_in_def algebra_simps split: if_splits)
  next
    case (Suc h)
    with Cons.IH [of h k due'] Cons.prems j r round show ?thesis by simp
  qed
qed

theorem cratelimiter_spacing_witness:
  "fst (rl_Run 10 0 [(0, False), (3, True), (4, False), (5, False)] ! 0)
      + 10 * int (sent_in (drop 0 (take 3 (rl_Run 10 0 [(0, False), (3, True), (4, False), (5, False)]))))
    \<le> fst (rl_Run 10 0 [(0, False), (3, True), (4, False), (5, False)] ! 3)"
  by (rule cratelimiter_spacing) simp_all

text \<open>
  the queue holds one job more than its limit: from an empty limiter, any number of calls of
  \<^verbatim>\<open>Enqueue\<close> leaves at most \<open>max_queue + 1\<close> jobs, and with as many calls it has exactly that many.
\<close>

theorem cratelimiter_queue_limit:
  "length (rl_queue (foldl (\<lambda>rl t. snd (rl_Enqueue t rl)) (cratelimiter_new rps max_queue now) tasks))
     = min (length tasks) (max_queue + 1)"
proof -
  have "length (rl_queue rl') = min (length tasks) (max_queue + 1) \<and> rl_max_queue rl' = max_queue"
    if "rl' = foldl (\<lambda>rl t. snd (rl_Enqueue t rl)) (cratelimiter_new rps max_queue now) tasks" for rl'
    using that
    by (induction tasks arbitrary: rl' rule: rev_induct)
      (auto simp: rl_Enqueue_def cratelimiter_new_def)
  then show ?thesis by blast
qed

section \<open>cspinlock\<close>

text \<open>The flag of the lock; \<^verbatim>\<open>try_lock\<close> returns what \<^verbatim>\<open>test_and_set\<close> found.\<close>

definition try_lock :: "bool \<Rightarrow> bool \<times> bool" where
  "try_lock flag = (flag, True)"

definition spin_unlock :: "bool \<Rightarrow> bool" where
  "spin_unlock flag = False"

text \<open>
  \<^verbatim>\<open>cspinlock::try_lock\<close> answers the wrong way round: it returns true exactly when the lock is
  held by someone else, and false when it has just taken it.
\<close>

theorem try_lock_inverted: "fst (try_lock flag) \<longleftrightarrow> flag"
  by (simp add: try_lock_def)

end
