(* ===== verification/Poll.thy ===== *)
theory Poll
  imports Http Containers
begin

text \<open>
  The event loop \<^verbatim>\<open>inet::cpoll\<close> (\<^verbatim>\<open>source/inet/cepoll.cpp\<close>, \<^verbatim>\<open>include/inet/cepoll.h\<close>): the table of handlers,
  the dispatch of a batch of events, the queue of objects that are asked in turn whether they
  have left; and \<^verbatim>\<open>core::ctimer\<close> (\<^verbatim>\<open>source/core/util/ctimer.cpp\<close>), a timer descriptor on that loop.
  The kernel's interest set is part of the state; what system calls return is a parameter.
\<close>

section \<open>Handlers\<close>

record ('h, 'o) cpoll =
  interest :: "int list"
  fdHandlers :: "(int, 'h) umap"
  fdQueueGC :: "'o list"

definition EnqueueGc :: "'o \<Rightarrow> ('h, 'o) cpoll \<Rightarrow> ('h, 'o) cpoll" where
  "EnqueueGc obj p = p\<lparr>fdQueueGC := fdQueueGC p @ [obj]\<rparr>"

text \<open>\<^verbatim>\<open>PollAdd\<close>: the handler is stored only when the kernel accepts the descriptor.\<close>

definition PollAdd :: "int \<Rightarrow> 'h \<Rightarrow> ('h, 'o) cpoll \<Rightarrow> errno option \<times> ('h, 'o) cpoll" where
  "PollAdd fd callback p =
     (if fd < 0 then (Some EBADF, p)
      else if fd \<in> set (interest p) then (Some EEXIST, p)
      else (None, p\<lparr>interest := fd # interest p, fdHandlers := um_assign fd callback (fdHandlers p)\<rparr>))"

definition PollUpdate_events :: "int \<Rightarrow> ('h, 'o) cpoll \<Rightarrow> errno option" where
  "PollUpdate_events fd p =
     (if fd < 0 then Some EBADF else if fd \<in> set (interest p) then None else Some ENOENT)"

definition PollUpdate_handler :: "int \<Rightarrow> 'h \<Rightarrow> ('h, 'o) cpoll \<Rightarrow> errno option \<times> ('h, 'o) cpoll" where
  "PollUpdate_handler fd callback p =
     (case um_find (fdHandlers p) fd of
        Some _ \<Rightarrow> (None, p\<lparr>fdHandlers := um_assign fd callback (fdHandlers p)\<rparr>)
      | None \<Rightarrow> (Some ENOENT, p))"

text \<open>\<^verbatim>\<open>PollDelete\<close> closes the descriptor, which takes it out of the interest set; its handler stays.\<close>

definition poll_close :: "int \<Rightarrow> ('h, 'o) cpoll \<Rightarrow> ('h, 'o) cpoll" where
  "poll_close fd p = (if fd > 0 then p\<lparr>interest := removeAll fd (interest p)\<rparr> else p)"

text \<open>A batch of events in \<^verbatim>\<open>PollThread\<close>, from the last to the first: the handlers that are called,
  the descriptors that are closed because they have none (an empty \<^verbatim>\<open>std::function\<close> is \<open>None\<close>), and
  whether the thread goes on.\<close>

datatype 'h poll_action = CallHandler 'h int | CloseFd int

fun poll_dispatch ::
  "int \<Rightarrow> (int, 'h option) umap \<Rightarrow> int list \<Rightarrow> 'h poll_action list \<times> bool" where
  "poll_dispatch exitFd handlers [] = ([], True)"
| "poll_dispatch exitFd handlers (fd # fds) =
     (if fd = exitFd then ([], False)
      else let act = (case um_find handlers fd of
                        Some (Some h) \<Rightarrow> CallHandler h fd
                      | _ \<Rightarrow> CloseFd fd);
               (acts, go) = poll_dispatch exitFd handlers fds in
           (act # acts, go))"

definition poll_batch ::
  "int \<Rightarrow> (int, 'h option) umap \<Rightarrow> int list \<Rightarrow> 'h poll_action list \<times> bool" where
  "poll_batch exitFd handlers events = poll_dispatch exitFd handlers (rev events)"

section \<open>Objects that leave\<close>

text \<open>\<^verbatim>\<open>Gc\<close> looks at one object per call; \<open>stays\<close> is \<^verbatim>\<open>self and not self->IsLeaveUs(now)\<close>.\<close>

fun gc_queue :: "('o \<Rightarrow> bool) \<Rightarrow> 'o list \<Rightarrow> 'o list" where
  "gc_queue stays [] = []"
| "gc_queue stays (obj # q) = (if stays obj then q @ [obj] else q)"

definition Gc :: "('o \<Rightarrow> bool) \<Rightarrow> ('h, 'o) cpoll \<Rightarrow> ('h, 'o) cpoll" where
  "Gc stays p = p\<lparr>fdQueueGC := gc_queue stays (fdQueueGC p)\<rparr>"

definition pop_gc :: "('h, 'o) cpoll \<Rightarrow> ('o \<times> ('h, 'o) cpoll) option" where
  "pop_gc p = (case fdQueueGC p of [] \<Rightarrow> None | obj # q \<Rightarrow> Some (obj, p\<lparr>fdQueueGC := q\<rparr>))"

interpretation gcq: fifo_queue EnqueueGc pop_gc fdQueueGC
  by unfold_locales (auto simp: EnqueueGc_def pop_gc_def split: list.splits)

lemma gc_rounds:
  "n \<le> length q \<Longrightarrow> (gc_queue stays ^^ n) q = drop n q @ filter stays (take n q)"
proof (induction n)
  case 0
  then show ?case by simp
next
  case (Suc n)
  then have "drop n q = q ! n # drop (Suc n) q" "take (Suc n) q = take n q @ [q ! n]"
    by (simp_all add: Cons_nth_drop_Suc take_Suc_conv_app_nth)
  with Suc show ?case by simp
qed

lemma Gc_iterate: "fdQueueGC ((Gc stays ^^ n) p) = (gc_queue stays ^^ n) (fdQueueGC p)"
  by (induction n) (simp_all add: Gc_def)

text \<open>
  the collector is fair: after as many calls of \<^verbatim>\<open>Gc\<close> as objects were enqueued, exactly those
  that stay are left, in the order they were enqueued; every object that has left is gone.
\<close>

theorem Gc_collects:
  assumes "fdQueueGC p = []"
  shows "fdQueueGC ((Gc stays ^^ length objs) (gcq.enqueue_all objs p)) = filter stays objs"
  using assms by (simp add: Gc_iterate gc_rounds gcq.content_enqueue_all)

theorem Gc_collects_witness:
  "fdQueueGC ((Gc (\<lambda>n. n < 10) ^^ length [4, 12, 5 :: nat])
     (gcq.enqueue_all [4, 12, 5 :: nat] \<lparr>interest = [], fdHandlers = [] :: (int, nat) umap, fdQueueGC = []\<rparr>)) =
   filter (\<lambda>n. n < 10) [4, 12, 5 :: nat]"
  by (rule Gc_collects) simp

text \<open>
  a descriptor that is added is served: when the kernel accepts it, an event on it calls
  the handler it was added with, even after other descriptors were added.
\<close>

theorem PollAdd_served:
  assumes "um_wf (fdHandlers p)" "PollAdd fd h p = (None, p1)" "PollAdd fd' h' p1 = (r, p2)"
    "fd \<noteq> exitFd"
  shows "poll_batch exitFd (map (\<lambda>(k, v). (k, Some v)) (fdHandlers p2)) [fd] = ([CallHandler h fd], True)"
proof -
  have p1: "um_find (fdHandlers p1) fd = Some h" "um_wf (fdHandlers p1)" "fd \<in> set (interest p1)"
    using assms(1,2) by (auto simp: PollAdd_def um_find_assign um.invar_assign split: if_splits)
  have "um_find (fdHandlers p2) fd = Some h"
    using assms(3) p1 by (auto simp: PollAdd_def um_find_assign split: if_splits)
  then have "um_find (map (\<lambda>(k, v). (k, Some v)) (fdHandlers p2)) fd = Some (Some h)"
    by (simp add: um_find_def map_of_map)
  then show ?thesis using assms(4) by (simp add: poll_batch_def del: um_find_iff)
qed

theorem PollAdd_served_witness:
  "poll_batch 3 (map (\<lambda>(k, v). (k, Some v)) [(7, ''a''), (8, ''b'')]) [7] = ([CallHandler ''a'' 7], True)"
  using PollAdd_served [of "\<lparr>interest = [], fdHandlers = [], fdQueueGC = [] :: nat list\<rparr>" 7 "''a''"
      "\<lparr>interest = [7], fdHandlers = [(7, ''a'')], fdQueueGC = []\<rparr>" 8 "''b''" None
      "\<lparr>interest = [8, 7], fdHandlers = [(7, ''a''), (8, ''b'')], fdQueueGC = []\<rparr>" 3]
  by (simp add: PollAdd_def um_wf_def um_assign_def)

section \<open>Timers\<close>

datatype timer_type_t = oneshot | periodic

text \<open>\<open>armed\<close>: the initial time and the interval the kernel has, in milliseconds; \<open>inserted\<close>: whether
  the descriptor is in the interest set of the poll.\<close>

record ctimer =
  timerFd :: int
  running :: bool
  armed :: "nat \<times> nat"
  inserted :: bool

definition ctimer_new :: ctimer where
  "ctimer_new = \<lparr>timerFd = -1, running = False, armed = (0, 0), inserted = False\<rparr>"

text \<open>\<^verbatim>\<open>Insert\<close>: \<open>poll\<close> is whether the poll is alive, \<open>newfd\<close> what \<^verbatim>\<open>timerfd_create\<close> returns.\<close>

definition Insert :: "bool \<Rightarrow> int \<Rightarrow> ctimer \<Rightarrow> (errno option \<times> ctimer) outcome" where
  "Insert poll newfd t =
     (if \<not> poll then Inr (Some EPERM, t)
      else
        let t = (if timerFd t < 0 then t\<lparr>timerFd := newfd, inserted := False\<rparr> else t) in
        if timerFd t = -1 then Inl (Throw ''Failed to create timer'')
        else if inserted t then Inr (Some EEXIST, t)
        else Inr (None, t\<lparr>inserted := True\<rparr>))"

definition Launch :: "timer_type_t \<Rightarrow> bool \<Rightarrow> int \<Rightarrow> nat \<Rightarrow> ctimer \<Rightarrow> (bool \<times> ctimer) outcome" where
  "Launch kind poll newfd ms t =
     (if running t then Inr (False, t)
      else bind_outcome (Insert poll newfd t) (\<lambda>(res, t).
        if timerFd t < 0 then Inl (Throw ''Failed to set timerfd'')
        else Inr (True, t\<lparr>armed := (ms, if kind = periodic then ms else 0), running := True\<rparr>)))"

definition StopTimer :: "ctimer \<Rightarrow> bool \<times> ctimer" where
  "StopTimer t =
     (if \<not> running t then (False, t) else (True, t\<lparr>running := False, armed := (0, 0)\<rparr>))"

definition timer_Join :: "ctimer \<Rightarrow> ctimer" where
  "timer_Join t =
     (let t = snd (StopTimer t) in
      if timerFd t > 0 then t\<lparr>timerFd := -1, inserted := False\<rparr> else t\<lparr>timerFd := -1\<rparr>)"

text \<open>\<^verbatim>\<open>TimerOnEvent\<close>: \<open>rd\<close> is the error of the read of the descriptor, \<open>again\<close> what the callback
  returns. The result also says whether the callback was run.\<close>

definition TimerOnEvent ::
  "timer_type_t \<Rightarrow> bool \<Rightarrow> int \<Rightarrow> errno option \<Rightarrow> bool \<Rightarrow> ctimer \<Rightarrow> (bool \<times> ctimer) outcome" where
  "TimerOnEvent kind poll newfd rd again t =
     (if timerFd t > 0 then
        (case rd of
           Some e \<Rightarrow>
             if e = EAGAIN then bind_outcome (Insert poll newfd t) (\<lambda>(res, t). Inr (False, t))
             else Inr (False, t)
         | None \<Rightarrow>
             let t = (if kind = oneshot then snd (StopTimer t) else t) in
             if \<not> again then Inr (True, if kind = periodic then timer_Join t else t)
             else if kind = periodic
             then bind_outcome (Insert poll newfd t) (\<lambda>(res, t). Inr (True, t))
             else Inr (True, t))
      else Inr (False, t))"

definition timer_inv :: "ctimer \<Rightarrow> bool" where
  "timer_inv t \<longleftrightarrow> (running t \<longrightarrow> timerFd t > 0) \<and> (\<not> running t \<longrightarrow> armed t = (0, 0))
     \<and> (inserted t \<longrightarrow> timerFd t > 0)"

lemma Insert_inv:
  "timer_inv t \<Longrightarrow> 0 < newfd \<Longrightarrow> Insert poll newfd t = Inr (r, t') \<Longrightarrow>
     timerFd t \<noteq> 0 \<Longrightarrow> timer_inv t' \<and> timerFd t' \<noteq> 0"
  by (auto simp: Insert_def timer_inv_def Let_def split: if_splits)

lemma StopTimer_inv:
  "timer_inv t \<Longrightarrow> timer_inv (snd (StopTimer t)) \<and> timerFd (snd (StopTimer t)) = timerFd t"
  by (cases "running t") (auto simp: StopTimer_def timer_inv_def)

lemma timer_Join_inv:
  assumes "timer_inv t"
  shows "timer_inv (timer_Join t) \<and> timerFd (timer_Join t) = -1"
proof -
  have "\<not> running (snd (StopTimer t))" by (simp add: StopTimer_def)
  with StopTimer_inv [OF assms] show ?thesis by (auto simp: timer_Join_def timer_inv_def Let_def)
qed

datatype timer_op = OpLaunch nat | OpStop | OpJoin | OpEvent "errno option" bool

definition timer_step :: "timer_type_t \<Rightarrow> bool \<Rightarrow> int \<Rightarrow> timer_op \<Rightarrow> ctimer \<Rightarrow> ctimer outcome" where
  "timer_step kind poll newfd cmd t =
     (case cmd of
        OpLaunch ms \<Rightarrow> bind_outcome (Launch kind poll newfd ms t) (\<lambda>(b, t). Inr t)
      | OpStop \<Rightarrow> Inr (snd (StopTimer t))
      | OpJoin \<Rightarrow> Inr (timer_Join t)
      | OpEvent rd again \<Rightarrow> bind_outcome (TimerOnEvent kind poll newfd rd again t) (\<lambda>(b, t). Inr t))"

lemma timer_step_inv:
  assumes "timer_inv t" "timerFd t \<noteq> 0" "0 < newfd" "timer_step kind poll newfd cmd t = Inr t'"
  shows "timer_inv t' \<and> timerFd t' \<noteq> 0"
proof (cases cmd)
  case (OpLaunch ms)
  then show ?thesis using assms Insert_inv [OF assms(1,3), of poll]
    by (auto simp: timer_step_def Launch_def bind_outcome_eq_Inr timer_inv_def split: if_splits)
next
  case (OpEvent rd again)
  note stop = StopTimer_inv [OF assms(1)]
  show ?thesis
    using OpEvent assms stop timer_Join_inv [OF assms(1)] Insert_inv [OF assms(1,3), of poll]
    by (auto simp: timer_step_def TimerOnEvent_def bind_outcome_eq_Inr Let_def
        split: if_splits option.splits)
qed (use assms StopTimer_inv [OF assms(1)] timer_Join_inv [OF assms(1)] in
    \<open>auto simp: timer_step_def\<close>)

text \<open>
  a timer is armed exactly while it runs: after any sequence of launches, stops, joins and
  events a timer that is not running is disarmed, and one that runs has a descriptor; and a
  one-shot timer that fired can be launched again.
\<close>

theorem timer_reachable:
  assumes "foldl (\<lambda>m cmd. bind_outcome m (timer_step kind poll newfd cmd)) (Inr ctimer_new) cmds = Inr t"
    and "0 < newfd"
  shows "(\<not> running t \<longrightarrow> armed t = (0, 0)) \<and> (running t \<longrightarrow> timerFd t > 0)
    \<and> (kind = oneshot \<and> running t \<and> poll \<longrightarrow>
        (\<exists>t' t''. TimerOnEvent kind poll newfd None again t = Inr (True, t')
          \<and> Launch kind poll newfd ms t' = Inr (True, t'')))"
proof -
  have "timer_inv t \<and> timerFd t \<noteq> 0" using assms(1)
  proof (induction cmds arbitrary: t rule: rev_induct)
    case Nil
    then show ?case by (auto simp: ctimer_new_def timer_inv_def)
  next
    case (snoc cmd cmds)
    then obtain t0 where
      "foldl (\<lambda>m cmd. bind_outcome m (timer_step kind poll newfd cmd)) (Inr ctimer_new) cmds = Inr t0"
      "timer_step kind poll newfd cmd t0 = Inr t" by (auto simp: bind_outcome_eq_Inr)
    with snoc.IH timer_step_inv [of t0 newfd kind poll cmd t] assms(2) show ?case by blast
  qed
  then show ?thesis
    by (auto simp: timer_inv_def TimerOnEvent_def StopTimer_def Launch_def Insert_def Let_def)
qed

theorem timer_reachable_witness:
  "\<exists>t' t''. TimerOnEvent oneshot True 9 None True
            \<lparr>timerFd = 9, running = True, armed = (50, 0), inserted = True\<rparr> = Inr (True, t')
          \<and> Launch oneshot True 9 70 t' = Inr (True, t'')"
proof -
  let ?t = "\<lparr>timerFd = 9, running = True, armed = (50, 0), inserted = True\<rparr>"
  have "foldl (\<lambda>m cmd. bind_outcome m (timer_step oneshot True 9 cmd)) (Inr ctimer_new) [OpLaunch 50] = Inr ?t"
    by (simp add: timer_step_def Launch_def Insert_def ctimer_new_def Let_def)
  from timer_reachable [OF this, of True 70] show ?thesis by simp
qed

end
