(* ===== verification/Json.thy ===== *)
theory Json
  imports Complex_Main Containers
begin

text \<open>
  JSON values and the operations on them that the program uses (\<^verbatim>\<open>include/core/util/cjson.h\<close> over
  \<^verbatim>\<open>nlohmann::json\<close>): access that throws on the wrong type, insertion by \<^verbatim>\<open>operator[]\<close>, \<^verbatim>\<open>contains\<close>,
  \<^verbatim>\<open>empty\<close> and \<^verbatim>\<open>size\<close>, which do not look inside strings. An object is a map from keys to values.
  Parsing and printing text are parameters of the operations that use them.
\<close>

datatype json =
    JNull
  | JBool bool
  | JInt int
  | JFloat rat
  | JStr string
  | JArr "json list"
  | JObj "(string \<times> json) list"

fun is_object :: "json \<Rightarrow> bool" where
  "is_object (JObj fs) = True"
| "is_object _ = False"

fun is_array :: "json \<Rightarrow> bool" where
  "is_array (JArr xs) = True"
| "is_array _ = False"

fun is_string :: "json \<Rightarrow> bool" where
  "is_string (JStr s) = True"
| "is_string _ = False"

fun is_number :: "json \<Rightarrow> bool" where
  "is_number (JInt i) = True"
| "is_number (JFloat r) = True"
| "is_number _ = False"

fun json_empty :: "json \<Rightarrow> bool" where
  "json_empty JNull = True"
| "json_empty (JArr xs) = (xs = [])"
| "json_empty (JObj fs) = (fs = [])"
| "json_empty _ = False"

fun json_size :: "json \<Rightarrow> nat" where
  "json_size JNull = 0"
| "json_size (JArr xs) = length xs"
| "json_size (JObj fs) = length fs"
| "json_size _ = 1"

fun json_find :: "json \<Rightarrow> string \<Rightarrow> json option" where
  "json_find (JObj fs) k = um_find fs k"
| "json_find _ k = None"

definition contains :: "json \<Rightarrow> string \<Rightarrow> bool" where
  "contains j k \<longleftrightarrow> json_find j k \<noteq> None"

text \<open>\<^verbatim>\<open>operator[]\<close> on a value that may be changed: null becomes an object, a missing key is null;
  anything but null and an object throws.\<close>

fun json_at :: "json \<Rightarrow> string \<Rightarrow> json outcome" where
  "json_at (JObj fs) k = Inr (case um_find fs k of Some v \<Rightarrow> v | None \<Rightarrow> JNull)"
| "json_at JNull k = Inr JNull"
| "json_at _ k = Inl (Throw ''type_error.305'')"

text \<open>\<^verbatim>\<open>operator[]\<close> on a constant: a missing key fails an assertion.\<close>

definition json_cat :: "json \<Rightarrow> string \<Rightarrow> json outcome" where
  "json_cat j k =
     (case j of
        JObj fs \<Rightarrow> (case um_find fs k of Some v \<Rightarrow> Inr v | None \<Rightarrow> Inl (UB ''missing key of a constant object''))
      | _ \<Rightarrow> Inl (Throw ''type_error.305''))"

text \<open>\<^verbatim>\<open>j[k] = v\<close>.\<close>

fun json_set :: "string \<Rightarrow> json \<Rightarrow> json \<Rightarrow> json outcome" where
  "json_set k v (JObj fs) = Inr (JObj (um_assign k v fs))"
| "json_set k v JNull = Inr (JObj [(k, v)])"
| "json_set k v _ = Inl (Throw ''type_error.305'')"

fun get_string :: "json \<Rightarrow> string outcome" where
  "get_string (JStr s) = Inr s"
| "get_string _ = Inl (Throw ''type_error.302'')"

text \<open>\<^verbatim>\<open>get<size_t>()\<close>: modulo \<open>2 ^ 64\<close>, fractions cut off.\<close>

fun get_size :: "json \<Rightarrow> nat outcome" where
  "get_size (JInt i) = Inr (nat (i mod 2 ^ 64))"
| "get_size (JFloat r) = Inr (nat ((if r \<ge> 0 then floor r else ceiling r) mod 2 ^ 64))"
| "get_size _ = Inl (Throw ''type_error.302'')"

text \<open>\<^verbatim>\<open>cjson::Unserialize\<close>: a text that does not parse gives false, as does an empty document.\<close>

definition cjson_Unserialize :: "(string \<Rightarrow> json option) \<Rightarrow> string \<Rightarrow> json option" where
  "cjson_Unserialize parse document =
     (case parse document of
        None \<Rightarrow> None
      | Some v \<Rightarrow> if \<not> json_empty v then Some v else None)"

section \<open>Access laws\<close>

definition json_wf :: "json \<Rightarrow> bool" where
  "json_wf j \<longleftrightarrow> (case j of JObj fs \<Rightarrow> um_wf fs | _ \<Rightarrow> True)"

lemma json_set_find:
  assumes "json_set k v j = Inr j'" "json_wf j"
  shows "json_wf j' \<and> is_object j' \<and> json_find j' i = (if i = k then Some v else json_find j i)"
proof (cases "j = JNull")
  case True
  with assms show ?thesis by (auto simp: json_wf_def um_find_def um_wf_def)
next
  case False
  with assms show ?thesis
    by (cases j) (auto simp: json_wf_def um_find_assign um.invar_assign)
qed

lemma get_string_eq_Inr: "get_string v = Inr x \<longleftrightarrow> v = JStr x"
  by (cases v) auto

lemma json_set_ok: "is_object j \<or> j = JNull \<Longrightarrow> \<exists>j'. json_set k v j = Inr j'"
  by (cases j) auto

lemma json_set_eq_Inr: "json_set k v j = Inr j' \<Longrightarrow> is_object j \<or> j = JNull"
  by (cases j) auto

lemma json_at_find: "is_object j \<Longrightarrow> json_at j k = Inr (case json_find j k of Some v \<Rightarrow> v | None \<Rightarrow> JNull)"
  by (cases j) auto

lemma contains_at: "contains j k \<Longrightarrow> json_find j k = Some v \<Longrightarrow> json_at j k = Inr v"
  by (cases j) auto

text \<open>A batch of assignments, in order.\<close>

fun json_sets :: "(string \<times> json) list \<Rightarrow> json \<Rightarrow> json outcome" where
  "json_sets [] j = Inr j"
| "json_sets ((k, v) # kvs) j = bind_outcome (json_set k v j) (json_sets kvs)"

lemma json_sets_find:
  assumes "json_sets kvs j = Inr j'" "json_wf j" "kvs \<noteq> []"
  shows "json_wf j' \<and> is_object j' \<and>
    json_find j' i = (case map_of (rev kvs) i of Some v \<Rightarrow> Some v | None \<Rightarrow> json_find j i)"
  using assms
proof (induction kvs arbitrary: j)
  case Nil
  then show ?case by simp
next
  case (Cons kv kvs)
  obtain k v where kv: "kv = (k, v)" by fastforce
  with Cons.prems obtain j1 where j1: "json_set k v j = Inr j1" "json_sets kvs j1 = Inr j'"
    by (auto simp: bind_outcome_eq_Inr)
  note set = json_set_find [OF j1(1) Cons.prems(2)]
  show ?case
  proof (cases "kvs = []")
    case True
    with j1 kv set show ?thesis by auto
  next
    case False
    from Cons.IH [OF j1(2) _ False] set kv show ?thesis
      by (auto simp: map_add_def split: option.splits)
  qed
qed

lemma json_sets_ok: "is_object j \<Longrightarrow> json_wf j \<Longrightarrow> \<exists>j'. json_sets kvs j = Inr j'"
proof (induction kvs arbitrary: j)
  case Nil
  then show ?case by simp
next
  case (Cons kv kvs)
  obtain k v where kv: "kv = (k, v)" by fastforce
  obtain j1 where j1: "json_set k v j = Inr j1" using json_set_ok Cons.prems by blast
  with json_set_find [OF j1 Cons.prems(2)] Cons.IH [of j1] kv show ?case by auto
qed

end
