(* ===== verification/Credentials.thy ===== *)
theory Credentials
  imports Flags Base64 Http Json
begin

text \<open>
  Applications and their tokens: \<^verbatim>\<open>config::credential_t\<close> with its copy constructor, and \<^verbatim>\<open>ccredentials\<close> of
  \<^verbatim>\<open>source/core/credentials/ccredentials.cpp\<close>. HMAC-SHA256 and AES-256-CBC are parameters: \<open>hmac\<close> is
  \<^verbatim>\<open>HMAC\<close> with the secret and the data (\<open>None\<close> when it fails), \<open>enc\<close> and \<open>dec\<close> the cipher under a key and
  the fixed initialisation vector. The clock and \<^verbatim>\<open>std::rand\<close> are parameters too.
\<close>

section \<open>Credentials\<close>

record credential_t =
  cr_Enable :: bool
  cr_Id :: string
  cr_Name :: string
  cr_Key :: string
  cr_Secret :: string
  cr_Channels :: cflag
  cr_Hooks :: cflag
  cr_OptionClientMessages :: bool
  cr_OptionStatistic :: bool
  cr_OptionKeepAlive :: bool
  cr_Origins :: "string list"
  cr_Endpoints :: "string list"

definition credential_new :: credential_t where
  "credential_new =
     \<lparr>cr_Enable = True, cr_Id = [], cr_Name = [], cr_Key = [], cr_Secret = [],
      cr_Channels = channels_code ch_none, cr_Hooks = hook_code hook_none,
      cr_OptionClientMessages = False, cr_OptionStatistic = False, cr_OptionKeepAlive = False,
      cr_Origins = [], cr_Endpoints = []\<rparr>"

text \<open>The copy constructor: the members it does not name get their initialisers.\<close>

definition credential_copy :: "credential_t \<Rightarrow> credential_t" where
  "credential_copy cred =
     credential_new\<lparr>cr_Id := cr_Id cred, cr_Name := cr_Name cred, cr_Key := cr_Key cred,
       cr_Secret := cr_Secret cred, cr_Channels := cr_Channels cred, cr_Hooks := cr_Hooks cred,
       cr_OptionClientMessages := cr_OptionClientMessages cred,
       cr_OptionStatistic := cr_OptionStatistic cred, cr_Origins := cr_Origins cred,
       cr_Endpoints := cr_Endpoints cred\<rparr>"

text \<open>An application: the copy of its credentials and the hooks registered for it (endpoint and
  keep-alive option).\<close>

record capplication =
  app_cred :: credential_t
  app_hooks :: "(string \<times> bool) list"

definition capplication_new :: "credential_t \<Rightarrow> capplication" where
  "capplication_new app =
     \<lparr>app_cred = credential_copy app,
      app_hooks = (if cr_Enable app
        then map (\<lambda>ep. (ep, cr_OptionKeepAlive app)) (cr_Endpoints (credential_copy app)) else [])\<rparr>"

record ccredentials =
  appIds :: "(string, capplication) umap"
  appCreds :: "(string, capplication) umap"

fun ccredentials_loop :: "credential_t list \<Rightarrow> ccredentials \<Rightarrow> ccredentials" where
  "ccredentials_loop [] cs = cs"
| "ccredentials_loop (app # apps) cs =
     (if cr_Id app = [] \<or> cflag_Empty (cr_Channels app) then ccredentials_loop apps cs
      else let ptr = capplication_new app in
        ccredentials_loop apps
          (cs\<lparr>appCreds := um_emplace (cr_Key (app_cred ptr)) ptr (appCreds cs),
              appIds := um_emplace (cr_Id (app_cred ptr)) ptr (appIds cs)\<rparr>))"

definition ccredentials_new :: "credential_t list \<Rightarrow> ccredentials" where
  "ccredentials_new apps = ccredentials_loop apps \<lparr>appIds = [], appCreds = []\<rparr>"

definition GetAppByKey :: "ccredentials \<Rightarrow> string \<Rightarrow> capplication option" where
  "GetAppByKey cs appKey =
     (case um_find (appCreds cs) appKey of
        Some app \<Rightarrow> if cr_Enable (app_cred app) then Some app else None
      | None \<Rightarrow> None)"

definition GetAppById :: "ccredentials \<Rightarrow> string \<Rightarrow> capplication option" where
  "GetAppById cs appId =
     (case um_find (appIds cs) appId of
        Some app \<Rightarrow> if cr_Enable (app_cred app) then Some app else None
      | None \<Rightarrow> None)"

section \<open>Hexadecimal digits\<close>

definition hex_nibble :: "char \<Rightarrow> u8 option" where
  "hex_nibble c =
     (let n = of_char c :: nat in
      if 48 \<le> n \<and> n \<le> 57 then Some (of_nat (n - 48))
      else if 97 \<le> n \<and> n \<le> 102 then Some (of_nat ((n - 97) + 10))
      else None)"

text \<open>\<^verbatim>\<open>Hex(h, l)\<close>: two digits to a byte, 0 when one of them is no digit.\<close>

definition Hex_byte :: "char \<Rightarrow> char \<Rightarrow> u8" where
  "Hex_byte h l =
     (case hex_nibble h of
        None \<Rightarrow> 0
      | Some a \<Rightarrow> (case hex_nibble l of None \<Rightarrow> 0 | Some b \<Rightarrow> push_bit 4 a + b))"

definition Hex_char :: "u8 \<Rightarrow> char" where
  "Hex_char v = ''0123456789abcdef'' ! unat v"

definition hex_text :: "bytes \<Rightarrow> string" where
  "hex_text digest = concat (map (\<lambda>d. [Hex_char (drop_bit 4 d), Hex_char (d AND 0x0f)]) digest)"

section \<open>Session tokens\<close>

definition session_data :: "string \<Rightarrow> string \<Rightarrow> string \<Rightarrow> string" where
  "session_data session channel custom_data =
     session @ '':'' @ channel @ (if custom_data = [] then [] else '':'') @ custom_data"

definition SessionToken ::
  "(string \<Rightarrow> string \<Rightarrow> bytes option) \<Rightarrow> capplication \<Rightarrow> string \<Rightarrow> string \<Rightarrow> string \<Rightarrow> string" where
  "SessionToken hmac app session channel custom_data =
     (case hmac (cr_Secret (app_cred app)) (session_data session channel custom_data) of
        None \<Rightarrow> []
      | Some digest \<Rightarrow> hex_text digest)"

definition after_colon :: "string \<Rightarrow> string" where
  "after_colon token =
     (case split_at (\<lambda>c. c = CHR '':'') token of Some (_, _, rest) \<Rightarrow> rest | None \<Rightarrow> token)"

fun digest_loop :: "string \<Rightarrow> bytes \<Rightarrow> bool outcome" where
  "digest_loop token [] = Inr True"
| "digest_loop (h # l # token) (d # ds) =
     (if Hex_byte h l = d then digest_loop token ds else Inr False)"
| "digest_loop token (d # ds) = Inl (UB ''token index out of range'')"

definition ValidateSession ::
  "(string \<Rightarrow> string \<Rightarrow> bytes option) \<Rightarrow> capplication \<Rightarrow> string \<Rightarrow> string \<Rightarrow> string \<Rightarrow> string \<Rightarrow> bool outcome" where
  "ValidateSession hmac app token session channel custom_data =
     (let token = TrimBlank (after_colon token) in
      if length token \<ge> 64 then
        (case hmac (cr_Secret (app_cred app)) (session_data session channel custom_data) of
           None \<Rightarrow> Inr False
         | Some digest \<Rightarrow> digest_loop token digest)
      else Inr False)"

section \<open>Access tokens\<close>

definition AccessKeyIV :: string where
  "AccessKeyIV = ''x[wFD(u}+f-oajsj>1gb~0SQ3oa^q`!`BhN,Gx8&-a1@uk@H^B=WI14:*W1<Qh}%''"

text \<open>\<^verbatim>\<open>Encrypt\<close> and \<^verbatim>\<open>Decrypt\<close>: the cipher and the transport encoding.\<close>

definition Encrypt :: "(bytes \<Rightarrow> bytes \<Rightarrow> bytes option) \<Rightarrow> string \<Rightarrow> bytes \<Rightarrow> string option" where
  "Encrypt enc plaintext key =
     (case enc key (map byte_of plaintext) of
        None \<Rightarrow> None
      | Some cipher \<Rightarrow> Some (cbase62_Encode cipher))"

definition Decrypt :: "(bytes \<Rightarrow> bytes \<Rightarrow> bytes option) \<Rightarrow> string \<Rightarrow> bytes \<Rightarrow> string option outcome" where
  "Decrypt dec ciphertext key =
     bind_outcome (cbase62_Decode ciphertext) (\<lambda>cipher.
       Inr (map_option (map char_of_byte) (dec key cipher)))"

definition access_text :: "nat \<Rightarrow> string \<Rightarrow> string \<Rightarrow> nat \<Rightarrow> string" where
  "access_text rnd origin channel expire =
     ''token-'' @ to_string rnd @ '':'' @ (if origin = [] then ''*'' else origin) @ '':''
     @ (if channel = [] then ''*'' else channel) @ '':'' @ to_string expire"

definition AccessToken ::
  "(string \<Rightarrow> string \<Rightarrow> bytes option) \<Rightarrow> (bytes \<Rightarrow> bytes \<Rightarrow> bytes option) \<Rightarrow> nat \<Rightarrow> nat \<Rightarrow> capplication
     \<Rightarrow> string \<Rightarrow> string \<Rightarrow> nat \<Rightarrow> string" where
  "AccessToken hmac enc now rnd app origin channel ttl =
     (case hmac (cr_Secret (app_cred app)) AccessKeyIV of
        None \<Rightarrow> []
      | Some key \<Rightarrow>
          (case Encrypt enc (access_text rnd origin channel (if ttl = 0 then 0 else now + ttl)) key of
             None \<Rightarrow> []
           | Some encrypted \<Rightarrow> encrypted))"

text \<open>\<^verbatim>\<open>std::stol\<close>: \<open>None\<close> when it throws.\<close>

definition stol :: "string \<Rightarrow> int option" where
  "stol s =
     (let s = dropWhile isspace s;
          neg = (s \<noteq> [] \<and> hd s = CHR ''-'');
          s = (if s \<noteq> [] \<and> (hd s = CHR ''-'' \<or> hd s = CHR ''+'') then tl s else s);
          ds = takeWhile isdigit s;
          v = (if neg then - int (digits_value 0 ds) else int (digits_value 0 ds)) in
      if ds = [] \<or> v < - (2 ^ 63) \<or> v \<ge> 2 ^ 63 then None else Some v)"

text \<open>The four parts of the token; fewer are an error, the fourth ends at a further colon.\<close>

fun token_args :: "nat \<Rightarrow> string \<Rightarrow> string list option" where
  "token_args 0 token = Some []"
| "token_args (Suc n) token =
     (case split_at (\<lambda>c. c = CHR '':'') token of
        Some (arg, _, rest) \<Rightarrow> map_option ((#) arg) (token_args n rest)
      | None \<Rightarrow> if n \<noteq> 0 then None else Some [token])"

definition ValidateAccessToken :: "nat \<Rightarrow> string \<Rightarrow> string \<Rightarrow> string \<Rightarrow> bool" where
  "ValidateAccessToken now token origin channel =
     (case token_args 4 token of
        Some [a0, a1, a2, a3] \<Rightarrow>
          (case stol a3 of
             None \<Rightarrow> False
           | Some expire \<Rightarrow>
               (a1 = ''*'' \<or> origin = a1) \<and> (a2 = ''*'' \<or> channel = a2) \<and> (expire = 0 \<or> expire \<ge> int now))
      | _ \<Rightarrow> False)"

definition ValidateToken ::
  "(string \<Rightarrow> string \<Rightarrow> bytes option) \<Rightarrow> (bytes \<Rightarrow> bytes \<Rightarrow> bytes option) \<Rightarrow> nat \<Rightarrow> capplication
     \<Rightarrow> string \<Rightarrow> string \<Rightarrow> string \<Rightarrow> bool outcome" where
  "ValidateToken hmac dec now app token channel origin =
     (let token = TrimBlank (if length token \<ge> 7 \<and> strncasecmp_eq token ''Bearer '' then drop 7 token else token) in
      case hmac (cr_Secret (app_cred app)) AccessKeyIV of
        None \<Rightarrow> Inr False
      | Some key \<Rightarrow>
          bind_outcome (Decrypt dec token key) (\<lambda>decrypted.
            Inr (case decrypted of
                   None \<Rightarrow> False
                 | Some d \<Rightarrow> starts_with ''token-'' d \<and> ValidateAccessToken now d origin channel)))"

section \<open>Authorisation\<close>

definition IsAllowChannelSession ::
  "(string \<Rightarrow> string \<Rightarrow> bytes option) \<Rightarrow> capplication \<Rightarrow> channels_t \<Rightarrow> string \<Rightarrow> string \<Rightarrow> string \<Rightarrow> string \<Rightarrow> string \<Rightarrow> bool outcome" where
  "IsAllowChannelSession hmac app type session channel token data origin =
     (if \<not> has_flag (cr_Channels (app_cred app)) (channels_code type) then Inr False
      else if \<not> (cr_Origins (app_cred app) = [] \<or> origin \<in> set (cr_Origins (app_cred app))) then Inr False
      else if type = ch_pub then Inr True
      else ValidateSession hmac app token session channel data)"

definition IsAllowChannelToken ::
  "(string \<Rightarrow> string \<Rightarrow> bytes option) \<Rightarrow> (bytes \<Rightarrow> bytes \<Rightarrow> bytes option) \<Rightarrow> nat \<Rightarrow> capplication
     \<Rightarrow> channels_t \<Rightarrow> string \<Rightarrow> string \<Rightarrow> string \<Rightarrow> bool outcome" where
  "IsAllowChannelToken hmac dec now app type channel token origin =
     (if \<not> has_flag (cr_Channels (app_cred app)) (channels_code type) then Inr False
      else if \<not> (cr_Origins (app_cred app) = [] \<or> origin \<in> set (cr_Origins (app_cred app))) then Inr False
      else if type = ch_pub then Inr True
      else ValidateToken hmac dec now app token channel origin)"

definition IsAllowTrigger :: "capplication \<Rightarrow> channels_t \<Rightarrow> hook_trigger_t \<Rightarrow> bool" where
  "IsAllowTrigger app type trigger \<longleftrightarrow>
     has_flag (cr_Channels (app_cred app)) (channels_code type)
     \<and> has_flag (cr_Hooks (app_cred app)) (hook_code trigger)"

text \<open>\<^verbatim>\<open>Trigger\<close>: the calls of the hook endpoints.\<close>

record hook_call =
  hc_endpoint :: "string \<times> bool"
  hc_trigger :: hook_trigger_t
  hc_app :: string
  hc_channel :: string
  hc_session :: string
  hc_data :: json

definition Trigger :: "capplication \<Rightarrow> hook_trigger_t \<Rightarrow> string \<Rightarrow> string \<Rightarrow> json \<Rightarrow> hook_call list" where
  "Trigger app trigger channel session data =
     (if has_flag (cr_Hooks (app_cred app)) (hook_code trigger) then
        map (\<lambda>ep. \<lparr>hc_endpoint = ep, hc_trigger = trigger, hc_app = cr_Id (app_cred app),
          hc_channel = channel, hc_session = session, hc_data = data\<rparr>) (app_hooks app)
      else [])"

section \<open>Hexadecimal round trip\<close>

lemma of_char_Hex_char:
  assumes "unat v < 16"
  shows "of_char (Hex_char v) = (if unat v < 10 then 48 + unat v else 87 + unat v)"
proof -
  have "unat v \<in> set [0..<16]" using assms by simp
  moreover have "\<forall>n \<in> set [0..<16]. of_char (''0123456789abcdef'' ! n) = (if n < 10 then 48 + n else 87 + n)"
    by code_simp
  ultimately show ?thesis by (simp add: Hex_char_def)
qed

lemma hex_nibble_char: "unat v < 16 \<Longrightarrow> hex_nibble (Hex_char v) = Some v"
  by (auto simp: hex_nibble_def of_char_Hex_char Let_def)

lemma and_0x0f: "(d :: u8) AND 0x0f = take_bit 4 d"
  by (simp add: take_bit_eq_mask mask_eq_exp_minus_1)

lemma nibbles:
  fixes d :: u8
  shows "unat (drop_bit 4 d) < 16" "unat (d AND 0x0f) < 16" "push_bit 4 (drop_bit 4 d) + (d AND 0x0f) = d"
proof -
  have "unat (drop_bit 4 d) = drop_bit 4 (unat d)" 
    using unat_u8_less [of d] by (simp add: unsigned_drop_bit_eq take_bit_nat_eq_self)
  then show "unat (drop_bit 4 d) < 16"
    using unat_u8_less [of d] by (simp add: drop_bit_nat_def div_less_iff_less_mult)
  note and4 = and_0x0f [of d]
  have "unat (take_bit 4 d) = take_bit 4 (unat d)" by (simp add: unsigned_take_bit_eq)
  also have "\<dots> < 16" using take_bit_nat_less_exp [of 4 "unat d"] by simp
  finally show "unat (d AND 0x0f) < 16" using and4 by simp
  show "push_bit 4 (drop_bit 4 d) + (d AND 0x0f) = d"
    using bits_ident [of 4 d] and4 by simp
qed

lemma take_bit_nibble:
  fixes w :: u8
  assumes "unat w < 16"
  shows "take_bit 4 w = w"
proof -
  have "unat (take_bit 4 w) = unat w"
    using assms by (simp add: unsigned_take_bit_eq take_bit_nat_eq_self)
  then show ?thesis by (rule unsigned_word_eqI)
qed

lemma Hex_byte_Hex_char: "Hex_byte (Hex_char (drop_bit 4 d)) (Hex_char (d AND 0x0f)) = d"
  by (simp add: Hex_byte_def hex_nibble_char nibbles)

lemma hex_text_Cons: "hex_text (d # ds) = Hex_char (drop_bit 4 d) # Hex_char (d AND 0x0f) # hex_text ds"
  by (simp add: hex_text_def)

lemma hex_text_Nil [simp]: "hex_text [] = []"
  by (simp add: hex_text_def)

lemma length_hex_text [simp]: "length (hex_text ds) = 2 * length ds"
  by (induction ds) (simp_all add: hex_text_Cons)

lemma digest_loop_hex: "digest_loop (hex_text ds @ rest) ds = Inr True"
  by (induction ds) (simp_all add: hex_text_Cons Hex_byte_Hex_char)

definition is_hex :: "char \<Rightarrow> bool" where
  "is_hex c \<longleftrightarrow> hex_nibble c \<noteq> None"

lemma hex_text_is_hex: "c \<in> set (hex_text ds) \<Longrightarrow> is_hex c"
  by (induction ds) (auto simp: hex_text_Cons is_hex_def hex_nibble_char nibbles)

lemma is_hex_plain: "is_hex c \<Longrightarrow> c \<noteq> CHR '':'' \<and> \<not> isblank c"
  by (auto simp: is_hex_def hex_nibble_def isblank_def Let_def split: if_splits)

lemma Hex_char_nibble: "hex_nibble c = Some v \<Longrightarrow> unat v < 16 \<and> Hex_char v = c"
proof -
  assume h: "hex_nibble c = Some v"
  then have v: "unat v = (if of_char c < (58::nat) then of_char c - 48 else of_char c - 87)" "unat v < 16"
    by (auto simp: hex_nibble_def Let_def unat_of_nat take_bit_eq_mod simp del: of_nat_diff of_nat_add
        split: if_splits)
  have "of_char (Hex_char v) = (of_char c :: nat)"
    unfolding of_char_Hex_char [OF v(2)] using h v
    by (auto simp: hex_nibble_def Let_def split: if_splits)
  with v(2) show ?thesis by simp
qed

lemma digest_loop_exact:
  "length token = 2 * length ds \<Longrightarrow> \<forall>c \<in> set token. is_hex c \<Longrightarrow>
     digest_loop token ds = Inr b \<Longrightarrow> b \<longleftrightarrow> token = hex_text ds"
proof (induction token ds rule: digest_loop.induct)
  case (2 h l token d ds)
  then obtain a b' where nib: "hex_nibble h = Some a" "hex_nibble l = Some b'"
    by (auto simp: is_hex_def)
  note ab = Hex_char_nibble [OF nib(1)] Hex_char_nibble [OF nib(2)]
  have "Hex_byte h l = d \<longleftrightarrow> h = Hex_char (drop_bit 4 d) \<and> l = Hex_char (d AND 0x0f)"
  proof
    assume "Hex_byte h l = d"
    then have d: "d = push_bit 4 a + b'" using nib by (simp add: Hex_byte_def)
    have "a = drop_bit 4 d \<and> b' = d AND 0x0f"
    proof -
      have small: "take_bit 4 a = a" "take_bit 4 b' = b'"
        using ab by (auto intro: take_bit_nibble)
      have high: "\<not> bit a n \<and> \<not> bit b' n" if "4 \<le> n" for n
        using that small by (metis bit_take_bit_iff not_le)
      have "d = push_bit 4 a OR b'"
        unfolding d by (rule disjunctive_add) (auto simp: bit_simps dest: high [THEN conjunct2])
      then show ?thesis
        unfolding and_0x0f using high by (auto intro!: bit_word_eqI simp: bit_simps) (metis not_le)+
    qed
    then show "h = Hex_char (drop_bit 4 d) \<and> l = Hex_char (d AND 0x0f)" using ab by simp
  qed (simp add: Hex_byte_Hex_char)
  with 2 show ?case by (auto simp: hex_text_Cons split: if_splits)
qed (auto simp: hex_text_Cons)

section \<open>Session tokens are exact\<close>

lemma TrimBlank_plain: "\<forall>c \<in> set s. \<not> isblank c \<Longrightarrow> TrimBlank s = s"
  by (simp add: TrimBlank_def trim_with_none)

lemma after_colon_prefixed: "CHR '':'' \<notin> set key \<Longrightarrow> after_colon (key @ CHR '':'' # token) = token"
  unfolding after_colon_def by (subst split_at_append) auto

lemma digest_loop_defined: "2 * length ds \<le> length token \<Longrightarrow> \<exists>b. digest_loop token ds = Inr b"
  by (induction token ds rule: digest_loop.induct) auto

lemma ValidateSession_iff:
  assumes "hmac (cr_Secret (app_cred app)) (session_data session channel custom) = Some digest"
    and "length digest = 32" "length token = 64" "\<forall>c \<in> set token. is_hex c" "CHR '':'' \<notin> set key"
  shows "ValidateSession hmac app (key @ '':'' @ token) session channel custom =
    Inr (token = SessionToken hmac app session channel custom)"
proof -
  have trim: "TrimBlank (after_colon (key @ '':'' @ token)) = token"
    using assms(4,5) by (simp add: after_colon_prefixed TrimBlank_plain is_hex_plain)
  obtain b where b: "digest_loop token digest = Inr b"
    using digest_loop_defined [of digest token] assms(2,3) by auto
  with digest_loop_exact [OF _ assms(4) b] assms(2,3) have "b \<longleftrightarrow> token = hex_text digest" by simp
  with b trim assms(1,3) show ?thesis by (simp add: ValidateSession_def SessionToken_def)
qed

text \<open>
  C21: a private channel is joined with exactly one signature: given an application key without a
  colon and 64 hexadecimal digits in lower case, \<^verbatim>\<open>ValidateSession\<close> accepts \<^verbatim>\<open>key:digits\<close> for a
  session, a channel and custom data iff the digits are the ones \<^verbatim>\<open>SessionToken\<close> issues for them.
\<close>

theorem ValidateSession_exact:
  assumes "hmac (cr_Secret (app_cred app)) (session_data session channel custom) = Some digest"
    and "length digest = 32" "length token = 64" "\<forall>c \<in> set token. is_hex c" "CHR '':'' \<notin> set key"
  shows "ValidateSession hmac app (key @ '':'' @ token) session channel custom =
    Inr (token = SessionToken hmac app session channel custom)"
  using assms by (rule ValidateSession_iff)

definition sample_app :: capplication where
  "sample_app = capplication_new (credential_new\<lparr>cr_Id := ''7'', cr_Key := ''k'', cr_Secret := ''s'',
     cr_Channels := channels_code ch_priv\<rparr>)"

theorem ValidateSession_exact_witness:
  "ValidateSession (\<lambda>_ _. Some (replicate 32 0xab)) sample_app (''k'' @ '':'' @ hex_text (replicate 32 0xab))
     ''1.2'' ''private-x'' [] =
   Inr (hex_text (replicate 32 0xab) =
     SessionToken (\<lambda>_ _. Some (replicate 32 0xab)) sample_app ''1.2'' ''private-x'' [])"
  by (rule ValidateSession_exact [where digest = "replicate 32 0xab"]) (auto simp: hex_text_is_hex)

section \<open>Access tokens\<close>

lemma token_args_step:
  "CHR '':'' \<notin> set a \<Longrightarrow> token_args (Suc n) (a @ CHR '':'' # rest) = map_option ((#) a) (token_args n rest)"
proof -
  assume "CHR '':'' \<notin> set a"
  then have "split_at (\<lambda>c. c = CHR '':'') (a @ CHR '':'' # rest) = Some (a, CHR '':'', rest)"
    by (intro split_at_append) auto
  then show ?thesis by simp
qed

lemma token_args_last: "CHR '':'' \<notin> set a \<Longrightarrow> token_args (Suc 0) a = Some [a]"
proof -
  assume "CHR '':'' \<notin> set a"
  then have "split_at (\<lambda>c. c = CHR '':'') a = None" by auto
  then show ?thesis by (simp del: split_at_None)
qed

lemma digits_no_colon: "\<forall>c \<in> set s. isdigit c \<Longrightarrow> CHR '':'' \<notin> set s"
  by (auto simp: isdigit_def)

lemma stol_to_string: "n < 2 ^ 63 \<Longrightarrow> stol (to_string n) = Some (int n)"
proof -
  assume n: "n < 2 ^ 63"
  obtain c cs where s: "to_string n = c # cs" by (cases "to_string n") auto
  have c: "isdigit c" using to_string_digits [of n] s by simp
  then have "\<not> isspace c" "c \<noteq> CHR ''-''" "c \<noteq> CHR ''+''" by (auto simp: isdigit_def isspace_def)
  moreover have "takeWhile isdigit (to_string n) = to_string n"
    using to_string_digits [of n] by (simp add: takeWhile_eq_all_conv)
  moreover have "int n < 2 ^ 63" using n by (metis of_nat_less_iff of_nat_numeral of_nat_power)
  ultimately show ?thesis
    using s digits_value_to_string [of n] by (simp add: stol_def)
qed

definition wild :: "string \<Rightarrow> string" where
  "wild s = (if s = [] then ''*'' else s)"

lemma access_text_parts:
  "access_text rnd origin channel e =
     (''token-'' @ to_string rnd) @ CHR '':'' # wild origin @ CHR '':'' # wild channel @ CHR '':'' # to_string e"
  by (simp add: access_text_def wild_def)

lemma ValidateAccessToken_text:
  assumes "CHR '':'' \<notin> set origin" "CHR '':'' \<notin> set channel" "e < 2 ^ 63"
  shows "ValidateAccessToken now (access_text rnd origin channel e) o' c' \<longleftrightarrow>
    (wild origin = ''*'' \<or> o' = origin) \<and> (wild channel = ''*'' \<or> c' = channel) \<and> (e = 0 \<or> now \<le> e)"
proof -
  have free: "CHR '':'' \<notin> set (''token-'' @ to_string rnd)" "CHR '':'' \<notin> set (wild origin)"
    "CHR '':'' \<notin> set (wild channel)" "CHR '':'' \<notin> set (to_string e)"
    using assms digits_no_colon [OF to_string_digits] by (auto simp: wild_def)
  have four: "(4::nat) = Suc (Suc (Suc (Suc 0)))" by simp
  have "token_args 4 (access_text rnd origin channel e) =
      Some [''token-'' @ to_string rnd, wild origin, wild channel, to_string e]"
    unfolding access_text_parts four token_args_step [OF free(1)] token_args_step [OF free(2)]
      token_args_step [OF free(3)] token_args_last [OF free(4)] by simp
  then show ?thesis
    using assms(3) by (auto simp: ValidateAccessToken_def stol_to_string wild_def)
qed

lemma cbase62_no_blank: "c \<in> set (cbase62_Encode xs) \<Longrightarrow> \<not> isspace c \<and> \<not> isblank c"
proof -
  have table: "\<forall>c \<in> set (CHR ''~'' # safebase64TableEncode). \<not> isspace c \<and> \<not> isblank c" by code_simp
  assume "c \<in> set (cbase62_Encode xs)"
  then have "c \<in> set (CHR ''~'' # safebase64TableEncode)"
    using set_enc_ref [OF cbase62.length_enc, of "CHR ''~''" xs]
    by (auto simp: cbase62_Encode_def enc_with_ref)
  with table show ?thesis by blast
qed

lemma tolower_blank: "tolower c = CHR '' '' \<Longrightarrow> of_char c = (32::nat)"
proof -
  assume "tolower c = CHR '' ''"
  then have "of_char (tolower c) = (32::nat)" by simp
  moreover have "of_char (tolower c) = (if 65 \<le> (of_char c :: nat) \<and> (of_char c :: nat) \<le> 90
      then of_char c + 32 else of_char c :: nat)"
    by (simp add: tolower_def of_char_mod_256)
  ultimately show ?thesis by (simp split: if_splits)
qed

lemma not_bearer: "\<forall>c \<in> set token. \<not> isspace c \<Longrightarrow> \<not> strncasecmp_eq token ''Bearer ''"
proof
  assume plain: "\<forall>c \<in> set token. \<not> isspace c" and "strncasecmp_eq token ''Bearer ''"
  then have eq: "map tolower (take 7 token) = map tolower ''Bearer ''"
    by (simp add: strncasecmp_eq_def eval_nat_numeral)
  have "length (map tolower (take 7 token)) = length (map tolower ''Bearer '')" by (rule arg_cong [OF eq])
  then have "length (take 7 token) = 7" by (simp only: length_map) simp
  then have t: "tolower (token ! 6) = CHR '' ''" "token ! 6 \<in> set token"
    using arg_cong [OF eq, of "\<lambda>xs. xs ! 6"] by (auto simp: tolower_def)
  have "isspace (token ! 6)" using tolower_blank [OF t(1)] by (simp add: isspace_def)
  with t(2) plain show False by blast
qed



lemma ValidateAccessToken_origin:
  assumes "ValidateAccessToken now token origin channel"
  shows "\<exists>a0 a1 as. token_args 4 token = Some (a0 # a1 # as) \<and> (a1 = ''*'' \<or> origin = a1)"
  using assms unfolding ValidateAccessToken_def
  by (cases "token_args 4 token") (auto split: list.splits option.splits)

text \<open>
  a token issued for an origin with a scheme, as every \<^verbatim>\<open>Origin\<close> header has one, is refused: the
  colon of the scheme is taken for the separator of the token's parts, and the part compared
  with the origin of the client is only the scheme.
\<close>

theorem AccessToken_origin_refused:
  assumes "CHR '':'' \<notin> set scheme" "scheme \<noteq> ''*''"
  shows "\<not> ValidateAccessToken now
    (access_text rnd (scheme @ '':'' @ host) channel expire) (scheme @ '':'' @ host) channel'"
proof -
  have parts: "access_text rnd (scheme @ '':'' @ host) channel expire =
      (''token-'' @ to_string rnd) @ CHR '':'' # scheme @ CHR '':'' #
      (host @ CHR '':'' # wild channel @ CHR '':'' # to_string expire)"
    by (simp add: access_text_parts wild_def)
  have free: "CHR '':'' \<notin> set (''token-'' @ to_string rnd)"
    using digits_no_colon [OF to_string_digits] by auto
  have four: "(4::nat) = Suc (Suc (Suc (Suc 0)))" by simp
  have "token_args 4 (access_text rnd (scheme @ '':'' @ host) channel expire) = None \<or>
      (\<exists>as. token_args 4 (access_text rnd (scheme @ '':'' @ host) channel expire)
        = Some ((''token-'' @ to_string rnd) # scheme # as))"
    unfolding parts four token_args_step [OF free] token_args_step [OF assms(1)]
    by (cases "token_args (Suc (Suc 0)) (host @ CHR '':'' # wild channel @ CHR '':'' # to_string expire)")
      (simp_all del: token_args.simps)
  then show ?thesis
  proof (elim disjE exE)
    fix as
    assume args: "token_args 4 (access_text rnd (scheme @ '':'' @ host) channel expire) =
      Some ((''token-'' @ to_string rnd) # scheme # as)"
    show ?thesis
    proof
      assume "ValidateAccessToken now (access_text rnd (scheme @ '':'' @ host) channel expire)
        (scheme @ '':'' @ host) channel'"
      from ValidateAccessToken_origin [OF this] args assms(2) show False by auto
    qed
  qed (auto dest!: ValidateAccessToken_origin)
qed

theorem AccessToken_origin_refused_witness:
  "\<not> ValidateAccessToken 0 (access_text 5 (''https'' @ '':'' @ ''//example.com'') ''room'' 0)
     (''https'' @ '':'' @ ''//example.com'') ''room''"
  by (rule AccessToken_origin_refused) simp_all

section \<open>Disabled applications\<close>

lemma capplication_new_fields:
  "cr_Enable (app_cred (capplication_new app))"
  "cr_Id (app_cred (capplication_new app)) = cr_Id app"
  "cr_Key (app_cred (capplication_new app)) = cr_Key app"
  by (simp_all add: capplication_new_def credential_copy_def credential_new_def)

text \<open>
  no application can be disabled: the copy constructor of the credentials does not copy
  \<^verbatim>\<open>Enable\<close>, so an application whose configuration says \<^verbatim>\<open>enable: false\<close> is found by its identifier
  and by its key like any other.
\<close>

theorem disabled_app_found:
  assumes "cr_Id app \<noteq> []" "cr_Channels app \<noteq> 0"
  shows "GetAppById (ccredentials_new [app]) (cr_Id app) = Some (capplication_new app)
    \<and> GetAppByKey (ccredentials_new [app]) (cr_Key app) = Some (capplication_new app)"
  using assms
  by (simp add: ccredentials_new_def GetAppById_def GetAppByKey_def um_emplace_def um_find_def
      capplication_new_fields cflag_Empty_def Let_def)

theorem disabled_app_found_witness:
  "GetAppById (ccredentials_new [credential_new\<lparr>cr_Enable := False, cr_Id := ''7'', cr_Key := ''k'',
      cr_Channels := 1\<rparr>]) ''7'' =
     Some (capplication_new (credential_new\<lparr>cr_Enable := False, cr_Id := ''7'', cr_Key := ''k'', cr_Channels := 1\<rparr>))
   \<and> GetAppByKey (ccredentials_new [credential_new\<lparr>cr_Enable := False, cr_Id := ''7'', cr_Key := ''k'',
      cr_Channels := 1\<rparr>]) ''k'' =
     Some (capplication_new (credential_new\<lparr>cr_Enable := False, cr_Id := ''7'', cr_Key := ''k'', cr_Channels := 1\<rparr>))"
  using disabled_app_found [of "credential_new\<lparr>cr_Enable := False, cr_Id := ''7'', cr_Key := ''k'', cr_Channels := 1\<rparr>"]
  by simp

section \<open>A token that is only padding\<close>

text \<open>The one-character token \<^verbatim>\<open>~\<close>, which any client can send, reaches the undefined \<^verbatim>\<open>pop_back\<close> of the
  decoder.\<close>

theorem ValidateToken_padding:
  assumes "hmac (cr_Secret (app_cred app)) AccessKeyIV = Some key"
  shows "\<exists>m. ValidateToken hmac dec now app ''~'' channel origin = Inl (UB m)"
proof -
  have "TrimBlank ''~'' = ''~''" by (simp add: TrimBlank_plain isblank_def)
  moreover have "\<exists>m. cbase62_Decode ''~'' = Inl (UB m)"
    by (simp add: cbase62_Decode_def dec_with_def)
  ultimately show ?thesis using assms by (auto simp: ValidateToken_def Decrypt_def)
qed

end
