(* ===== verification/Message.thy ===== *)
theory Message
  imports Json
begin

text \<open>
  Messages (\<^verbatim>\<open>source/core/message/cmessage.cpp\<close>): a JSON object that the broker stamps with an
  identifier from a 64-bit counter, the time of arrival, the producer, an expiry time and the
  kind of delivery; and the session identifiers of \<^verbatim>\<open>csubscriber\<close>
  (\<^verbatim>\<open>source/core/subscriber/csubscriber.cpp\<close>). The parser of JSON texts, the clock (nanoseconds since
  the epoch) and \<^verbatim>\<open>std::rand\<close> are parameters; the counters are passed along.
\<close>

section \<open>Messages\<close>

datatype delivery_t = broadcast | multicast | unicast

text \<open>\<^verbatim>\<open>msg::Make\<close>: the message and the counter. The counter is incremented before the first
  assignment can throw.\<close>

definition msg_Make :: "u64 \<Rightarrow> int \<Rightarrow> json \<Rightarrow> string \<Rightarrow> json outcome \<times> u64" where
  "msg_Make MsgId now t producer =
     (json_sets
        [(''#msg-id'', JInt (uint (MsgId + 1))),
         (''#msg-arrival'', JInt now),
         (''#msg-from'', JStr producer),
         (''#msg-delivery'', JStr ''broadcast''),
         (''#msg-expired'', JInt 0)] t,
      MsgId + 1)"

text \<open>The options of a message from a client: time to live, delivery, session.\<close>

definition opt_ttl :: "int \<Rightarrow> json \<Rightarrow> json outcome" where
  "opt_ttl now msg =
     bind_outcome (json_at msg ''options'') (\<lambda>opts.
       if contains opts ''ttl'' then
         bind_outcome (json_at opts ''ttl'') (\<lambda>ttl.
         bind_outcome (get_size ttl) (\<lambda>n.
           json_set ''#msg-expired'' (JInt ((now div 1000000000 + int n) mod 2 ^ 64)) msg))
       else Inr msg)"

definition opt_delivery :: "json \<Rightarrow> json outcome" where
  "opt_delivery msg =
     bind_outcome (json_at msg ''options'') (\<lambda>opts.
       if contains opts ''delivery'' then
         bind_outcome (json_at opts ''delivery'') (\<lambda>d.
         bind_outcome (get_string d) (\<lambda>val.
           if val = ''multicast'' then json_set ''#msg-delivery'' (JStr ''multicast'') msg
           else if val = ''unicast'' then json_set ''#msg-delivery'' (JStr ''unicast'') msg
           else Inr msg))
       else Inr msg)"

definition opt_session :: "json \<Rightarrow> json outcome" where
  "opt_session msg =
     bind_outcome (json_at msg ''options'') (\<lambda>opts.
       if contains opts ''session'' then
         bind_outcome (json_at opts ''session'') (\<lambda>s.
         bind_outcome (get_string s) (\<lambda>val. json_set ''socket_id'' (JStr val) msg))
       else Inr msg)"

definition msg_stamp :: "u64 \<Rightarrow> int \<Rightarrow> string \<Rightarrow> json \<Rightarrow> json outcome" where
  "msg_stamp msgid now producer msg =
     json_sets
       [(''#msg-id'', JInt (uint msgid)),
        (''#msg-arrival'', JInt now),
        (''#msg-from'', JStr producer),
        (''#msg-expired'', JInt 0),
        (''#msg-delivery'', JStr ''broadcast'')] msg"

definition msg_options :: "int \<Rightarrow> json \<Rightarrow> json outcome" where
  "msg_options now msg =
     (if contains msg ''options'' then
        bind_outcome (opt_ttl now msg) (\<lambda>msg.
        bind_outcome (opt_delivery msg) opt_session)
      else Inr msg)"

text \<open>\<^verbatim>\<open>msg::Unserialize\<close>: the message, or none when the text does not parse or one of the accesses
  throws; the counter moves whenever the text parses.\<close>

definition msg_Unserialize ::
  "(string \<Rightarrow> json option) \<Rightarrow> u64 \<Rightarrow> int \<Rightarrow> string \<Rightarrow> string \<Rightarrow> json option \<times> u64" where
  "msg_Unserialize parse MsgId now data producer =
     (case cjson_Unserialize parse data of
        None \<Rightarrow> (None, MsgId)
      | Some msg \<Rightarrow>
          (case bind_outcome (msg_stamp (MsgId + 1) now producer msg) (msg_options now) of
             Inl _ \<Rightarrow> (None, MsgId + 1)
           | Inr msg \<Rightarrow> (Some msg, MsgId + 1)))"

section \<open>What the stamp guarantees\<close>

definition stamped :: "u64 \<Rightarrow> int \<Rightarrow> string \<Rightarrow> json \<Rightarrow> bool" where
  "stamped msgid now producer msg \<longleftrightarrow> json_wf msg \<and> is_object msg
     \<and> json_find msg ''#msg-id'' = Some (JInt (uint msgid))
     \<and> json_find msg ''#msg-arrival'' = Some (JInt now)
     \<and> json_find msg ''#msg-from'' = Some (JStr producer)
     \<and> json_find msg ''#msg-delivery'' \<in> (\<lambda>s. Some (JStr s)) ` {''broadcast'', ''multicast'', ''unicast''}"

lemma msg_stamp_stamped:
  assumes "msg_stamp msgid now producer msg = Inr msg'" "json_wf msg"
  shows "stamped msgid now producer msg'"
  using json_sets_find [OF assms(1) [unfolded msg_stamp_def] assms(2)]
  by (simp add: stamped_def)

lemma stamped_set:
  assumes "stamped msgid now producer msg" "json_set k v msg = Inr msg'"
    and "k \<notin> {''#msg-id'', ''#msg-arrival'', ''#msg-from'', ''#msg-delivery''}
      \<or> (k = ''#msg-delivery'' \<and> v \<in> JStr ` {''broadcast'', ''multicast'', ''unicast''})"
  shows "stamped msgid now producer msg'"
  using assms json_set_find [OF assms(2)] unfolding stamped_def by auto

lemma opt_stamped:
  assumes "stamped msgid now producer msg"
  shows "opt_ttl now' msg = Inr msg' \<Longrightarrow> stamped msgid now producer msg'"
    and "opt_delivery msg = Inr msg' \<Longrightarrow> stamped msgid now producer msg'"
    and "opt_session msg = Inr msg' \<Longrightarrow> stamped msgid now producer msg'"
proof -
  show "opt_ttl now' msg = Inr msg' \<Longrightarrow> stamped msgid now producer msg'"
    using assms by (auto simp: opt_ttl_def bind_outcome_eq_Inr split: if_splits
        intro: stamped_set [OF assms])
  show "opt_delivery msg = Inr msg' \<Longrightarrow> stamped msgid now producer msg'"
    using assms by (auto simp: opt_delivery_def bind_outcome_eq_Inr split: if_splits
        intro: stamped_set [OF assms])
  show "opt_session msg = Inr msg' \<Longrightarrow> stamped msgid now producer msg'"
    using assms by (auto simp: opt_session_def bind_outcome_eq_Inr split: if_splits
        intro: stamped_set [OF assms])
qed

lemma Unserialize_stamped:
  assumes "msg_Unserialize parse MsgId now data producer = (Some msg, MsgId')"
    and "\<forall>doc j. parse doc = Some j \<longrightarrow> json_wf j"
  shows "stamped (MsgId + 1) now producer msg \<and> MsgId' = MsgId + 1"
proof -
  obtain j where j: "cjson_Unserialize parse data = Some j"
    and run: "bind_outcome (msg_stamp (MsgId + 1) now producer j) (msg_options now) = Inr msg"
      "MsgId' = MsgId + 1"
    using assms(1) by (auto simp: msg_Unserialize_def split: option.splits sum.splits)
  have "json_wf j" using j assms(2)
    by (auto simp: cjson_Unserialize_def split: option.splits if_splits)
  moreover obtain m where m: "msg_stamp (MsgId + 1) now producer j = Inr m" "msg_options now m = Inr msg"
    using run(1) by (auto simp: bind_outcome_eq_Inr)
  ultimately have "stamped (MsgId + 1) now producer m" by (intro msg_stamp_stamped)
  with m(2) have "stamped (MsgId + 1) now producer msg"
    unfolding msg_options_def
    by (auto simp: bind_outcome_eq_Inr split: if_splits)
      (metis opt_stamped(1) opt_stamped(2) opt_stamped(3))
  with run show ?thesis by simp
qed


definition sample_doc :: json where
  "sample_doc = JObj [(''event'', JStr ''e''), (''#msg-from'', JStr ''someone else''),
     (''options'', JObj [(''delivery'', JStr ''unicast''), (''session'', JStr ''s9''), (''ttl'', JInt 5)])]"


section \<open>Session identifiers\<close>

text \<open>\<^verbatim>\<open>%010d\<close> and \<^verbatim>\<open>%05d\<close>: zero padding to a width; \<^verbatim>\<open>snprintf\<close> keeps 126 characters.\<close>

definition zero_pad :: "nat \<Rightarrow> nat \<Rightarrow> string" where
  "zero_pad w n = replicate (w - length (to_string n)) (CHR ''0'') @ to_string n"

definition csubscriber_id :: "string \<Rightarrow> u64 \<Rightarrow> nat \<Rightarrow> string" where
  "csubscriber_id pfx sid rnd =
     take 126 (if pfx = [] then to_string (unat sid) @ ''.'' @ zero_pad 10 rnd
       else pfx @ ''.'' @ to_string (unat sid) @ ''.'' @ zero_pad 5 (rnd mod 65535))"

text \<open>The constructor of \<^verbatim>\<open>csubscriber\<close>: the identifier and the counter.\<close>

definition csubscriber_new :: "string \<Rightarrow> u64 \<Rightarrow> nat \<Rightarrow> string \<times> u64" where
  "csubscriber_new pfx SessionId rnd = (csubscriber_id pfx (SessionId + 1) rnd, SessionId + 1)"

lemma to_string_no_dot: "CHR ''.'' \<notin> set (to_string n)"
  using to_string_digits [of n] by (auto simp: isdigit_def)

lemma to_string_inject: "to_string a = to_string b \<Longrightarrow> a = b"
  by (metis digits_value_to_string)

lemma dot_split:
  assumes "a @ CHR ''.'' # x = b @ CHR ''.'' # y" "CHR ''.'' \<notin> set a" "CHR ''.'' \<notin> set b"
  shows "a = b"
proof -
  have "takeWhile (\<lambda>c. c \<noteq> CHR ''.'') (a @ CHR ''.'' # x) = a"
    "takeWhile (\<lambda>c. c \<noteq> CHR ''.'') (b @ CHR ''.'' # y) = b"
    using assms(2,3) by (auto simp: takeWhile_append)
  with assms(1) show ?thesis by simp
qed

lemma to_string_length: "n < 10 ^ k \<Longrightarrow> 0 < k \<Longrightarrow> length (to_string n) \<le> k"
proof (induction n arbitrary: k rule: to_string.induct)
  case (1 n)
  show ?case
  proof (cases "n < 10")
    case True
    with 1 show ?thesis by (simp add: to_string.simps [of n])
  next
    case False
    then obtain k' where k: "k = Suc k'" "0 < k'"
      using "1.prems" by (cases k; cases "k - 1") auto
    then have "n div 10 < 10 ^ k'" using "1.prems" by (simp add: less_mult_imp_div_less mult.commute)
    with "1.IH" [OF False] False k show ?thesis by (simp add: to_string.simps [of n])
  qed
qed

text \<open>
  two sessions of one listener never share an identifier: as long as the counter does not
  repeat, and for a prefix of at most 98 characters, the identifiers differ whatever
  \<^verbatim>\<open>std::rand\<close> returns.
\<close>

theorem csubscriber_id_unique:
  assumes "csubscriber_id pfx a r = csubscriber_id pfx b s"
    and "length pfx \<le> 98" "r < 10 ^ 10" "s < 10 ^ 10"
  shows "a = b"
proof -
  have u64: "unat x < 10 ^ 20" for x :: u64
    using unsigned_less [of x, where ?'a = nat] by simp
  have len: "length (to_string (unat x)) \<le> 20" for x :: u64
    by (rule to_string_length) (use u64 [of x] in simp_all)
  have pad: "length (zero_pad w n) \<le> w" if "n < 10 ^ w" "0 < w" for w n
    using to_string_length [OF that] by (simp add: zero_pad_def)
  have "unat a = unat b"
  proof (cases "pfx = []")
    case True
    have whole: "csubscriber_id pfx x t = to_string (unat x) @ CHR ''.'' # zero_pad 10 t"
      if "t < 10 ^ 10" for x t
      using True len [of x] pad [OF that] by (simp add: csubscriber_id_def)
    from dot_split [OF _ to_string_no_dot to_string_no_dot] assms(1) whole [OF assms(3)] whole [OF assms(4)]
    show ?thesis by (metis to_string_inject)
  next
    case False
    have p5: "length (zero_pad 5 (t mod 65535)) \<le> 5" for t
      by (rule pad) (simp_all add: less_trans [OF mod_less_divisor])
    have whole: "csubscriber_id pfx x t = pfx @ CHR ''.'' # to_string (unat x) @ CHR ''.'' # zero_pad 5 (t mod 65535)"
      for x t
      using False len [of x] p5 [of t] assms(2) by (simp add: csubscriber_id_def)
    from assms(1) have "to_string (unat a) @ CHR ''.'' # zero_pad 5 (r mod 65535)
        = to_string (unat b) @ CHR ''.'' # zero_pad 5 (s mod 65535)"
      unfolding whole by simp
    from dot_split [OF this to_string_no_dot to_string_no_dot] show ?thesis by (rule to_string_inject)
  qed
  then show ?thesis by (rule unsigned_word_eqI)
qed

theorem csubscriber_id_unique_witness: "csubscriber_id ''node1'' 7 12 \<noteq> csubscriber_id ''node1'' 8 12"
  using csubscriber_id_unique [of "''node1''" 7 12 8 12] by auto

end
