(* ===== verification/Channels.thy ===== *)
theory Channels
  imports Flags Message
begin

text \<open>
  Channels: the base class \<^verbatim>\<open>cchannel\<close>, its three kinds and the registry \<^verbatim>\<open>cchannels\<close>
  (\<^verbatim>\<open>source/channels/\<close>). Subscribers are held as weak pointers: which of them are still there, whether
  they are connected, what their \<^verbatim>\<open>Push\<close> returns and the user they announce are an environment.
  What a channel does to the rest of the program is the list of its effects, in order:
  deliveries to sessions, hooks of the application, triggers and pushes to the cluster, its
  own removal from the registry and disconnected sessions. \<^verbatim>\<open>try_lock\<close> may fail, so its outcome is
  an argument.
\<close>

section \<open>State\<close>

datatype autoclose_t = autoclose_yes | autoclose_no

datatype channel_kind = PublicChannel | PrivateChannel | PresenceChannel

record cchannel =
  chKind :: channel_kind
  chType :: channels_t
  chMode :: autoclose_t
  chUid :: string
  chName :: string
  chApp :: string
  chSubscribers :: "string list"
  UsersList :: "(string, string \<times> string) umap"

record env =
  alive :: "string \<Rightarrow> bool"
  connected :: "string \<Rightarrow> bool"
  push_result :: "string \<Rightarrow> json \<Rightarrow> bool"
  user_info :: "string \<Rightarrow> string \<times> string"
  ip_of :: "string \<Rightarrow> string"

datatype effect =
    Deliver string json
  | HookTrigger channels_t hook_trigger_t string string json
  | ClusterTrigger channels_t hook_trigger_t string string string json
  | ClusterPush channels_t string string json
  | UnRegisterChannel string
  | DisconnectSession string

text \<open>The subscribers as a map without values: \<^verbatim>\<open>emplace\<close> keeps an entry that is there.\<close>

definition subs_emplace :: "string \<Rightarrow> string list \<Rightarrow> string list" where
  "subs_emplace s subs = (if s \<in> set subs then subs else subs @ [s])"

definition subs_erase :: "string \<Rightarrow> string list \<Rightarrow> string list" where
  "subs_erase s subs = filter (\<lambda>x. x \<noteq> s) subs"

text \<open>The end of every operation that may have emptied a channel.\<close>

definition close_if_empty :: "cchannel \<Rightarrow> effect list" where
  "close_if_empty ch =
     (if chSubscribers ch = [] \<and> chMode ch = autoclose_yes then [UnRegisterChannel (chUid ch)] else [])"

text \<open>\<^verbatim>\<open>chApp->Trigger\<close> followed by \<^verbatim>\<open>Cluster->Trigger\<close>.\<close>

definition triggers :: "cchannel \<Rightarrow> hook_trigger_t \<Rightarrow> string \<Rightarrow> json \<Rightarrow> effect list" where
  "triggers ch trigger session data =
     [HookTrigger (chType ch) trigger (chName ch) session data,
      ClusterTrigger (chType ch) trigger (chApp ch) (chName ch) session data]"

section \<open>The base class\<close>

definition ApiStats :: "cchannel \<Rightarrow> json" where
  "ApiStats ch =
     JObj [(''channel'', JStr (chName ch)), (''type'', JStr (Str_channel (chType ch))),
       (''close'', JStr (if chMode ch = autoclose_yes then ''auto'' else ''manual'')),
       (''sess_count'', JInt (int (length (chSubscribers ch))))]"

definition ApiOverview :: "env \<Rightarrow> cchannel \<Rightarrow> json" where
  "ApiOverview e ch =
     JObj [(''channel'', JStr (chName ch)), (''type'', JStr (Str_channel (chType ch))),
       (''close'', JStr (if chMode ch = autoclose_yes then ''auto'' else ''manual'')),
       (''sessions'', JArr (map (\<lambda>sid. JObj [(''id'', JStr sid),
          (''ip'', if alive e sid then JStr (ip_of e sid) else JNull)]) (chSubscribers ch)))]"

text \<open>\<^verbatim>\<open>Gc\<close>: sessions that are gone are forgotten, those no longer connected are forgotten and
  disconnected.\<close>

definition channel_Gc :: "env \<Rightarrow> bool \<Rightarrow> cchannel \<Rightarrow> nat \<times> cchannel \<times> effect list" where
  "channel_Gc e locked ch =
     (if \<not> locked then (1, ch, [])
      else
        let stale = filter (\<lambda>s. alive e s \<and> \<not> connected e s) (chSubscribers ch);
            ch = ch\<lparr>chSubscribers := filter (\<lambda>s. alive e s \<and> connected e s) (chSubscribers ch)\<rparr> in
        (length (chSubscribers ch), ch, close_if_empty ch @ map DisconnectSession stale))"

text \<open>\<^verbatim>\<open>UnSubscribe\<close> of the three kinds; the second lock is the one of the users' list.\<close>

definition UnSubscribe :: "bool \<Rightarrow> bool \<Rightarrow> string \<Rightarrow> cchannel \<Rightarrow> cchannel \<times> effect list" where
  "UnSubscribe locked users_locked subscriber ch =
     (let ch1 = (if locked then ch\<lparr>chSubscribers := subs_erase subscriber (chSubscribers ch)\<rparr> else ch);
          closing = (if locked then close_if_empty ch1 else []);
          ch2 = (if chKind ch = PresenceChannel \<and> users_locked
                 then ch1\<lparr>UsersList := um_erase subscriber (UsersList ch1)\<rparr> else ch1) in
      (ch2, closing @ triggers ch2 hook_leave subscriber JNull))"

section \<open>Push\<close>

definition msg_delivery :: "json \<Rightarrow> delivery_t outcome" where
  "msg_delivery msg =
     bind_outcome (json_at msg ''#msg-delivery'') (\<lambda>d.
     bind_outcome (get_string d) (\<lambda>s.
       Inr (if s = ''broadcast'' then broadcast else if s = ''multicast'' then multicast else unicast)))"

definition msg_from :: "json \<Rightarrow> string outcome" where
  "msg_from msg = bind_outcome (json_at msg ''#msg-from'') get_string"

text \<open>\<^verbatim>\<open>socket_id\<close>, when it is there and not empty; it must be a string.\<close>

definition msg_socket :: "json \<Rightarrow> string option outcome" where
  "msg_socket msg =
     (if contains msg ''socket_id'' then
        bind_outcome (json_at msg ''socket_id'') (\<lambda>v.
          if json_empty v then Inr None else bind_outcome (get_string v) (\<lambda>s. Inr (Some s)))
      else Inr None)"

text \<open>The loops over the subscribers: whom to deliver to, and who is kept.\<close>

fun broadcast_loop ::
  "(string \<Rightarrow> bool) \<Rightarrow> string outcome \<Rightarrow> string option \<Rightarrow> string list \<Rightarrow> (string list \<times> string list) outcome" where
  "broadcast_loop live from skip [] = Inr ([], [])"
| "broadcast_loop live from skip (s # subs) =
     bind_outcome from (\<lambda>f.
     bind_outcome (broadcast_loop live from skip subs) (\<lambda>(to, kept).
       Inr (if s \<noteq> f \<and> Some s \<noteq> skip then (if live s then (s # to, s # kept) else (to, kept))
            else (to, s # kept))))"

fun multicast_loop :: "(string \<Rightarrow> bool) \<Rightarrow> string \<Rightarrow> string list \<Rightarrow> string list \<times> string list" where
  "multicast_loop live pfx [] = ([], [])"
| "multicast_loop live pfx (s # subs) =
     (let (to, kept) = multicast_loop live pfx subs in
      if live s then (if starts_with pfx s then s # to else to, s # kept) else (to, kept))"

definition unicast_find :: "(string \<Rightarrow> bool) \<Rightarrow> string \<Rightarrow> string list \<Rightarrow> string list \<times> string list" where
  "unicast_find live sid subs =
     (if sid \<in> set subs then if live sid then ([sid], subs) else ([], subs_erase sid subs)
      else ([], subs))"

definition select_subscribers ::
  "(string \<Rightarrow> bool) \<Rightarrow> json \<Rightarrow> string list \<Rightarrow> (string list \<times> string list) outcome" where
  "select_subscribers live msg subs =
     bind_outcome (msg_delivery msg) (\<lambda>d.
     bind_outcome (msg_socket msg) (\<lambda>sock.
       case d of
         broadcast \<Rightarrow> broadcast_loop live (msg_from msg) sock subs
       | multicast \<Rightarrow> (case sock of None \<Rightarrow> Inr ([], subs)
           | Some sid \<Rightarrow> Inr (multicast_loop live (sid @ ''.'') subs))
       | unicast \<Rightarrow> (case sock of None \<Rightarrow> Inr ([], subs)
           | Some sid \<Rightarrow> Inr (unicast_find live sid subs))))"

text \<open>The deliveries: a subscriber whose \<^verbatim>\<open>Push\<close> fails is unsubscribed (\<open>locks\<close> are the outcomes of its
  \<^verbatim>\<open>try_lock\<close>s).\<close>

fun deliver_all ::
  "env \<Rightarrow> (string \<Rightarrow> bool \<times> bool) \<Rightarrow> json \<Rightarrow> string list \<Rightarrow> cchannel \<Rightarrow> cchannel \<times> effect list" where
  "deliver_all e locks msg [] ch = (ch, [])"
| "deliver_all e locks msg (s # to) ch =
     (let (ch1, effs1) = (if push_result e s msg then (ch, [])
            else UnSubscribe (fst (locks s)) (snd (locks s)) s ch);
          (ch2, effs2) = deliver_all e locks msg to ch1 in
      (ch2, Deliver s msg # effs1 @ effs2))"

definition base_Push ::
  "env \<Rightarrow> (string \<Rightarrow> bool \<times> bool) \<Rightarrow> json \<Rightarrow> cchannel \<Rightarrow> (nat \<times> cchannel \<times> effect list) outcome" where
  "base_Push e locks msg ch =
     bind_outcome (select_subscribers (alive e) msg (chSubscribers ch)) (\<lambda>(to, kept).
       let (ch, effs) = deliver_all e locks msg to (ch\<lparr>chSubscribers := kept\<rparr>) in
       Inr (length to, ch, effs @ close_if_empty ch))"

text \<open>\<^verbatim>\<open>Push\<close> of the three kinds: to the cluster first, then to the subscribers.\<close>

definition channel_Push ::
  "env \<Rightarrow> (string \<Rightarrow> bool \<times> bool) \<Rightarrow> json \<Rightarrow> cchannel \<Rightarrow> effect list \<times> (nat \<times> cchannel \<times> effect list) outcome" where
  "channel_Push e locks msg ch =
     ([ClusterPush (chType ch) (chApp ch) (chName ch) msg], base_Push e locks msg ch)"

section \<open>Subscribing\<close>

text \<open>Public and private channels.\<close>

definition Subscribe :: "string \<Rightarrow> cchannel \<Rightarrow> cchannel \<times> effect list" where
  "Subscribe subscriber ch =
     (let ch = ch\<lparr>chSubscribers := subs_emplace subscriber (chSubscribers ch)\<rparr> in
      (ch, triggers ch hook_join subscriber JNull))"

definition GetUsers :: "cchannel \<Rightarrow> string list \<times> (string, string) umap" where
  "GetUsers ch =
     (if chKind ch = PresenceChannel
      then (remdups (map (\<lambda>(sess, u, i). u) (UsersList ch)),
            foldl (\<lambda>m (sess, u, i). um_emplace u i m) [] (UsersList ch))
      else ([], []))"

definition member_added :: "cchannel \<Rightarrow> string \<Rightarrow> string \<Rightarrow> json" where
  "member_added ch uId uInfo =
     JObj [(''event'', JStr ''pusher_internal:member_added''), (''channel'', JStr (chName ch)),
       (''data'', JObj [(''user_id'', JStr uId), (''user_info'', JStr uInfo)])]"

definition member_removed :: "cchannel \<Rightarrow> string \<Rightarrow> json" where
  "member_removed ch uId =
     JObj [(''event'', JStr ''pusher_internal:member_removed''), (''channel'', JStr (chName ch)),
       (''data'', JObj [(''user_id'', JStr uId)])]"

definition subscription_succeeded :: "cchannel \<Rightarrow> string \<Rightarrow> string list \<Rightarrow> (string, string) umap \<Rightarrow> json" where
  "subscription_succeeded ch sid ids lst =
     JObj [(''event'', JStr ''pusher_internal:subscription_succeeded''), (''channel'', JStr (chName ch)),
       (''socket_id'', JArr [JStr sid]),
       (''data'', JObj [(''presence'', JObj [(''ids'', JArr (map JStr ids)),
          (''hash'', JObj (map (\<lambda>(u, i). (u, JStr i)) lst)), (''count'', JInt (int (length lst)))])])]"

text \<open>A message made by the channel itself and pushed to its subscribers.\<close>

definition push_made ::
  "env \<Rightarrow> (string \<Rightarrow> bool \<times> bool) \<Rightarrow> int \<Rightarrow> u64 \<Rightarrow> json \<Rightarrow> cchannel
     \<Rightarrow> (nat \<times> cchannel \<times> effect list) outcome \<times> u64" where
  "push_made e locks now MsgId doc ch =
     (let (made, MsgId) = msg_Make MsgId now doc ''presence'' in
      (bind_outcome made (\<lambda>msg. base_Push e locks msg ch), MsgId))"

text \<open>\<^verbatim>\<open>cpresencechannel::Subscribe\<close>: an exception leaves what was done before it, so the result is the
  failure if there is one, the channel, the effects and the message counter.\<close>

definition presence_Subscribe ::
  "env \<Rightarrow> (string \<Rightarrow> bool \<times> bool) \<Rightarrow> int \<Rightarrow> u64 \<Rightarrow> string \<Rightarrow> cchannel
     \<Rightarrow> failure option \<times> cchannel \<times> effect list \<times> u64" where
  "presence_Subscribe e locks now MsgId subscriber ch0 =
     (let ch = ch0\<lparr>chSubscribers := subs_emplace subscriber (chSubscribers ch0)\<rparr>;
          (uId, uInfo) = user_info e subscriber;
          data = JObj [(''user-id'', JStr uId), (''user-info'', JStr uInfo)] in
      if uId \<noteq> [] then
        (let (ids, lst) = GetUsers ch in
         case push_made e locks now MsgId (member_added ch uId uInfo) ch of
           (Inl f, n1) \<Rightarrow> (Some f, ch, [], n1)
         | (Inr (_, ch1, effs1), n1) \<Rightarrow>
             (case push_made e locks now n1 (subscription_succeeded ch1 subscriber ids lst) ch1 of
                (Inl f, n2) \<Rightarrow> (Some f, ch1, effs1, n2)
              | (Inr (_, ch2, effs2), n2) \<Rightarrow>
                  let ch3 = ch2\<lparr>UsersList := um_emplace subscriber (uId, uInfo) (UsersList ch2)\<rparr> in
                  (None, ch3, effs1 @ effs2 @ triggers ch3 hook_join subscriber data, n2)))
      else (None, ch, triggers ch hook_join subscriber data, MsgId))"

text \<open>\<^verbatim>\<open>OnSubscriberLeave\<close>, which no code calls.\<close>

definition presence_OnSubscriberLeave ::
  "env \<Rightarrow> (string \<Rightarrow> bool \<times> bool) \<Rightarrow> int \<Rightarrow> u64 \<Rightarrow> string \<Rightarrow> cchannel
     \<Rightarrow> failure option \<times> cchannel \<times> effect list \<times> u64" where
  "presence_OnSubscriberLeave e locks now MsgId subscriber ch0 =
     (let uId = (case um_find (UsersList ch0) subscriber of Some (u, _) \<Rightarrow> u | None \<Rightarrow> []);
          ch = ch0\<lparr>UsersList := um_erase subscriber (UsersList ch0)\<rparr> in
      if uId \<noteq> [] then
        (case push_made e locks now MsgId (member_removed ch uId) ch of
           (Inl f, n) \<Rightarrow> (Some f, ch, [], n)
         | (Inr (_, ch, effs), n) \<Rightarrow>
             (None, ch, effs @ triggers ch hook_leave subscriber (JObj [(''user-id'', JStr uId)]), n))
      else (None, ch, [], MsgId))"

definition base_OnSubscriberLeave :: "string \<Rightarrow> cchannel \<Rightarrow> effect list" where
  "base_OnSubscriberLeave subscriber ch = triggers ch hook_leave subscriber JNull"

text \<open>What other nodes of the cluster report.\<close>

definition OnClusterPush ::
  "env \<Rightarrow> (string \<Rightarrow> bool \<times> bool) \<Rightarrow> json \<Rightarrow> cchannel \<Rightarrow> (nat \<times> cchannel \<times> effect list) outcome" where
  "OnClusterPush e locks msg ch = base_Push e locks msg ch"

definition OnClusterJoin ::
  "env \<Rightarrow> (string \<Rightarrow> bool \<times> bool) \<Rightarrow> int \<Rightarrow> u64 \<Rightarrow> json \<Rightarrow> cchannel
     \<Rightarrow> (nat \<times> cchannel \<times> effect list) outcome \<times> u64" where
  "OnClusterJoin e locks now MsgId val ch =
     (if chKind ch = PresenceChannel \<and> is_object val \<and> contains val ''user-id'' \<and> contains val ''user-info'' then
        (case bind_outcome (json_at val ''user-id'') get_string of
           Inl f \<Rightarrow> (Inl f, MsgId)
         | Inr uId \<Rightarrow>
             (case bind_outcome (json_at val ''user-info'') get_string of
                Inl f \<Rightarrow> (Inl f, MsgId)
              | Inr uInfo \<Rightarrow> push_made e locks now MsgId (member_added ch uId uInfo) ch))
      else (Inr (0, ch, []), MsgId))"

definition OnClusterLeave ::
  "env \<Rightarrow> (string \<Rightarrow> bool \<times> bool) \<Rightarrow> int \<Rightarrow> u64 \<Rightarrow> json \<Rightarrow> cchannel
     \<Rightarrow> (nat \<times> cchannel \<times> effect list) outcome \<times> u64" where
  "OnClusterLeave e locks now MsgId val ch =
     (if chKind ch = PresenceChannel \<and> is_object val \<and> contains val ''user-id'' then
        (case bind_outcome (json_at val ''user-id'') get_string of
           Inl f \<Rightarrow> (Inl f, MsgId)
         | Inr uId \<Rightarrow> push_made e locks now MsgId (member_removed ch uId) ch)
      else (Inr (0, ch, []), MsgId))"

section \<open>Construction and the registry\<close>

definition new_channel :: "channel_kind \<Rightarrow> string \<Rightarrow> string \<Rightarrow> string \<Rightarrow> autoclose_t \<Rightarrow> cchannel" where
  "new_channel kind cuid name app mode =
     \<lparr>chKind = kind,
      chType = (case kind of PublicChannel \<Rightarrow> ch_pub | PrivateChannel \<Rightarrow> ch_priv | PresenceChannel \<Rightarrow> ch_pres),
      chMode = mode, chUid = cuid, chName = name, chApp = app, chSubscribers = [], UsersList = []\<rparr>"

definition constructed :: "cchannel \<Rightarrow> effect list" where
  "constructed ch = triggers ch hook_reg [] JNull"

definition destroyed :: "cchannel \<Rightarrow> effect list" where
  "destroyed ch = triggers ch hook_unreg [] JNull"

type_synonym cchannels = "(string, cchannel) umap"

definition chan_uid :: "string \<Rightarrow> string \<Rightarrow> string" where
  "chan_uid app name = app @ ''#'' @ name"

fun kind_of :: "channels_t \<Rightarrow> channel_kind option" where
  "kind_of ch_pub = Some PublicChannel"
| "kind_of ch_prot = Some PrivateChannel"
| "kind_of ch_priv = Some PrivateChannel"
| "kind_of ch_pres = Some PresenceChannel"
| "kind_of ch_none = None"

definition Register :: "channels_t \<Rightarrow> string \<Rightarrow> string \<Rightarrow> cchannels \<Rightarrow> cchannel option \<times> cchannels \<times> effect list" where
  "Register type app name chans =
     (let uid = chan_uid app name in
      case um_find chans uid of
        Some ch \<Rightarrow> (Some ch, chans, [])
      | None \<Rightarrow>
          (case kind_of type of
             None \<Rightarrow> (None, chans, [])
           | Some kind \<Rightarrow>
               let ch = new_channel kind uid name app autoclose_yes in
               (Some ch, um_emplace uid ch chans, constructed ch)))"

definition UnRegister :: "string \<Rightarrow> cchannels \<Rightarrow> cchannels" where
  "UnRegister cuid chans = um_erase cuid chans"

definition GetChannel :: "string \<Rightarrow> string \<Rightarrow> cchannels \<Rightarrow> cchannel option" where
  "GetChannel app name chans = um_find chans (chan_uid app name)"

definition ListChannels :: "cchannels \<Rightarrow> (string \<times> cchannel) list" where
  "ListChannels chans = chans"

text \<open>
  Running an operation on a registered channel: the channel is written back, and when the
  operation asked for its removal it leaves the registry and its destructor runs last.
\<close>

definition settle :: "cchannel \<Rightarrow> effect list \<Rightarrow> cchannels \<Rightarrow> cchannels \<times> effect list" where
  "settle ch effs chans =
     (if UnRegisterChannel (chUid ch) \<in> set effs
      then (UnRegister (chUid ch) chans, effs @ destroyed ch)
      else (um_assign (chUid ch) ch chans, effs))"

section \<open>Who receives a message\<close>

text \<open>The specification: the subscribers a message is for, and those whose weak pointer is looked
  at on the way.\<close>

fun recipient :: "delivery_t \<Rightarrow> string \<Rightarrow> string option \<Rightarrow> string \<Rightarrow> bool" where
  "recipient broadcast from sock s \<longleftrightarrow> s \<noteq> from \<and> Some s \<noteq> sock"
| "recipient multicast from sock s \<longleftrightarrow> (case sock of None \<Rightarrow> False | Some sid \<Rightarrow> starts_with (sid @ ''.'') s)"
| "recipient unicast from sock s \<longleftrightarrow> sock = Some s"

fun examined :: "delivery_t \<Rightarrow> string \<Rightarrow> string option \<Rightarrow> string \<Rightarrow> bool" where
  "examined multicast from sock s \<longleftrightarrow> sock \<noteq> None"
| "examined d from sock s \<longleftrightarrow> recipient d from sock s"

fun deliveries :: "effect list \<Rightarrow> (string \<times> json) list" where
  "deliveries [] = []"
| "deliveries (Deliver s m # effs) = (s, m) # deliveries effs"
| "deliveries (_ # effs) = deliveries effs"

lemma deliveries_append [simp]: "deliveries (xs @ ys) = deliveries xs @ deliveries ys"
  by (induction xs rule: deliveries.induct) simp_all

lemma broadcast_loop_filter:
  "broadcast_loop live (Inr f) sock subs =
     Inr (filter (\<lambda>s. live s \<and> recipient broadcast f sock s) subs,
          filter (\<lambda>s. examined broadcast f sock s \<longrightarrow> live s) subs)"
  by (induction subs) auto

lemma multicast_loop_filter:
  "multicast_loop live pfx subs = (filter (\<lambda>s. live s \<and> starts_with pfx s) subs, filter live subs)"
  by (induction subs) auto

lemma filter_single: "distinct xs \<Longrightarrow> filter (\<lambda>x. P x \<and> a = x) xs = (if a \<in> set xs \<and> P a then [a] else [])"
  by (induction xs) auto

lemma select_subscribers_spec:
  assumes "msg_delivery msg = Inr d" "msg_from msg = Inr from" "msg_socket msg = Inr sock" "distinct subs"
  shows "select_subscribers live msg subs =
    Inr (filter (\<lambda>s. live s \<and> recipient d from sock s) subs,
         filter (\<lambda>s. examined d from sock s \<longrightarrow> live s) subs)"
proof (cases d)
  case broadcast
  with assms show ?thesis by (simp add: select_subscribers_def broadcast_loop_filter)
next
  case multicast
  with assms show ?thesis
    by (cases sock) (simp_all add: select_subscribers_def multicast_loop_filter)
next
  case unicast
  with assms filter_single [OF assms(4), of live] show ?thesis
    by (cases sock) (auto simp: select_subscribers_def unicast_find_def subs_erase_def intro!: filter_cong)
qed

text \<open>The members of a channel that no operation changes.\<close>

definition same_channel :: "cchannel \<Rightarrow> cchannel \<Rightarrow> bool" where
  "same_channel ch ch' \<longleftrightarrow> chUid ch' = chUid ch \<and> chMode ch' = chMode ch \<and> chKind ch' = chKind ch
     \<and> chType ch' = chType ch \<and> chName ch' = chName ch \<and> chApp ch' = chApp ch"

lemma UnSubscribe_fields:
  assumes "UnSubscribe l1 l2 s ch = (ch', effs)"
  shows "deliveries effs = [] \<and> same_channel ch ch'
    \<and> chSubscribers ch' = (if l1 then subs_erase s (chSubscribers ch) else chSubscribers ch)
    \<and> (UnRegisterChannel u \<in> set effs \<longleftrightarrow>
         l1 \<and> u = chUid ch \<and> chSubscribers ch' = [] \<and> chMode ch = autoclose_yes)"
  using assms
  by (auto simp: UnSubscribe_def Let_def close_if_empty_def triggers_def same_channel_def split: if_splits)

lemma deliver_all_fields:
  assumes "deliver_all e locks msg to ch = (ch', effs)"
  shows "deliveries effs = map (\<lambda>s. (s, msg)) to \<and> same_channel ch ch'
    \<and> chSubscribers ch' =
        filter (\<lambda>s. \<not> (s \<in> set to \<and> \<not> push_result e s msg \<and> fst (locks s))) (chSubscribers ch)
    \<and> (UnRegisterChannel u \<in> set effs \<longrightarrow>
         u = chUid ch \<and> chSubscribers ch' = [] \<and> chMode ch = autoclose_yes)"
  using assms
proof (induction to arbitrary: ch ch' effs)
  case Nil
  then show ?case by (simp add: same_channel_def)
next
  case (Cons s to)
  obtain ch1 effs1 where step: "(if push_result e s msg then (ch, [])
      else UnSubscribe (fst (locks s)) (snd (locks s)) s ch) = (ch1, effs1)" by fastforce
  obtain effs2 where rest: "deliver_all e locks msg to ch1 = (ch', effs2)"
      and effs: "effs = Deliver s msg # effs1 @ effs2"
    using Cons.prems step by (auto simp: Let_def split: prod.splits)
  have one: "deliveries effs1 = [] \<and> same_channel ch ch1
    \<and> chSubscribers ch1 =
        filter (\<lambda>x. \<not> (x = s \<and> \<not> push_result e s msg \<and> fst (locks s))) (chSubscribers ch)
    \<and> (UnRegisterChannel u \<in> set effs1 \<longrightarrow>
         u = chUid ch \<and> chSubscribers ch1 = [] \<and> chMode ch = autoclose_yes)"
    using step UnSubscribe_fields [of "fst (locks s)" "snd (locks s)" s ch ch1 effs1 u]
    by (auto simp: subs_erase_def same_channel_def split: if_splits)
  note IH = Cons.IH [OF rest]
  have "chSubscribers ch' =
      filter (\<lambda>x. \<not> (x \<in> set (s # to) \<and> \<not> push_result e x msg \<and> fst (locks x))) (chSubscribers ch)"
    using IH one by (auto intro!: filter_cong)
  moreover have empty: "chSubscribers ch1 = [] \<Longrightarrow> chSubscribers ch' = []" using IH by simp
  have ids: "same_channel ch ch'" "chMode ch1 = chMode ch" "chUid ch1 = chUid ch"
    using IH one by (auto simp: same_channel_def)
  have "u = chUid ch \<and> chSubscribers ch' = [] \<and> chMode ch = autoclose_yes"
    if "UnRegisterChannel u \<in> set effs"
  proof -
    have "UnRegisterChannel u \<in> set effs1 \<or> UnRegisterChannel u \<in> set effs2" using that effs by simp
    then show ?thesis using IH one empty ids(2,3) by metis
  qed
  moreover have "deliveries effs = map (\<lambda>s. (s, msg)) (s # to)" using IH one effs by simp
  ultimately show ?case using ids(1) by simp
qed

lemma base_Push_recipients:
  assumes "msg_delivery msg = Inr d" "msg_from msg = Inr from" "msg_socket msg = Inr sock"
    and "distinct (chSubscribers ch)"
  shows "\<exists>ch' effs. base_Push e locks msg ch =
      Inr (length (filter (\<lambda>s. alive e s \<and> recipient d from sock s) (chSubscribers ch)), ch', effs)
    \<and> deliveries effs =
        map (\<lambda>s. (s, msg)) (filter (\<lambda>s. alive e s \<and> recipient d from sock s) (chSubscribers ch))"
proof -
  let ?to = "filter (\<lambda>s. alive e s \<and> recipient d from sock s) (chSubscribers ch)"
  let ?ch = "ch\<lparr>chSubscribers := filter (\<lambda>s. examined d from sock s \<longrightarrow> alive e s) (chSubscribers ch)\<rparr>"
  obtain ch' effs where d: "deliver_all e locks msg ?to ?ch = (ch', effs)" by fastforce
  then have "base_Push e locks msg ch = Inr (length ?to, ch', effs @ close_if_empty ch')"
    using select_subscribers_spec [OF assms, of "alive e"] by (simp add: base_Push_def)
  moreover have "deliveries (close_if_empty ch') = []" by (simp add: close_if_empty_def)
  ultimately show ?thesis using deliver_all_fields [OF d] by auto
qed

text \<open>
  C11: a message reaches exactly the subscribers it is for: a broadcast all but its sender and the
  excluded session, a multicast the sessions of the named group, a unicast the named session;
  each that still exists, once, in the order of the table. The count that is returned is
  their number. No message with a well-formed head makes the call throw.
\<close>

theorem Push_recipients:
  assumes "msg_delivery msg = Inr d" "msg_from msg = Inr from" "msg_socket msg = Inr sock"
    and "distinct (chSubscribers ch)"
  shows "\<exists>ch' effs. base_Push e locks msg ch =
      Inr (length (filter (\<lambda>s. alive e s \<and> recipient d from sock s) (chSubscribers ch)), ch', effs)
    \<and> deliveries effs =
        map (\<lambda>s. (s, msg)) (filter (\<lambda>s. alive e s \<and> recipient d from sock s) (chSubscribers ch))"
  using assms by (rule base_Push_recipients)

text \<open>
  Who stays: when the locks are free, the subscribers left after a push are those that were
  not found gone and did not fail to take it, in the same order; and the channel is removed
  from the registry exactly when nobody is left and it closes by itself.
\<close>

theorem Push_keeps:
  assumes "msg_delivery msg = Inr d" "msg_from msg = Inr from" "msg_socket msg = Inr sock"
    and "distinct (chSubscribers ch)" "\<forall>s. fst (locks s)"
    and "base_Push e locks msg ch = Inr (n, ch', effs)"
  shows "chSubscribers ch' = filter (\<lambda>s. (examined d from sock s \<longrightarrow> alive e s)
        \<and> (alive e s \<and> recipient d from sock s \<longrightarrow> push_result e s msg)) (chSubscribers ch)
    \<and> (UnRegisterChannel (chUid ch) \<in> set effs \<longleftrightarrow> chSubscribers ch' = [] \<and> chMode ch = autoclose_yes)"
proof -
  let ?to = "filter (\<lambda>s. alive e s \<and> recipient d from sock s) (chSubscribers ch)"
  let ?ch = "ch\<lparr>chSubscribers := filter (\<lambda>s. examined d from sock s \<longrightarrow> alive e s) (chSubscribers ch)\<rparr>"
  obtain effs0 where d: "deliver_all e locks msg ?to ?ch = (ch', effs0)"
      and effs: "effs = effs0 @ close_if_empty ch'"
    using assms(6) select_subscribers_spec [OF assms(1-4), of "alive e"]
    by (auto simp: base_Push_def split: prod.splits)
  note f = deliver_all_fields [OF d, of "chUid ch"]
  have "chSubscribers ch' = filter (\<lambda>s. (examined d from sock s \<longrightarrow> alive e s)
        \<and> (alive e s \<and> recipient d from sock s \<longrightarrow> push_result e s msg)) (chSubscribers ch)"
    using f assms(5) by (auto intro!: filter_cong)
  moreover have "UnRegisterChannel (chUid ch) \<in> set effs \<longleftrightarrow> chSubscribers ch' = [] \<and> chMode ch = autoclose_yes"
    using f effs by (auto simp: close_if_empty_def same_channel_def split: if_splits)
  ultimately show ?thesis by blast
qed

definition sample_channel :: cchannel where
  "sample_channel = (new_channel PublicChannel ''7#news'' ''news'' ''7'' autoclose_yes)
     \<lparr>chSubscribers := [''n1.5'', ''n1.6'', ''n2.7'']\<rparr>"

definition sample_env :: env where
  "sample_env = \<lparr>alive = (\<lambda>s. s \<noteq> ''n1.6''), connected = (\<lambda>s. True), push_result = (\<lambda>s m. s \<noteq> ''n2.7''),
     user_info = (\<lambda>s. ([], [])), ip_of = (\<lambda>s. [])\<rparr>"

definition sample_message :: json where
  "sample_message = JObj [(''#msg-delivery'', JStr ''broadcast''), (''#msg-from'', JStr ''n1.5''), (''data'', JNull)]"

lemma sample_head:
  "msg_delivery sample_message = Inr broadcast" "msg_from sample_message = Inr ''n1.5''"
  "msg_socket sample_message = Inr None" "distinct (chSubscribers sample_channel)"
  by (simp_all add: msg_delivery_def msg_from_def msg_socket_def sample_message_def sample_channel_def
      um_find_def contains_def)

theorem Push_recipients_witness:
  "\<exists>ch' effs. base_Push sample_env (\<lambda>_. (True, True)) sample_message sample_channel =
      Inr (length (filter (\<lambda>s. alive sample_env s \<and> recipient broadcast ''n1.5'' None s)
        (chSubscribers sample_channel)), ch', effs)
    \<and> deliveries effs = map (\<lambda>s. (s, sample_message))
        (filter (\<lambda>s. alive sample_env s \<and> recipient broadcast ''n1.5'' None s) (chSubscribers sample_channel))"
  by (rule Push_recipients [OF sample_head])

lemma sample_push:
  "base_Push sample_env (\<lambda>_. (True, True)) sample_message sample_channel =
     Inr (1, sample_channel\<lparr>chSubscribers := [''n1.5'']\<rparr>,
       [Deliver ''n2.7'' sample_message, HookTrigger ch_pub hook_leave ''news'' ''n2.7'' JNull,
        ClusterTrigger ch_pub hook_leave ''7'' ''news'' ''n2.7'' JNull])"
  by (simp add: base_Push_def select_subscribers_def sample_head sample_channel_def sample_env_def
      new_channel_def UnSubscribe_def subs_erase_def close_if_empty_def triggers_def Let_def)

theorem Push_keeps_witness:
  "chSubscribers (sample_channel\<lparr>chSubscribers := [''n1.5'']\<rparr>) =
     filter (\<lambda>s. (examined broadcast ''n1.5'' None s \<longrightarrow> alive sample_env s)
        \<and> (alive sample_env s \<and> recipient broadcast ''n1.5'' None s \<longrightarrow> push_result sample_env s sample_message))
       (chSubscribers sample_channel)
   \<and> (UnRegisterChannel (chUid sample_channel) \<in> set
        [Deliver ''n2.7'' sample_message, HookTrigger ch_pub hook_leave ''news'' ''n2.7'' JNull,
         ClusterTrigger ch_pub hook_leave ''7'' ''news'' ''n2.7'' JNull]
      \<longleftrightarrow> chSubscribers (sample_channel\<lparr>chSubscribers := [''n1.5'']\<rparr>) = [] \<and> chMode sample_channel = autoclose_yes)"
  by (rule Push_keeps [OF sample_head _ sample_push]) simp

section \<open>The registry\<close>

text \<open>What holds of every channel of the registry.\<close>

definition channel_ok :: "string \<Rightarrow> cchannel \<Rightarrow> bool" where
  "channel_ok k ch \<longleftrightarrow> chUid ch = k \<and> k = chan_uid (chApp ch) (chName ch) \<and> chMode ch = autoclose_yes
     \<and> kind_of (chType ch) = Some (chKind ch) \<and> distinct (chSubscribers ch)"

definition registry_ok :: "cchannels \<Rightarrow> bool" where
  "registry_ok chans \<longleftrightarrow> um_wf chans \<and>
     (\<forall>k ch. um_find chans k = Some ch \<longrightarrow> channel_ok k ch \<and> chSubscribers ch \<noteq> [])"

text \<open>The part of it that holds between registering a channel and subscribing to it, too.\<close>

definition channels_ok :: "cchannels \<Rightarrow> bool" where
  "channels_ok chans \<longleftrightarrow> um_wf chans \<and> (\<forall>k ch. um_find chans k = Some ch \<longrightarrow> channel_ok k ch)"

lemma registry_channels_ok: "registry_ok chans \<Longrightarrow> channels_ok chans"
  by (simp add: registry_ok_def channels_ok_def)

lemma channels_ok_find: "channels_ok chans \<Longrightarrow> um_find chans k = Some ch \<Longrightarrow> channel_ok k ch"
  by (simp add: channels_ok_def)

lemma channels_ok_erase: "channels_ok chans \<Longrightarrow> channels_ok (UnRegister k chans)"
  by (auto simp: channels_ok_def UnRegister_def um_find_erase um.invar_erase split: if_splits)

text \<open>An operation is sound when it keeps the identity of a channel and its subscribers distinct,
  and leaves nobody behind only together with its removal.\<close>

definition sound_op :: "cchannel \<Rightarrow> cchannel \<Rightarrow> effect list \<Rightarrow> bool" where
  "sound_op ch ch' effs \<longleftrightarrow> same_channel ch ch' \<and> distinct (chSubscribers ch')
     \<and> (chSubscribers ch' = [] \<longrightarrow> UnRegisterChannel (chUid ch) \<in> set effs)"

lemma settle_ok:
  assumes "registry_ok (um_erase k chans)" "um_wf chans" "channel_ok k ch" "sound_op ch ch' effs"
    "settle ch' effs chans = (chans', effs')"
  shows "registry_ok chans'"
proof -
  have ch': "channel_ok k ch'" "chUid ch' = k" "chUid ch = k"
    using assms(3,4) by (auto simp: channel_ok_def sound_op_def same_channel_def)
  show ?thesis
  proof (cases "UnRegisterChannel k \<in> set effs")
    case True
    then show ?thesis using assms(1,5) ch' by (simp add: settle_def UnRegister_def)
  next
    case False
    then have "chans' = um_assign k ch' chans" "chSubscribers ch' \<noteq> []"
      using assms(4,5) ch' by (auto simp: settle_def sound_op_def)
    with assms(1,2) ch' show ?thesis
      by (auto simp: registry_ok_def um_find_assign um_find_erase um.invar_assign split: if_splits)
  qed
qed

lemma settle_channels_ok:
  assumes "channels_ok chans" "channel_ok k ch" "same_channel ch ch'" "distinct (chSubscribers ch')"
    and "settle ch' effs chans = (chans', effs')"
  shows "channels_ok chans'"
proof -
  have "channel_ok k ch'" "chUid ch' = k" using assms(2-4) by (auto simp: channel_ok_def same_channel_def)
  with assms(1,5) channels_ok_erase [OF assms(1), of k] show ?thesis
    by (auto simp: settle_def channels_ok_def um_find_assign um.invar_assign split: if_splits)
qed

lemma registry_ok_erase: "registry_ok chans \<Longrightarrow> registry_ok (um_erase k chans)"
  by (auto simp: registry_ok_def um_find_erase um.invar_erase split: if_splits)

lemma UnSubscribe_sound:
  assumes "UnSubscribe l1 l2 s ch = (ch', effs)" "channel_ok k ch" "chSubscribers ch \<noteq> []"
  shows "sound_op ch ch' effs"
  using UnSubscribe_fields [OF assms(1), of "chUid ch"] assms(2,3)
  by (auto simp: sound_op_def channel_ok_def subs_erase_def split: if_splits)

lemma broadcast_kept:
  assumes "broadcast_loop live frm sock subs = Inr (to, kept)" "distinct subs"
  shows "distinct kept"
proof (cases subs)
  case Nil
  with assms show ?thesis by simp
next
  case (Cons s subs')
  with assms(1) obtain f where "frm = Inr f" by (auto simp: bind_outcome_eq_Inr)
  with assms broadcast_loop_filter [of live f sock subs] show ?thesis by auto
qed

lemma select_kept:
  assumes "select_subscribers live msg subs = Inr (to, kept)" "distinct subs"
  shows "distinct kept"
proof -
  obtain d sock where "msg_delivery msg = Inr d" "msg_socket msg = Inr sock"
    using assms(1) by (auto simp: select_subscribers_def bind_outcome_eq_Inr)
  with assms broadcast_kept [of live "msg_from msg" sock subs to kept] show ?thesis
    by (cases d; cases sock)
      (auto simp: select_subscribers_def multicast_loop_filter unicast_find_def subs_erase_def split: if_splits)
qed

lemma base_Push_sound:
  assumes "base_Push e locks msg ch = Inr (n, ch', effs)" "channel_ok k ch"
  shows "sound_op ch ch' effs"
proof -
  obtain to kept where sel: "select_subscribers (alive e) msg (chSubscribers ch) = Inr (to, kept)"
    using assms(1) by (auto simp: base_Push_def bind_outcome_eq_Inr)
  obtain effs0 where d: "deliver_all e locks msg to (ch\<lparr>chSubscribers := kept\<rparr>) = (ch', effs0)"
    and effs: "effs = effs0 @ close_if_empty ch'"
    using assms(1) sel by (cases "deliver_all e locks msg to (ch\<lparr>chSubscribers := kept\<rparr>)")
      (auto simp: base_Push_def)
  have "distinct kept" using select_kept [OF sel] assms(2) by (simp add: channel_ok_def)
  with deliver_all_fields [OF d] effs assms(2) show ?thesis
    by (auto simp: sound_op_def same_channel_def close_if_empty_def channel_ok_def)
qed

lemma sound_op_trans:
  assumes "sound_op ch ch1 e1" "sound_op ch1 ch2 e2"
  shows "sound_op ch ch2 (e1 @ e2)"
  using assms by (auto simp: sound_op_def same_channel_def)

lemma same_channel_ok:
  "same_channel ch ch' \<Longrightarrow> channel_ok k ch \<Longrightarrow> distinct (chSubscribers ch') \<Longrightarrow> channel_ok k ch'"
  by (auto simp: same_channel_def channel_ok_def)

lemma emplace_sound:
  assumes "channel_ok k ch"
  shows "sound_op ch (ch\<lparr>chSubscribers := subs_emplace s (chSubscribers ch)\<rparr>) []"
    and "channel_ok k (ch\<lparr>chSubscribers := subs_emplace s (chSubscribers ch)\<rparr>)"
  using assms by (auto simp: sound_op_def same_channel_def subs_emplace_def channel_ok_def)

lemma sound_op_more: "sound_op ch ch' effs \<Longrightarrow> sound_op ch ch' (effs @ rest)"
  by (auto simp: sound_op_def)

lemma Subscribe_sound:
  assumes "Subscribe s ch = (ch', effs)" "channel_ok k ch"
  shows "sound_op ch ch' effs"
  using emplace_sound(1) [OF assms(2), of s] sound_op_more [of _ _ "[]"] assms(1)
  by (auto simp: Subscribe_def Let_def)

lemma channel_Gc_sound:
  assumes "channel_Gc e locked ch = (n, ch', effs)" "channel_ok k ch" "chSubscribers ch \<noteq> []"
  shows "sound_op ch ch' effs"
  using assms
  by (auto simp: channel_Gc_def sound_op_def same_channel_def close_if_empty_def channel_ok_def Let_def
      split: if_splits)

lemma push_made_sound:
  assumes "push_made e locks now m doc ch = (Inr (n, ch', effs), m')" "channel_ok k ch"
  shows "sound_op ch ch' effs"
  using assms base_Push_sound [of e locks _ ch n ch' effs k]
  by (auto simp: push_made_def bind_outcome_eq_Inr split: prod.splits)

lemma sound_users: "sound_op ch ch' effs \<Longrightarrow> sound_op ch (ch'\<lparr>UsersList := u\<rparr>) effs"
  by (auto simp: sound_op_def same_channel_def)

lemma presence_Subscribe_sound:
  assumes "presence_Subscribe e locks now m s ch = (f, ch', effs, m')" "channel_ok k ch"
  shows "sound_op ch ch' effs"
proof -
  define ch0 where "ch0 = ch\<lparr>chSubscribers := subs_emplace s (chSubscribers ch)\<rparr>"
  have ch0: "sound_op ch ch0 []" "channel_ok k ch0"
    using emplace_sound [OF assms(2), of s] by (simp_all add: ch0_def)
  obtain uId uInfo where u: "user_info e s = (uId, uInfo)" by fastforce
  obtain ids lst where g: "GetUsers ch0 = (ids, lst)" by fastforce
  show ?thesis
  proof (cases "uId = []")
    case True
    with assms(1) u ch0 sound_op_more [OF ch0(1)] show ?thesis
      by (auto simp: presence_Subscribe_def Let_def simp flip: ch0_def)
  next
    case False
    obtain r1 n1 where p1: "push_made e locks now m (member_added ch0 uId uInfo) ch0 = (r1, n1)" by fastforce
    show ?thesis
    proof (cases r1)
      case (Inl f1)
      with False assms(1) u g p1 ch0 show ?thesis
        by (simp add: presence_Subscribe_def Let_def flip: ch0_def)
    next
      case (Inr res)
      obtain k1 ch1 effs1 where res: "res = (k1, ch1, effs1)" by (metis prod_cases3)
      have s1: "sound_op ch0 ch1 effs1" using push_made_sound [OF _ ch0(2)] p1 Inr res by blast
      have ok1: "channel_ok k ch1" using s1 ch0(2) same_channel_ok by (auto simp: sound_op_def)
      obtain r2 n2 where p2:
        "push_made e locks now n1 (subscription_succeeded ch1 s ids lst) ch1 = (r2, n2)" by fastforce
      show ?thesis
      proof (cases r2)
        case (Inl f2)
        with False assms(1) u g p1 p2 \<open>r1 = Inr res\<close> res show ?thesis
          using sound_op_trans [OF ch0(1) s1] by (simp add: presence_Subscribe_def Let_def flip: ch0_def)
      next
        case (Inr res2)
        obtain k2 ch2 effs2 where res2: "res2 = (k2, ch2, effs2)" by (metis prod_cases3)
        have s2: "sound_op ch1 ch2 effs2" using push_made_sound [OF _ ok1] p2 Inr res2 by blast
        note all = sound_users [OF sound_op_more [OF sound_op_trans [OF sound_op_trans [OF ch0(1) s1] s2]]]
        show ?thesis using False assms(1) u g p1 p2 \<open>r1 = Inr res\<close> res Inr res2 all
          by (auto simp: presence_Subscribe_def Let_def simp flip: ch0_def)
      qed
    qed
  qed
qed

text \<open>The operations of the program on the registry, in any order and with any environment.\<close>

inductive reachable :: "cchannels \<Rightarrow> bool" where
  start: "reachable []"
| subscribe: "reachable chans \<Longrightarrow> Register type app name chans = (Some ch, chans1, e1) \<Longrightarrow>
    chKind ch \<noteq> PresenceChannel \<Longrightarrow> Subscribe s ch = (ch', e2) \<Longrightarrow>
    settle ch' e2 chans1 = (chans2, e3) \<Longrightarrow> reachable chans2"
| join: "reachable chans \<Longrightarrow> Register type app name chans = (Some ch, chans1, e1) \<Longrightarrow>
    chKind ch = PresenceChannel \<Longrightarrow> presence_Subscribe e locks now m s ch = (f, ch', e2, m') \<Longrightarrow>
    settle ch' e2 chans1 = (chans2, e3) \<Longrightarrow> reachable chans2"
| unsubscribe: "reachable chans \<Longrightarrow> um_find chans k = Some ch \<Longrightarrow>
    UnSubscribe l1 l2 s ch = (ch', e2) \<Longrightarrow> settle ch' e2 chans = (chans2, e3) \<Longrightarrow> reachable chans2"
| push: "reachable chans \<Longrightarrow> um_find chans k = Some ch \<Longrightarrow>
    base_Push e locks msg ch = Inr (n, ch', e2) \<Longrightarrow> settle ch' e2 chans = (chans2, e3) \<Longrightarrow>
    reachable chans2"
| collect: "reachable chans \<Longrightarrow> um_find chans k = Some ch \<Longrightarrow>
    channel_Gc e locked ch = (n, ch', e2) \<Longrightarrow> settle ch' e2 chans = (chans2, e3) \<Longrightarrow>
    reachable chans2"

lemma Register_ok:
  assumes "Register type app name chans = (Some ch, chans1, effs)" "registry_ok chans"
  shows "channel_ok (chan_uid app name) ch \<and> um_wf chans1 \<and> registry_ok (um_erase (chan_uid app name) chans1)"
proof (cases "um_find chans (chan_uid app name)")
  case (Some ch0)
  with assms have "ch0 = ch" "chans1 = chans" by (auto simp: Register_def)
  with Some assms(2) show ?thesis by (auto simp: registry_ok_def um_find_erase um.invar_erase)
next
  case None
  then obtain kind where kind: "kind_of type = Some kind"
    and ch: "ch = new_channel kind (chan_uid app name) name app autoclose_yes"
    and chans1: "chans1 = um_emplace (chan_uid app name) ch chans"
    using assms(1) by (auto simp: Register_def Let_def split: option.splits)
  have "channel_ok (chan_uid app name) ch"
    unfolding ch by (cases kind) (auto simp: channel_ok_def new_channel_def)
  moreover have "um_wf chans" using assms(2) by (simp add: registry_ok_def)
  moreover have "um_find (um_erase (chan_uid app name) chans1) j = um_find (um_erase (chan_uid app name) chans) j" for j
    using \<open>um_wf chans\<close> by (simp add: chans1 um_find_erase um_find_emplace um.invar_emplace)
  ultimately show ?thesis
    using registry_ok_erase [OF assms(2), of "chan_uid app name"]
    by (auto simp: registry_ok_def chans1 um.invar_emplace um.invar_erase)
qed

lemma Register_channels_ok:
  assumes "Register type app name chans = (Some ch, chans1, effs)" "channels_ok chans"
  shows "channel_ok (chan_uid app name) ch \<and> channels_ok chans1"
proof (cases "um_find chans (chan_uid app name)")
  case (Some ch0)
  with assms show ?thesis by (auto simp: Register_def channels_ok_find)
next
  case None
  then obtain kind where "ch = new_channel kind (chan_uid app name) name app autoclose_yes"
      "chans1 = um_emplace (chan_uid app name) ch chans"
    using assms(1) by (auto simp: Register_def Let_def split: option.splits)
  moreover from this(1) have "channel_ok (chan_uid app name) ch"
    by (cases kind) (auto simp: channel_ok_def new_channel_def)
  ultimately show ?thesis using assms(2)
    by (auto simp: channels_ok_def um_find_emplace um.invar_emplace split: if_splits)
qed



section \<open>Presence\<close>

lemma member_added_head:
  "\<exists>msg. msg_Make m now (member_added ch u i) ''presence'' = (Inr msg, m + 1)
    \<and> msg_delivery msg = Inr broadcast \<and> msg_from msg = Inr ''presence'' \<and> msg_socket msg = Inr None"
  by (simp add: msg_Make_def member_added_def um_assign_def msg_delivery_def msg_from_def msg_socket_def
      contains_def um_find_def)

lemma subscription_succeeded_socket:
  "\<exists>msg. msg_Make m now (subscription_succeeded ch sid ids lst) ''presence'' = (Inr msg, m + 1)
    \<and> msg_delivery msg = Inr broadcast \<and> msg_socket msg = Inl (Throw ''type_error.302'')"
  by (simp add: msg_Make_def subscription_succeeded_def um_assign_def msg_delivery_def msg_socket_def
      contains_def um_find_def)

lemma deliver_all_no_join:
  "deliver_all e locks msg to ch = (ch', effs) \<Longrightarrow> HookTrigger t hook_join name s d \<notin> set effs"
proof (induction to arbitrary: ch ch' effs)
  case Nil
  then show ?case by simp
next
  case (Cons x to)
  obtain ch1 effs1 where step: "(if push_result e x msg then (ch, [])
      else UnSubscribe (fst (locks x)) (snd (locks x)) x ch) = (ch1, effs1)" by fastforce
  obtain effs2 where rest: "deliver_all e locks msg to ch1 = (ch', effs2)"
      and effs: "effs = Deliver x msg # effs1 @ effs2"
    using Cons.prems step by (auto simp: Let_def split: prod.splits)
  have "HookTrigger t hook_join name s d \<notin> set effs1"
    using step by (auto simp: UnSubscribe_def Let_def close_if_empty_def triggers_def split: if_splits)
  with Cons.IH [OF rest] effs show ?case by simp
qed

lemma presence_confirmation_throws:
  assumes "user_info e s = (uId, uInfo)" "uId \<noteq> []" "distinct (chSubscribers ch)"
    and "presence_Subscribe e locks now m s ch = (f, ch', effs, m')"
  shows "f = Some (Throw ''type_error.302'') \<and> HookTrigger t hook_join name s' d \<notin> set effs"
proof -
  define ch0 where "ch0 = ch\<lparr>chSubscribers := subs_emplace s (chSubscribers ch)\<rparr>"
  have dist: "distinct (chSubscribers ch0)" using assms(3) by (simp add: ch0_def subs_emplace_def)
  obtain ids lst where g: "GetUsers ch0 = (ids, lst)" by fastforce
  obtain msg where msg: "msg_Make m now (member_added ch0 uId uInfo) ''presence'' = (Inr msg, m + 1)"
      "msg_delivery msg = Inr broadcast" "msg_from msg = Inr ''presence''" "msg_socket msg = Inr None"
    using member_added_head by blast
  note sel = select_subscribers_spec [OF msg(2-4) dist, of "alive e"]
  obtain to kept where to: "select_subscribers (alive e) msg (chSubscribers ch0) = Inr (to, kept)"
    using sel by blast
  obtain ch1 effs0 where d: "deliver_all e locks msg to (ch0\<lparr>chSubscribers := kept\<rparr>) = (ch1, effs0)" by fastforce
  define effs1 where "effs1 = effs0 @ close_if_empty ch1"
  have p1: "push_made e locks now m (member_added ch0 uId uInfo) ch0 = (Inr (length to, ch1, effs1), m + 1)"
    using msg(1) to d by (simp add: push_made_def base_Push_def effs1_def)
  obtain msg2 where msg2:
      "msg_Make (m + 1) now (subscription_succeeded ch1 s ids lst) ''presence'' = (Inr msg2, m + 1 + 1)"
      "msg_delivery msg2 = Inr broadcast" "msg_socket msg2 = Inl (Throw ''type_error.302'')"
    using subscription_succeeded_socket by blast
  then have p2: "push_made e locks now (m + 1) (subscription_succeeded ch1 s ids lst) ch1 =
      (Inl (Throw ''type_error.302''), m + 1 + 1)"
    by (simp add: push_made_def base_Push_def select_subscribers_def)
  have "f = Some (Throw ''type_error.302'') \<and> effs = effs1"
    using assms g p1 p2 by (simp add: presence_Subscribe_def Let_def flip: ch0_def)
  moreover have "HookTrigger t hook_join name s' d \<notin> set effs1"
    using deliver_all_no_join [OF d] by (simp add: effs1_def close_if_empty_def)
  ultimately show ?thesis by simp
qed

text \<open>
  joining a presence channel as a user fails: the confirmation carries \<^verbatim>\<open>socket_id\<close> as an array,
  which \<^verbatim>\<open>cchannel::Push\<close> reads as a string. The subscription throws after the other members were
  told of the new one; the user is not entered in the list and the join hook is not called.
\<close>

theorem presence_Subscribe_throws:
  assumes "user_info e s = (uId, uInfo)" "uId \<noteq> []" "distinct (chSubscribers ch)"
    and "presence_Subscribe e locks now m s ch = (f, ch', effs, m')"
  shows "f = Some (Throw ''type_error.302'') \<and> HookTrigger t hook_join name s' d \<notin> set effs"
  by (rule presence_confirmation_throws [OF assms])

definition presence_env :: env where
  "presence_env = sample_env\<lparr>user_info := (\<lambda>s. (''u1'', ''Ann''))\<rparr>"

theorem presence_Subscribe_throws_witness:
  "\<exists>f ch' effs m'.
     presence_Subscribe presence_env (\<lambda>_. (True, True)) 0 1 ''s1''
       (new_channel PresenceChannel ''7#presence-x'' ''presence-x'' ''7'' autoclose_yes) = (f, ch', effs, m')
     \<and> f = Some (Throw ''type_error.302'') \<and> HookTrigger ch_pres hook_join ''presence-x'' ''s1'' JNull \<notin> set effs"
proof -
  obtain f ch' effs m' where p: "presence_Subscribe presence_env (\<lambda>_. (True, True)) 0 1 ''s1''
      (new_channel PresenceChannel ''7#presence-x'' ''presence-x'' ''7'' autoclose_yes) = (f, ch', effs, m')"
    by (metis prod_cases4)
  have "user_info presence_env ''s1'' = (''u1'', ''Ann'')" by (simp add: presence_env_def)
  moreover have "distinct (chSubscribers (new_channel PresenceChannel ''7#presence-x'' ''presence-x'' ''7'' autoclose_yes))"
    by (simp add: new_channel_def)
  ultimately have "f = Some (Throw ''type_error.302'') \<and> HookTrigger ch_pres hook_join ''presence-x'' ''s1'' JNull \<notin> set effs"
    using presence_Subscribe_throws [OF _ _ _ p, of "''u1''" "''Ann''" ch_pres "''presence-x''" "''s1''" JNull] by simp
  with p show ?thesis by blast
qed

text \<open>A protected channel is registered as a private one: its type is not the one it was asked for.\<close>

theorem protected_is_private:
  "um_find chans (chan_uid app name) = None \<Longrightarrow>
     \<exists>ch chans' effs. Register ch_prot app name chans = (Some ch, chans', effs) \<and> chType ch = ch_priv"
  by (simp add: Register_def Let_def new_channel_def)

end
