(* ===== verification/Sockets.thy ===== *)
theory Sockets
  imports Http
begin

text \<open>
  The socket class \<^verbatim>\<open>inet::csocket\<close> (\<^verbatim>\<open>include/inet/csocket.h\<close>, \<^verbatim>\<open>source/inet/csocket.cpp\<close>): the loops around
  the system calls, with and without TLS, closing, and the move constructor. The kernel is a
  list of results, one for every system call; a loop that asks for one more than there are
  waits (\<open>None\<close>). \<^verbatim>\<open>errno\<close> from before the call is a parameter, since some paths return it.
\<close>

section \<open>Receiving\<close>

text \<open>\<open>Recv []\<close> is a result of 0: the peer has closed.\<close>

datatype recv_result = Recv bytes | RecvFail errno

definition read_status :: "bool \<Rightarrow> errno \<Rightarrow> errno option" where
  "read_status dontwait e = (if dontwait \<and> e = EAGAIN then None else Some e)"

fun read_loop ::
  "bool \<Rightarrow> nat \<Rightarrow> bytes \<Rightarrow> recv_result list \<Rightarrow> (errno option \<times> bytes \<times> recv_result list) option" where
  "read_loop dontwait len buf [] = (if len = 0 then Some (None, buf, []) else None)"
| "read_loop dontwait len buf (r # rs) =
     (if len = 0 then Some (None, buf, r # rs)
      else case r of
        RecvFail e \<Rightarrow> Some (read_status dontwait e, buf, rs)
      | Recv bs \<Rightarrow>
          if bs = [] then Some (Some ECONNABORTED, buf, rs)
          else if length bs > len then Some (None, buf @ take len bs, Recv (drop len bs) # rs)
          else read_loop dontwait (len - length bs) (buf @ bs) rs)"

text \<open>With nothing to read the loop is not entered and \<^verbatim>\<open>errno\<close> is returned as it stands.\<close>

definition ReadNoSsl ::
  "bool \<Rightarrow> errno option \<Rightarrow> nat \<Rightarrow> recv_result list \<Rightarrow> (errno option \<times> bytes \<times> recv_result list) option" where
  "ReadNoSsl dontwait errno0 len rs =
     (if len = 0
      then Some ((case errno0 of None \<Rightarrow> None | Some e \<Rightarrow> read_status dontwait e), [], rs)
      else read_loop dontwait len [] rs)"

text \<open>\<^verbatim>\<open>ReadFromNoSsl\<close> reads datagrams: what does not fit is dropped by the kernel; with \<^verbatim>\<open>MSG_PEEK\<close> the
  datagram stays at the head of the queue.\<close>

function recvfrom_loop ::
  "bool \<Rightarrow> bool \<Rightarrow> nat \<Rightarrow> bytes \<Rightarrow> recv_result list \<Rightarrow> (errno option \<times> bytes \<times> recv_result list) option" where
  "recvfrom_loop peek dontwait len buf rs =
     (if len = 0 then Some (None, buf, rs)
      else case rs of
        [] \<Rightarrow> None
      | RecvFail e # rs' \<Rightarrow> Some (read_status dontwait e, buf, rs')
      | Recv bs # rs' \<Rightarrow>
          let queue = (if peek then rs else rs') in
          if bs = [] then Some (Some ECONNABORTED, buf, queue)
          else recvfrom_loop peek dontwait (len - length bs) (buf @ take len bs) queue)"
  by pat_completeness auto
termination
  by (relation "measure (\<lambda>(_, _, len, _, _). len)") auto

declare recvfrom_loop.simps [simp del]

definition ReadFromNoSsl ::
  "bool \<Rightarrow> bool \<Rightarrow> errno option \<Rightarrow> nat \<Rightarrow> recv_result list \<Rightarrow> (errno option \<times> bytes \<times> recv_result list) option" where
  "ReadFromNoSsl peek dontwait errno0 len rs =
     (if len = 0
      then Some ((case errno0 of None \<Rightarrow> None | Some e \<Rightarrow> read_status dontwait e), [], rs)
      else recvfrom_loop peek dontwait len [] rs)"

definition ReadFromSsl :: "errno option" where
  "ReadFromSsl = Some ESOCKTNOSUPPORT"

section \<open>Sending\<close>

datatype send_result = Sent nat | SendFail errno

text \<open>\<open>again\<close>: whether \<^verbatim>\<open>EAGAIN\<close> is retried (\<^verbatim>\<open>WriteToNoSsl\<close>) or ends the loop (\<^verbatim>\<open>WriteNoSsl\<close>). The result
  has the bytes that were handed to the kernel.\<close>

fun write_loop ::
  "bool \<Rightarrow> bool \<Rightarrow> errno option \<Rightarrow> bytes \<Rightarrow> bytes \<Rightarrow> send_result list \<Rightarrow> (errno option \<times> bytes) option" where
  "write_loop again dontwait errno0 done [] [] = Some (None, done)"
| "write_loop again dontwait errno0 done (b # data) [] = None"
| "write_loop again dontwait errno0 done [] (r # rs) = Some (None, done)"
| "write_loop again dontwait errno0 done (b # data) (r # rs) =
     (case r of
        Sent n \<Rightarrow>
          if n = 0
          then Some (case errno0 of None \<Rightarrow> None | Some e \<Rightarrow> read_status dontwait e, done)
          else write_loop again dontwait errno0 (done @ take n (b # data)) (drop n (b # data)) rs
      | SendFail e \<Rightarrow>
          if again \<and> e = EAGAIN then write_loop again dontwait errno0 done (b # data) rs
          else Some (read_status dontwait e, done))"

definition write_all ::
  "bool \<Rightarrow> bool \<Rightarrow> errno option \<Rightarrow> bytes \<Rightarrow> send_result list \<Rightarrow> (errno option \<times> bytes) option" where
  "write_all again dontwait errno0 data rs =
     (if data = [] then Some (case errno0 of None \<Rightarrow> None | Some e \<Rightarrow> read_status dontwait e, [])
      else write_loop again dontwait errno0 [] data rs)"

definition WriteNoSsl ::
  "bool \<Rightarrow> errno option \<Rightarrow> bytes \<Rightarrow> send_result list \<Rightarrow> (errno option \<times> bytes) option" where
  "WriteNoSsl dontwait errno0 data rs = write_all False dontwait errno0 data rs"

definition WriteToNoSsl ::
  "errno option \<Rightarrow> bytes \<Rightarrow> send_result list \<Rightarrow> (errno option \<times> bytes) option" where
  "WriteToNoSsl errno0 data rs = write_all True False errno0 data rs"

definition WriteToSsl :: "errno option" where
  "WriteToSsl = Some ESOCKTNOSUPPORT"

section \<open>TLS\<close>

datatype ssl_error = SSL_ERROR_NONE | SSL_ERROR_WANT_READ | SSL_ERROR_WANT_WRITE
  | SSL_ERROR_ZERO_RETURN | SSL_ERROR_OTHER

text \<open>The result of \<^verbatim>\<open>SSL_read\<close> or \<^verbatim>\<open>SSL_write\<close>: bytes, or what \<^verbatim>\<open>SSL_get_error\<close> says of the failure.\<close>

datatype ssl_result = SslDone bytes | SslFail ssl_error

definition ssl_status :: "bool \<Rightarrow> ssl_error \<Rightarrow> errno option" where
  "ssl_status dontwait err =
     (case err of
        SSL_ERROR_NONE \<Rightarrow> None
      | SSL_ERROR_WANT_READ \<Rightarrow> if dontwait then None else Some EAGAIN
      | SSL_ERROR_WANT_WRITE \<Rightarrow> if dontwait then None else Some EAGAIN
      | SSL_ERROR_ZERO_RETURN \<Rightarrow> Some ECONNABORTED
      | SSL_ERROR_OTHER \<Rightarrow> Some EBADFD)"

fun ssl_read_loop ::
  "bool \<Rightarrow> nat \<Rightarrow> bytes \<Rightarrow> ssl_result list \<Rightarrow> (errno option \<times> bytes \<times> ssl_result list) option" where
  "ssl_read_loop dontwait len buf [] = (if len = 0 then Some (None, buf, []) else None)"
| "ssl_read_loop dontwait len buf (r # rs) =
     (if len = 0 then Some (None, buf, r # rs)
      else case r of
        SslFail err \<Rightarrow> Some (ssl_status dontwait err, buf, rs)
      | SslDone bs \<Rightarrow>
          if length bs > len then Some (None, buf @ take len bs, SslDone (drop len bs) # rs)
          else if dontwait then Some (None, buf @ bs, rs)
          else ssl_read_loop dontwait (len - length bs) (buf @ bs) rs)"

text \<open>\<^verbatim>\<open>ReadSsl\<close>: \<open>ssl\<close> is false when the session is gone; \<open>err0\<close> is what \<^verbatim>\<open>SSL_get_error\<close> says of a
  return value 0 with nothing asked for.\<close>

definition ReadSsl ::
  "bool \<Rightarrow> bool \<Rightarrow> ssl_error \<Rightarrow> nat \<Rightarrow> ssl_result list \<Rightarrow> (errno option \<times> bytes \<times> ssl_result list) option" where
  "ReadSsl ssl dontwait err0 len rs =
     (if \<not> ssl then Some (Some EBADF, [], rs)
      else if len = 0 then Some (ssl_status dontwait err0, [], rs)
      else ssl_read_loop dontwait len [] rs)"

datatype ssl_wresult = SslWrote nat | SslWFail ssl_error

fun ssl_write_loop ::
  "bool \<Rightarrow> bytes \<Rightarrow> bytes \<Rightarrow> ssl_wresult list \<Rightarrow> (errno option \<times> bytes) option" where
  "ssl_write_loop dontwait done data [] = (if data = [] then Some (None, done) else None)"
| "ssl_write_loop dontwait done data (r # rs) =
     (if data = [] then Some (None, done)
      else case r of
        SslWrote n \<Rightarrow> ssl_write_loop dontwait (done @ take n data) (drop n data) rs
      | SslWFail err \<Rightarrow> Some (ssl_status dontwait err, done))"

definition WriteSsl ::
  "bool \<Rightarrow> bool \<Rightarrow> ssl_error \<Rightarrow> bytes \<Rightarrow> ssl_wresult list \<Rightarrow> (errno option \<times> bytes) option" where
  "WriteSsl ssl dontwait err0 data rs =
     (if \<not> ssl then Some (Some EBADF, [])
      else if data = [] then Some (ssl_status dontwait err0, [])
      else ssl_write_loop dontwait [] data rs)"

section \<open>The descriptor\<close>

text \<open>\<open>fdSa\<close> is \<open>None\<close> while it is uninitialised; \<open>fdPoll\<close> tells whether the poll is alive.\<close>

record 'sa csocket =
  fdSocket :: int
  fdSsl :: bool
  fdSa :: "'sa option"
  fdPoll :: bool

definition csocket_new :: "int \<Rightarrow> 'sa \<Rightarrow> bool \<Rightarrow> bool \<Rightarrow> 'sa csocket" where
  "csocket_new so sa ssl poll = \<lparr>fdSocket = so, fdSsl = ssl, fdSa = Some sa, fdPoll = poll\<rparr>"

text \<open>The move constructor: the new socket and what is left of the old one. \<^verbatim>\<open>memcpy\<close> copies from the
  new address into the old one.\<close>

definition csocket_move :: "'sa csocket \<Rightarrow> 'sa csocket \<times> 'sa csocket" where
  "csocket_move so =
     (let self = \<lparr>fdSocket = fdSocket so, fdSsl = fdSsl so, fdSa = None, fdPoll = fdPoll so\<rparr> in
      (self, so\<lparr>fdSocket := -1, fdSsl := False, fdSa := fdSa self\<rparr>))"

text \<open>\<^verbatim>\<open>SocketClose\<close>: the result, the socket, and the descriptors that are closed. \<^verbatim>\<open>PollDelete\<close> closes
  the descriptor it is given and resets it.\<close>

definition PollDelete :: "int \<Rightarrow> int \<times> int list" where
  "PollDelete fd = (if fd > 0 then (-1, [fd]) else (fd, []))"

definition SocketClose :: "'sa csocket \<Rightarrow> int \<times> 'sa csocket \<times> int list" where
  "SocketClose so =
     (let so = so\<lparr>fdSsl := False\<rparr>;
          (fd, closed) = (if fdPoll so then PollDelete (fdSocket so) else (fdSocket so, [])) in
      if fd > 0 then (fd, so\<lparr>fdSocket := -1\<rparr>, closed @ [fd])
      else (-1, so\<lparr>fdSocket := fd\<rparr>, closed))"

section \<open>Properties\<close>

fun stream_of :: "recv_result list \<Rightarrow> bytes" where
  "stream_of [] = []"
| "stream_of (Recv bs # rs) = bs @ stream_of rs"
| "stream_of (RecvFail e # rs) = stream_of rs"

lemma read_loop_stream:
  "read_loop dw len buf rs = Some (st, buf', rs') \<Longrightarrow>
     buf @ stream_of rs = buf' @ stream_of rs' \<and> length buf' \<le> length buf + len
     \<and> (st = None \<and> \<not> dw \<longrightarrow> length buf' = length buf + len)"
proof (induction dw len buf rs rule: read_loop.induct)
  case (1 dw len buf)
  then show ?case by (auto split: if_splits)
next
  case (2 dw len buf r rs)
  show ?case
  proof (cases r)
    case (RecvFail e)
    with 2 show ?thesis by (auto simp: read_status_def split: if_splits)
  next
    case (Recv bs)
    show ?thesis
    proof (cases "len \<noteq> 0 \<and> bs \<noteq> [] \<and> \<not> length bs > len")
      case True
      with 2 Recv have "read_loop dw (len - length bs) (buf @ bs) rs = Some (st, buf', rs')" by simp
      with 2 Recv True show ?thesis by fastforce
    next
      case False
      with 2 Recv show ?thesis by (auto split: if_splits)
    qed
  qed
qed

text \<open>
  C28: a receive neither loses, repeats nor reorders a byte: the bytes in the buffer followed by
  what the kernel still holds are what the peer sent, whatever the result; the buffer is
  not overrun; and a blocking receive that reports success has filled it.
\<close>

theorem ReadNoSsl_stream:
  assumes "ReadNoSsl dontwait errno0 len rs = Some (st, buf, rs')" "0 < len"
  shows "stream_of rs = buf @ stream_of rs' \<and> length buf \<le> len
    \<and> (st = None \<and> \<not> dontwait \<longrightarrow> length buf = len)"
  using assms read_loop_stream [of dontwait len "[]" rs st buf rs'] by (simp add: ReadNoSsl_def)

theorem ReadNoSsl_stream_witness:
  "\<exists>buf rs'. ReadNoSsl False None 3 [Recv [1, 2], Recv [3, 4]] = Some (None, buf, rs')
    \<and> stream_of [Recv [1, 2], Recv [3, 4]] = buf @ stream_of rs' \<and> length buf = 3"
proof -
  have "ReadNoSsl False None 3 [Recv [1, 2], Recv [3, 4]] = Some (None, [1, 2, 3], [Recv [4]])"
    by (simp add: ReadNoSsl_def)
  with ReadNoSsl_stream [OF this] show ?thesis by auto
qed

text \<open>
  a request that is received whole is lost when its sender has closed its side: the
  non-blocking receive goes on until the kernel has nothing more, and a result of 0 turns the
  bytes that did arrive into the error \<^verbatim>\<open>ECONNABORTED\<close>.
\<close>

theorem ReadNoSsl_half_close:
  assumes "data \<noteq> []" "length data < len"
  shows "ReadNoSsl True errno0 len [Recv data, Recv []] = Some (Some ECONNABORTED, data, [])"
  using assms by (simp add: ReadNoSsl_def)

theorem ReadNoSsl_half_close_witness:
  "ReadNoSsl True None 64000 [Recv [71, 69, 84], Recv []] = Some (Some ECONNABORTED, [71, 69, 84], [])"
  by (rule ReadNoSsl_half_close) simp_all

lemma write_loop_prefix:
  "write_loop again dw e0 done data rs = Some (st, sent) \<Longrightarrow>
     \<exists>rest. done @ data = sent @ rest \<and> (st = None \<and> \<not> dw \<and> e0 \<noteq> None \<longrightarrow> rest = [])"
proof (induction again dw e0 "done" data rs rule: write_loop.induct)
  case (4 again dw e0 "done" b data r rs)
  show ?case
  proof (cases r)
    case (Sent n)
    show ?thesis
    proof (cases "n = 0")
      case True
      with 4 Sent show ?thesis by (auto simp: read_status_def split: option.splits)
    next
      case False
      with 4 Sent obtain rest where
        "(done @ take n (b # data)) @ drop n (b # data) = sent @ rest"
        "st = None \<and> \<not> dw \<and> e0 \<noteq> None \<longrightarrow> rest = []" by force
      then show ?thesis by (intro exI [of _ rest]) simp
    qed
  next
    case (SendFail e)
    with 4 show ?thesis by (auto simp: read_status_def split: if_splits)
  qed
qed auto

text \<open>
  A blocking send that reports success has sent everything, and on any result what was
  sent is the beginning of the data. (When the kernel accepts 0 bytes the call returns the \<^verbatim>\<open>errno\<close>
  it found, so this needs \<^verbatim>\<open>errno\<close> not to be 0.)
\<close>

theorem WriteNoSsl_complete:
  assumes "WriteNoSsl False (Some e) data rs = Some (st, sent)" "data \<noteq> []"
  shows "(\<exists>rest. data = sent @ rest) \<and> (st = None \<longrightarrow> sent = data)"
  using assms write_loop_prefix [of False False "Some e" "[]" data rs st sent]
  by (auto simp: WriteNoSsl_def write_all_def)

theorem WriteNoSsl_complete_witness:
  "\<exists>sent. WriteNoSsl False (Some EPIPE) [1, 2, 3] [Sent 2, Sent 1] = Some (None, sent) \<and> sent = [1, 2, 3]"
proof -
  have "WriteNoSsl False (Some EPIPE) [1, 2, 3] [Sent 2, Sent 1] = Some (None, [1, 2, 3])"
    by (simp add: WriteNoSsl_def write_all_def)
  with WriteNoSsl_complete [OF this] show ?thesis by simp
qed

text \<open>
  a socket is closed once: a second \<^verbatim>\<open>SocketClose\<close> closes nothing and returns -1, and the two
  together have closed the descriptor exactly once.
\<close>

theorem SocketClose_once:
  assumes "SocketClose so = (r1, so1, c1)" "SocketClose so1 = (r2, so2, c2)"
  shows "c1 @ c2 = (if fdSocket so > 0 then [fdSocket so] else []) \<and> r2 = -1 \<and> so2 = so1"
  using assms by (auto simp: SocketClose_def PollDelete_def Let_def split: if_splits)

theorem SocketClose_once_witness:
  "[7] @ [] = (if fdSocket \<lparr>fdSocket = 7, fdSsl = True, fdSa = Some (1::nat), fdPoll = True\<rparr> > 0
      then [fdSocket \<lparr>fdSocket = 7, fdSsl = True, fdSa = Some (1::nat), fdPoll = True\<rparr>] else [])
    \<and> (-1::int) = -1
    \<and> \<lparr>fdSocket = -1, fdSsl = False, fdSa = Some (1::nat), fdPoll = True\<rparr> =
      \<lparr>fdSocket = -1, fdSsl = False, fdSa = Some 1, fdPoll = True\<rparr>"
  by (rule SocketClose_once [of _ "-1" _ "[7]" "-1" _ "[]"])
    (simp_all add: SocketClose_def PollDelete_def)

text \<open>
  the peer address does not survive the move of a socket: the constructor copies in the
  wrong direction, and both sockets are left with an uninitialised address.
\<close>

theorem csocket_move_address:
  "fdSa (fst (csocket_move so)) = None \<and> fdSa (snd (csocket_move so)) = None
   \<and> fdSocket (fst (csocket_move so)) = fdSocket so"
  by (simp add: csocket_move_def)

end
