(* ===== verification/Cluster.thy ===== *)
theory Cluster
  imports Credentials Channels Sockets
begin

text \<open>
  The cluster (\<^verbatim>\<open>source/core/cluster/ccluster.cpp\<close> and the adapters): the frames nodes exchange over
  UDP, sending to the known peers, reception and dispatch, the handlers that apply a peer's
  report to the local channels, and the table of peers with its timers. The socket is the queue
  of datagrams of theory \<open>Sockets\<close>; printing and parsing JSON are parameters; scripts called with a
  report (\<^verbatim>\<open>CallModule\<close>) have no effect on this state.
\<close>

unbundle bit_operations_syntax

section \<open>Frames\<close>

datatype op_t = op_noop | op_cping | op_reg | op_unreg | op_join | op_leave | op_push

fun op_code :: "op_t \<Rightarrow> u8" where
  "op_code op_noop = 0"
| "op_code op_cping = 1"
| "op_code op_reg = 2"
| "op_code op_unreg = 3"
| "op_code op_join = 4"
| "op_code op_leave = 5"
| "op_code op_push = 6"

definition MaxFrameSize :: nat where
  "MaxFrameSize = 65400"

text \<open>The header: four bits of operation, the fragment flags 0 and 1, the length type 1; then the
  length in the byte order of the machine (least significant byte first).\<close>

definition le16 :: "u16 \<Rightarrow> bytes" where
  "le16 w = [ucast w, ucast (drop_bit 8 w)]"

definition rd16le :: "bytes \<Rightarrow> u16" where
  "rd16le bs = ucast (bs ! 0) OR push_bit 8 (ucast (bs ! 1))"

definition hdr_t :: "op_t \<Rightarrow> u16 \<Rightarrow> bytes" where
  "hdr_t cop len = ((op_code cop AND 0x0f) OR push_bit 4 0 OR push_bit 5 1 OR push_bit 6 1) # le16 len"

definition hdr_op :: "bytes \<Rightarrow> u8" where
  "hdr_op frame = frame ! 0 AND 0x0f"

definition hdr_len :: "bytes \<Rightarrow> nat" where
  "hdr_len frame = unat (rd16le (drop 1 frame))"

definition Pack :: "(json \<Rightarrow> string) \<Rightarrow> op_t \<Rightarrow> json \<Rightarrow> bytes" where
  "Pack dump cop msg =
     (let packedData = map byte_of (dump msg) in hdr_t cop (of_nat (length packedData)) @ packedData)"

fun trigger_op :: "hook_trigger_t \<Rightarrow> op_t option" where
  "trigger_op hook_push = Some op_push"
| "trigger_op hook_join = Some op_join"
| "trigger_op hook_leave = Some op_leave"
| "trigger_op hook_reg = Some op_reg"
| "trigger_op hook_unreg = Some op_unreg"
| "trigger_op hook_none = None"

definition Pack_trigger :: "(json \<Rightarrow> string) \<Rightarrow> hook_trigger_t \<Rightarrow> json \<Rightarrow> bytes option" where
  "Pack_trigger dump trigger msg = map_option (\<lambda>cop. Pack dump cop msg) (trigger_op trigger)"

section \<open>Peers\<close>

record 'sa node_t =
  NodeLastActivity :: int
  NodeAddress :: 'sa

type_synonym 'sa peers = "(u32, 'sa node_t) umap"

definition UpdatePeer :: "int \<Rightarrow> u32 \<Rightarrow> 'sa \<Rightarrow> 'sa peers \<Rightarrow> 'sa peers" where
  "UpdatePeer now ip sa nodes =
     (case um_find nodes ip of
        Some node \<Rightarrow> um_assign ip (node\<lparr>NodeLastActivity := now\<rparr>) nodes
      | None \<Rightarrow> um_emplace ip \<lparr>NodeLastActivity = now, NodeAddress = sa\<rparr> nodes)"

definition node_expired :: "int \<Rightarrow> int \<Rightarrow> 'sa node_t \<Rightarrow> bool" where
  "node_expired now pingInterval node \<longleftrightarrow> NodeLastActivity node + pingInterval + 10 < now"

definition peers_Gc :: "int \<Rightarrow> int \<Rightarrow> 'sa peers \<Rightarrow> nat \<times> 'sa peers" where
  "peers_Gc now pingInterval nodes =
     (length (filter (\<lambda>(ip, node). node_expired now pingInterval node) nodes),
      filter (\<lambda>(ip, node). \<not> node_expired now pingInterval node) nodes)"

text \<open>\<^verbatim>\<open>clistadapter\<close>: the configured nodes; \<open>resolve\<close> gives the address and the port of a node, \<open>local\<close>
  whether the address is one of this machine. A node that never reported has activity 0.\<close>

fun clistadapter_loop ::
  "(string \<Rightarrow> ((u32 \<times> nat) \<times> 'sa) option) \<Rightarrow> (u32 \<Rightarrow> bool) \<Rightarrow> nat \<Rightarrow> string list \<Rightarrow> 'sa peers \<Rightarrow> 'sa peers" where
  "clistadapter_loop resolve local port [] nodes = nodes"
| "clistadapter_loop resolve local port (n # ns) nodes =
     clistadapter_loop resolve local port ns
       (if n = [] then nodes
        else case resolve n of
          None \<Rightarrow> nodes
        | Some ((ip, p), sa) \<Rightarrow>
            if \<not> local ip \<or> p \<noteq> port
            then um_emplace ip \<lparr>NodeLastActivity = 0, NodeAddress = sa\<rparr> nodes else nodes)"

record 'sa ccluster =
  clusPingInterval :: int
  clusPingTime :: int
  clusGcTime :: int
  clusSync :: cflag
  clusNodes :: "'sa peers option"

text \<open>\<^verbatim>\<open>Send\<close>: the datagrams that are handed to the socket, one for every peer.\<close>

definition cluster_Send :: "'sa ccluster \<Rightarrow> bytes option \<Rightarrow> ('sa \<times> bytes) list" where
  "cluster_Send c data =
     (case clusNodes c of
        None \<Rightarrow> []
      | Some nodes \<Rightarrow>
          (case data of
             Some frame \<Rightarrow>
               if length frame \<le> MaxFrameSize then map (\<lambda>(ip, node). (NodeAddress node, frame)) nodes else []
           | None \<Rightarrow> []))"

definition report :: "(json \<Rightarrow> string) \<Rightarrow> string \<Rightarrow> string \<Rightarrow> json \<Rightarrow> json" where
  "report dump app channel data =
     JObj [(''app'', JStr app), (''channel'', JStr channel), (''data'', JStr (dump data))]"

definition cluster_Push ::
  "(json \<Rightarrow> string) \<Rightarrow> 'sa ccluster \<Rightarrow> capplication \<Rightarrow> channels_t \<Rightarrow> string \<Rightarrow> json \<Rightarrow> ('sa \<times> bytes) list" where
  "cluster_Push dump c app type channel data =
     (if IsAllowTrigger app type hook_push
      then cluster_Send c (Pack_trigger dump hook_push (report dump (cr_Id (app_cred app)) channel data))
      else [])"

definition cluster_Trigger ::
  "(json \<Rightarrow> string) \<Rightarrow> 'sa ccluster \<Rightarrow> capplication \<Rightarrow> hook_trigger_t \<Rightarrow> string \<Rightarrow> json \<Rightarrow> ('sa \<times> bytes) list" where
  "cluster_Trigger dump c app trigger channel data =
     (if has_flag (clusSync c) (hook_code trigger)
      then cluster_Send c (Pack_trigger dump trigger (report dump (cr_Id (app_cred app)) channel data))
      else [])"

text \<open>\<^verbatim>\<open>Check\<close>, once a second: a ping when its time has come, the collection of silent peers when its
  time has come.\<close>

definition Check :: "(json \<Rightarrow> string) \<Rightarrow> int \<Rightarrow> 'sa ccluster \<Rightarrow> 'sa ccluster \<times> ('sa \<times> bytes) list" where
  "Check dump now c =
     (if clusPingInterval c = 0 then (c, [])
      else
        let (c, out) = (if now \<ge> clusPingTime c
              then (c\<lparr>clusPingTime := now + clusPingInterval c\<rparr>,
                    cluster_Send c (Some (Pack dump op_cping (JObj []))))
              else (c, [])) in
        if clusNodes c \<noteq> None \<and> clusGcTime c \<noteq> 0 then
          if now \<ge> clusGcTime c then
            (c\<lparr>clusGcTime := now + clusPingInterval c + 10,
               clusNodes := map_option (\<lambda>ns. snd (peers_Gc now (clusPingInterval c) ns)) (clusNodes c)\<rparr>, out)
          else (c, out)
        else (c\<lparr>clusGcTime := now + clusPingInterval c + 10\<rparr>, out))"

section \<open>Reception\<close>

datatype udp_action = UdpPush bytes | UdpPing bytes | UdpReg bytes | UdpUnReg bytes
  | UdpJoin bytes | UdpLeave bytes

definition udp_action :: "u8 \<Rightarrow> bytes \<Rightarrow> udp_action option" where
  "udp_action cop payload =
     (if cop = op_code op_push then Some (UdpPush payload)
      else if cop = op_code op_cping then Some (UdpPing payload)
      else if cop = op_code op_reg then Some (UdpReg payload)
      else if cop = op_code op_unreg then Some (UdpUnReg payload)
      else if cop = op_code op_join then Some (UdpJoin payload)
      else if cop = op_code op_leave then Some (UdpLeave payload)
      else None)"

text \<open>\<^verbatim>\<open>OnUdpData\<close>: the header is peeked, then the whole frame is taken. The result is the returned
  value, the call that is made, and the datagrams left in the queue; \<open>None\<close> when it waits.\<close>

definition OnUdpData ::
  "errno option \<Rightarrow> recv_result list \<Rightarrow> (errno option \<times> udp_action option \<times> recv_result list) option" where
  "OnUdpData errno0 q =
     (case ReadFromNoSsl True False errno0 3 q of
        None \<Rightarrow> None
      | Some (res, hdr, q1) \<Rightarrow>
          if res = None \<and> length hdr = 3 then
            if hdr_len hdr < MaxFrameSize - 3 then
              (case ReadFromNoSsl False False errno0 (3 + hdr_len hdr) q1 of
                 None \<Rightarrow> None
               | Some (res2, frame, q2) \<Rightarrow>
                   if res2 = None then
                     (case udp_action (hdr_op frame) (take (hdr_len frame) (drop 3 frame)) of
                        Some act \<Rightarrow> Some (None, Some act, q2)
                      | None \<Rightarrow> Some (Some EAGAIN, None, q2))
                   else Some (Some EAGAIN, None, q2))
            else Some (res, None, q1)
          else Some (res, None, q1))"

section \<open>Handlers\<close>

definition report_fields :: "json \<Rightarrow> bool" where
  "report_fields v \<longleftrightarrow> is_object v \<and> contains v ''app'' \<and> contains v ''channel'' \<and> contains v ''data''"

definition report_channel :: "json \<Rightarrow> cchannels \<Rightarrow> cchannel option outcome" where
  "report_channel v chans =
     bind_outcome (bind_outcome (json_at v ''app'') get_string) (\<lambda>app.
     bind_outcome (bind_outcome (json_at v ''channel'') get_string) (\<lambda>name.
       Inr (GetChannel app name chans)))"

text \<open>\<^verbatim>\<open>ccluster::OnClusterPush\<close>: the channels and what was done; nothing when the report is refused.\<close>

definition cluster_OnClusterPush ::
  "(string \<Rightarrow> json option) \<Rightarrow> env \<Rightarrow> (string \<Rightarrow> bool \<times> bool) \<Rightarrow> string \<Rightarrow> string \<Rightarrow> cchannels
     \<Rightarrow> (cchannels \<times> effect list) outcome" where
  "cluster_OnClusterPush parse e locks ip data chans =
     (case cjson_Unserialize parse data of
        None \<Rightarrow> Inr (chans, [])
      | Some v \<Rightarrow>
          if report_fields v then
            bind_outcome (report_channel v chans) (\<lambda>found.
              case found of
                None \<Rightarrow> Inr (chans, [])
              | Some ch \<Rightarrow>
                  bind_outcome (json_at v ''data'') (\<lambda>d.
                    if \<not> is_string d then Inr (chans, [])
                    else bind_outcome (get_string d) (\<lambda>txt.
                      case cjson_Unserialize parse txt of
                        None \<Rightarrow> Inr (chans, [])
                      | Some dataJson \<Rightarrow>
                          bind_outcome (json_set ''#from-host'' (JStr ip) dataJson) (\<lambda>msg.
                          bind_outcome (OnClusterPush e locks msg ch) (\<lambda>(n, ch', effs).
                            Inr (settle ch' effs chans))))))
          else Inr (chans, []))"

definition cluster_OnClusterJoin ::
  "(string \<Rightarrow> json option) \<Rightarrow> env \<Rightarrow> (string \<Rightarrow> bool \<times> bool) \<Rightarrow> int \<Rightarrow> u64 \<Rightarrow> string \<Rightarrow> cchannels
     \<Rightarrow> (cchannels \<times> effect list) outcome \<times> u64" where
  "cluster_OnClusterJoin parse e locks now MsgId data chans =
     (case cjson_Unserialize parse data of
        None \<Rightarrow> (Inr (chans, []), MsgId)
      | Some v \<Rightarrow>
          if report_fields v then
            (case report_channel v chans of
               Inl f \<Rightarrow> (Inl f, MsgId)
             | Inr None \<Rightarrow> (Inr (chans, []), MsgId)
             | Inr (Some ch) \<Rightarrow>
                 (case json_at v ''data'' of
                    Inl f \<Rightarrow> (Inl f, MsgId)
                  | Inr d \<Rightarrow>
                      (let (r, m) = OnClusterJoin e locks now MsgId d ch in
                       (bind_outcome r (\<lambda>(n, ch', effs). Inr (settle ch' effs chans)), m))))
          else (Inr (chans, []), MsgId))"

definition cluster_OnClusterLeave ::
  "(string \<Rightarrow> json option) \<Rightarrow> env \<Rightarrow> (string \<Rightarrow> bool \<times> bool) \<Rightarrow> int \<Rightarrow> u64 \<Rightarrow> string \<Rightarrow> cchannels
     \<Rightarrow> (cchannels \<times> effect list) outcome \<times> u64" where
  "cluster_OnClusterLeave parse e locks now MsgId data chans =
     (case cjson_Unserialize parse data of
        None \<Rightarrow> (Inr (chans, []), MsgId)
      | Some v \<Rightarrow>
          if report_fields v then
            (case report_channel v chans of
               Inl f \<Rightarrow> (Inl f, MsgId)
             | Inr None \<Rightarrow> (Inr (chans, []), MsgId)
             | Inr (Some ch) \<Rightarrow>
                 (case json_at v ''data'' of
                    Inl f \<Rightarrow> (Inl f, MsgId)
                  | Inr d \<Rightarrow>
                      (let (r, m) = OnClusterLeave e locks now MsgId d ch in
                       (bind_outcome r (\<lambda>(n, ch', effs). Inr (settle ch' effs chans)), m))))
          else (Inr (chans, []), MsgId))"

definition cluster_OnClusterPing :: "int \<Rightarrow> u32 \<Rightarrow> 'sa \<Rightarrow> 'sa ccluster \<Rightarrow> 'sa ccluster" where
  "cluster_OnClusterPing now ip sa c = c\<lparr>clusNodes := map_option (UpdatePeer now ip sa) (clusNodes c)\<rparr>"

section \<open>Frames arrive\<close>

lemma rd16le_le16 [simp]: "rd16le (le16 w @ rest) = w"
  by (rule bit_word_eqI) (auto simp: rd16le_def le16_def bit_simps)

lemma hdr_t_length [simp]: "length (hdr_t cop len) = 3"
  by (simp add: hdr_t_def le16_def)

lemma hdr_t_fields:
  "hdr_op (hdr_t cop len @ rest) = op_code cop"
  "n < 2 ^ 16 \<Longrightarrow> hdr_len (hdr_t cop (of_nat n) @ rest) = n"
proof -
  show "hdr_op (hdr_t cop len @ rest) = op_code cop"
    by (cases cop) (simp_all add: hdr_op_def hdr_t_def)
  assume "n < 2 ^ 16"
  then show "hdr_len (hdr_t cop (of_nat n) @ rest) = n"
    by (simp add: hdr_len_def hdr_t_def unat_of_nat take_bit_nat_eq_self)
qed

lemma recvfrom_once:
  assumes "0 < n" "n \<le> length bs"
  shows "ReadFromNoSsl peek False e0 n (Recv bs # q) = Some (None, take n bs, if peek then Recv bs # q else q)"
proof -
  have "bs \<noteq> []" using assms by auto
  with assms show ?thesis
    by (simp add: ReadFromNoSsl_def recvfrom_loop.simps [of _ _ n] recvfrom_loop.simps [of _ _ 0])
qed

lemma take3_hdr: "take 3 (hdr_t cop len @ rest) = hdr_t cop len" "drop 3 (hdr_t cop len @ rest) = rest"
  by simp_all

lemma hdr_len_take: "3 \<le> length d \<Longrightarrow> hdr_len (take 3 d) = hdr_len d"
  by (cases d rule: list.exhaust; cases "tl d"; cases "tl (tl d)")
    (auto simp: hdr_len_def rd16le_def drop_take nth_Cons')

lemma OnUdpData_frame:
  assumes "length payload < MaxFrameSize - 3"
  shows "OnUdpData e0 (Recv (hdr_t cop (of_nat (length payload)) @ payload) # q) =
    Some (case udp_action (op_code cop) payload of Some act \<Rightarrow> (None, Some act, q) | None \<Rightarrow> (Some EAGAIN, None, q))"
proof -
  let ?frame = "hdr_t cop (of_nat (length payload)) @ payload"
  have len: "hdr_len ?frame = length payload" "hdr_len (hdr_t cop (of_nat (length payload))) = length payload"
    using assms hdr_t_fields(2) [of "length payload" cop] hdr_t_fields(2) [of "length payload" cop "[]"]
    by (simp_all add: MaxFrameSize_def)
  have peek: "ReadFromNoSsl True False e0 3 (Recv ?frame # q) =
      Some (None, hdr_t cop (of_nat (length payload)), Recv ?frame # q)"
    using recvfrom_once [of 3 ?frame True e0 q] by simp
  have whole: "ReadFromNoSsl False False e0 (3 + length payload) (Recv ?frame # q) = Some (None, ?frame, q)"
    using recvfrom_once [of "3 + length payload" ?frame False e0 q] by simp
  show ?thesis
    using assms by (simp add: OnUdpData_def peek whole len hdr_t_fields(1) split: option.splits)
qed

text \<open>
  Frames survive the network: a frame that fits is taken from the socket whole and exactly
  once, and the handler of its operation is called with the bytes that were packed.
\<close>

theorem cluster_frame_roundtrip:
  assumes "length (dump msg) < MaxFrameSize - 3" "cop \<noteq> op_noop"
  shows "\<exists>act. udp_action (op_code cop) (map byte_of (dump msg)) = Some act
    \<and> OnUdpData errno0 (Recv (Pack dump cop msg) # q) = Some (None, Some act, q)"
proof -
  have "\<exists>act. udp_action (op_code cop) (map byte_of (dump msg)) = Some act"
    using assms(2) by (cases cop) (simp_all add: udp_action_def)
  with assms(1) show ?thesis
    using OnUdpData_frame [of "map byte_of (dump msg)" errno0 cop q] by (auto simp: Pack_def)
qed

theorem cluster_frame_roundtrip_witness:
  "\<exists>act. udp_action (op_code op_push) (map byte_of ''{}'') = Some act
    \<and> OnUdpData None (Recv (Pack (\<lambda>_. ''{}'') op_push (JObj [])) # [Recv [1]]) = Some (None, Some act, [Recv [1]])"
  by (rule cluster_frame_roundtrip) (simp_all add: MaxFrameSize_def)

text \<open>
  the two size limits disagree: \<^verbatim>\<open>Send\<close> lets a frame of 65400 bytes through, the receiver refuses
  its length. The refused datagram is only peeked at and stays at the head of the queue, so no
  later frame is ever received; the same goes for any three bytes that announce such a length.
\<close>

theorem cluster_limit_mismatch:
  assumes "length (dump msg) = MaxFrameSize - 3" "clusNodes c = Some ((ip, node) # nodes)"
  shows "(NodeAddress node, Pack dump cop msg) \<in> set (cluster_Send c (Some (Pack dump cop msg)))
    \<and> OnUdpData errno0 (Recv (Pack dump cop msg) # q) = Some (None, None, Recv (Pack dump cop msg) # q)"
proof -
  let ?frame = "Pack dump cop msg"
  have frame: "?frame = hdr_t cop (of_nat 65397) @ map byte_of (dump msg)"
    using assms(1) by (simp add: Pack_def MaxFrameSize_def)
  have "ReadFromNoSsl True False errno0 3 (Recv ?frame # q) = Some (None, hdr_t cop (of_nat 65397), Recv ?frame # q)"
    using recvfrom_once [of 3 ?frame True errno0 q] unfolding frame by simp
  moreover have "hdr_len (hdr_t cop (of_nat 65397)) = 65397"
    using hdr_t_fields(2) [of 65397 cop "[]"] by simp
  ultimately have "OnUdpData errno0 (Recv ?frame # q) = Some (None, None, Recv ?frame # q)"
    by (simp add: OnUdpData_def MaxFrameSize_def)
  moreover have "length ?frame = 65400" using assms(1) by (simp add: frame MaxFrameSize_def)
  ultimately show ?thesis using assms(2) by (simp add: cluster_Send_def MaxFrameSize_def)
qed

theorem cluster_limit_mismatch_witness:
  "(5, Pack (\<lambda>_. replicate 65397 CHR ''x'') op_push JNull) \<in> set (cluster_Send
      \<lparr>clusPingInterval = 30, clusPingTime = 0, clusGcTime = 0, clusSync = 0,
       clusNodes = Some [(7, \<lparr>NodeLastActivity = 0, NodeAddress = 5 :: nat\<rparr>)]\<rparr>
      (Some (Pack (\<lambda>_. replicate 65397 CHR ''x'') op_push JNull)))
    \<and> OnUdpData None (Recv (Pack (\<lambda>_. replicate 65397 CHR ''x'') op_push JNull) # []) =
       Some (None, None, Recv (Pack (\<lambda>_. replicate 65397 CHR ''x'') op_push JNull) # [])"
  using cluster_limit_mismatch [of "\<lambda>_. replicate 65397 CHR ''x''" JNull
      "\<lparr>clusPingInterval = 30, clusPingTime = 0, clusGcTime = 0, clusSync = 0,
        clusNodes = Some [(7, \<lparr>NodeLastActivity = 0, NodeAddress = 5 :: nat\<rparr>)]\<rparr>"
      7 "\<lparr>NodeLastActivity = 0, NodeAddress = 5 :: nat\<rparr>" "[]" op_push None "[]"]
  by (simp add: MaxFrameSize_def)

section \<open>Peers that fall silent\<close>

lemma Check_no_peers:
  assumes "clusNodes c = Some []"
  shows "snd (Check dump now c) = [] \<and> clusNodes (fst (Check dump now c)) = Some []"
  using assms by (auto simp: Check_def cluster_Send_def peers_Gc_def Let_def)

fun checks :: "(json \<Rightarrow> string) \<Rightarrow> int list \<Rightarrow> 'sa ccluster \<Rightarrow> 'sa ccluster \<times> ('sa \<times> bytes) list" where
  "checks dump [] c = (c, [])"
| "checks dump (t # ts) c =
     (let (c1, out1) = Check dump t c; (c2, out2) = checks dump ts c1 in (c2, out1 @ out2))"

lemma checks_no_peers: "clusNodes c = Some [] \<Longrightarrow> snd (checks dump ts c) = []"
  by (induction ts arbitrary: c) (auto simp: Let_def split_beta Check_no_peers)

text \<open>
  A partition does not heal: when the collection finds every peer silent for longer than the
  interval and ten seconds, the node forgets them all and never sends a ping or anything else
  again, at whatever times it is called; only a peer that still knows it can end this.
\<close>

theorem partition_permanent:
  assumes "clusNodes c = Some nodes" "clusPingInterval c \<noteq> 0" "clusGcTime c \<noteq> 0" "now \<ge> clusGcTime c"
    and "\<forall>(ip, node) \<in> set nodes. node_expired now (clusPingInterval c) node"
  shows "clusNodes (fst (Check dump now c)) = Some [] \<and> snd (checks dump later (fst (Check dump now c))) = []"
proof -
  have "filter (\<lambda>(ip, node). \<not> node_expired now (clusPingInterval c) node) nodes = []"
    using assms(5) by (auto simp: filter_empty_conv)
  then have "clusNodes (fst (Check dump now c)) = Some []"
    using assms(1-4) by (simp add: Check_def peers_Gc_def Let_def)
  with checks_no_peers show ?thesis by blast
qed

theorem partition_permanent_witness:
  "clusNodes (fst (Check (\<lambda>_. []) 100
      \<lparr>clusPingInterval = 30, clusPingTime = 90, clusGcTime = 95, clusSync = 0,
       clusNodes = Some [(7, \<lparr>NodeLastActivity = 50, NodeAddress = 5 :: nat\<rparr>)]\<rparr>)) = Some []
   \<and> snd (checks (\<lambda>_. []) [101, 131, 161] (fst (Check (\<lambda>_. []) 100
      \<lparr>clusPingInterval = 30, clusPingTime = 90, clusGcTime = 95, clusSync = 0,
       clusNodes = Some [(7, \<lparr>NodeLastActivity = 50, NodeAddress = 5 :: nat\<rparr>)]\<rparr>))) = []"
  by (rule partition_permanent) (auto simp: node_expired_def)

section \<open>Reports\<close>

lemma report_parsed:
  "report_fields (report dump app name data) \<and> json_at (report dump app name data) ''data'' = Inr (JStr (dump data))
   \<and> report_channel (report dump app name data) chans = Inr (GetChannel app name chans)"
  by (simp add: report_def report_fields_def report_channel_def contains_def um_find_def)

lemma Unserialize_report:
  "parse (dump (report dump app name data)) = Some (report dump app name data) \<Longrightarrow>
     cjson_Unserialize parse (dump (report dump app name data)) = Some (report dump app name data)"
  by (simp add: cjson_Unserialize_def report_def)

text \<open>
  members of other nodes are never announced: the report of a join carries its data printed
  to a string, the receiving channel wants an object, and does nothing; for every channel, user
  and JSON library that reads back the report it printed.
\<close>

theorem cluster_join_ignored:
  assumes "parse (dump (report dump app name (JObj [(''user-id'', JStr u), (''user-info'', JStr i)])))
    = Some (report dump app name (JObj [(''user-id'', JStr u), (''user-info'', JStr i)]))"
  shows "\<exists>chans'. cluster_OnClusterJoin parse e locks now MsgId
      (dump (report dump app name (JObj [(''user-id'', JStr u), (''user-info'', JStr i)]))) chans
    = (Inr (chans', []), MsgId)"
proof -
  let ?data = "JObj [(''user-id'', JStr u), (''user-info'', JStr i)]"
  have parsed: "cjson_Unserialize parse (dump (report dump app name ?data)) = Some (report dump app name ?data)"
    by (rule Unserialize_report) (rule assms)
  have string: "OnClusterJoin e locks now MsgId (JStr x) ch = (Inr (0, ch, []), MsgId)" for x ch
    by (simp add: OnClusterJoin_def)
  show ?thesis
    by (cases "GetChannel app name chans")
       (simp_all add: cluster_OnClusterJoin_def parsed report_parsed string settle_def)
qed

theorem cluster_join_ignored_witness:
  "\<exists>chans'. cluster_OnClusterJoin
      (\<lambda>_. Some (report (\<lambda>_. ''{}'') ''1'' ''presence-a'' (JObj [(''user-id'', JStr ''u''), (''user-info'', JStr ''i'')])))
      sample_env (\<lambda>_. (True, True)) 0 0 ''{}''
      [(''1#presence-a'', new_channel PresenceChannel ''1#presence-a'' ''presence-a'' ''1'' autoclose_yes)] = (Inr (chans', []), 0)"
  using cluster_join_ignored
    [of "\<lambda>_. Some (report (\<lambda>_. ''{}'') ''1'' ''presence-a'' (JObj [(''user-id'', JStr ''u''), (''user-info'', JStr ''i'')]))"
      "\<lambda>_. ''{}'' :: string" "''1''" "''presence-a''" "''u''" "''i''" sample_env "\<lambda>_. (True, True)" 0 0
      "[(''1#presence-a'', new_channel PresenceChannel ''1#presence-a'' ''presence-a'' ''1'' autoclose_yes)]"]
  by simp

end
