(* ===== verification/Smpp.thy ===== *)
theory Smpp
  imports Credentials "HOL-Library.Multiset"
begin

text \<open>
  The SMPP protocol units of \<^verbatim>\<open>application/push1st/smppservice/csmppservice.cpp\<close>: the packer, the
  parameters with their \<^verbatim>\<open>Pack\<close> and \<^verbatim>\<open>Unpack\<close>, the units built from them, the split of a long message
  into parts and the parser of delivery receipts. Reading past the end of the received data is
  undefined. That a parameter is read back as it was written, whatever follows it, is the
  interface \<open>smpp_param\<close>; every parameter that has both operations is an instance of it.
\<close>

section \<open>The packer\<close>

text \<open>The written bytes; \<^verbatim>\<open>offset\<close> is never read.\<close>

type_synonym cpacker = bytes

definition Write_u8 :: "u8 \<Rightarrow> cpacker \<Rightarrow> cpacker" where
  "Write_u8 v p = p @ [v]"

definition Write_u32 :: "u32 \<Rightarrow> cpacker \<Rightarrow> cpacker" where
  "Write_u32 v p = p @ be32 v"

definition Write_u16 :: "u16 \<Rightarrow> cpacker \<Rightarrow> cpacker" where
  "Write_u16 v p = p @ be16 v"

definition Write_str :: "bytes \<Rightarrow> cpacker \<Rightarrow> cpacker" where
  "Write_str v p = p @ v @ [0]"

definition Write_raw :: "bytes \<Rightarrow> cpacker \<Rightarrow> cpacker" where
  "Write_raw v p = p @ v"

lemmas Write_defs = Write_u8_def Write_u32_def Write_u16_def Write_str_def Write_raw_def

text \<open>\<^verbatim>\<open>data.front()\<close> with \<^verbatim>\<open>remove_prefix(1)\<close>, and \<^verbatim>\<open>assign(data.data())\<close> with \<^verbatim>\<open>remove_prefix(size() + 1)\<close>.\<close>

definition take_u8 :: "bytes \<Rightarrow> (u8 \<times> bytes) outcome" where
  "take_u8 data = (case data of [] \<Rightarrow> Inl (UB ''front of an empty view'') | v # rest \<Rightarrow> Inr (v, rest))"

definition take_str :: "bytes \<Rightarrow> (bytes \<times> bytes) outcome" where
  "take_str data =
     (case split_at (\<lambda>b. b = 0) data of
        None \<Rightarrow> Inl (UB ''remove_prefix past the end'')
      | Some (v, _, rest) \<Rightarrow> Inr (v, rest))"

definition take_u32 :: "bytes \<Rightarrow> (u32 \<times> bytes) outcome" where
  "take_u32 data = (if length data < 4 then Inl (UB ''read past the end'') else Inr (rd32 data, drop 4 data))"

definition take_raw :: "nat \<Rightarrow> bytes \<Rightarrow> (bytes \<times> bytes) outcome" where
  "take_raw n data = (if length data < n then Inl (UB ''read past the end'') else Inr (take n data, drop n data))"

text \<open>A parameter: what it writes, and how it is read.\<close>

locale smpp_param =
  fixes Pack :: "'v \<Rightarrow> cpacker \<Rightarrow> cpacker"
    and Unpack :: "bytes \<Rightarrow> ('v \<times> bytes) outcome"
    and valid :: "'v \<Rightarrow> bool"
  assumes Pack_append: "Pack v (p @ q) = p @ Pack v q"
    and Unpack_Pack: "valid v \<Longrightarrow> Unpack (Pack v [] @ rest) = Inr (v, rest)"
begin

lemma Pack_Nil: "Pack v p = p @ Pack v []"
  using Pack_append [of v p "[]"] by simp

lemma Unpack_written:
  assumes "valid v" "data = Pack v p @ rest"
  shows "Unpack (drop (length p) data) = Inr (v, rest)"
proof -
  have "drop (length p) data = Pack v [] @ rest" using assms(2) Pack_Nil [of v p] by simp
  then show ?thesis using Unpack_Pack [OF assms(1)] by simp
qed

lemma Pack_inject:
  assumes "valid v" "valid w" "Pack v p @ rest = Pack w p @ rest'"
  shows "v = w \<and> rest = rest'"
proof -
  have "(p @ Pack v []) @ rest = (p @ Pack w []) @ rest'"
    using assms(3) unfolding Pack_Nil [of v p] Pack_Nil [of w p] .
  then have eq: "Pack v [] @ rest = Pack w [] @ rest'" by (simp only: append_assoc same_append_eq)
  have "Inr (v, rest) = (Inr (w, rest') :: ('v \<times> bytes) outcome)"
    using Unpack_Pack [OF assms(1), of rest] Unpack_Pack [OF assms(2), of rest'] unfolding eq by (rule trans [OF sym])
  then show ?thesis by simp
qed

end

definition no_nul :: "bytes \<Rightarrow> bool" where
  "no_nul v \<longleftrightarrow> 0 \<notin> set v"

lemma take_str_written: "no_nul v \<Longrightarrow> take_str (v @ 0 # rest) = Inr (v, rest)"
  unfolding take_str_def no_nul_def by (subst split_at_append) auto

lemma take_u32_written [simp]: "take_u32 (be32 v @ rest) = Inr (v, rest)"
  by (simp add: take_u32_def)

section \<open>Parameters\<close>

subsection \<open>ccmd\<close>

record ccmd =
  cmd_len :: u32
  cmd_id :: u32
  cmd_status :: u32
  cmd_sequence :: u32

definition ccmd_new :: "u32 \<Rightarrow> u32 \<Rightarrow> u32 \<Rightarrow> ccmd" where
  "ccmd_new i status seq = \<lparr>cmd_len = 16, cmd_id = i, cmd_status = status, cmd_sequence = seq\<rparr>"

definition ccmd_Pack :: "ccmd \<Rightarrow> cpacker \<Rightarrow> cpacker" where
  "ccmd_Pack c p =
     Write_u32 (cmd_sequence c) (Write_u32 (cmd_status c) (Write_u32 (cmd_id c) (Write_u32 (cmd_len c) p)))"

text \<open>\<^verbatim>\<open>Length(n)\<close> on the bytes of a packed command, and \<^verbatim>\<open>Length()\<close> on received ones.\<close>

definition set_Length :: "u32 \<Rightarrow> bytes \<Rightarrow> bytes" where
  "set_Length n msg = be32 n @ drop 4 msg"

definition get_Length :: "bytes \<Rightarrow> u32" where
  "get_Length msg = rd32 msg"

definition ccmd_Unpack :: "bytes \<Rightarrow> (ccmd \<times> bytes) outcome" where
  "ccmd_Unpack data =
     bind_outcome (take_u32 data) (\<lambda>(len, data).
     bind_outcome (take_u32 data) (\<lambda>(i, data).
     bind_outcome (take_u32 data) (\<lambda>(status, data).
     bind_outcome (take_u32 data) (\<lambda>(seq, data).
       Inr (\<lparr>cmd_len = len, cmd_id = i, cmd_status = status, cmd_sequence = seq\<rparr>, data)))))"

interpretation ccmd: smpp_param ccmd_Pack ccmd_Unpack "\<lambda>_. True"
  by unfold_locales (simp_all add: ccmd_Pack_def ccmd_Unpack_def Write_defs)

subsection \<open>Strings\<close>

definition cservice_Pack :: "bytes \<Rightarrow> cpacker \<Rightarrow> cpacker" where
  "cservice_Pack type p = Write_str type p"

definition cservice_Unpack :: "bytes \<Rightarrow> (bytes \<times> bytes) outcome" where
  "cservice_Unpack data = take_str data"

interpretation cservice: smpp_param cservice_Pack cservice_Unpack no_nul
  by unfold_locales (simp_all add: cservice_Pack_def cservice_Unpack_def Write_defs take_str_written)

definition cscheduledeliverytime_Pack :: "bytes \<Rightarrow> cpacker \<Rightarrow> cpacker" where
  "cscheduledeliverytime_Pack v p = Write_str v p"

definition cscheduledeliverytime_Unpack :: "bytes \<Rightarrow> (bytes \<times> bytes) outcome" where
  "cscheduledeliverytime_Unpack data = take_str data"

interpretation cscheduledeliverytime: smpp_param cscheduledeliverytime_Pack cscheduledeliverytime_Unpack no_nul
  by unfold_locales
    (simp_all add: cscheduledeliverytime_Pack_def cscheduledeliverytime_Unpack_def Write_defs take_str_written)

definition cvalidityperiod_Pack :: "bytes \<Rightarrow> cpacker \<Rightarrow> cpacker" where
  "cvalidityperiod_Pack v p = Write_str v p"

definition cvalidityperiod_Unpack :: "bytes \<Rightarrow> (bytes \<times> bytes) outcome" where
  "cvalidityperiod_Unpack data = take_str data"

interpretation cvalidityperiod: smpp_param cvalidityperiod_Pack cvalidityperiod_Unpack no_nul
  by unfold_locales (simp_all add: cvalidityperiod_Pack_def cvalidityperiod_Unpack_def Write_defs take_str_written)

definition cstring_Pack :: "bytes \<Rightarrow> cpacker \<Rightarrow> cpacker" where
  "cstring_Pack v p = Write_str v p"

definition cstring_Unpack :: "bytes \<Rightarrow> (bytes \<times> bytes) outcome" where
  "cstring_Unpack data = take_str data"

interpretation cstring: smpp_param cstring_Pack cstring_Unpack no_nul
  by unfold_locales (simp_all add: cstring_Pack_def cstring_Unpack_def Write_defs take_str_written)

subsection \<open>caddress\<close>

record caddress =
  ad_ton :: u8
  ad_npi :: u8
  ad_address :: bytes

definition caddress_Pack :: "caddress \<Rightarrow> cpacker \<Rightarrow> cpacker" where
  "caddress_Pack a p = Write_str (ad_address a) (Write_u8 (ad_npi a) (Write_u8 (ad_ton a) p))"

definition caddress_Unpack :: "bytes \<Rightarrow> (caddress \<times> bytes) outcome" where
  "caddress_Unpack data =
     bind_outcome (take_u8 data) (\<lambda>(ton, data).
     bind_outcome (take_u8 data) (\<lambda>(npi, data).
     bind_outcome (take_str data) (\<lambda>(addr, data).
       Inr (\<lparr>ad_ton = ton, ad_npi = npi, ad_address = addr\<rparr>, data))))"

interpretation caddress: smpp_param caddress_Pack caddress_Unpack "\<lambda>a. no_nul (ad_address a)"
  by unfold_locales (simp_all add: caddress_Pack_def caddress_Unpack_def Write_defs take_u8_def take_str_written)

subsection \<open>Octets\<close>

definition cesm_Pack :: "u8 \<Rightarrow> cpacker \<Rightarrow> cpacker" where
  "cesm_Pack v p = Write_u8 v p"

definition cesm_Unpack :: "bytes \<Rightarrow> (u8 \<times> bytes) outcome" where
  "cesm_Unpack data = take_u8 data"

definition IsReceipt :: "u8 \<Rightarrow> bool" where
  "IsReceipt v \<longleftrightarrow> v AND 0x4 \<noteq> 0"

interpretation cesm: smpp_param cesm_Pack cesm_Unpack "\<lambda>_. True"
  by unfold_locales (simp_all add: cesm_Pack_def cesm_Unpack_def Write_defs take_u8_def)

definition cprotocol_Pack :: "u8 \<Rightarrow> cpacker \<Rightarrow> cpacker" where
  "cprotocol_Pack v p = Write_u8 v p"

definition cprotocol_Unpack :: "bytes \<Rightarrow> (u8 \<times> bytes) outcome" where
  "cprotocol_Unpack data = take_u8 data"

interpretation cprotocol: smpp_param cprotocol_Pack cprotocol_Unpack "\<lambda>_. True"
  by unfold_locales (simp_all add: cprotocol_Pack_def cprotocol_Unpack_def Write_defs take_u8_def)

definition cpriority_Pack :: "u8 \<Rightarrow> cpacker \<Rightarrow> cpacker" where
  "cpriority_Pack v p = Write_u8 v p"

definition cpriority_Unpack :: "bytes \<Rightarrow> (u8 \<times> bytes) outcome" where
  "cpriority_Unpack data = take_u8 data"

interpretation cpriority: smpp_param cpriority_Pack cpriority_Unpack "\<lambda>_. True"
  by unfold_locales (simp_all add: cpriority_Pack_def cpriority_Unpack_def Write_defs take_u8_def)

datatype receipt_t = receipt_none | receipt_always | receipt_failure | receipt_success

fun receipt_code :: "receipt_t \<Rightarrow> u8" where
  "receipt_code receipt_none = 0"
| "receipt_code receipt_always = 1"
| "receipt_code receipt_failure = 2"
| "receipt_code receipt_success = 3"

definition Receipt :: "receipt_t \<Rightarrow> u8 \<Rightarrow> u8" where
  "Receipt type v = (v AND 0xfc) OR receipt_code type"

definition cregistereddelivery_Pack :: "u8 \<Rightarrow> cpacker \<Rightarrow> cpacker" where
  "cregistereddelivery_Pack v p = Write_u8 v p"

definition cregistereddelivery_Unpack :: "bytes \<Rightarrow> (u8 \<times> bytes) outcome" where
  "cregistereddelivery_Unpack data = take_u8 data"

interpretation cregistereddelivery: smpp_param cregistereddelivery_Pack cregistereddelivery_Unpack "\<lambda>_. True"
  by unfold_locales
    (simp_all add: cregistereddelivery_Pack_def cregistereddelivery_Unpack_def Write_defs take_u8_def)

definition creplaceifpresent_Pack :: "u8 \<Rightarrow> cpacker \<Rightarrow> cpacker" where
  "creplaceifpresent_Pack v p = Write_u8 v p"

definition creplaceifpresent_Unpack :: "bytes \<Rightarrow> (u8 \<times> bytes) outcome" where
  "creplaceifpresent_Unpack data = take_u8 data"

interpretation creplaceifpresent: smpp_param creplaceifpresent_Pack creplaceifpresent_Unpack "\<lambda>_. True"
  by unfold_locales
    (simp_all add: creplaceifpresent_Pack_def creplaceifpresent_Unpack_def Write_defs take_u8_def)

definition cencoding_Pack :: "u8 \<Rightarrow> cpacker \<Rightarrow> cpacker" where
  "cencoding_Pack v p = Write_u8 v p"

definition cencoding_Unpack :: "bytes \<Rightarrow> (u8 \<times> bytes) outcome" where
  "cencoding_Unpack data = take_u8 data"

interpretation cencoding: smpp_param cencoding_Pack cencoding_Unpack "\<lambda>_. True"
  by unfold_locales (simp_all add: cencoding_Pack_def cencoding_Unpack_def Write_defs take_u8_def)

definition csmdefaultmsgid_Pack :: "u8 \<Rightarrow> cpacker \<Rightarrow> cpacker" where
  "csmdefaultmsgid_Pack v p = Write_u8 v p"

definition csmdefaultmsgid_Unpack :: "bytes \<Rightarrow> (u8 \<times> bytes) outcome" where
  "csmdefaultmsgid_Unpack data = take_u8 data"

interpretation csmdefaultmsgid: smpp_param csmdefaultmsgid_Pack csmdefaultmsgid_Unpack "\<lambda>_. True"
  by unfold_locales (simp_all add: csmdefaultmsgid_Pack_def csmdefaultmsgid_Unpack_def Write_defs take_u8_def)

definition cinterface_Pack :: "u8 \<Rightarrow> cpacker \<Rightarrow> cpacker" where
  "cinterface_Pack v p = Write_u8 v p"

subsection \<open>Messages\<close>

text \<open>\<^verbatim>\<open>Utf8ToUtf16\<close> around the conversion of the library (\<open>None\<close> when it throws), and \<^verbatim>\<open>Encode\<close>.\<close>

definition Utf8ToUtf16 :: "(bytes \<Rightarrow> u16 list option) \<Rightarrow> bytes \<Rightarrow> bytes outcome" where
  "Utf8ToUtf16 from_bytes utf8 =
     (case from_bytes utf8 of
        None \<Rightarrow> Inl (Throw ''wstring_convert::from_bytes'')
      | Some utf16 \<Rightarrow> Inr (concat (map be16 utf16)))"

definition Encode :: "(bytes \<Rightarrow> u16 list option) \<Rightarrow> u8 \<Rightarrow> bytes \<Rightarrow> bytes outcome" where
  "Encode from_bytes v msg = (if v \<noteq> 8 then Inr msg else Utf8ToUtf16 from_bytes msg)"

definition cmessage_Pack :: "bytes \<Rightarrow> cpacker \<Rightarrow> cpacker" where
  "cmessage_Pack v p = Write_raw v (Write_u8 (of_nat (length v)) p)"

definition cmessage_Unpack :: "bytes \<Rightarrow> (bytes \<times> bytes) outcome" where
  "cmessage_Unpack data =
     bind_outcome (take_u8 data) (\<lambda>(len, data). take_raw (unat len) data)"

interpretation cmessage: smpp_param cmessage_Pack cmessage_Unpack "\<lambda>v. length v < 256"
  by unfold_locales
    (simp_all add: cmessage_Pack_def cmessage_Unpack_def Write_defs take_u8_def take_raw_def unat_of_nat take_bit_eq_mod)

text \<open>The user data header of one part, and the loop of \<^verbatim>\<open>Split\<close>.\<close>

definition cudh_Pack :: "u8 \<Rightarrow> u8 \<Rightarrow> cpacker \<Rightarrow> cpacker" where
  "cudh_Pack parts no p = Write_u8 no (Write_u8 parts (Write_u8 1 (Write_u16 0x3 (Write_u8 5 p))))"

function split_loop :: "nat \<Rightarrow> nat \<Rightarrow> bytes \<Rightarrow> bytes list" where
  "split_loop nparts npart msgpart =
     (if msgpart = [] then []
      else
        let len = min 132 (length msgpart) in
        Write_raw (take len msgpart) (cudh_Pack (of_nat nparts) (of_nat npart) [])
          # split_loop nparts (Suc npart) (drop len msgpart))"
  by pat_completeness auto
termination by (relation "measure (\<lambda>(n, m, msg). length msg)") auto

declare split_loop.simps [simp del]

definition Split :: "bytes \<Rightarrow> bytes list" where
  "Split msg =
     (if length msg \<le> 140 then [msg] else split_loop ((length msg + 131) div 132) 1 msg)"


section \<open>Protocol units\<close>

text \<open>The length of the packed unit replaces the one the command was packed with.\<close>

definition with_Length :: "bytes \<Rightarrow> bytes" where
  "with_Length msg = set_Length (of_nat (length msg)) msg"

abbreviation enquire_req_id :: u32 where "enquire_req_id \<equiv> 0x15"
abbreviation enquire_resp_id :: u32 where "enquire_resp_id \<equiv> 0x80000015"
abbreviation csms_req_id :: u32 where "csms_req_id \<equiv> 4"
abbreviation csms_resp_id :: u32 where "csms_resp_id \<equiv> 0x80000004"
abbreviation cdelivery_resp_id :: u32 where "cdelivery_resp_id \<equiv> 0x80000005"
abbreviation cdelivery_id :: u32 where "cdelivery_id \<equiv> 5"
abbreviation bind_transceiver :: u32 where "bind_transceiver \<equiv> 9"

definition cenquire_Pack :: "u32 \<Rightarrow> u32 \<Rightarrow> u32 \<Rightarrow> bytes" where
  "cenquire_Pack seq i status = with_Length (ccmd_Pack (ccmd_new i status seq) [])"

record csms =
  sm_command :: ccmd
  sm_service :: bytes
  sm_src :: caddress
  sm_dst :: caddress
  sm_esm :: u8
  sm_proto :: u8
  sm_priority :: u8
  sm_delivery_time :: bytes
  sm_valid_period :: bytes
  sm_registered_delivery :: u8
  sm_replace :: u8
  sm_encoding :: u8
  sm_msg_id :: u8
  sm_message :: bytes

definition no_address :: caddress where
  "no_address = \<lparr>ad_ton = 0, ad_npi = 0, ad_address = []\<rparr>"

definition csms_new :: "u32 \<Rightarrow> csms" where
  "csms_new seq =
     \<lparr>sm_command = ccmd_new csms_req_id 0 seq, sm_service = [], sm_src = no_address, sm_dst = no_address,
      sm_esm = 0, sm_proto = 0, sm_priority = 0, sm_delivery_time = [], sm_valid_period = [],
      sm_registered_delivery = 0, sm_replace = 0, sm_encoding = 0, sm_msg_id = 0, sm_message = []\<rparr>"

definition csms_Pack :: "csms \<Rightarrow> bytes" where
  "csms_Pack c =
     (let packer = ccmd_Pack (sm_command c) [];
          packer = cservice_Pack (sm_service c) packer;
          packer = caddress_Pack (sm_src c) packer;
          packer = caddress_Pack (sm_dst c) packer;
          packer = cesm_Pack (sm_esm c) packer;
          packer = cprotocol_Pack (sm_proto c) packer;
          packer = cpriority_Pack (sm_priority c) packer;
          packer = cscheduledeliverytime_Pack (sm_delivery_time c) packer;
          packer = cvalidityperiod_Pack (sm_valid_period c) packer;
          packer = cregistereddelivery_Pack (sm_registered_delivery c) packer;
          packer = creplaceifpresent_Pack (sm_replace c) packer;
          packer = cencoding_Pack (sm_encoding c) packer;
          packer = csmdefaultmsgid_Pack (sm_msg_id c) packer;
          packer = cmessage_Pack (sm_message c) packer in
      with_Length packer)"

definition cbind_Pack :: "u32 \<Rightarrow> u32 \<Rightarrow> bytes \<Rightarrow> bytes \<Rightarrow> bytes" where
  "cbind_Pack seq i login password =
     (let packer = ccmd_Pack (ccmd_new i 0 seq) [];
          packer = cstring_Pack login packer;
          packer = cstring_Pack password packer;
          packer = cstring_Pack [] packer;
          packer = cinterface_Pack 0x34 packer;
          packer = caddress_Pack no_address packer in
      with_Length packer)"

definition cdelivery_resp_Pack :: "u32 \<Rightarrow> bytes \<Rightarrow> u32 \<Rightarrow> bytes" where
  "cdelivery_resp_Pack seq msg_id status =
     with_Length (cstring_Pack msg_id (ccmd_Pack (ccmd_new cdelivery_resp_id status seq) []))"

record cdelivery =
  de_service :: bytes
  de_src :: caddress
  de_dst :: caddress
  de_esm :: u8
  de_proto :: u8
  de_priority :: u8
  de_delivery_time :: bytes
  de_valid_period :: bytes
  de_registered_delivery :: u8
  de_replace :: u8
  de_encoding :: u8
  de_predefined :: bytes
  de_message :: bytes

definition cdelivery_Unpack :: "bytes \<Rightarrow> (cdelivery \<times> bytes) outcome" where
  "cdelivery_Unpack data =
     bind_outcome (cservice_Unpack data) (\<lambda>(service, data).
     bind_outcome (caddress_Unpack data) (\<lambda>(src, data).
     bind_outcome (caddress_Unpack data) (\<lambda>(dst, data).
     bind_outcome (cesm_Unpack data) (\<lambda>(esm, data).
     bind_outcome (cprotocol_Unpack data) (\<lambda>(proto, data).
     bind_outcome (cpriority_Unpack data) (\<lambda>(priority, data).
     bind_outcome (cscheduledeliverytime_Unpack data) (\<lambda>(delivery_time, data).
     bind_outcome (cvalidityperiod_Unpack data) (\<lambda>(valid_period, data).
     bind_outcome (cregistereddelivery_Unpack data) (\<lambda>(registered_delivery, data).
     bind_outcome (creplaceifpresent_Unpack data) (\<lambda>(replace, data).
     bind_outcome (cencoding_Unpack data) (\<lambda>(encoding, data).
     bind_outcome (cstring_Unpack data) (\<lambda>(predefined, data).
     bind_outcome (cmessage_Unpack data) (\<lambda>(message, data).
       Inr (\<lparr>de_service = service, de_src = src, de_dst = dst, de_esm = esm, de_proto = proto,
             de_priority = priority, de_delivery_time = delivery_time, de_valid_period = valid_period,
             de_registered_delivery = registered_delivery, de_replace = replace, de_encoding = encoding,
             de_predefined = predefined, de_message = message\<rparr>, data))))))))))))))"

subsection \<open>Delivery receipts\<close>

text \<open>\<^verbatim>\<open>std::stoi\<close>; the integers of a receipt have no value (\<open>None\<close>) until one is assigned.\<close>

definition stoi :: "string \<Rightarrow> int outcome" where
  "stoi s =
     (case stol s of
        None \<Rightarrow> Inl (Throw ''stoi'')
      | Some v \<Rightarrow> if v < - (2 ^ 31) \<or> v \<ge> 2 ^ 31 then Inl (Throw ''stoi'') else Inr v)"

record cshortmsg =
  sh_id :: string
  sh_sub :: "int option"
  sh_dlvrd :: "int option"
  sh_submit_date :: string
  sh_done_date :: string
  sh_stat :: string
  sh_err :: "int option"
  sh_text :: string

definition cshortmsg_new :: cshortmsg where
  "cshortmsg_new = \<lparr>sh_id = [], sh_sub = None, sh_dlvrd = None, sh_submit_date = [], sh_done_date = [],
     sh_stat = [], sh_err = None, sh_text = []\<rparr>"

definition shortmsg_key :: "string \<Rightarrow> string \<Rightarrow> cshortmsg \<Rightarrow> cshortmsg outcome" where
  "shortmsg_key key val m =
     (if key = ''id'' then Inr (m\<lparr>sh_id := val\<rparr>)
      else if key = ''sub'' then bind_outcome (stoi val) (\<lambda>v. Inr (m\<lparr>sh_sub := Some v\<rparr>))
      else if key = ''dlvrd'' then bind_outcome (stoi val) (\<lambda>v. Inr (m\<lparr>sh_dlvrd := Some v\<rparr>))
      else if key = ''submit date'' then Inr (m\<lparr>sh_submit_date := val\<rparr>)
      else if key = ''done date'' then Inr (m\<lparr>sh_done_date := val\<rparr>)
      else if key = ''stat'' then Inr (m\<lparr>sh_stat := val\<rparr>)
      else if key = ''err'' then bind_outcome (stoi val) (\<lambda>v. Inr (m\<lparr>sh_err := Some v\<rparr>))
      else if key = ''text'' then Inr (m\<lparr>sh_text := val\<rparr>)
      else Inl (Throw ''wront shortmsg key type''))"

function cshortmsg_Unpack :: "string \<Rightarrow> cshortmsg \<Rightarrow> cshortmsg outcome" where
  "cshortmsg_Unpack data m =
     (case split_at (\<lambda>c. c = CHR '':'') data of
        None \<Rightarrow> Inr m
      | Some (key, _, data1) \<Rightarrow>
          (case split_at (\<lambda>c. c = CHR '' '') data1 of
             None \<Rightarrow> bind_outcome (shortmsg_key key [] m) (cshortmsg_Unpack data1)
           | Some (val, _, data2) \<Rightarrow> bind_outcome (shortmsg_key key val m) (cshortmsg_Unpack data2)))"
  by pat_completeness auto
termination
  by (relation "measure (\<lambda>(data, m). length data)") (auto dest!: split_at_length)

declare cshortmsg_Unpack.simps [simp del]


section \<open>Units are read back as they were written\<close>

lemmas smpp_defs = csms_Pack_def cdelivery_Unpack_def ccmd_Unpack_def ccmd_Pack_def cservice_Pack_def
  cservice_Unpack_def caddress_Pack_def caddress_Unpack_def cesm_Pack_def cesm_Unpack_def cprotocol_Pack_def
  cprotocol_Unpack_def cpriority_Pack_def cpriority_Unpack_def cscheduledeliverytime_Pack_def
  cscheduledeliverytime_Unpack_def cvalidityperiod_Pack_def cvalidityperiod_Unpack_def
  cregistereddelivery_Pack_def cregistereddelivery_Unpack_def creplaceifpresent_Pack_def
  creplaceifpresent_Unpack_def cencoding_Pack_def cencoding_Unpack_def csmdefaultmsgid_Pack_def
  cstring_Pack_def cstring_Unpack_def cinterface_Pack_def Write_defs Let_def

lemma with_Length_be32: "with_Length (be32 l @ r) = be32 (of_nat (4 + length r)) @ r"
  by (simp add: with_Length_def set_Length_def)

lemma with_Length_length: "4 \<le> length msg \<Longrightarrow> length (with_Length msg) = length msg"
  by (simp add: with_Length_def set_Length_def)

lemma csms_read_back:
  assumes "no_nul (sm_service c)" "no_nul (ad_address (sm_src c))" "no_nul (ad_address (sm_dst c))"
    and "no_nul (sm_delivery_time c)" "no_nul (sm_valid_period c)"
    and "sm_msg_id c = 0" "length (sm_message c) < 256"
  shows "bind_outcome (ccmd_Unpack (csms_Pack c)) (\<lambda>(cmd, data).
      bind_outcome (cdelivery_Unpack data) (\<lambda>(d, rest). Inr (cmd, d, rest))) =
    Inr ((sm_command c)\<lparr>cmd_len := of_nat (length (csms_Pack c))\<rparr>,
      \<lparr>de_service = sm_service c, de_src = sm_src c, de_dst = sm_dst c, de_esm = sm_esm c, de_proto = sm_proto c,
       de_priority = sm_priority c, de_delivery_time = sm_delivery_time c, de_valid_period = sm_valid_period c,
       de_registered_delivery = sm_registered_delivery c, de_replace = sm_replace c, de_encoding = sm_encoding c,
       de_predefined = [], de_message = sm_message c\<rparr>, [])"
proof -
  have m: "cmessage_Unpack (of_nat (length (sm_message c)) # sm_message c) = Inr (sm_message c, [])"
    using cmessage.Unpack_Pack [of "sm_message c" "[]"] assms(7)
    by (simp add: cmessage_Pack_def Write_defs)
  have s: "take_str (0 # rest) = Inr ([], rest)" for rest
    using take_str_written [of "[]" rest] by (simp add: no_nul_def)
  show ?thesis
    using assms(1-6) m s
    by (simp add: smpp_defs cmessage_Pack_def with_Length_be32 take_u8_def take_str_written)
qed

text \<open>A short message that the service packs is read by the receiving side's parser as the same unit: the
  command with the length of the whole packet, every address, flag and string, the text, and nothing left
  over.\<close>

theorem csms_delivery_roundtrip:
  assumes "no_nul (sm_service c)" "no_nul (ad_address (sm_src c))" "no_nul (ad_address (sm_dst c))"
    and "no_nul (sm_delivery_time c)" "no_nul (sm_valid_period c)"
    and "sm_msg_id c = 0" "length (sm_message c) < 256"
  shows "bind_outcome (ccmd_Unpack (csms_Pack c)) (\<lambda>(cmd, data).
      bind_outcome (cdelivery_Unpack data) (\<lambda>(d, rest). Inr (cmd, d, rest))) =
    Inr ((sm_command c)\<lparr>cmd_len := of_nat (length (csms_Pack c))\<rparr>,
      \<lparr>de_service = sm_service c, de_src = sm_src c, de_dst = sm_dst c, de_esm = sm_esm c, de_proto = sm_proto c,
       de_priority = sm_priority c, de_delivery_time = sm_delivery_time c, de_valid_period = sm_valid_period c,
       de_registered_delivery = sm_registered_delivery c, de_replace = sm_replace c, de_encoding = sm_encoding c,
       de_predefined = [], de_message = sm_message c\<rparr>, [])"
  using assms by (rule csms_read_back)

definition sample_sms :: csms where
  "sample_sms = (csms_new 7)\<lparr>sm_src := \<lparr>ad_ton = 5, ad_npi = 0, ad_address = [65, 66]\<rparr>,
     sm_dst := \<lparr>ad_ton = 1, ad_npi = 1, ad_address = [49, 50]\<rparr>, sm_encoding := 8, sm_message := [0, 72]\<rparr>"

theorem csms_delivery_roundtrip_witness:
  "\<exists>d. bind_outcome (ccmd_Unpack (csms_Pack sample_sms)) (\<lambda>(cmd, data).
      bind_outcome (cdelivery_Unpack data) (\<lambda>(d, rest). Inr (cmd, d, rest))) =
    Inr (\<lparr>cmd_len = of_nat (length (csms_Pack sample_sms)), cmd_id = 4, cmd_status = 0, cmd_sequence = 7\<rparr>, d, [])
    \<and> de_message d = [0, 72] \<and> ad_address (de_dst d) = [49, 50]"
  using csms_delivery_roundtrip [of sample_sms]
  by (simp add: sample_sms_def csms_new_def ccmd_new_def no_nul_def no_address_def)

section \<open>Long messages\<close>

definition part_of :: "nat \<Rightarrow> nat \<Rightarrow> nat \<Rightarrow> bytes \<Rightarrow> bytes" where
  "part_of nparts npart i msg =
     [5, 0, 3, 1, of_nat nparts, of_nat (npart + i)] @ take 132 (drop (132 * i) msg)"

lemma part_of_0 [simp]:
  "Write_raw (take (min 132 (length msg)) msg) (cudh_Pack (of_nat n) (of_nat k) []) = part_of n k 0 msg"
  by (simp add: part_of_def cudh_Pack_def Write_defs be16_def min_def)

lemma part_of_Suc: "part_of n k (Suc i) msg = part_of n (Suc k) i (drop 132 msg)"
  by (simp add: part_of_def add.commute)

lemma split_loop_parts:
  "split_loop n k msg = map (\<lambda>i. part_of n k i msg) [0..<(length msg + 131) div 132]"
proof (induction n k msg rule: split_loop.induct)
  case (1 n k msg)
  show ?case
  proof (cases "msg = []")
    case True
    then show ?thesis by (simp add: split_loop.simps)
  next
    case False
    then have len: "(length msg + 131) div 132 = Suc ((length (drop 132 msg) + 131) div 132)"
      by (cases "length msg \<le> 132") (auto simp: div_if Suc_le_eq)
    have d: "drop (min 132 (length msg)) msg = drop 132 msg" by (simp add: min_def)
    show ?thesis
      using 1 [OF False refl] False
      by (simp add: split_loop.simps [of n k msg] Let_def d len upt_conv_Cons map_Suc_upt [symmetric]
          part_of_Suc del: upt_Suc map_Suc_upt)
  qed
qed

lemma concat_chunks:
  "k > 0 \<Longrightarrow> length msg \<le> k * n \<Longrightarrow> concat (map (\<lambda>i. take k (drop (k * i) msg)) [0..<n]) = msg"
proof (induction n arbitrary: msg)
  case (Suc n)
  have "concat (map (\<lambda>i. take k (drop (k * Suc i) msg)) [0..<n]) = drop k msg"
    using Suc.IH [of "drop k msg"] Suc.prems by (simp add: add.commute)
  then show ?case
    by (simp add: upt_conv_Cons map_Suc_upt [symmetric] o_def del: upt_Suc map_Suc_upt)
qed simp

abbreviation nparts_of :: "bytes \<Rightarrow> nat" where
  "nparts_of msg \<equiv> (length msg + 131) div 132"

lemma Split_long:
  "140 < length msg \<Longrightarrow> Split msg = map (\<lambda>i. part_of (nparts_of msg) 1 i msg) [0..<nparts_of msg]"
  by (simp add: Split_def split_loop_parts)

definition reassemble :: "bytes list \<Rightarrow> bytes" where
  "reassemble parts = concat (map (drop 6) (sort_key (\<lambda>p. unat (p ! 5)) parts))"

lemma part_of_number: "i < 255 \<Longrightarrow> unat (part_of n (Suc 0) i msg ! 5) = Suc i"
  by (simp add: part_of_def unat_of_nat take_bit_eq_mod of_nat_Suc [symmetric] del: of_nat_Suc)

lemma part_of_length: "length (part_of n k i msg) \<le> 138"
  by (simp add: part_of_def)

text \<open>C34: A message of 141 to 33660 bytes is split into parts of at most 138 bytes that carry the number of
  parts and their own number; whatever order the parts arrive in, sorting them by number and dropping
  the headers gives the message.\<close>

theorem Split_reassembles:
  assumes "140 < length msg" "length msg \<le> 255 * 132" "mset parts = mset (Split msg)"
  shows "reassemble parts = msg \<and> length parts = nparts_of msg
    \<and> (\<forall>p \<in> set parts. length p \<le> 138 \<and> take 5 p = [5, 0, 3, 1, of_nat (length parts)])"
proof -
  let ?n = "nparts_of msg" and ?f = "\<lambda>p :: bytes. unat (p ! 5)"
  have n: "?n \<le> 255" using assms(2) by simp
  have num: "map ?f (Split msg) = map Suc [0..<?n]"
    unfolding Split_long [OF assms(1)] using n by (auto simp: part_of_number)
  have "distinct (map ?f (Split msg))" unfolding num by (simp add: distinct_map)
  then have "inj_on ?f (set parts)"
    using assms(3) by (metis distinct_map mset_eq_setD)
  moreover have "sorted (map ?f (Split msg))" unfolding num by (simp add: map_Suc_upt del: upt_Suc)
  ultimately have "sort_key ?f parts = Split msg"
    using assms(3) by (intro sort_key_inj_key_eq) auto
  moreover have "concat (map (drop 6) (Split msg)) = msg"
    using concat_chunks [of 132 msg ?n] unfolding Split_long [OF assms(1)]
    by (simp add: o_def part_of_def)
  moreover have "length parts = ?n"
    using assms(3) Split_long [OF assms(1)] by (metis length_map length_upt minus_nat.diff_0 size_mset)
  moreover have "set parts = set (Split msg)" using assms(3) by (rule mset_eq_setD)
  ultimately show ?thesis
    unfolding reassemble_def by (auto simp: Split_long [OF assms(1)] part_of_length part_of_def)
qed

theorem Split_reassembles_witness:
  "reassemble (rev (Split (replicate 300 65))) = replicate 300 65 \<and> length (Split (replicate 300 65)) = 3"
  using Split_reassembles [of "replicate 300 65" "rev (Split (replicate 300 65))"] by simp

section \<open>Reading a delivery receipt\<close>

lemma shortmsg_step:
  assumes "CHR '':'' \<notin> set key" "CHR '' '' \<notin> set val"
  shows "cshortmsg_Unpack (key @ CHR '':'' # val @ CHR '' '' # data) m =
    bind_outcome (shortmsg_key key val m) (cshortmsg_Unpack data)"
proof -
  have k: "split_at (\<lambda>c. c = CHR '':'') (key @ CHR '':'' # val @ CHR '' '' # data) =
      Some (key, CHR '':'', val @ CHR '' '' # data)"
    by (rule split_at_append) (use assms(1) in auto)
  have v: "split_at (\<lambda>c. c = CHR '' '') (val @ CHR '' '' # data) = Some (val, CHR '' '', data)"
    by (rule split_at_append) (use assms(2) in auto)
  show ?thesis by (simp add: cshortmsg_Unpack.simps [of "key @ _"] k v)
qed

lemma shortmsg_last:
  assumes "CHR '':'' \<notin> set key" "CHR '' '' \<notin> set data"
  shows "cshortmsg_Unpack (key @ CHR '':'' # data) m =
    bind_outcome (shortmsg_key key [] m) (cshortmsg_Unpack data)"
proof -
  have k: "split_at (\<lambda>c. c = CHR '':'') (key @ CHR '':'' # data) = Some (key, CHR '':'', data)"
    by (rule split_at_append) (use assms(1) in auto)
  have v: "split_at (\<lambda>c. c = CHR '' '') data = None" using assms(2) by auto
  show ?thesis by (simp add: cshortmsg_Unpack.simps [of "key @ _"] k v del: split_at_None)
qed

lemma shortmsg_end: "CHR '':'' \<notin> set data \<Longrightarrow> cshortmsg_Unpack data m = Inr m"
proof -
  assume "CHR '':'' \<notin> set data"
  then have "split_at (\<lambda>c. c = CHR '':'') data = None" by auto
  then show ?thesis by (simp add: cshortmsg_Unpack.simps [of data] del: split_at_None)
qed

text \<open>A receipt as the protocol's appendix writes it.\<close>

definition receipt_text :: "(string \<times> string) list \<Rightarrow> string \<Rightarrow> string" where
  "receipt_text flds txt =
     concat (map (\<lambda>(key, val). key @ CHR '':'' # val @ '' '') flds) @ ''text:'' @ txt"

fun shortmsg_keys :: "(string \<times> string) list \<Rightarrow> cshortmsg \<Rightarrow> cshortmsg outcome" where
  "shortmsg_keys [] m = Inr m"
| "shortmsg_keys ((key, val) # flds) m = bind_outcome (shortmsg_key key val m) (shortmsg_keys flds)"

definition plain_field :: "string \<times> string \<Rightarrow> bool" where
  "plain_field f \<longleftrightarrow> CHR '':'' \<notin> set (fst f) \<and> CHR '' '' \<notin> set (snd f)"

lemma receipt_fields:
  assumes "list_all plain_field flds"
  shows "cshortmsg_Unpack (receipt_text flds txt) m =
    bind_outcome (shortmsg_keys flds m) (cshortmsg_Unpack (''text:'' @ txt))"
  using assms
proof (induction flds arbitrary: m)
  case (Cons f flds)
  obtain key val where f: "f = (key, val)" by (cases f)
  have "receipt_text (f # flds) txt = key @ CHR '':'' # val @ CHR '' '' # receipt_text flds txt"
    by (simp add: receipt_text_def f)
  with Cons show ?case
    by (cases "shortmsg_key key val m") (auto simp: f plain_field_def shortmsg_step)
qed (simp add: receipt_text_def)

text \<open>The words of the text after its first space are parsed as a further field.\<close>

lemma receipt_text_parsed:
  assumes "CHR '' '' \<notin> set w"
  shows "cshortmsg_Unpack (''text:'' @ w @ CHR '' '' # k) m =
    cshortmsg_Unpack k (m\<lparr>sh_text := w\<rparr>)"
  using shortmsg_step [of "''text''" w k m] assms by (simp add: shortmsg_key_def)

text \<open>A delivery receipt whose quoted message text has a colon after its first space is refused: the words
  in front of the colon are taken for the name of a field.\<close>

theorem receipt_text_colon:
  assumes "list_all plain_field flds" "shortmsg_keys flds m = Inr m'"
    and "CHR '' '' \<notin> set w" "CHR '':'' \<notin> set k"
    and "k \<notin> {''id'', ''sub'', ''dlvrd'', ''submit date'', ''done date'', ''stat'', ''err'', ''text''}"
  shows "cshortmsg_Unpack (receipt_text flds (w @ CHR '' '' # k @ CHR '':'' # r)) m =
    Inl (Throw ''wront shortmsg key type'')"
proof -
  have t: "shortmsg_key k v m'' = Inl (Throw ''wront shortmsg key type'')" for v m''
    using assms(5) by (simp add: shortmsg_key_def)
  have "cshortmsg_Unpack (k @ CHR '':'' # r) m'' = Inl (Throw ''wront shortmsg key type'')" for m''
  proof (cases "CHR '' '' \<in> set r")
    case True
    then obtain v d where "r = v @ CHR '' '' # d" "CHR '' '' \<notin> set v" by (metis split_list_first)
    then show ?thesis using shortmsg_step [OF assms(4), of v d] t by simp
  next
    case False
    then show ?thesis using shortmsg_last [OF assms(4)] t by simp
  qed
  then show ?thesis
    using assms(1-3) by (simp add: receipt_fields receipt_text_parsed [simplified])
qed

theorem receipt_text_colon_witness:
  "cshortmsg_Unpack ''id:A1 stat:DELIVRD text:see note:1'' cshortmsg_new =
     Inl (Throw ''wront shortmsg key type'')"
  using receipt_text_colon [of "[(''id'', ''A1''), (''stat'', ''DELIVRD'')]" cshortmsg_new
      "cshortmsg_new\<lparr>sh_id := ''A1'', sh_stat := ''DELIVRD''\<rparr>" "''see''" "''note''" "''1''"]
  by (simp add: plain_field_def shortmsg_key_def receipt_text_def)

end
