(* ===== verification/SmppService.thy ===== *)
theory SmppService
  imports Smpp Sockets Poll Workers Json
begin

text \<open>
  The SMPP service \<^verbatim>\<open>csmppservice\<close> (\<^verbatim>\<open>application/push1st/smppservice\<close>): gateways with their connection, the
  queues a message passes through on its way to the delivery report, and the retries. Shared objects
  are numbers into the lists \<open>gateways\<close> and \<open>messages\<close>; the queues hold such numbers, and an object is
  alive while a queue holds it. What the socket calls and the clock answer are arguments; two fields
  that the code does not have, \<open>wire\<close> and \<open>sends\<close>, keep the packets that were sent and the
  messages that were handed to \<^verbatim>\<open>SendChunk\<close>.
\<close>

section \<open>State\<close>

text \<open>The contents of a \<^verbatim>\<open>sockaddr_storage\<close>.\<close>

type_synonym saddr = bytes

record gwcred_t =
  gc_login :: string
  gc_pass :: string
  gc_hosts :: "string list"
  gc_port :: string

record addrs_t =
  ad_source :: string
  ad_destination :: string

record cackmsg =
  am_msg :: bytes
  am_id :: u32
  am_status :: u32
  am_sequence :: u32
  am_gwcred :: gwcred_t
  am_addr :: addrs_t
  am_finished :: bool
  am_lastSeen :: int
  am_retryNum :: nat

record cgateway =
  gwLogin :: string
  gwPassword :: string
  gwHosts :: "saddr list"
  gwSocket :: "saddr csocket"
  seqNo :: u32
  gwHash :: u64
  gwConId :: string
  gwPingTime :: int
  gwPPTimeout :: int

datatype gcobj = GcGateway nat | GcMsg nat

text \<open>A job of the rate limiter; every job sets the sequence and the text of the shared \<^verbatim>\<open>csms\<close> before it
  packs it, so a job has the \<^verbatim>\<open>csms\<close> as its own.\<close>

record smpp_job =
  jb_gwcred :: gwcred_t
  jb_addr :: addrs_t
  jb_con :: nat
  jb_sms :: csms
  jb_part :: bytes

record csmppservice =
  gateways :: "cgateway list"
  messages :: "cackmsg list"
  gwConnections :: "(string, nat) umap"
  gwPoll :: "(nat, gcobj) cpoll"
  gwHook :: bool
  rateLimiter :: "smpp_job cratelimiter"
  retryQueue :: "nat casyncqueue"
  retryMsgs :: "(nat, nat) umap"
  pendingMsgQueue :: "(u32, nat) umap"
  ackMsgQueue :: "(string, nat) umap"
  pushed :: "(string \<times> string \<times> json) list"
  wire :: "(nat \<times> bytes) list"
  sends :: "nat list"

abbreviation numOfRetries :: nat where "numOfRetries \<equiv> 3"
abbreviation retryInterval :: int where "retryInterval \<equiv> 20"
abbreviation gwPingInterval :: int where "gwPingInterval \<equiv> 30"
abbreviation gwTimeoutInterval :: int where "gwTimeoutInterval \<equiv> 60"

text \<open>The library calls: the string hash, name resolution (\<^verbatim>\<open>GetSockAddr\<close>), the conversion to UTF-16.\<close>

record smpp_env =
  en_hash :: "string \<Rightarrow> u64"
  en_sockaddr :: "string \<Rightarrow> string \<Rightarrow> saddr option"
  en_utf16 :: "bytes \<Rightarrow> u16 list option"

definition upd_gateway :: "nat \<Rightarrow> (cgateway \<Rightarrow> cgateway) \<Rightarrow> csmppservice \<Rightarrow> csmppservice" where
  "upd_gateway g f s = s\<lparr>gateways := (gateways s)[g := f (gateways s ! g)]\<rparr>"

definition upd_message :: "nat \<Rightarrow> (cackmsg \<Rightarrow> cackmsg) \<Rightarrow> csmppservice \<Rightarrow> csmppservice" where
  "upd_message m f s = s\<lparr>messages := (messages s)[m := f (messages s ! m)]\<rparr>"

section \<open>Gateways\<close>

definition Seq :: "nat \<Rightarrow> csmppservice \<Rightarrow> u32 \<times> csmppservice" where
  "Seq g s = (let n = seqNo (gateways s ! g) + 1 in (n, upd_gateway g (seqNo_update (\<lambda>_. n)) s))"

definition ReleaseGateway :: "string \<Rightarrow> string \<Rightarrow> csmppservice \<Rightarrow> csmppservice" where
  "ReleaseGateway login password s =
     s\<lparr>gwConnections := um_erase (login @ '':'' @ password) (gwConnections s)\<rparr>"

definition gw_SocketClose :: "nat \<Rightarrow> csmppservice \<Rightarrow> csmppservice" where
  "gw_SocketClose g s =
     (let so = gwSocket (gateways s ! g);
          (_, so', closed) = SocketClose so in
      (upd_gateway g (gwSocket_update (\<lambda>_. so')) s)\<lparr>gwPoll := fold poll_close closed (gwPoll s)\<rparr>)"

definition gw_Close :: "nat \<Rightarrow> csmppservice \<Rightarrow> csmppservice" where
  "gw_Close g s =
     ReleaseGateway (gwLogin (gateways s ! g)) (gwPassword (gateways s ! g)) (gw_SocketClose g s)"

definition gw_open :: "nat \<Rightarrow> csmppservice \<Rightarrow> bool" where
  "gw_open g s \<longleftrightarrow> fdSocket (gwSocket (gateways s ! g)) > 0"

text \<open>\<open>res\<close>: what \<^verbatim>\<open>SocketSend\<close> returns.\<close>

definition gw_Send :: "nat \<Rightarrow> bytes \<Rightarrow> errno option \<Rightarrow> csmppservice \<Rightarrow> errno option \<times> csmppservice" where
  "gw_Send g msg res s =
     (if gw_open g s then
        (case res of
           None \<Rightarrow> (None, s\<lparr>wire := wire s @ [(g, msg)]\<rparr>)
         | Some e \<Rightarrow> (Some e, gw_Close g s))
      else (Some EBADFD, s))"

text \<open>Reading one unit: \<open>head\<close> and \<open>body\<close> are the two \<^verbatim>\<open>SocketRecv\<close> calls, as functions of the length they
  are asked for. A length below 16 makes \<^verbatim>\<open>nread\<close> wrap around.\<close>

type_synonym recv_call = "nat \<Rightarrow> errno option \<times> bytes"

definition pad :: "nat \<Rightarrow> bytes \<Rightarrow> bytes" where
  "pad n bs = bs @ replicate (n - length bs) 0"

definition read_unit :: "recv_call \<Rightarrow> recv_call \<Rightarrow> (bool \<times> errno option \<times> bytes) outcome" where
  "read_unit head body =
     (let (err, bs) = head 16 in
      if err = None \<and> length bs = 16 then
        let len = unat (get_Length bs) in
        if len < 16 then Inl (UB ''a unit shorter than its header'')
        else
          let nread = len - 16;
              (err, rest) = body nread in
          Inr (err = None \<and> length rest = nread, err, bs @ pad nread rest)
      else Inr (False, err, pad 512 bs))"

text \<open>The \<^verbatim>\<open>Send\<close> that waits for a reply; \<open>res\<close> has the number of bytes written as well. The response
  buffer is what was read, with zeros for what was not.\<close>

definition gw_Send_reply ::
  "nat \<Rightarrow> bytes \<Rightarrow> errno option \<times> nat \<Rightarrow> recv_call \<Rightarrow> recv_call \<Rightarrow> csmppservice
     \<Rightarrow> (errno option \<times> bytes \<times> csmppservice) outcome" where
  "gw_Send_reply g msg res head body s =
     (if \<not> gw_open g s then Inr (Some EBADFD, [], s)
      else if fst res = None \<and> snd res = length msg then
        let s = s\<lparr>wire := wire s @ [(g, msg)]\<rparr> in
        bind_outcome (read_unit head body) (\<lambda>(ok, err, response).
          if ok then Inr (None, response, s) else Inr (err, response, gw_Close g s))
      else Inr (fst res, [], gw_Close g s))"

text \<open>One host of the loop in \<^verbatim>\<open>Connect\<close>: what \<^verbatim>\<open>TcpConnect\<close> answers, the exchange of the bind and the
  result of the first enquiry.\<close>

record attempt =
  at_connect :: "errno option \<times> int"
  at_bind :: "errno option \<times> nat"
  at_head :: recv_call
  at_body :: recv_call
  at_enquire :: "errno option"

definition gw_assign_socket :: "nat \<Rightarrow> int \<Rightarrow> csmppservice \<Rightarrow> csmppservice" where
  "gw_assign_socket g fd s =
     upd_gateway g (\<lambda>gw. gw\<lparr>gwSocket := (gwSocket gw)\<lparr>fdSocket := fd, fdSsl := False, fdPoll := True\<rparr>\<rparr>) s"

definition gw_bind :: "nat \<Rightarrow> int \<Rightarrow> attempt \<Rightarrow> csmppservice \<Rightarrow> (bool option \<times> csmppservice) outcome" where
  "gw_bind g now a s =
     (let s = gw_assign_socket g (snd (at_connect a)) s;
          (seq, s) = Seq g s;
          gw = gateways s ! g;
          ath = cbind_Pack seq bind_transceiver (map byte_of (gwLogin gw)) (map byte_of (gwPassword gw)) in
      bind_outcome (gw_Send_reply g ath (at_bind a) (at_head a) (at_body a) s) (\<lambda>(res, response, s).
        case res of
          Some _ \<Rightarrow> Inr (None, gw_Close g s)
        | None \<Rightarrow>
            bind_outcome (ccmd_Unpack response) (\<lambda>(cmd, data).
            bind_outcome (cstring_Unpack data) (\<lambda>_.
              if cmd_status cmd = 0 then
                let s = s\<lparr>gwPoll := snd (PollAdd (fdSocket (gwSocket (gateways s ! g))) g (gwPoll s))\<rparr>;
                    s = upd_gateway g (\<lambda>gw. gw\<lparr>gwPingTime := now + gwPingInterval,
                                                gwPPTimeout := now + gwTimeoutInterval\<rparr>) s;
                    (seq, s) = Seq g s;
                    (res, s) = gw_Send g (cenquire_Pack seq enquire_req_id 0) (at_enquire a) s in
                Inr (Some (res = None), s)
              else Inr (None, gw_Close g s)))))"

fun gw_connect_hosts ::
  "nat \<Rightarrow> int \<Rightarrow> (saddr \<times> attempt) list \<Rightarrow> csmppservice \<Rightarrow> (bool \<times> csmppservice) outcome" where
  "gw_connect_hosts g now [] s = Inr (False, s)"
| "gw_connect_hosts g now ((sa, a) # hosts) s =
     (if fst (at_connect a) = None then
        bind_outcome (gw_bind g now a s) (\<lambda>(r, s).
          case r of Some ok \<Rightarrow> Inr (ok, s) | None \<Rightarrow> gw_connect_hosts g now hosts s)
      else gw_connect_hosts g now hosts s)"

text \<open>\<open>attempts\<close> has one entry for every host; \<open>sockok\<close>: whether \<^verbatim>\<open>GetErrorNo\<close> of the socket is 0.\<close>

definition gw_Connect ::
  "nat \<Rightarrow> int \<Rightarrow> bool \<Rightarrow> attempt list \<Rightarrow> csmppservice \<Rightarrow> (bool \<times> csmppservice) outcome" where
  "gw_Connect g now sockok attempts s =
     (if gw_open g s \<and> sockok then Inr (True, s)
      else
        let s = gw_SocketClose g (upd_gateway g (gwPingTime_update (\<lambda>_. 0)) s) in
        gw_connect_hosts g now (zip (gwHosts (gateways s ! g)) attempts) s)"

text \<open>\<^verbatim>\<open>%08X\<close> and \<^verbatim>\<open>%016lX\<close>.\<close>

fun hex_digits :: "nat \<Rightarrow> string" where
  "hex_digits n =
     (let d = n mod 16;
          c = char_of (if d < 10 then 48 + d else 55 + d) in
      if n < 16 then [c] else hex_digits (n div 16) @ [c])"

declare hex_digits.simps [simp del]

definition print_hex :: "nat \<Rightarrow> nat \<Rightarrow> string" where
  "print_hex width n = (let h = hex_digits n in replicate (width - length h) CHR ''0'' @ h)"

definition gw_hash :: "smpp_env \<Rightarrow> string \<Rightarrow> string \<Rightarrow> string list \<Rightarrow> string \<Rightarrow> u64" where
  "gw_hash env login pwd hosts port =
     fold (\<lambda>host h. h XOR en_hash env host) hosts (en_hash env login XOR en_hash env pwd XOR en_hash env port)"

definition gw_Assign ::
  "smpp_env \<Rightarrow> nat \<Rightarrow> nat \<Rightarrow> string \<Rightarrow> string \<Rightarrow> string list \<Rightarrow> string \<Rightarrow> csmppservice \<Rightarrow> csmppservice" where
  "gw_Assign env now g login pwd hosts port s =
     (let nhash = gw_hash env login pwd hosts port;
          gw = gateways s ! g in
      if nhash = gwHash gw then s
      else
        let conId = (if gwConId gw = []
                     then print_hex 8 (unat nhash mod now mod 2 ^ 32) @ print_hex 8 (now mod 2 ^ 32)
                            @ print_hex 16 (unat nhash)
                     else gwConId gw) in
        gw_SocketClose g (upd_gateway g (\<lambda>gw. gw\<lparr>gwConId := conId, gwHash := nhash, gwLogin := login,
          gwPassword := pwd, gwHosts := List.map_filter (\<lambda>host. en_sockaddr env host port) hosts\<rparr>) s))"

text \<open>The constructor, with the new gateway as the last one.\<close>

definition cgateway_new ::
  "smpp_env \<Rightarrow> nat \<Rightarrow> string \<Rightarrow> string \<Rightarrow> string list \<Rightarrow> string \<Rightarrow> csmppservice \<Rightarrow> nat \<times> csmppservice" where
  "cgateway_new env now login pwd hosts port s =
     (let gw = \<lparr>gwLogin = [], gwPassword = [], gwHosts = [],
                gwSocket = \<lparr>fdSocket = -1, fdSsl = False, fdSa = Some [], fdPoll = False\<rparr>,
                seqNo = 0, gwHash = 0, gwConId = [], gwPingTime = 0, gwPPTimeout = 0\<rparr>;
          g = length (gateways s) in
      (g, gw_Assign env now g login pwd hosts port (s\<lparr>gateways := gateways s @ [gw]\<rparr>)))"

definition GetGateway ::
  "smpp_env \<Rightarrow> nat \<Rightarrow> gwcred_t \<Rightarrow> csmppservice \<Rightarrow> nat \<times> csmppservice" where
  "GetGateway env now cred s =
     (let conId = gc_login cred @ '':'' @ gc_pass cred in
      case um_find (gwConnections s) conId of
        Some con \<Rightarrow> (con, s)
      | None \<Rightarrow>
          let (con, s) = cgateway_new env now (gc_login cred) (gc_pass cred) (gc_hosts cred) (gc_port cred) s in
          (con, s\<lparr>gwConnections := um_emplace conId con (gwConnections s),
                  gwPoll := EnqueueGc (GcGateway con) (gwPoll s)\<rparr>))"

section \<open>Messages\<close>

definition SendChunk :: "nat \<Rightarrow> nat \<Rightarrow> errno option \<Rightarrow> csmppservice \<Rightarrow> csmppservice" where
  "SendChunk g m res s =
     (let chunk = messages s ! m;
          s = s\<lparr>sends := sends s @ [m]\<rparr>;
          (r, s) = gw_Send g (am_msg chunk) res s;
          s = (case r of
                 None \<Rightarrow> s\<lparr>pendingMsgQueue := um_emplace (am_sequence chunk) m (pendingMsgQueue s)\<rparr>
               | Some _ \<Rightarrow> s\<lparr>retryMsgs := um_emplace m m (retryMsgs s)\<rparr>) in
      s\<lparr>gwPoll := EnqueueGc (GcMsg m) (gwPoll s)\<rparr>)"

text \<open>The job \<^verbatim>\<open>Send\<close> gives to the rate limiter.\<close>

definition run_rate_job :: "int \<Rightarrow> errno option \<Rightarrow> smpp_job \<Rightarrow> csmppservice \<Rightarrow> csmppservice" where
  "run_rate_job now res job s =
     (let (seq, s) = Seq (jb_con job) s;
          sms = (jb_sms job)\<lparr>sm_command := (sm_command (jb_sms job))\<lparr>cmd_sequence := seq\<rparr>, sm_message := jb_part job\<rparr>;
          ackMsg = \<lparr>am_msg = csms_Pack sms, am_id = cmd_id (sm_command sms), am_status = cmd_status (sm_command sms),
                    am_sequence = seq, am_gwcred = jb_gwcred job, am_addr = jb_addr job, am_finished = False,
                    am_lastSeen = now, am_retryNum = 0\<rparr>;
          m = length (messages s) in
      SendChunk (jb_con job) m res (s\<lparr>messages := messages s @ [ackMsg]\<rparr>))"

text \<open>\<^verbatim>\<open>clean\<close>: of the accepted messages, the first with the sequence number goes.\<close>

definition ack_erase_seq :: "cackmsg list \<Rightarrow> u32 \<Rightarrow> (string, nat) umap \<Rightarrow> (string, nat) umap" where
  "ack_erase_seq ms seq q =
     (case find (\<lambda>(_, m). am_sequence (ms ! m) = seq) q of
        None \<Rightarrow> q
      | Some (uid, _) \<Rightarrow> um_erase uid q)"

definition ack_clean :: "nat \<Rightarrow> csmppservice \<Rightarrow> csmppservice" where
  "ack_clean m s =
     (let seq = am_sequence (messages s ! m) in
      s\<lparr>retryMsgs := um_erase m (retryMsgs s),
        pendingMsgQueue := um_erase seq (pendingMsgQueue s),
        ackMsgQueue := ack_erase_seq (messages s) seq (ackMsgQueue s)\<rparr>)"

definition ack_IsLeaveUs :: "nat \<Rightarrow> int \<Rightarrow> csmppservice \<Rightarrow> bool \<times> csmppservice" where
  "ack_IsLeaveUs m now s =
     (let am = messages s ! m in
      if am_finished am then (True, s)
      else if am_lastSeen am + retryInterval \<ge> now then (False, s)
      else if am_retryNum am + 1 > numOfRetries then (True, ack_clean m s)
      else
        let s = ack_clean m s;
            s = upd_message m (\<lambda>am. am\<lparr>am_lastSeen := now, am_retryNum := am_retryNum am + 1\<rparr>) s in
        (True, s\<lparr>retryQueue := Enqueue m (retryQueue s)\<rparr>))"

definition run_retry_job :: "smpp_env \<Rightarrow> nat \<Rightarrow> errno option \<Rightarrow> nat \<Rightarrow> csmppservice \<Rightarrow> csmppservice" where
  "run_retry_job env now res m s =
     (let (con, s) = GetGateway env now (am_gwcred (messages s ! m)) s in
      SendChunk con m res s)"

text \<open>\<open>debug\<close>: whether the log level admits debug messages; the ping is sent by an argument of the log
  call, which is evaluated only then.\<close>

definition gw_IsLeaveUs ::
  "bool \<Rightarrow> nat \<Rightarrow> int \<Rightarrow> bool \<Rightarrow> errno option \<Rightarrow> csmppservice \<Rightarrow> bool \<times> csmppservice" where
  "gw_IsLeaveUs debug g now sockok res s =
     (let gw = gateways s ! g in
      if gwPPTimeout gw \<noteq> 0 \<and> gwPPTimeout gw < now then (True, gw_Close g s)
      else if gwPingTime gw \<noteq> 0 \<and> gwPingTime gw \<le> now \<and> gw_open g s \<and> sockok then
        let s = upd_gateway g (gwPingTime_update (\<lambda>_. now + gwPingInterval)) s;
            (seq, s) = Seq g s;
            enq = cenquire_Pack seq enquire_req_id 0 in
        (False, if debug then snd (gw_Send g enq res s) else s)
      else (False, s))"

section \<open>Sending a message\<close>

text \<open>\<^verbatim>\<open>get<uint8_t>()\<close>, and a field that may be missing.\<close>

fun get_u8 :: "json \<Rightarrow> u8 outcome" where
  "get_u8 (JInt i) = Inr (of_int i)"
| "get_u8 (JFloat r) = Inr (of_int (if r \<ge> 0 then floor r else ceiling r))"
| "get_u8 (JBool b) = Inr (if b then 1 else 0)"
| "get_u8 _ = Inl (Throw ''type_error.302'')"

definition string_or_empty :: "json \<Rightarrow> string \<Rightarrow> string outcome" where
  "string_or_empty message k =
     (if contains message k then bind_outcome (json_at message k) get_string else Inr [])"

definition message_port :: "json \<Rightarrow> string outcome" where
  "message_port message =
     (if contains message ''port'' then
        bind_outcome (json_at message ''port'') (\<lambda>port.
          if is_string port then get_string port else bind_outcome (get_size port) (\<lambda>n. Inr (to_string n)))
      else Inr [])"

fun get_strings :: "json list \<Rightarrow> string list outcome" where
  "get_strings [] = Inr []"
| "get_strings (j # js) = bind_outcome (get_string j) (\<lambda>s. bind_outcome (get_strings js) (\<lambda>ss. Inr (s # ss)))"

definition message_hosts :: "json \<Rightarrow> string list outcome" where
  "message_hosts message =
     (if contains message ''hosts'' then
        bind_outcome (json_at message ''hosts'') (\<lambda>hosts.
          case hosts of
            JArr js \<Rightarrow> get_strings js
          | JStr h \<Rightarrow> Inr [h]
          | _ \<Rightarrow> Inr [])
      else Inr [])"

definition message_cred :: "json \<Rightarrow> gwcred_t outcome" where
  "message_cred message =
     bind_outcome (string_or_empty message ''login'') (\<lambda>login.
       if login = [] then Inl (Throw ''invalid `sender` field'')
       else
         bind_outcome (string_or_empty message ''password'') (\<lambda>pass.
         bind_outcome (message_port message) (\<lambda>port.
         bind_outcome (message_hosts message) (\<lambda>hosts.
           Inr \<lparr>gc_login = login, gc_pass = pass, gc_hosts = hosts, gc_port = port\<rparr>))))"

definition message_address :: "json \<Rightarrow> string \<Rightarrow> caddress outcome" where
  "message_address message side =
     bind_outcome (bind_outcome (json_at message (side @ ''_ton'')) get_u8) (\<lambda>ton.
     bind_outcome (bind_outcome (json_at message (side @ ''_npi'')) get_u8) (\<lambda>npi.
     bind_outcome (bind_outcome (json_at message (side @ ''_addr'')) get_string) (\<lambda>addr.
       Inr \<lparr>ad_ton = ton, ad_npi = npi, ad_address = map byte_of addr\<rparr>)))"

definition message_receipt :: "json \<Rightarrow> u8 \<Rightarrow> u8 outcome" where
  "message_receipt message v =
     (if contains message ''receipt'' then
        bind_outcome (bind_outcome (json_at message ''receipt'') get_string) (\<lambda>receipt.
          Inr (if receipt = ''none'' then Receipt receipt_none v
               else if receipt = ''failure'' then Receipt receipt_failure v
               else if receipt = ''success'' then Receipt receipt_success v
               else v))
      else Inr v)"

text \<open>What \<^verbatim>\<open>Send\<close> reads of the message once the gateway is connected: the unit without a text, the parts
  of the text, and the addresses for the log.\<close>

definition message_sms :: "smpp_env \<Rightarrow> json \<Rightarrow> (csms \<times> bytes list \<times> addrs_t) outcome" where
  "message_sms env message =
     bind_outcome (bind_outcome (json_at message ''message'') get_string) (\<lambda>src_text.
     bind_outcome (message_address message ''source'') (\<lambda>src.
     bind_outcome (message_address message ''destination'') (\<lambda>dst.
     bind_outcome (message_receipt message (Receipt receipt_always 0)) (\<lambda>registered.
     bind_outcome (Encode (en_utf16 env) 8 (map byte_of src_text)) (\<lambda>encoded.
     bind_outcome (bind_outcome (json_at message ''source_addr'') get_string) (\<lambda>source.
     bind_outcome (bind_outcome (json_at message ''destination_addr'') get_string) (\<lambda>destination.
       Inr ((csms_new 0)\<lparr>sm_src := src, sm_dst := dst, sm_encoding := 8, sm_registered_delivery := registered\<rparr>,
            Split encoded, \<lparr>ad_source = source, ad_destination = destination\<rparr>))))))))"

definition reply_500 :: "string \<Rightarrow> string \<times> json" where
  "reply_500 what = (''500'', JObj [(''error'', JStr what)])"

text \<open>\<^verbatim>\<open>Send\<close>: exceptions become the answer 500; what was done before one stays done.\<close>

definition smpp_Send ::
  "smpp_env \<Rightarrow> nat \<Rightarrow> bool \<Rightarrow> attempt list \<Rightarrow> json \<Rightarrow> csmppservice
     \<Rightarrow> ((string \<times> json) \<times> csmppservice) outcome" where
  "smpp_Send env now sockok attempts message s =
     (case message_cred message of
        Inl (UB u) \<Rightarrow> Inl (UB u)
      | Inl (Throw w) \<Rightarrow> Inr (reply_500 w, s)
      | Inr cred \<Rightarrow>
          let (con, s) = GetGateway env now cred s in
          bind_outcome (gw_Connect con (int now) sockok attempts s) (\<lambda>(ok, s).
            let channel = gwConId (gateways s ! con) in
            if ok then
              (case message_sms env message of
                 Inl (UB u) \<Rightarrow> Inl (UB u)
               | Inl (Throw w) \<Rightarrow> Inr (reply_500 w, s)
               | Inr (sms, chunks, addr) \<Rightarrow>
                   let jobs = map (\<lambda>part. \<lparr>jb_gwcred = cred, jb_addr = addr, jb_con = con, jb_sms = sms,
                                           jb_part = part\<rparr>) chunks;
                       s = s\<lparr>rateLimiter := fold (\<lambda>job rl. snd (rl_Enqueue job rl)) jobs (rateLimiter s)\<rparr> in
                   Inr ((''201'', JObj [(''size'', JInt (int (length chunks))), (''status'', JStr ''pending''),
                                        (''channel'', JStr channel)]), s))
            else
              Inr ((''400'', JObj [(''error'', JStr ''invalid gateway''), (''channel'', JStr channel)]),
                   gw_Close con s)))"

section \<open>Replies of the gateway\<close>

definition hook_Push :: "nat \<Rightarrow> u32 \<Rightarrow> string \<Rightarrow> (string \<times> json) list \<Rightarrow> csmppservice \<Rightarrow> csmppservice" where
  "hook_Push g seq status further s =
     (if gwHook s then
        let channel = gwConId (gateways s ! g) in
        s\<lparr>pushed := pushed s @ [(status, channel,
            JObj ([(''id'', JInt (uint seq)), (''status'', JStr status), (''channel'', JStr channel)] @ further))]\<rparr>
      else s)"

text \<open>A delivery report for the message the gateway knows by \<open>uid\<close>.\<close>

definition report_message :: "string \<Rightarrow> string \<Rightarrow> csmppservice \<Rightarrow> csmppservice" where
  "report_message uid stat s =
     (case um_find (ackMsgQueue s) uid of
        None \<Rightarrow> s
      | Some m \<Rightarrow>
          let s = s\<lparr>ackMsgQueue := um_erase uid (ackMsgQueue s)\<rparr> in
          if stat \<noteq> ''DELIVRD'' then s\<lparr>retryMsgs := um_emplace m m (retryMsgs s)\<rparr>
          else upd_message m (am_finished_update (\<lambda>_. True)) s)"

definition accept_message :: "u32 \<Rightarrow> string \<Rightarrow> csmppservice \<Rightarrow> csmppservice" where
  "accept_message seq uid s =
     (case um_find (pendingMsgQueue s) seq of
        None \<Rightarrow> s
      | Some m \<Rightarrow> s\<lparr>ackMsgQueue := um_emplace uid m (ackMsgQueue s),
                     pendingMsgQueue := um_erase seq (pendingMsgQueue s)\<rparr>)"

text \<open>\<open>res\<close>: what \<^verbatim>\<open>SocketSend\<close> returns for the answer, if there is one. The case of a command with another
  status than 0 is decided before the switch, so \<^verbatim>\<open>not_accepted\<close> is never reported.\<close>

definition OnDeliveryStatus ::
  "nat \<Rightarrow> int \<Rightarrow> errno option \<Rightarrow> bytes \<Rightarrow> csmppservice \<Rightarrow> csmppservice outcome" where
  "OnDeliveryStatus g now res data s =
     bind_outcome (ccmd_Unpack data) (\<lambda>(cmd, response).
       let seq = cmd_sequence cmd in
       if cmd_status cmd = 0 then
         if cmd_id cmd = cdelivery_id then
           bind_outcome (cdelivery_Unpack response) (\<lambda>(report, _).
             let body = map char_of_byte (de_message report) in
             bind_outcome (cshortmsg_Unpack body cshortmsg_new) (\<lambda>shortmsg.
               let s = report_message (sh_id shortmsg) (sh_stat shortmsg) s;
                   (_, s) = gw_Send g (cdelivery_resp_Pack seq [] 0) res s in
               Inr (hook_Push g seq (sh_stat shortmsg) [(''data'', JStr body)] s)))
         else if cmd_id cmd = csms_resp_id then
           bind_outcome (cstring_Unpack response) (\<lambda>(msg, _).
             let uid = map char_of_byte msg in
             Inr (hook_Push g seq ''accepted'' [(''uid'', JStr uid)] (accept_message seq uid s)))
         else if cmd_id cmd = enquire_req_id then
           let (_, s) = gw_Send g (cenquire_Pack seq enquire_resp_id 0) res s in
           Inr (upd_gateway g (gwPPTimeout_update (\<lambda>_. now + gwTimeoutInterval)) s)
         else if cmd_id cmd = enquire_resp_id then
           Inr (upd_gateway g (gwPPTimeout_update (\<lambda>_. now + gwTimeoutInterval)) s)
         else Inr (hook_Push g seq ''event'' [(''code'', JInt (uint (cmd_status cmd)))] s)
       else Inr (hook_Push g seq ''error'' [(''code'', JInt (uint (cmd_status cmd)))] s))"

definition OnGwReply ::
  "nat \<Rightarrow> int \<Rightarrow> bool \<Rightarrow> recv_call \<Rightarrow> recv_call \<Rightarrow> errno option \<Rightarrow> csmppservice \<Rightarrow> csmppservice outcome" where
  "OnGwReply g now epollin head body res s =
     (if gw_open g s then
        if epollin then
          bind_outcome (read_unit head body) (\<lambda>(ok, err, response).
            if ok then OnDeliveryStatus g now res response s else Inr (gw_Close g s))
        else Inr (gw_Close g s)
      else Inr s)"

section \<open>The queue of the poll thread\<close>

text \<open>An object is alive while something holds it: a queue, the table of connections, a job.\<close>

fun held :: "gcobj \<Rightarrow> csmppservice \<Rightarrow> bool" where
  "held (GcMsg m) s \<longleftrightarrow>
     m \<in> snd ` set (retryMsgs s) \<or> m \<in> snd ` set (pendingMsgQueue s) \<or> m \<in> snd ` set (ackMsgQueue s)
     \<or> m \<in> set (quJobs (retryQueue s))"
| "held (GcGateway g) s \<longleftrightarrow>
     g \<in> snd ` set (gwConnections s) \<or> g \<in> jb_con ` set (rl_queue (rateLimiter s))"

fun obj_IsLeaveUs ::
  "bool \<Rightarrow> int \<Rightarrow> bool \<Rightarrow> errno option \<Rightarrow> gcobj \<Rightarrow> csmppservice \<Rightarrow> bool \<times> csmppservice" where
  "obj_IsLeaveUs debug now sockok res (GcMsg m) s = ack_IsLeaveUs m now s"
| "obj_IsLeaveUs debug now sockok res (GcGateway g) s = gw_IsLeaveUs debug g now sockok res s"

definition smpp_Gc :: "bool \<Rightarrow> int \<Rightarrow> bool \<Rightarrow> errno option \<Rightarrow> csmppservice \<Rightarrow> csmppservice" where
  "smpp_Gc debug now sockok res s =
     (case pop_gc (gwPoll s) of
        None \<Rightarrow> s
      | Some (obj, poll) \<Rightarrow>
          let s = s\<lparr>gwPoll := poll\<rparr> in
          if held obj s then
            let (leaves, s) = obj_IsLeaveUs debug now sockok res obj s in
            if leaves then s else s\<lparr>gwPoll := EnqueueGc obj (gwPoll s)\<rparr>
          else s)"

definition csmppservice_new :: "bool \<Rightarrow> nat \<Rightarrow> int \<Rightarrow> csmppservice" where
  "csmppservice_new hook rps now =
     \<lparr>gateways = [], messages = [], gwConnections = [],
      gwPoll = \<lparr>interest = [], fdHandlers = [], fdQueueGC = []\<rparr>, gwHook = hook,
      rateLimiter = cratelimiter_new rps 1000 now, retryQueue = casyncqueue_new 1, retryMsgs = [],
      pendingMsgQueue = [], ackMsgQueue = [], pushed = [], wire = [], sends = []\<rparr>"

end
