(* ===== verification/SmppProps.thy ===== *)
theory SmppProps
  imports SmppService
begin

text \<open>
  Properties of the SMPP service: how often a message is sent over any run of the service, what a
  delivery report does, what a retry does once the connection is gone, and the effect of the log
  level on the pings. A run is a sequence of handler calls (\<open>smpp_step\<close>).
\<close>

section \<open>Runs\<close>

inductive smpp_step :: "smpp_env \<Rightarrow> csmppservice \<Rightarrow> csmppservice \<Rightarrow> bool" for env where
  step_send: "smpp_Send env now sockok attempts message s = Inr (reply, s') \<Longrightarrow> smpp_step env s s'"
| step_rate: "rl_pop (rateLimiter s) = Some (job, rl) \<Longrightarrow>
    smpp_step env s (run_rate_job now res job (s\<lparr>rateLimiter := rl\<rparr>))"
| step_retry: "pop_job (retryQueue s) = Some (m, q) \<Longrightarrow>
    smpp_step env s (run_retry_job env now res m (s\<lparr>retryQueue := q\<rparr>))"
| step_reply: "OnGwReply g now epollin head body res s = Inr s' \<Longrightarrow> smpp_step env s s'"
| step_gc: "smpp_step env s (smpp_Gc debug now sockok res s)"

abbreviation smpp_run :: "smpp_env \<Rightarrow> csmppservice \<Rightarrow> csmppservice \<Rightarrow> bool" where
  "smpp_run env \<equiv> (smpp_step env)\<^sup>*\<^sup>*"

section \<open>What the gateways leave alone\<close>

text \<open>The objects of the messages that wait in the poll thread's queue.\<close>

fun gc_msg :: "gcobj \<Rightarrow> nat option" where
  "gc_msg (GcMsg m) = Some m"
| "gc_msg (GcGateway g) = None"

definition gc_msgs :: "csmppservice \<Rightarrow> nat list" where
  "gc_msgs s = List.map_filter gc_msg (fdQueueGC (gwPoll s))"

definition track :: "csmppservice \<Rightarrow> cackmsg list \<times> nat list \<times> nat list \<times> nat list" where
  "track s = (messages s, sends s, quJobs (retryQueue s), gc_msgs s)"

lemma fdQueueGC_poll_close [simp]: "fdQueueGC (poll_close fd p) = fdQueueGC p"
  by (simp add: poll_close_def)

lemma fdQueueGC_fold_close [simp]: "fdQueueGC (fold poll_close fds p) = fdQueueGC p"
  by (induction fds arbitrary: p) auto

lemma track_upd_gateway [simp]: "track (upd_gateway g f s) = track s"
  by (simp add: track_def upd_gateway_def gc_msgs_def)

lemma track_Seq [simp]: "track (snd (Seq g s)) = track s"
  by (simp add: Seq_def Let_def)

lemma track_gw_SocketClose [simp]: "track (gw_SocketClose g s) = track s"
  by (simp add: gw_SocketClose_def Let_def track_def gc_msgs_def upd_gateway_def split: prod.splits)

lemma track_gw_Close [simp]: "track (gw_Close g s) = track s"
  using track_gw_SocketClose [of g s]
  by (simp add: gw_Close_def ReleaseGateway_def track_def gc_msgs_def)

lemma track_gw_Send [simp]: "track (snd (gw_Send g msg res s)) = track s"
  by (auto simp: gw_Send_def split: option.splits) (simp add: track_def gc_msgs_def)

lemma track_gw_Assign [simp]: "track (gw_Assign env now g login pwd hosts port s) = track s"
  by (simp add: gw_Assign_def Let_def)

lemma track_cgateway_new [simp]: "track (snd (cgateway_new env now l p h po s)) = track s"
  by (simp add: cgateway_new_def Let_def) (simp add: track_def gc_msgs_def)

lemma track_connection:
  "track (s\<lparr>gwConnections := cs, gwPoll := EnqueueGc (GcGateway g) (gwPoll s)\<rparr>) = track s"
  by (simp add: track_def gc_msgs_def EnqueueGc_def List.map_filter_simps)

lemma track_GetGateway [simp]: "track (snd (GetGateway env now cred s)) = track s"
  using track_cgateway_new [of env now "gc_login cred" "gc_pass cred" "gc_hosts cred" "gc_port cred" s]
  by (auto simp: GetGateway_def Let_def track_connection simp del: track_cgateway_new
      split: option.splits prod.splits)

lemma track_simps [simp]:
  "track (s\<lparr>rateLimiter := rl\<rparr>) = track s" "track (s\<lparr>wire := w\<rparr>) = track s"
  "track (s\<lparr>retryMsgs := q\<rparr>) = track s" "track (s\<lparr>pendingMsgQueue := q'\<rparr>) = track s"
  "track (s\<lparr>ackMsgQueue := q''\<rparr>) = track s" "track (s\<lparr>pushed := p\<rparr>) = track s"
  by (simp_all add: track_def gc_msgs_def)

lemma track_gw_Send_reply:
  "gw_Send_reply g msg res head body s = Inr (r, resp, s') \<Longrightarrow> track s' = track s"
  by (auto simp: gw_Send_reply_def Let_def bind_outcome_eq_Inr split: if_splits)

lemma track_PollAdd [simp]: "track (s\<lparr>gwPoll := snd (PollAdd fd g (gwPoll s))\<rparr>) = track s"
  by (simp add: track_def gc_msgs_def PollAdd_def)

lemma track_gw_bind:
  assumes "gw_bind g now a s = Inr (r, s')"
  shows "track s' = track s"
proof -
  have e: "track (snd (gw_Send g m res (snd (Seq g (upd_gateway g f s1))))) = track s1" for m res f s1
    by simp
  have a: "track (gw_assign_socket g fd s) = track s" for fd
    by (simp add: gw_assign_socket_def)
  show ?thesis
    using assms unfolding gw_bind_def Let_def
    by (auto simp: bind_outcome_eq_Inr case_prod_beta a dest!: track_gw_Send_reply split: option.splits if_splits)
qed

lemma track_gw_connect_hosts:
  "gw_connect_hosts g now hosts s = Inr (r, s') \<Longrightarrow> track s' = track s"
  by (induction g now hosts s arbitrary: r s' rule: gw_connect_hosts.induct)
    (auto simp: bind_outcome_eq_Inr dest!: track_gw_bind split: if_splits option.splits)

lemma track_gw_Connect: "gw_Connect g now sockok attempts s = Inr (r, s') \<Longrightarrow> track s' = track s"
  by (auto simp: gw_Connect_def Let_def dest!: track_gw_connect_hosts split: if_splits)

lemma track_smpp_Send:
  assumes "smpp_Send env now sockok attempts message s = Inr (reply, s')"
  shows "track s' = track s"
proof (cases "message_cred message")
  case (Inl f)
  with assms show ?thesis by (cases f) (auto simp: smpp_Send_def)
next
  case (Inr cred)
  let ?g = "fst (GetGateway env now cred s)" and ?s = "snd (GetGateway env now cred s)"
  obtain ok s1 where c: "gw_Connect ?g (int now) sockok attempts ?s = Inr (ok, s1)"
    using assms Inr by (auto simp: smpp_Send_def bind_outcome_eq_Inr case_prod_beta Let_def)
  then have t: "track s1 = track s" using track_gw_Connect [OF c] by simp
  show ?thesis
    using assms Inr c t
    by (auto simp: smpp_Send_def case_prod_beta Let_def split: sum.splits failure.splits if_splits)
qed

section \<open>The life of a message\<close>

text \<open>What the service promises about messages, without gateways, packets and queues by key: a message
  is created and sent once, waits in the poll thread's queue, and while it is not finished may be
  scheduled for another sending, three times at most, each one more than 20 seconds after the last.\<close>

type_synonym tracked = "cackmsg list \<times> nat list \<times> nat list \<times> nat list"

inductive track_step :: "tracked \<Rightarrow> tracked \<Rightarrow> bool" where
  ts_skip: "track_step t t"
| ts_new: "am_retryNum am = 0 \<Longrightarrow> \<not> am_finished am \<Longrightarrow>
    track_step (ms, sd, jobs, gc) (ms @ [am], sd @ [length ms], jobs, gc @ [length ms])"
| ts_resend: "track_step (ms, sd, m # jobs, gc) (ms, sd @ [m], jobs, gc @ [m])"
| ts_finish: "track_step (ms, sd, jobs, gc) (ms[m := (ms ! m)\<lparr>am_finished := True\<rparr>], sd, jobs, gc)"
| ts_leave: "track_step (ms, sd, jobs, m # gc) (ms, sd, jobs, gc)"
| ts_wait: "track_step (ms, sd, jobs, m # gc) (ms, sd, jobs, gc @ [m])"
| ts_retry: "\<not> am_finished (ms ! m) \<Longrightarrow> am_retryNum (ms ! m) < 3 \<Longrightarrow> am_lastSeen (ms ! m) + 20 < now \<Longrightarrow>
    track_step (ms, sd, jobs, m # gc)
      (ms[m := (ms ! m)\<lparr>am_lastSeen := now, am_retryNum := Suc (am_retryNum (ms ! m))\<rparr>], sd, jobs @ [m], gc)"

lemma track_SendChunk:
  "track (SendChunk g m res s) = (messages s, sends s @ [m], quJobs (retryQueue s), gc_msgs s @ [m])"
proof -
  have e: "track (s'\<lparr>gwPoll := EnqueueGc (GcMsg m) (gwPoll s')\<rparr>) =
      (messages s', sends s', quJobs (retryQueue s'), gc_msgs s' @ [m])" for s'
    by (simp add: track_def gc_msgs_def EnqueueGc_def List.map_filter_simps)
  have t: "track s' = track s'' \<Longrightarrow> messages s' = messages s'' \<and> sends s' = sends s'' \<and>
      quJobs (retryQueue s') = quJobs (retryQueue s'') \<and> gc_msgs s' = gc_msgs s''" for s' s''
    by (simp add: track_def)
  let ?s = "snd (gw_Send g (am_msg (messages s ! m)) res (s\<lparr>sends := sends s @ [m]\<rparr>))"
  have "track ?s = track (s\<lparr>sends := sends s @ [m]\<rparr>)" by simp
  from t [OF this] show ?thesis
    unfolding SendChunk_def Let_def
    by (auto simp: e case_prod_beta gc_msgs_def split: option.splits)
qed

lemma track_run_rate_job:
  "\<exists>am. am_retryNum am = 0 \<and> \<not> am_finished am \<and> track (run_rate_job now res job (s\<lparr>rateLimiter := rl\<rparr>)) =
     (messages s @ [am], sends s @ [length (messages s)], quJobs (retryQueue s), gc_msgs s @ [length (messages s)])"
proof -
  obtain seq s1 where q: "Seq (jb_con job) (s\<lparr>rateLimiter := rl\<rparr>) = (seq, s1)" by force
  have t: "track s1 = track s" using track_Seq [of "jb_con job" "s\<lparr>rateLimiter := rl\<rparr>"] q by simp
  then have eqs: "messages s1 = messages s" "sends s1 = sends s"
    "quJobs (retryQueue s1) = quJobs (retryQueue s)" "gc_msgs s1 = gc_msgs s"
    by (simp_all add: track_def)
  have g: "gc_msgs (s1\<lparr>messages := ms\<rparr>) = gc_msgs s" for ms using eqs(4) by (simp add: gc_msgs_def)
  show ?thesis
    unfolding run_rate_job_def q Let_def prod.case track_SendChunk by (simp add: eqs g)
qed

lemma track_rate:
  "track_step (track s) (track (run_rate_job now res job (s\<lparr>rateLimiter := rl\<rparr>)))"
  using track_run_rate_job [of now res job rl s] by (auto simp: track_def [of s] intro: ts_new)

lemma track_retry:
  assumes "pop_job (retryQueue s) = Some (m, q)"
  shows "track_step (track s) (track (run_retry_job env now res m (s\<lparr>retryQueue := q\<rparr>)))"
proof -
  let ?s = "s\<lparr>retryQueue := q\<rparr>"
  have j: "quJobs (retryQueue s) = m # quJobs q"
    using assms by (auto simp: pop_job_def split: list.splits)
  obtain con s1 where g: "GetGateway env now (am_gwcred (messages ?s ! m)) ?s = (con, s1)" by force
  have "track s1 = track ?s"
    using track_GetGateway [of env now "am_gwcred (messages ?s ! m)" ?s] unfolding g snd_conv .
  then show ?thesis
    unfolding run_retry_job_def Let_def g prod.case track_SendChunk
    using ts_resend [of "messages s" "sends s" m "quJobs q" "gc_msgs s"]
    by (simp add: track_def gc_msgs_def j)
qed

lemma track_report: "track_step (track s) (track (report_message uid stat s))"
  using ts_finish [of "messages s" "sends s" "quJobs (retryQueue s)" "gc_msgs s"]
  by (auto simp: report_message_def Let_def upd_message_def track_def gc_msgs_def intro: ts_skip split: option.splits)

lemma track_reply:
  assumes "OnGwReply g now epollin head body res s = Inr s'"
  shows "track_step (track s) (track s')"
proof -
  have h: "track (hook_Push g seq st fs s1) = track s1" for seq st fs s1
    by (simp add: hook_Push_def Let_def)
  have a: "track (accept_message seq uid s1) = track s1" for seq uid s1
    by (auto simp: accept_message_def split: option.splits)
  have "track_step (track s) (track s1)" if "OnDeliveryStatus g now res data s = Inr s1" for data s1
    using that unfolding OnDeliveryStatus_def Let_def
    by (auto simp: bind_outcome_eq_Inr case_prod_beta h a ts_skip track_report split: if_splits)
  with assms show ?thesis
    unfolding OnGwReply_def by (auto simp: bind_outcome_eq_Inr ts_skip split: if_splits)
qed

lemma pop_gc_eq: "pop_gc p = Some (obj, p') \<longleftrightarrow> fdQueueGC p = obj # fdQueueGC p' \<and> p' = p\<lparr>fdQueueGC := fdQueueGC p'\<rparr>"
  by (auto simp: pop_gc_def split: list.splits)

lemma track_requeue:
  "track (s\<lparr>gwPoll := EnqueueGc obj (gwPoll s)\<rparr>) =
     (messages s, sends s, quJobs (retryQueue s), gc_msgs s @ List.map_filter gc_msg [obj])"
  by (simp add: track_def gc_msgs_def EnqueueGc_def)

lemma track_gw_IsLeaveUs [simp]: "track (snd (gw_IsLeaveUs debug g now sockok res s)) = track s"
proof -
  have "track (snd (Seq g (upd_gateway g f s))) = track s" for f by simp
  then show ?thesis by (simp add: gw_IsLeaveUs_def Let_def case_prod_beta)
qed

text \<open>What \<^verbatim>\<open>IsLeaveUs\<close> of a message does, seen from the queue it was taken from.\<close>

lemma track_ack_IsLeaveUs:
  assumes "ack_IsLeaveUs m now s = (leaves, s')"
  shows "track_step (messages s, sends s, quJobs (retryQueue s), m # gc_msgs s)
    (messages s', sends s', quJobs (retryQueue s'), if leaves then gc_msgs s' else gc_msgs s' @ [m])"
proof -
  let ?am = "messages s ! m"
  have c: "messages (ack_clean m s) = messages s" "sends (ack_clean m s) = sends s"
    "retryQueue (ack_clean m s) = retryQueue s" "gwPoll (ack_clean m s) = gwPoll s"
    by (simp_all add: ack_clean_def Let_def)
  consider "am_finished ?am" | "\<not> am_finished ?am" "am_lastSeen ?am + 20 \<ge> now"
    | "\<not> am_finished ?am" "am_lastSeen ?am + 20 < now" "am_retryNum ?am \<ge> 3"
    | "\<not> am_finished ?am" "am_lastSeen ?am + 20 < now" "am_retryNum ?am < 3" by linarith
  then show ?thesis
  proof cases
    case 4
    with assms show ?thesis
      using ts_retry [OF 4(1) 4(3) 4(2), of "sends s" "quJobs (retryQueue s)" "gc_msgs s"]
      by (auto simp: ack_IsLeaveUs_def Let_def c upd_message_def Enqueue_def gc_msgs_def)
  qed (use assms in \<open>auto simp: ack_IsLeaveUs_def Let_def c gc_msgs_def intro: ts_leave ts_wait\<close>)
qed

lemma track_gc: "track_step (track s) (track (smpp_Gc debug now sockok res s))"
proof (cases "pop_gc (gwPoll s)")
  case None
  then show ?thesis by (simp add: smpp_Gc_def ts_skip)
next
  case (Some op)
  obtain obj p where op: "op = (obj, p)" by force
  let ?s = "s\<lparr>gwPoll := p\<rparr>"
  have gc: "gc_msgs s = List.map_filter gc_msg [obj] @ gc_msgs ?s"
    using Some op by (simp add: pop_gc_eq gc_msgs_def List.map_filter_simps split: option.splits)
  obtain leaves s' where l: "obj_IsLeaveUs debug now sockok res obj ?s = (leaves, s')" by force
  have G: "smpp_Gc debug now sockok res s =
      (if held obj ?s then if leaves then s' else s'\<lparr>gwPoll := EnqueueGc obj (gwPoll s')\<rparr> else ?s)"
    using Some op l by (simp add: smpp_Gc_def)
  show ?thesis
  proof (cases obj)
    case (GcMsg m)
    then have "track s = (messages ?s, sends ?s, quJobs (retryQueue ?s), m # gc_msgs ?s)"
      using gc by (simp add: track_def List.map_filter_simps)
    then show ?thesis
      using track_ack_IsLeaveUs [of m now ?s leaves s'] l GcMsg
      by (auto simp: G track_requeue List.map_filter_simps track_def [of s'] track_def [of ?s] ts_leave)
  next
    case (GcGateway g)
    then have "track s = track ?s" using gc by (simp add: track_def List.map_filter_simps)
    moreover have "track s' = track ?s"
      using track_gw_IsLeaveUs [of debug g now sockok res ?s] l unfolding GcGateway
      by (metis obj_IsLeaveUs.simps(2) snd_conv)
    ultimately show ?thesis
      by (auto simp: G GcGateway track_requeue List.map_filter_simps track_def [of s'] track_def [of ?s] ts_skip)
  qed
qed

lemma smpp_step_tracked: "smpp_step env s s' \<Longrightarrow> track_step (track s) (track s')"
proof (induction rule: smpp_step.induct)
  case (step_send now sockok attempts message s reply s')
  then show ?case using track_smpp_Send by (metis ts_skip)
qed (auto intro: track_rate track_retry track_reply track_gc)

lemma smpp_run_tracked: "smpp_run env s s' \<Longrightarrow> track_step\<^sup>*\<^sup>* (track s) (track s')"
  by (induction rule: rtranclp_induct) (auto dest: smpp_step_tracked)

text \<open>The invariant: sendings done and scheduled are one more than the retries, of which there are at
  most three, and a message is in the queue or scheduled, not both.\<close>

fun track_inv :: "tracked \<Rightarrow> bool" where
  "track_inv (ms, sd, jobs, gc) \<longleftrightarrow>
     (\<forall>m < length ms. count_list sd m + count_list jobs m = Suc (am_retryNum (ms ! m))
        \<and> am_retryNum (ms ! m) \<le> 3 \<and> count_list gc m + count_list jobs m \<le> 1)
     \<and> (\<forall>m \<in> set sd \<union> set jobs \<union> set gc. m < length ms)"

lemma track_step_inv: "track_step t t' \<Longrightarrow> track_inv t \<Longrightarrow> track_inv t'"
proof (induction rule: track_step.induct)
  case (ts_new am ms sd jobs gc)
  then have "count_list sd (length ms) = 0" "count_list jobs (length ms) = 0" "count_list gc (length ms) = 0"
    by (auto simp: count_list_0_iff)
  with ts_new show ?case by (auto simp: nth_append less_Suc_eq)
next
  case (ts_retry ms m now sd jobs gc)
  then show ?case by (auto simp: nth_list_update split: if_splits)
next
  case (ts_finish ms sd jobs gc m)
  then show ?case by (cases "m < length ms") (auto simp: nth_list_update)
qed (auto split: if_splits)

text \<open>A service that has not sent anything yet; gateways may be connected and jobs may wait.\<close>

definition no_messages :: "csmppservice \<Rightarrow> bool" where
  "no_messages s \<longleftrightarrow> track s = ([], [], [], [])"

lemma no_messages_new: "no_messages (csmppservice_new hook rps now)"
  by (simp add: no_messages_def track_def csmppservice_new_def gc_msgs_def casyncqueue_new_def List.map_filter_simps)

lemma smpp_run_inv:
  assumes "smpp_run env s0 s" "no_messages s0"
  shows "track_inv (track s)"
  using assms
proof (induction rule: rtranclp_induct)
  case base
  then show ?case by (simp add: no_messages_def)
next
  case (step s s')
  then show ?case using track_step_inv smpp_step_tracked by blast
qed

lemma finished_stays:
  assumes "track_step t t'" "t = (ms, sd, jobs, gc)" "t' = (ms', sd', jobs', gc')"
    and "m < length ms" "am_finished (ms ! m)" "m \<notin> set jobs"
  shows "m < length ms' \<and> am_finished (ms' ! m) \<and> m \<notin> set jobs' \<and> count_list sd' m = count_list sd m"
  using assms
  by (induction rule: track_step.induct) (auto simp: nth_append nth_list_update_if split: if_splits)

lemma finished_run:
  assumes "smpp_run env s s'" "m < length (messages s)" "am_finished (messages s ! m)"
    and "m \<notin> set (quJobs (retryQueue s))"
  shows "m < length (messages s') \<and> am_finished (messages s' ! m) \<and> m \<notin> set (quJobs (retryQueue s'))
    \<and> count_list (sends s') m = count_list (sends s) m"
  using assms
proof (induction rule: rtranclp_induct)
  case (step s1 s2)
  then show ?case
    using finished_stays [OF smpp_step_tracked [OF step.hyps(2)] track_def track_def, of m] by auto
qed simp

section \<open>Claims\<close>


definition sample_gateway :: cgateway where
  "sample_gateway = \<lparr>gwLogin = ''u'', gwPassword = ''p'', gwHosts = [],
     gwSocket = \<lparr>fdSocket = 5, fdSsl = False, fdSa = None, fdPoll = True\<rparr>, seqNo = 2, gwHash = 1,
     gwConId = ''X'', gwPingTime = 1030, gwPPTimeout = 1060\<rparr>"

definition sample_job :: smpp_job where
  "sample_job = \<lparr>jb_gwcred = \<lparr>gc_login = ''u'', gc_pass = ''p'', gc_hosts = [], gc_port = []\<rparr>,
     jb_addr = \<lparr>ad_source = ''A'', ad_destination = ''7''\<rparr>, jb_con = 0, jb_sms = csms_new 0, jb_part = [0, 72]\<rparr>"

definition sample_service :: csmppservice where
  "sample_service = (csmppservice_new True 100 0)\<lparr>gateways := [sample_gateway], gwConnections := [(''u:p'', 0)],
     rateLimiter := (cratelimiter_new 100 1000 0)\<lparr>rl_queue := [sample_job]\<rparr>\<rparr>"

definition sample_sent :: csmppservice where
  "sample_sent = run_rate_job 1000 None sample_job (sample_service\<lparr>rateLimiter := cratelimiter_new 100 1000 0\<rparr>)"

lemma sample_step: "smpp_step env sample_service sample_sent"
  unfolding sample_sent_def by (rule step_rate) (simp add: sample_service_def rl_pop_def cratelimiter_new_def)

lemma sample_no_messages: "no_messages sample_service"
  by (simp add: no_messages_def track_def sample_service_def csmppservice_new_def gc_msgs_def casyncqueue_new_def
      List.map_filter_simps)

lemma sample_sent_sends: "sends sample_sent = [0]"
  using track_run_rate_job [of 1000 None sample_job "cratelimiter_new 100 1000 0" sample_service] sample_no_messages
  unfolding sample_sent_def by (auto simp: track_def no_messages_def)


text \<open>C16: Over any run, whatever the gateways answer and in whatever order the handlers run, no message is
  handed to a gateway more than four times: once, and three retries.\<close>

theorem sent_at_most_four_times:
  assumes "smpp_run env s0 s" "no_messages s0"
  shows "count_list (sends s) m \<le> 4"
proof -
  have inv: "track_inv (track s)" using assms by (rule smpp_run_inv)
  show ?thesis
  proof (cases "m < length (messages s)")
    case True
    with inv have "count_list (sends s) m \<le> Suc (am_retryNum (messages s ! m))" "am_retryNum (messages s ! m) \<le> 3"
      unfolding track_def track_inv.simps by (metis le_add1, blast)
    then show ?thesis by simp
  next
    case False
    with inv have "m \<notin> set (sends s)" by (auto simp: track_def)
    then show ?thesis by (simp add: count_notin)
  qed
qed

theorem sent_at_most_four_times_witness: "count_list (sends sample_sent) 0 \<le> 4 \<and> sends sample_sent = [0]"
  using sent_at_most_four_times [of _ sample_service sample_sent 0] sample_step sample_no_messages sample_sent_sends
  by blast

text \<open>C17: Once a report has finished a message and no retry of it is scheduled, it is never handed to a
  gateway again.\<close>

theorem delivered_never_resent:
  assumes "smpp_run env s s'" "m < length (messages s)" "am_finished (messages s ! m)"
    and "m \<notin> set (quJobs (retryQueue s))"
  shows "count_list (sends s') m = count_list (sends s) m"
  using finished_run [OF assms] by blast

definition sample_ack :: cackmsg where
  "sample_ack = \<lparr>am_msg = [], am_id = 4, am_status = 0, am_sequence = 3, am_gwcred = jb_gwcred sample_job,
     am_addr = jb_addr sample_job, am_finished = False, am_lastSeen = 1000, am_retryNum = 0\<rparr>"

definition sample_waiting :: "bool \<Rightarrow> csmppservice" where
  "sample_waiting fin = sample_service\<lparr>messages := [sample_ack\<lparr>am_finished := fin\<rparr>],
     gwPoll := \<lparr>interest = [], fdHandlers = [], fdQueueGC = [GcMsg 0]\<rparr>, ackMsgQueue := [(''9'', 0)], sends := [0]\<rparr>"

theorem delivered_never_resent_witness:
  "count_list (sends (smpp_Gc False 2000 True None (sample_waiting True))) 0 = 1"
proof -
  have "smpp_run sample_env (sample_waiting True) (smpp_Gc False 2000 True None (sample_waiting True))" for sample_env
    using step_gc by blast
  from delivered_never_resent [OF this, of 0] show ?thesis
    by (simp add: sample_waiting_def sample_service_def csmppservice_new_def casyncqueue_new_def)
qed

text \<open>A message that the gateway has accepted, but for which no report has come within 20 seconds, is taken
  out of the queue of accepted messages and scheduled to be sent again, even when no report was asked
  for; a report that comes after that finds no message.\<close>

theorem accepted_message_sent_again:
  assumes "fdQueueGC (gwPoll s) = GcMsg m # q" "um_wf (ackMsgQueue s)" "um_find (ackMsgQueue s) uid = Some m"
    and "\<forall>(u, k) \<in> set (ackMsgQueue s). am_sequence (messages s ! k) = am_sequence (messages s ! m) \<longrightarrow> k = m \<and> u = uid"
    and "m < length (messages s)" "\<not> am_finished (messages s ! m)" "am_retryNum (messages s ! m) < 3"
    and "am_lastSeen (messages s ! m) + 20 < now"
  shows "let s' = smpp_Gc debug now sockok res s in
    quJobs (retryQueue s') = quJobs (retryQueue s) @ [m] \<and> \<not> am_finished (messages s' ! m)
    \<and> report_message uid stat s' = s'"
proof -
  let ?s = "s\<lparr>gwPoll := (gwPoll s)\<lparr>fdQueueGC := q\<rparr>\<rparr>" and ?seq = "am_sequence (messages s ! m)"
  have mem: "(uid, m) \<in> set (ackMsgQueue s)" using assms(3) by (simp add: um_find_def map_of_SomeD)
  have "find (\<lambda>(_, k). am_sequence (messages s ! k) = ?seq) (ackMsgQueue s) = Some (uid, m)"
  proof (cases "find (\<lambda>(_, k). am_sequence (messages s ! k) = ?seq) (ackMsgQueue s)")
    case None
    then show ?thesis using mem by (auto simp: find_None_iff)
  next
    case (Some uk)
    then have "uk \<in> set (ackMsgQueue s)" "am_sequence (messages s ! snd uk) = ?seq"
      by (auto simp: find_Some_iff in_set_conv_nth)
    then show ?thesis using Some assms(4) by (cases uk) auto
  qed
  then have "um_find (ack_erase_seq (messages s) ?seq (ackMsgQueue s)) uid = None"
    by (auto simp: ack_erase_seq_def um_find_def um_erase_def map_of_eq_None_iff)
  moreover have "held (GcMsg m) ?s" using mem by force
  ultimately show ?thesis
    using assms(1,5-8)
    by (simp add: smpp_Gc_def pop_gc_def ack_IsLeaveUs_def Let_def ack_clean_def upd_message_def Enqueue_def
        report_message_def)
qed

theorem accepted_message_sent_again_witness:
  "quJobs (retryQueue (smpp_Gc False 1021 True None (sample_waiting False))) = [0]"
  using accepted_message_sent_again [of "sample_waiting False" 0 "[]" "''9''" 1021]
  by (simp add: sample_waiting_def sample_service_def csmppservice_new_def casyncqueue_new_def sample_ack_def
      um_wf_def um_find_def Let_def)

text \<open>A retry after the connection was closed does not open it again: the gateway that is looked up is a new
  one without a socket, nothing goes to the network, and the message waits for the next retry.\<close>

lemma gw_Assign_closed:
  assumes "g < length (gateways s)" "\<not> gw_open g s"
  shows "\<not> gw_open g (gw_Assign env now g login pwd hosts port s)
    \<and> wire (gw_Assign env now g login pwd hosts port s) = wire s"
  using assms
  by (auto simp: gw_Assign_def Let_def gw_SocketClose_def gw_open_def upd_gateway_def SocketClose_def PollDelete_def
      split: if_splits prod.splits)

theorem retry_does_not_reconnect:
  assumes "um_find (gwConnections s) (gc_login (am_gwcred (messages s ! m)) @ '':'' @ gc_pass (am_gwcred (messages s ! m))) = None"
    and "um_find (retryMsgs s) m = None"
  shows "wire (run_retry_job env now res m s) = wire s \<and> um_find (retryMsgs (run_retry_job env now res m s)) m = Some m"
proof -
  let ?c = "am_gwcred (messages s ! m)"
  obtain con s1 where g: "GetGateway env now ?c s = (con, s1)" by force
  let ?s = "s\<lparr>gateways := gateways s @ [\<lparr>gwLogin = [], gwPassword = [], gwHosts = [],
      gwSocket = \<lparr>fdSocket = -1, fdSsl = False, fdSa = Some [], fdPoll = False\<rparr>,
      seqNo = 0, gwHash = 0, gwConId = [], gwPingTime = 0, gwPPTimeout = 0\<rparr>]\<rparr>"
  have "\<not> gw_open con s1 \<and> wire s1 = wire s \<and> retryMsgs s1 = retryMsgs s"
    using g assms(1) gw_Assign_closed [of "length (gateways s)" ?s env now "gc_login ?c" "gc_pass ?c" "gc_hosts ?c" "gc_port ?c"]
    by (auto simp: GetGateway_def cgateway_new_def Let_def gw_open_def gw_Assign_def gw_SocketClose_def upd_gateway_def
        split: prod.splits if_splits)
  with assms(2) show ?thesis
    unfolding run_retry_job_def g Let_def prod.case
    by (auto simp: SendChunk_def gw_Send_def gw_open_def um_find_emplace)
qed


definition sample_lost :: csmppservice where
  "sample_lost = (sample_waiting False)\<lparr>gwConnections := [], ackMsgQueue := []\<rparr>"

definition sample_env :: smpp_env where
  "sample_env = \<lparr>en_hash = (\<lambda>s. of_nat (length s)), en_sockaddr = (\<lambda>h p. Some []), en_utf16 = (\<lambda>bs. None)\<rparr>"

theorem retry_does_not_reconnect_witness:
  "wire (run_retry_job sample_env 1021 None 0 sample_lost) = [] \<and> retryMsgs sample_lost = []"
  using retry_does_not_reconnect [of sample_lost 0]
  by (simp add: sample_lost_def sample_waiting_def sample_service_def csmppservice_new_def um_find_def)

text \<open>The call that sends a ping is an argument of a debug message, so a ping depends on the level of the log; \<^verbatim>\<open>log::initialize\<close>
  sets it to the lowest. Were debug messages off, the enquiry would be built and its sequence number used, but not sent. Nothing the poll thread does with a
  gateway then puts a packet on the network or moves its timeout, and a gateway that does not enquire by
  itself is closed as soon as the timeout has passed.\<close>

theorem ping_needs_debug_log:
  assumes "g < length (gateways s)" "gw_open g s" "gwPPTimeout (gateways s ! g) \<noteq> 0"
  shows "let (leaves, s') = gw_IsLeaveUs False g now sockok res s in
    wire s' = wire s \<and> gwPPTimeout (gateways s' ! g) = gwPPTimeout (gateways s ! g)
    \<and> leaves = (gwPPTimeout (gateways s ! g) < now) \<and> gw_open g s' = (\<not> leaves)"
  using assms
  by (auto simp: gw_IsLeaveUs_def Let_def gw_Close_def gw_SocketClose_def ReleaseGateway_def SocketClose_def PollDelete_def
      upd_gateway_def Seq_def gw_open_def split: prod.splits)

theorem ping_needs_debug_log_witness:
  "let (leaves, s') = gw_IsLeaveUs False 0 1061 True None sample_service in leaves \<and> \<not> gw_open 0 s' \<and> wire s' = []"
  using ping_needs_debug_log [of 0 sample_service 1061 True None]
  by (simp add: sample_service_def sample_gateway_def gw_open_def csmppservice_new_def case_prod_beta)

section \<open>A delivery report from end to end\<close>

lemma length_csms_Pack: "16 \<le> length (csms_Pack c)"
  by (simp add: smpp_defs with_Length_be32 cmessage_Pack_def)

lemma take4_csms_Pack: "rd32 (take 16 (csms_Pack c)) = of_nat (length (csms_Pack c))"
proof -
  have "\<exists>r. csms_Pack c = be32 (of_nat (length (csms_Pack c))) @ r"
    by (simp add: smpp_defs cmessage_Pack_def with_Length_be32)
  then obtain r where r: "csms_Pack c = be32 (of_nat (length (csms_Pack c))) @ r" by blast
  have "take 16 (be32 n @ r) = be32 n @ take 12 r" for n :: u32 by simp
  then show ?thesis using r by (metis rd32_be32)
qed

text \<open>A socket that delivers a packet as it is.\<close>

definition recv_head :: "bytes \<Rightarrow> recv_call" where
  "recv_head pkt n = (None, take n pkt)"

definition recv_body :: "bytes \<Rightarrow> recv_call" where
  "recv_body pkt n = (None, take n (drop 16 pkt))"

lemma read_unit_packet:
  assumes "length (csms_Pack c) < 2 ^ 32"
  shows "read_unit (recv_head (csms_Pack c)) (recv_body (csms_Pack c)) = Inr (True, None, csms_Pack c)"
proof -
  have "unat (of_nat (length (csms_Pack c)) :: u32) = length (csms_Pack c)"
    using assms by (simp add: unat_of_nat take_bit_eq_mod)
  then show ?thesis
    using length_csms_Pack [of c]
    by (simp add: read_unit_def recv_head_def recv_body_def get_Length_def take4_csms_Pack pad_def min_def)
qed

lemma receipt_text_plain:
  assumes "CHR '':'' \<notin> set tail"
  shows "\<exists>t. cshortmsg_Unpack (''text:'' @ tail) m = Inr (m\<lparr>sh_text := t\<rparr>)"
proof (cases "CHR '' '' \<in> set tail")
  case True
  then obtain w d where w: "tail = w @ CHR '' '' # d" "CHR '' '' \<notin> set w" by (metis split_list_first)
  then show ?thesis using receipt_text_parsed [OF w(2), of d m] shortmsg_end [of d] assms by auto
next
  case False
  then show ?thesis using shortmsg_last [of "''text''" tail m] shortmsg_end [OF assms] by (auto simp: shortmsg_key_def)
qed

text \<open>The gateway's report that a message was delivered, as a packet on the connection: it is read, the
  message it names is finished and leaves the queue, and the answer carries the sequence number of the
  report.\<close>

theorem delivery_report_finishes:
  assumes "no_nul (sm_service c)" "no_nul (ad_address (sm_src c))" "no_nul (ad_address (sm_dst c))"
    and "no_nul (sm_delivery_time c)" "no_nul (sm_valid_period c)"
    and "sm_msg_id c = 0" "length (sm_message c) < 256" "length (csms_Pack c) < 2 ^ 32"
    and "cmd_id (sm_command c) = 5" "cmd_status (sm_command c) = 0"
    and "sm_message c = map byte_of (receipt_text flds tail)" "list_all plain_field flds" "CHR '':'' \<notin> set tail"
    and "shortmsg_keys flds cshortmsg_new = Inr r" "sh_stat r = ''DELIVRD''"
    and "gw_open g s" "um_find (ackMsgQueue s) (sh_id r) = Some m" "m < length (messages s)"
  shows "\<exists>s'. OnGwReply g now True (recv_head (csms_Pack c)) (recv_body (csms_Pack c)) None s = Inr s'
    \<and> am_finished (messages s' ! m) \<and> um_find (ackMsgQueue s') (sh_id r) = None
    \<and> wire s' = wire s @ [(g, cdelivery_resp_Pack (cmd_sequence (sm_command c)) [] 0)]"
proof -
  let ?cmd = "(sm_command c)\<lparr>cmd_len := of_nat (length (csms_Pack c))\<rparr>"
  obtain data where cmd: "ccmd_Unpack (csms_Pack c) = Inr (?cmd, data)"
    and del: "\<exists>d. cdelivery_Unpack data = Inr (d, []) \<and> de_message d = sm_message c"
    using csms_read_back [OF assms(1-7)] by (auto simp: bind_outcome_eq_Inr)
  obtain t where "cshortmsg_Unpack (receipt_text flds tail) cshortmsg_new = Inr (r\<lparr>sh_text := t\<rparr>)"
    using receipt_text_plain [OF assms(13), of r] receipt_fields [OF assms(12), of tail cshortmsg_new] assms(14) by auto
  moreover have "map char_of_byte (sm_message c) = receipt_text flds tail"
    unfolding assms(11) by (simp add: map_idI)
  moreover have "gw_open g (report_message (sh_id r) ''DELIVRD'' s)"
    using assms(16,17) by (simp add: report_message_def gw_open_def upd_message_def)
  ultimately show ?thesis
    using del assms(9,10,15-18) read_unit_packet [OF assms(8)]
    by (auto simp: OnGwReply_def OnDeliveryStatus_def cmd gw_Send_def hook_Push_def Let_def report_message_def
        upd_message_def um_find_def um_erase_def map_of_eq_None_iff)
qed

definition sample_report :: csms where
  "sample_report = (csms_new 7)\<lparr>sm_command := ccmd_new cdelivery_id 0 7, sm_esm := 4,
     sm_message := map byte_of ''id:9 stat:DELIVRD text:ok''\<rparr>"

theorem delivery_report_finishes_witness:
  "\<exists>s'. OnGwReply 0 1005 True (recv_head (csms_Pack sample_report)) (recv_body (csms_Pack sample_report)) None
      (sample_waiting False) = Inr s' \<and> am_finished (messages s' ! 0)"
proof -
  have k: "shortmsg_keys [(''id'', ''9''), (''stat'', ''DELIVRD'')] cshortmsg_new =
      Inr (cshortmsg_new\<lparr>sh_id := ''9'', sh_stat := ''DELIVRD''\<rparr>)"
    by (simp add: shortmsg_key_def)
  have l: "length (csms_Pack sample_report) < 2 ^ 32"
    by (simp add: smpp_defs cmessage_Pack_def with_Length_be32 sample_report_def csms_new_def no_address_def)
  show ?thesis
    using delivery_report_finishes [OF _ _ _ _ _ _ _ l _ _ _ _ _ k, where tail = "''ok''" and g = 0 and m = 0
        and s = "sample_waiting False" and now = 1005]
    by (auto simp: sample_report_def csms_new_def no_address_def no_nul_def ccmd_new_def receipt_text_def
        plain_field_def sample_waiting_def sample_service_def sample_gateway_def gw_open_def um_find_def)
qed

text \<open>A unit whose length field is below 16 makes the remaining length wrap around: the body is read past the
  end of the buffer. A unit that is only a header reads nothing, and the read returns what \<^verbatim>\<open>errno\<close> held
  before, so a value left by an earlier call closes the connection.\<close>

theorem header_only_unit:
  assumes "gw_open g s" "length pkt = 16" "get_Length pkt = 16" "g < length (gateways s)"
  shows "\<exists>s'. OnGwReply g now True (recv_head pkt)
        (\<lambda>n. case ReadNoSsl False (Some EAGAIN) n [] of Some (err, bs, _) \<Rightarrow> (err, bs) | None \<Rightarrow> (None, [])) res s = Inr s'
      \<and> \<not> gw_open g s'"
  using assms
  by (auto simp: OnGwReply_def read_unit_def recv_head_def ReadNoSsl_def read_status_def gw_Close_def gw_SocketClose_def
      ReleaseGateway_def SocketClose_def PollDelete_def upd_gateway_def gw_open_def Let_def split: prod.splits)

theorem header_only_unit_witness:
  "\<exists>s'. OnGwReply 0 1005 True (recv_head (cenquire_Pack 3 0x80000015 0))
        (\<lambda>n. case ReadNoSsl False (Some EAGAIN) n [] of Some (err, bs, _) \<Rightarrow> (err, bs) | None \<Rightarrow> (None, [])) None
        sample_service = Inr s' \<and> \<not> gw_open 0 s'"
proof -
  have "length (cenquire_Pack 3 0x80000015 0) = 16 \<and> get_Length (cenquire_Pack 3 0x80000015 0) = 16"
    by (simp add: cenquire_Pack_def ccmd_Pack_def Write_defs with_Length_be32 get_Length_def)
  then show ?thesis
    using header_only_unit [of 0 sample_service "cenquire_Pack 3 0x80000015 0" 1005 None]
    by (simp add: sample_service_def sample_gateway_def gw_open_def)
qed

end
