(* ===== verification/Sessions.thy ===== *)
theory Sessions
  imports Websocket Sockets Credentials Channels HttpText
begin

text \<open>
  The two kinds of client sessions, \<^verbatim>\<open>cpushersession\<close> and \<^verbatim>\<open>cwssession\<close>
  (\<^verbatim>\<open>application/push1st/proto/\<close>): their handlers for connecting, messages, pings and errors, on top of
  the frames of \<open>Websocket\<close>, the authorisation of \<open>Credentials\<close> and the registry of \<open>Channels\<close>. A
  handler changes the session and the broker's channels and leaves a list of outputs in order;
  an exception that leaves the handler is its failure, and what was done before it stays.
\<close>

section \<open>State\<close>

text \<open>
  The broker as a session sees it: the registry, how often a channel of each name has been
  constructed (a \<^verbatim>\<open>weak_ptr\<close> belongs to one construction) and the message counter.
\<close>

type_synonym weak = "string \<times> nat"

record broker =
  bk_channels :: cchannels
  bk_born :: "(string, nat) umap"
  bk_msgid :: u64

definition born :: "broker \<Rightarrow> string \<Rightarrow> nat" where
  "born bk uid = (case um_find (bk_born bk) uid of Some n \<Rightarrow> n | None \<Rightarrow> 0)"

text \<open>\<^verbatim>\<open>weak_ptr::lock\<close>: the channel, as long as that construction of it is registered.\<close>

definition lock_weak :: "broker \<Rightarrow> weak \<Rightarrow> cchannel option" where
  "lock_weak bk w = (if born bk (fst w) = snd w then um_find (bk_channels bk) (fst w) else None)"

record 'sa session =
  subsId :: string
  so :: "'sa csocket"
  MaxMessageLength :: nat
  KeepAlive :: int
  ActivityCheckTime :: int
  SubscribedTo :: "(string, weak) umap"
  App :: capplication
  EnablePushOnChannels :: cflag
  SessionUserId :: string
  SessionPresenceData :: string

text \<open>
  What the surroundings do during one handler: the clocks (in seconds and in ticks), the result
  of a send, the cryptographic and JSON libraries, the other sessions, the outcomes of the
  channels' \<^verbatim>\<open>try_lock\<close>s and whether lines of the levels info and warning are logged.
\<close>

record io =
  io_now :: int
  io_clock :: int
  io_send :: "bytes \<Rightarrow> errno option"
  io_soerr :: bool
  io_hmac :: "string \<Rightarrow> string \<Rightarrow> bytes option"
  io_dec :: "bytes \<Rightarrow> bytes \<Rightarrow> bytes option"
  io_parse :: "string \<Rightarrow> json option"
  io_dump :: "json \<Rightarrow> string"
  io_env :: env
  io_sub_locks :: "string \<Rightarrow> bool \<times> bool"
  io_chan_locks :: "string \<Rightarrow> bool \<times> bool"
  io_info :: bool
  io_warn :: bool

datatype sess_out = OutEffect effect | OutBytes bytes | OutClosed "int list" | OutEnqueueGc

type_synonym 'sa step = "failure option \<times> 'sa session \<times> broker \<times> sess_out list"

text \<open>One statement after another: a failure ends the handler.\<close>

definition andthen :: "'sa step \<Rightarrow> ('sa session \<Rightarrow> broker \<Rightarrow> 'sa step) \<Rightarrow> 'sa step" where
  "andthen st k =
     (case st of (f, s, bk, out1) \<Rightarrow>
       (case f of
          Some _ \<Rightarrow> st
        | None \<Rightarrow> (case k s bk of (f2, s2, bk2, out2) \<Rightarrow> (f2, s2, bk2, out1 @ out2))))"

section \<open>Errors and writing\<close>

text \<open>One channel's \<^verbatim>\<open>UnSubscribe\<close>, if the channel is still there.\<close>

definition unsubscribe_from :: "io \<Rightarrow> string \<Rightarrow> weak \<Rightarrow> broker \<Rightarrow> broker \<times> effect list" where
  "unsubscribe_from io sid w bk =
     (case lock_weak bk w of
        None \<Rightarrow> (bk, [])
      | Some ch \<Rightarrow>
          let (l1, l2) = io_chan_locks io (chName ch);
              (ch', effs) = UnSubscribe l1 l2 sid ch;
              (chans, effs') = settle ch' effs (bk_channels bk) in
          (bk\<lparr>bk_channels := chans\<rparr>, effs'))"

fun unsubscribe_all :: "io \<Rightarrow> string \<Rightarrow> (string \<times> weak) list \<Rightarrow> broker \<Rightarrow> broker \<times> effect list" where
  "unsubscribe_all io sid [] bk = (bk, [])"
| "unsubscribe_all io sid ((name, w) # rest) bk =
     (let (bk1, effs1) = unsubscribe_from io sid w bk;
          (bk2, effs2) = unsubscribe_all io sid rest bk1 in (bk2, effs1 @ effs2))"

text \<open>\<^verbatim>\<open>OnSocketError\<close>, the same in both kinds; \<^verbatim>\<open>SubscribedTo\<close> keeps its entries.\<close>

definition OnSocketError :: "io \<Rightarrow> 'sa session \<Rightarrow> broker \<Rightarrow> 'sa step" where
  "OnSocketError io s bk =
     (let (bk', effs) = unsubscribe_all io (subsId s) (SubscribedTo s) bk;
          (res, so', closed) = SocketClose (so s) in
      (None, s\<lparr>so := so'\<rparr>, bk', map OutEffect effs @ [OutClosed closed]))"

definition sess_send :: "io \<Rightarrow> 'sa session \<Rightarrow> bytes \<Rightarrow> errno option" where
  "sess_send io s data = (if fdSocket (so s) > 0 then io_send io data else Some EBADF)"

text \<open>What a write of a frame does to the session: the bytes, and \<^verbatim>\<open>OnWsError\<close>.\<close>

fun ws_react :: "io \<Rightarrow> ws_event list \<Rightarrow> 'sa session \<Rightarrow> broker \<Rightarrow> 'sa step" where
  "ws_react io [] s bk = (None, s, bk, [])"
| "ws_react io (ev # evs) s bk =
     andthen
       (case ev of
          WsSend data \<Rightarrow> (None, s, bk, [OutBytes data])
        | OnWsError err \<Rightarrow> OnSocketError io s bk
        | _ \<Rightarrow> (None, s, bk, []))
       (ws_react io evs)"

definition sess_write :: "io \<Rightarrow> string \<Rightarrow> 'sa session \<Rightarrow> broker \<Rightarrow> errno option \<times> 'sa step" where
  "sess_write io data s bk =
     (let (res, evs) = WsWriteMessage (sess_send io s) [] op_text (map byte_of data) False in
      (res, ws_react io evs s bk))"

definition sess_error :: "io \<Rightarrow> close_t \<Rightarrow> errno \<Rightarrow> 'sa session \<Rightarrow> broker \<Rightarrow> 'sa step" where
  "sess_error io code err s bk = ws_react io (WsError (sess_send io s) code err) s bk"

definition sess_close :: "io \<Rightarrow> close_t \<Rightarrow> 'sa session \<Rightarrow> broker \<Rightarrow> 'sa step" where
  "sess_close io code s bk = ws_react io (WsClose (sess_send io s) code) s bk"

section \<open>Joining a channel\<close>

definition channel_Subscribe ::
  "io \<Rightarrow> 'sa session \<Rightarrow> u64 \<Rightarrow> cchannel \<Rightarrow> failure option \<times> cchannel \<times> effect list \<times> u64" where
  "channel_Subscribe io s MsgId ch =
     (if chKind ch = PresenceChannel then
        presence_Subscribe
          ((io_env io)\<lparr>user_info := (user_info (io_env io))(subsId s := (SessionUserId s, SessionPresenceData s))\<rparr>)
          (io_sub_locks io) (io_clock io) MsgId (subsId s) ch
      else let (ch', effs) = Subscribe (subsId s) ch in (None, ch', effs, MsgId))"

text \<open>
  \<^verbatim>\<open>Channels->Register\<close>, \<^verbatim>\<open>SubscribedTo.emplace\<close> and \<^verbatim>\<open>chSelf->Subscribe\<close>; \<open>upd\<close> is what the session does
  between the first two. The channel is the one the handler still holds afterwards.
\<close>

definition join_channel ::
  "io \<Rightarrow> channels_t \<Rightarrow> string \<Rightarrow> ('sa session \<Rightarrow> 'sa session outcome) \<Rightarrow> 'sa session \<Rightarrow> broker
     \<Rightarrow> cchannel option \<times> 'sa step" where
  "join_channel io type name upd s bk =
     (let app = cr_Id (app_cred (App s)); uid = chan_uid app name;
          n = (if um_find (bk_channels bk) uid = None then Suc (born bk uid) else born bk uid) in
      case Register type app name (bk_channels bk) of
        (None, chans, effs0) \<Rightarrow> (None, (None, s, bk, map OutEffect effs0))
      | (Some ch, chans, effs0) \<Rightarrow>
          let bk1 = bk\<lparr>bk_channels := chans, bk_born := um_assign uid n (bk_born bk)\<rparr> in
          (case upd s of
             Inl f \<Rightarrow> (Some ch, (Some f, s, bk1, map OutEffect effs0))
           | Inr s1 \<Rightarrow>
               let s2 = s1\<lparr>SubscribedTo := um_emplace name (uid, n) (SubscribedTo s1)\<rparr>;
                   (f, ch', effs1, m) = channel_Subscribe io s2 (bk_msgid bk) ch;
                   (chans', effs2) = settle ch' effs1 chans in
               (Some ch', (f, s2, bk1\<lparr>bk_channels := chans', bk_msgid := m\<rparr>,
                  map OutEffect (effs0 @ effs2)))))"

section \<open>The Pusher protocol\<close>

definition pusher_touch :: "io \<Rightarrow> 'sa session \<Rightarrow> 'sa session" where
  "pusher_touch io s = s\<lparr>ActivityCheckTime := io_now io + KeepAlive s\<rparr>"

definition pusher_Pack :: "io \<Rightarrow> json \<Rightarrow> string outcome" where
  "pusher_Pack io msg =
     bind_outcome (json_at msg ''event'') (\<lambda>ev.
     bind_outcome (json_at msg ''channel'') (\<lambda>channel.
     bind_outcome (bind_outcome (json_at msg ''#msg-arrival'') get_size) (\<lambda>arrival.
     bind_outcome (json_at msg ''data'') (\<lambda>data.
     bind_outcome (json_at msg ''#msg-id'') (\<lambda>mid.
     bind_outcome (json_at msg ''#msg-from'') (\<lambda>producer.
       Inr (io_dump io (JObj [(''event'', ev), (''channel'', channel),
         (''#msg-time'', JInt ((io_clock io - int arrival) mod 2 ^ 64)), (''data'', data),
         (''#msg-id'', mid), (''#msg-from'', producer)]))))))))"

text \<open>\<^verbatim>\<open>Push\<close>: a message of a channel to the client; its result and what it does.\<close>

definition pusher_Push :: "io \<Rightarrow> json \<Rightarrow> 'sa session \<Rightarrow> broker \<Rightarrow> errno option \<times> 'sa step" where
  "pusher_Push io msg s bk =
     (case pusher_Pack io msg of
        Inl f \<Rightarrow> (None, (Some f, s, bk, []))
      | Inr packed \<Rightarrow>
          let (res, evs) = WsSendMessage (sess_send io s) [] op_text (map byte_of packed) False in
          (res, andthen (ws_react io evs s bk) (\<lambda>s bk.
             if res = None then (None, pusher_touch io s, bk, []) else OnSocketError io s bk)))"

definition pusher_IsLeaveUs :: "io \<Rightarrow> 'sa session \<Rightarrow> broker \<Rightarrow> bool \<times> 'sa step" where
  "pusher_IsLeaveUs io s bk =
     (if ActivityCheckTime s + KeepAlive s \<ge> io_now io \<and> \<not> io_soerr io then (False, (None, s, bk, []))
      else (True, sess_error io GoingAway ENODATA s bk))"

text \<open>The channel a subscription asks for: a string of 1 to 255 characters; and its \<^verbatim>\<open>auth\<close>.\<close>

definition sub_channel :: "json \<Rightarrow> string option outcome" where
  "sub_channel msg =
     bind_outcome (json_at msg ''data'') (\<lambda>data.
       if is_object data then
         bind_outcome (json_at data ''channel'') (\<lambda>c.
           Inr (case c of
                  JStr name \<Rightarrow>
                    if \<not> json_empty c \<and> name \<noteq> [] \<and> length name \<le> MaxChannelNameLength then Some name else None
                | _ \<Rightarrow> None))
       else Inr None)"

definition sub_field :: "json \<Rightarrow> string \<Rightarrow> string option outcome" where
  "sub_field msg key =
     bind_outcome (json_at msg ''data'') (\<lambda>data.
     bind_outcome (json_at data key) (\<lambda>v. Inr (case v of JStr x \<Rightarrow> Some x | _ \<Rightarrow> None)))"

text \<open>Register, subscribe and answer; without an answer the session is closed.\<close>

definition join_and_reply ::
  "io \<Rightarrow> channels_t \<Rightarrow> string \<Rightarrow> ('sa session \<Rightarrow> 'sa session outcome) \<Rightarrow> (cchannel \<Rightarrow> string)
     \<Rightarrow> 'sa session \<Rightarrow> broker \<Rightarrow> 'sa step" where
  "join_and_reply io type name upd answer s bk =
     (case join_channel io type name upd s bk of
        (None, st) \<Rightarrow> andthen st (sess_error io ProtoError EPROTO)
      | (Some ch, st) \<Rightarrow>
          andthen st (\<lambda>s bk.
            let (res, st') = sess_write io (answer ch) s bk in
            andthen st' (\<lambda>s bk.
              case res of None \<Rightarrow> (None, s, bk, []) | Some e \<Rightarrow> sess_error io ProtoError e s bk)))"

definition succeeded_text :: "io \<Rightarrow> string \<Rightarrow> cchannel \<Rightarrow> string" where
  "succeeded_text io name ch =
     io_dump io (JObj [(''event'', JStr ''pusher_internal:subscription_succeeded''), (''channel'', JStr name)])"

definition presence_text :: "io \<Rightarrow> string \<Rightarrow> cchannel \<Rightarrow> string" where
  "presence_text io name ch =
     (let (ids, users) = GetUsers ch in
      io_dump io (JObj [(''event'', JStr ''pusher_internal:subscription_succeeded''), (''channel'', JStr name),
        (''data'', JStr (io_dump io (JObj [(''presence'', JObj [(''ids'', JArr (map JStr ids)),
          (''hash'', JObj (map (\<lambda>(u, i). (u, JStr i)) users)), (''count'', JInt (int (length users)))])])))]))"

definition set_user :: "io \<Rightarrow> 'sa session \<Rightarrow> 'sa session outcome" where
  "set_user io s =
     (case cjson_Unserialize (io_parse io) (SessionPresenceData s) of
        None \<Rightarrow> Inr s
      | Some ui \<Rightarrow>
          bind_outcome (json_at ui ''user_id'') (\<lambda>v.
            Inr (case v of JStr u \<Rightarrow> s\<lparr>SessionUserId := u\<rparr> | _ \<Rightarrow> s)))"

definition allowed :: "io \<Rightarrow> channels_t \<Rightarrow> string \<Rightarrow> string \<Rightarrow> string \<Rightarrow> 'sa session \<Rightarrow> bool outcome" where
  "allowed io type name token data s =
     IsAllowChannelSession (io_hmac io) (App s) type (subsId s) name token data []"

definition guarded :: "io \<Rightarrow> bool outcome \<Rightarrow> ('sa session \<Rightarrow> broker \<Rightarrow> 'sa step) \<Rightarrow> 'sa session \<Rightarrow> broker \<Rightarrow> 'sa step" where
  "guarded io test k s bk =
     (case test of
        Inl f \<Rightarrow> (Some f, s, bk, [])
      | Inr True \<Rightarrow> k s bk
      | Inr False \<Rightarrow> sess_error io ProtoError EPROTO s bk)"

definition OnPusherSubscribe :: "io \<Rightarrow> json \<Rightarrow> 'sa session \<Rightarrow> broker \<Rightarrow> 'sa step" where
  "OnPusherSubscribe io msg s0 bk =
     (let s = pusher_touch io s0 in
      case sub_channel msg of
        Inl f \<Rightarrow> (Some f, s, bk, [])
      | Inr None \<Rightarrow> sess_error io ProtoError EPROTO s bk
      | Inr (Some name) \<Rightarrow>
          (case (ChannelType name, sub_field msg ''auth'') of
             (ch_priv, Inr (Some auth)) \<Rightarrow>
               guarded io (allowed io ch_priv name auth [] s)
                 (join_and_reply io ch_priv name Inr (succeeded_text io name)) s bk
           | (ch_pres, Inr (Some auth)) \<Rightarrow>
               (case sub_field msg ''channel_data'' of
                  Inl f \<Rightarrow> (Some f, s, bk, [])
                | Inr cd \<Rightarrow>
                    let s = s\<lparr>SessionPresenceData := (case cd of Some d \<Rightarrow> d | None \<Rightarrow> [])\<rparr> in
                    guarded io (allowed io ch_pres name auth (SessionPresenceData s) s)
                      (join_and_reply io ch_pres name (set_user io) (presence_text io name)) s bk)
           | (ch_pub, _) \<Rightarrow>
               guarded io (allowed io ch_pub name [] [] s)
                 (join_and_reply io ch_pub name Inr (succeeded_text io name)) s bk
           | _ \<Rightarrow> sess_error io ProtoError EPROTO s bk))"

definition OnPusherUnSubscribe :: "io \<Rightarrow> json \<Rightarrow> 'sa session \<Rightarrow> broker \<Rightarrow> 'sa step" where
  "OnPusherUnSubscribe io msg s bk =
     (case bind_outcome (json_at msg ''data'') (\<lambda>data.
             if is_object data then json_at data ''channel'' else Inr JNull) of
        Inl f \<Rightarrow> (Some f, s, bk, [])
      | Inr (JStr name) \<Rightarrow>
          (case um_find (SubscribedTo s) name of
             None \<Rightarrow> (None, s, bk, [])
           | Some w \<Rightarrow>
               let (bk', effs) = unsubscribe_from io (subsId s) w bk in (None, s, bk', map OutEffect effs))
      | Inr _ \<Rightarrow> (None, s, bk, []))"

definition OnPusherPing :: "io \<Rightarrow> 'sa session \<Rightarrow> broker \<Rightarrow> 'sa step" where
  "OnPusherPing io s bk =
     (let (res, st) = sess_write io (io_dump io (JObj [(''event'', JStr ''pusher:pong'')])) s bk in
      andthen st (\<lambda>s bk. (None, if res = None then pusher_touch io s else s, bk, [])))"

definition OnPusherPush :: "io \<Rightarrow> json \<Rightarrow> 'sa session \<Rightarrow> broker \<Rightarrow> 'sa step" where
  "OnPusherPush io msg s bk =
     (case bind_outcome (json_at msg ''channel'') get_string of
        Inl f \<Rightarrow> (Some f, s, bk, [])
      | Inr name \<Rightarrow>
          if name \<noteq> [] then
            (case bind_outcome (json_at msg ''data'') (\<lambda>data. bind_outcome (json_at data ''channel'') get_string) of
               Inl f \<Rightarrow> (Some f, s, bk, [])
             | Inr _ \<Rightarrow> (None, s, bk, []))
          else sess_error io ProtoError EPROTO s bk)"

text \<open>\<^verbatim>\<open>cpushersession::OnWsMessage\<close> on the text of a message; nothing in it catches an exception.\<close>

definition pusher_dispatch :: "io \<Rightarrow> json \<Rightarrow> 'sa session \<Rightarrow> broker \<Rightarrow> 'sa step" where
  "pusher_dispatch io msg s bk =
     (case bind_outcome (json_at msg ''event'') get_string of
        Inl f \<Rightarrow> (Some f, s, bk, [])
      | Inr evName \<Rightarrow>
          if evName = [] then sess_error io ProtoError EPROTO s bk
          else if evName = ''pusher:subscribe'' then OnPusherSubscribe io msg s bk
          else if evName = ''pusher:ping'' then OnPusherPing io s bk
          else if evName = ''pusher:unsubscribe'' then OnPusherUnSubscribe io msg s bk
          else
            (case json_at msg ''channel'' of
               Inl f \<Rightarrow> (Some f, s, bk, [])
             | Inr (JStr _) \<Rightarrow> OnPusherPush io msg s bk
             | Inr _ \<Rightarrow> sess_error io ProtoError EPROTO s bk))"

definition pusher_OnWsMessage :: "io \<Rightarrow> string \<Rightarrow> 'sa session \<Rightarrow> broker \<Rightarrow> 'sa step" where
  "pusher_OnWsMessage io data s bk =
     (let s = pusher_touch io s;
          (message, m) = msg_Unserialize (io_parse io) (bk_msgid bk) (io_clock io) data (subsId s);
          bk = bk\<lparr>bk_msgid := m\<rparr> in
      case message of
        None \<Rightarrow> sess_error io ProtoError EPROTO s bk
      | Some msg \<Rightarrow> pusher_dispatch io msg s bk)"

definition pusher_OnWsConnect :: "io \<Rightarrow> 'sa session \<Rightarrow> broker \<Rightarrow> bool \<times> 'sa step" where
  "pusher_OnWsConnect io s bk =
     (let (res, st) = sess_write io
            (io_dump io (JObj [(''event'', JStr ''pusher:connection_established''),
              (''data'', JStr (io_dump io (JObj [(''socket_id'', JStr (subsId s)),
                 (''activity_timeout'', JStr (to_string (nat (KeepAlive s))))])))])) s bk in
      if res = None then (True, andthen st (\<lambda>s bk. (None, s, bk, [OutEnqueueGc]))) else (False, st))"

text \<open>The destructor, and \<^verbatim>\<open>OnWsPing\<close>.\<close>

definition pusher_destroy :: "io \<Rightarrow> 'sa session \<Rightarrow> broker \<Rightarrow> broker \<times> sess_out list" where
  "pusher_destroy io s bk =
     (let (bk', effs) = unsubscribe_all io (subsId s) (SubscribedTo s) bk in (bk', map OutEffect effs))"

section \<open>The websocket protocol\<close>

definition ws_touch :: "io \<Rightarrow> 'sa session \<Rightarrow> 'sa session" where
  "ws_touch io s = s\<lparr>ActivityCheckTime := io_now io + KeepAlive s + 5\<rparr>"

definition ws_IsLeaveUs :: "io \<Rightarrow> 'sa session \<Rightarrow> bool" where
  "ws_IsLeaveUs io s \<longleftrightarrow> \<not> (ActivityCheckTime s \<ge> io_now io \<and> \<not> io_soerr io)"

definition ws_Pack :: "io \<Rightarrow> json \<Rightarrow> string outcome" where
  "ws_Pack io msg =
     bind_outcome (json_at msg ''event'') (\<lambda>ev.
     bind_outcome (json_at msg ''channel'') (\<lambda>channel.
     bind_outcome (bind_outcome (json_at msg ''#msg-arrival'') get_size) (\<lambda>arrival.
     bind_outcome (json_at msg ''data'') (\<lambda>data.
     bind_outcome (json_at msg ''#msg-id'') (\<lambda>mid.
     bind_outcome (json_at msg ''#msg-from'') (\<lambda>producer.
     bind_outcome (if contains msg ''headers'' then
          bind_outcome (json_at msg ''headers'') (\<lambda>h. Inr [(''headers'', h)]) else Inr []) (\<lambda>headers.
       Inr (io_dump io (JObj ([(''event'', ev), (''channel'', channel),
         (''#msg-time'', JInt ((io_clock io - int arrival) mod 2 ^ 64)), (''data'', data),
         (''#msg-id'', mid), (''#msg-from'', producer)] @ headers))))))))))"

definition ws_Push :: "io \<Rightarrow> json \<Rightarrow> 'sa session \<Rightarrow> broker \<Rightarrow> errno option \<times> 'sa step" where
  "ws_Push io msg s bk =
     (case ws_Pack io msg of
        Inl f \<Rightarrow> (None, (Some f, s, bk, []))
      | Inr packed \<Rightarrow>
          let (res, evs) = WsSendMessage (sess_send io s) [] op_text (map byte_of packed) False in
          (res, andthen (ws_react io evs s bk) (\<lambda>s bk.
             if res = None then (None, ws_touch io s, bk, []) else OnSocketError io s bk)))"

text \<open>\<^verbatim>\<open>UnPack\<close>: \<^verbatim>\<open>size()\<close> is the one of the JSON value, which is 1 for every string.\<close>

definition ws_UnPack :: "io \<Rightarrow> string \<Rightarrow> 'sa session \<Rightarrow> broker \<Rightarrow> json option \<times> broker" where
  "ws_UnPack io data s bk =
     (let (message, m) = msg_Unserialize (io_parse io) (bk_msgid bk) (io_clock io) data (subsId s) in
      ((case message of
          None \<Rightarrow> None
        | Some doc \<Rightarrow>
            if is_object doc \<and> contains doc ''channel'' \<and> contains doc ''event'' \<and> contains doc ''data'' then
              (case json_at doc ''channel'' of
                 Inl _ \<Rightarrow> None
               | Inr c \<Rightarrow> if \<not> json_empty c \<and> json_size c \<le> MaxChannelNameLength then Some doc else None)
            else None),
       bk\<lparr>bk_msgid := m\<rparr>))"

text \<open>The arguments of a log line are read only when its level is logged.\<close>

definition log_event :: "bool \<Rightarrow> json \<Rightarrow> failure option" where
  "log_event enabled msg =
     (if enabled then
        (case bind_outcome (json_at msg ''event'') get_string of Inl f \<Rightarrow> Some f | Inr _ \<Rightarrow> None)
      else None)"

text \<open>The body of the \<^verbatim>\<open>try\<close> block: whether it returns, and what it did.\<close>

definition ws_deliver :: "io \<Rightarrow> string \<Rightarrow> json \<Rightarrow> cchannel \<Rightarrow> 'sa session \<Rightarrow> broker \<Rightarrow> 'sa step" where
  "ws_deliver io name msg ch s bk =
     (if has_flag (EnablePushOnChannels s) (channels_code (chType ch)) then
        (case channel_Push (io_env io) (io_sub_locks io) msg ch of
           (pre, Inl f) \<Rightarrow> (Some f, s, bk, map OutEffect pre)
         | (pre, Inr (n, ch', effs)) \<Rightarrow>
             let (chans, effs') = settle ch' effs (bk_channels bk) in
             (log_event (io_info io) msg, s, bk\<lparr>bk_channels := chans\<rparr>,
              map OutEffect (pre @ effs' @ [HookTrigger (chType ch) hook_push name (subsId s) msg])))
      else (log_event (io_warn io) msg, s, bk, []))"

definition ws_try :: "io \<Rightarrow> string \<Rightarrow> 'sa session \<Rightarrow> broker \<Rightarrow> bool \<times> 'sa step" where
  "ws_try io data s bk =
     (case ws_UnPack io data s bk of
        (None, bk) \<Rightarrow> (False, (None, s, bk, []))
      | (Some msg, bk) \<Rightarrow>
          (case bind_outcome (json_at msg ''channel'') get_string of
             Inl f \<Rightarrow> (False, (Some f, s, bk, []))
           | Inr name \<Rightarrow>
               (case um_find (SubscribedTo s) name of
                  None \<Rightarrow> (False, (log_event (io_warn io) msg, s, bk, []))
                | Some w \<Rightarrow>
                    (case lock_weak bk w of
                       None \<Rightarrow> (False, (None, s, bk, []))
                     | Some ch \<Rightarrow> (True, ws_deliver io name msg ch s bk)))))"

definition ws_OnWsMessage :: "io \<Rightarrow> string \<Rightarrow> 'sa session \<Rightarrow> broker \<Rightarrow> 'sa step" where
  "ws_OnWsMessage io data s0 bk0 =
     (case ws_try io data (ws_touch io s0) bk0 of
        (returns, f, s, bk, out) \<Rightarrow>
          if returns \<and> f = None then (None, s, bk, out)
          else if (case f of None \<Rightarrow> True | Some (Throw _) \<Rightarrow> True | Some (UB _) \<Rightarrow> False)
          then andthen (None, s, bk, out) (OnSocketError io)
          else (f, s, bk, out))"

text \<open>The channels of the path, each with its own authorisation.\<close>

fun ws_channels ::
  "io \<Rightarrow> string \<Rightarrow> string \<Rightarrow> string list \<Rightarrow> 'sa session \<Rightarrow> broker \<Rightarrow> nat \<times> 'sa step" where
  "ws_channels io token origin [] s bk = (0, (None, s, bk, []))"
| "ws_channels io token origin (name # names) s bk =
     (case IsAllowChannelToken (io_hmac io) (io_dec io) (nat (io_now io)) (App s) (ChannelType name) name token origin of
        Inl f \<Rightarrow> (0, (Some f, s, bk, []))
      | Inr False \<Rightarrow> ws_channels io token origin names s bk
      | Inr True \<Rightarrow>
          (case join_channel io (ChannelType name) name Inr s bk of
             (None, (_, s1, bk1, out1)) \<Rightarrow>
               (case ws_channels io token origin names s1 bk1 of
                  (n, f, s2, bk2, out2) \<Rightarrow> (n, (f, s2, bk2, out1 @ out2)))
           | (Some ch, (Some f, st)) \<Rightarrow> (0, (Some f, st))
           | (Some ch, (None, s1, bk1, out1)) \<Rightarrow>
               (case ws_channels io token origin names s1 bk1 of
                  (n, f, s2, bk2, out2) \<Rightarrow> (Suc n, (f, s2, bk2, out1 @ out2)))))"

definition ws_OnWsConnect :: "io \<Rightarrow> uri_t \<Rightarrow> headers_t \<Rightarrow> 'sa session \<Rightarrow> broker \<Rightarrow> bool \<times> 'sa step" where
  "ws_OnWsConnect io path headers s0 bk =
     (let s = ws_touch io s0 in
      if length (uriPathList path) < 4 then (False, (Some (UB ''iterator past the end of the path''), s, bk, []))
      else
        (case ws_channels io (GetValue headers ''authorization'' (uri_Arg path ''token''))
                (GetValue headers ''origin'' []) (drop 4 (uriPathList path)) s bk of
           (n, Some f, st) \<Rightarrow> (False, (Some f, st))
         | (n, None, st) \<Rightarrow>
             if n = 0 then (False, andthen (None, st) (sess_close io PolicyViolation))
             else (True, andthen (None, st) (\<lambda>s bk. (None, s, bk, [OutEnqueueGc])))))"

section \<open>Reading\<close>

text \<open>
  \<^verbatim>\<open>OnSocketRecv\<close>: the calls \<^verbatim>\<open>WsReadMessage\<close> makes, answered by the session's handlers. A payload that
  was not received is whatever the allocator left there (\<open>junk\<close>).
\<close>

fun run_events ::
  "io \<Rightarrow> ('sa session \<Rightarrow> 'sa session) \<Rightarrow> (string \<Rightarrow> 'sa session \<Rightarrow> broker \<Rightarrow> 'sa step) \<Rightarrow> bytes \<Rightarrow> ws_event list
     \<Rightarrow> 'sa session \<Rightarrow> broker \<Rightarrow> 'sa step" where
  "run_events io touch onmsg junk [] s bk = (None, s, bk, [])"
| "run_events io touch onmsg junk (ev # evs) s bk =
     andthen
       (case ev of
          OnWsMessage opc payload n \<Rightarrow>
            onmsg (map char_of_byte (case payload of Some p \<Rightarrow> p | None \<Rightarrow> take n junk)) s bk
        | OnWsPing \<Rightarrow> (None, touch s, bk, [])
        | OnWsClose \<Rightarrow> OnSocketError io s bk
        | OnWsError err \<Rightarrow> OnSocketError io s bk
        | WsSend data \<Rightarrow> (None, s, bk, [OutBytes data]))
       (run_events io touch onmsg junk evs)"

definition pusher_OnSocketRecv :: "io \<Rightarrow> bytes \<Rightarrow> errno \<Rightarrow> bytes \<Rightarrow> 'sa session \<Rightarrow> broker \<Rightarrow> 'sa step" where
  "pusher_OnSocketRecv io junk fail inp s bk =
     run_events io (pusher_touch io) (pusher_OnWsMessage io) junk
       (snd (fst (WsReadMessage (sess_send io s) (MaxMessageLength s) fail inp))) s bk"

definition ws_OnSocketRecv :: "io \<Rightarrow> bytes \<Rightarrow> errno \<Rightarrow> bytes \<Rightarrow> 'sa session \<Rightarrow> broker \<Rightarrow> 'sa step" where
  "ws_OnSocketRecv io junk fail inp s bk =
     run_events io (ws_touch io) (ws_OnWsMessage io) junk
       (snd (fst (WsReadMessage (sess_send io s) (MaxMessageLength s) fail inp))) s bk"

end
