(* ===== verification/Api.thy ===== *)
theory Api
  imports Sessions Router SmppService Cluster
begin

text \<open>
  The HTTP interface of the broker, \<^verbatim>\<open>capiserver\<close> (\<^verbatim>\<open>application/push1st/apiserver/capiserver.cpp\<close>): publishing
  events, listing channels, issuing tokens, handing short messages to the SMPP service, and the
  dispatch of a request with its error answers. A handler changes the broker and leaves outputs in
  order; an exception that leaves it is its failure, and what was done before it stays.
\<close>

section \<open>State and outputs\<close>

datatype api_out =
    ApiEffect effect
  | ApiWrite string string "(string \<times> string) list"
  | ApiClose
  | ApiSmppJob json

type_synonym api_step = "failure option \<times> broker \<times> api_out list"

text \<open>The environment of a handler: that of the sessions, the credentials, the timeout that is announced,
  the cipher and the random number of access tokens, and the time a request took.\<close>

record api_env =
  ae_io :: io
  ae_credentials :: ccredentials
  ae_timeout :: string
  ae_enc :: "bytes \<Rightarrow> bytes \<Rightarrow> bytes option"
  ae_rnd :: nat
  ae_took :: int

definition ApiResponse :: "api_env \<Rightarrow> string \<Rightarrow> string \<Rightarrow> bool \<Rightarrow> api_out list" where
  "ApiResponse ae code response close =
     (if close \<or> ae_timeout ae = [] then
        [ApiWrite code response [(''Connection'', ''Close''), (''Content-Type'', ''application/json; charset=utf-8'')],
         ApiClose]
      else
        [ApiWrite code response [(''Connection'', ''Keep-Alive''), (''Content-Type'', ''application/json; charset=utf-8''),
           (''Keep-Alive'', ''timeout='' @ ae_timeout ae)]])"

definition api_answer :: "api_env \<Rightarrow> string \<Rightarrow> broker \<Rightarrow> api_step" where
  "api_answer ae code bk = (None, bk, ApiResponse ae code [] True)"

text \<open>\<^verbatim>\<open>vals[i]\<close>.\<close>

definition val_at :: "string list \<Rightarrow> nat \<Rightarrow> string outcome" where
  "val_at vals i = (if i < length vals then Inr (vals ! i) else Inl (UB ''vector index out of range''))"

definition api_bind :: "'a outcome \<Rightarrow> broker \<Rightarrow> ('a \<Rightarrow> api_step) \<Rightarrow> api_step" where
  "api_bind m bk k = (case m of Inl f \<Rightarrow> (Some f, bk, []) | Inr x \<Rightarrow> k x)"

definition api_then :: "api_step \<Rightarrow> (broker \<Rightarrow> api_step) \<Rightarrow> api_step" where
  "api_then st k =
     (case st of
        (Some f, bk, out) \<Rightarrow> (Some f, bk, out)
      | (None, bk, out) \<Rightarrow> (case k bk of (f, bk', out') \<Rightarrow> (f, bk', out @ out')))"

section \<open>Events\<close>

fun copy_fields :: "json \<Rightarrow> (string \<times> string) list \<Rightarrow> (string \<times> json) list outcome" where
  "copy_fields msg [] = Inr []"
| "copy_fields msg ((dst, src) # fs) =
     bind_outcome (json_cat msg src) (\<lambda>v. bind_outcome (copy_fields msg fs) (\<lambda>vs. Inr ((dst, v) # vs)))"

definition copy_optional :: "json \<Rightarrow> string list \<Rightarrow> (string \<times> json) list" where
  "copy_optional msg ks = List.map_filter (\<lambda>k. map_option (Pair k) (json_find msg k)) ks"

text \<open>The message a channel gets; the constant \<^verbatim>\<open>msg\<close> must have every field that is copied unasked.\<close>

definition DupChannelMessage :: "json \<Rightarrow> string \<Rightarrow> json outcome" where
  "DupChannelMessage msg channel =
     bind_outcome (copy_fields msg [(''event'', ''name''), (''data'', ''data''), (''#msg-id'', ''#msg-id''),
         (''#msg-from'', ''#msg-from''), (''#msg-arrival'', ''#msg-arrival''), (''#msg-expired'', ''#msg-expired''),
         (''#msg-delivery'', ''#msg-delivery'')]) (\<lambda>fs.
       Inr (JObj ((''channel'', JStr channel) # fs @ copy_optional msg [''headers'', ''socket_id'', ''to_socket_id''])))"

text \<open>One channel of an event: the number of subscribers it is pushed to.\<close>

definition api_push_channel :: "api_env \<Rightarrow> string \<Rightarrow> json \<Rightarrow> string \<Rightarrow> broker \<Rightarrow> (nat \<times> api_step)" where
  "api_push_channel ae app msg name bk =
     (case GetChannel app name (bk_channels bk) of
        None \<Rightarrow> (0, (None, bk, []))
      | Some ch \<Rightarrow>
          (case DupChannelMessage msg name of
             Inl f \<Rightarrow> (0, (Some f, bk, []))
           | Inr dup \<Rightarrow>
               (case channel_Push (io_env (ae_io ae)) (io_sub_locks (ae_io ae)) dup ch of
                  (pre, Inl f) \<Rightarrow> (0, (Some f, bk, map ApiEffect pre))
                | (pre, Inr (n, ch', effs)) \<Rightarrow>
                    let (chans, effs') = settle ch' effs (bk_channels bk) in
                    (n, (None, bk\<lparr>bk_channels := chans\<rparr>, map ApiEffect (pre @ effs'))))))"

definition api_cluster_push :: "string \<Rightarrow> json \<Rightarrow> string \<Rightarrow> broker \<Rightarrow> api_step" where
  "api_cluster_push app msg name bk =
     api_bind (DupChannelMessage msg name) bk (\<lambda>dup.
       (None, bk, [ApiEffect (ClusterPush (ChannelType name) app name dup)]))"

fun api_push_all ::
  "api_env \<Rightarrow> string \<Rightarrow> json \<Rightarrow> json list \<Rightarrow> (string, json) umap \<Rightarrow> broker \<Rightarrow> (string, json) umap \<times> api_step" where
  "api_push_all ae app msg [] reply bk = (reply, (None, bk, []))"
| "api_push_all ae app msg (j # js) reply bk =
     (case get_string j of
        Inl f \<Rightarrow> (reply, (Some f, bk, []))
      | Inr name \<Rightarrow>
          let (n, st) = api_push_channel ae app msg name bk in
          (case api_then st (api_cluster_push app msg name) of
             (Some f, bk, out) \<Rightarrow> (reply, (Some f, bk, out))
           | (None, bk, out) \<Rightarrow>
               let (reply', (f, bk', out')) =
                     api_push_all ae app msg js (um_assign name (JInt (int n)) reply) bk in
               (reply', (f, bk', out @ out'))))"

text \<open>A single channel becomes the list of channels.\<close>

definition api_channels_field :: "json \<Rightarrow> json outcome" where
  "api_channels_field msg =
     (case json_find msg ''channel'' of
        Some (JStr c) \<Rightarrow> json_set ''channels'' (JArr [JStr c]) msg
      | _ \<Rightarrow> Inr msg)"

definition ApiOnEvents ::
  "api_env \<Rightarrow> string list \<Rightarrow> string \<Rightarrow> headers_t \<Rightarrow> string \<Rightarrow> broker \<Rightarrow> api_step" where
  "ApiOnEvents ae vals method headers content bk =
     (if method = ''POST'' then
        api_bind (val_at vals 0) bk (\<lambda>v.
          case GetAppById (ae_credentials ae) v of
            None \<Rightarrow> api_answer ae ''403'' bk
          | Some app \<Rightarrow>
              if content = [] then api_answer ae ''400'' bk
              else
                (case msg_Unserialize (io_parse (ae_io ae)) (bk_msgid bk) (io_clock (ae_io ae)) content ''api'' of
                   (None, n) \<Rightarrow> api_answer ae ''400'' (bk\<lparr>bk_msgid := n\<rparr>)
                 | (Some msg, n) \<Rightarrow>
                     let bk = bk\<lparr>bk_msgid := n\<rparr> in
                     api_bind (api_channels_field msg) bk (\<lambda>msg.
                       case json_find msg ''channels'' of
                         Some (JArr names) \<Rightarrow>
                           if contains msg ''name'' then
                             let (reply, st) = api_push_all ae (cr_Id (app_cred app)) msg names [] bk in
                             api_then st (\<lambda>bk.
                               api_bind (json_at msg ''#msg-id'') bk (\<lambda>mid.
                                 (None, bk, ApiResponse ae ''200''
                                    (io_dump (ae_io ae) (JObj [(''msg-id'', mid), (''channels'', JObj reply),
                                        (''time'', JInt (ae_took ae))]))
                                    (IsConnectionKeepAlive headers))))
                           else api_answer ae ''400'' bk
                       | _ \<Rightarrow> api_answer ae ''400'' bk)))
      else api_answer ae ''400'' bk)"

section \<open>Channels\<close>

text \<open>\<^verbatim>\<open>strncmp(id, name, length of id) == 0\<close>: the channel's name begins with the id.\<close>

definition ApiOnChannels :: "api_env \<Rightarrow> string list \<Rightarrow> string \<Rightarrow> headers_t \<Rightarrow> broker \<Rightarrow> api_step" where
  "ApiOnChannels ae vals method headers bk =
     (if method = ''GET'' then
        api_bind (val_at vals 0) bk (\<lambda>v.
          case GetAppById (ae_credentials ae) v of
            None \<Rightarrow> api_answer ae ''403'' bk
          | Some app \<Rightarrow>
              api_bind (val_at vals 1) bk (\<lambda>name.
                if name = [] then
                  (None, bk, ApiResponse ae ''200''
                     (io_dump (ae_io ae) (JArr (map (\<lambda>(uid, ch). ApiStats ch)
                        (filter (\<lambda>(uid, ch). starts_with (cr_Id (app_cred app)) uid) (ListChannels (bk_channels bk))))))
                     (IsConnectionKeepAlive headers))
                else
                  (case GetChannel (cr_Id (app_cred app)) name (bk_channels bk) of
                     Some ch \<Rightarrow>
                       (None, bk, ApiResponse ae ''200'' (io_dump (ae_io ae) (ApiOverview (io_env (ae_io ae)) ch))
                          (IsConnectionKeepAlive headers))
                   | None \<Rightarrow> api_answer ae ''404'' bk)))
      else api_answer ae ''400'' bk)"

section \<open>Tokens\<close>

definition api_request :: "api_env \<Rightarrow> string \<Rightarrow> string list \<Rightarrow> json option" where
  "api_request ae content ks =
     (case cjson_Unserialize (io_parse (ae_io ae)) content of
        Some request \<Rightarrow> if is_object request \<and> list_all (contains request) ks then Some request else None
      | None \<Rightarrow> None)"

definition api_string :: "json \<Rightarrow> string \<Rightarrow> string outcome" where
  "api_string request k = bind_outcome (json_at request k) get_string"

definition ApiOnToken :: "api_env \<Rightarrow> string list \<Rightarrow> string \<Rightarrow> string \<Rightarrow> broker \<Rightarrow> api_step" where
  "ApiOnToken ae vals method content bk =
     (if method = ''POST'' then
        api_bind (val_at vals 0) bk (\<lambda>v.
          case GetAppById (ae_credentials ae) v of
            None \<Rightarrow> api_answer ae ''403'' bk
          | Some app \<Rightarrow>
              api_bind (val_at vals 1) bk (\<lambda>kind.
                if kind = ''session'' then
                  (case api_request ae content [''session'', ''channel''] of
                     None \<Rightarrow> api_answer ae ''400'' bk
                   | Some request \<Rightarrow>
                       api_bind (api_string request ''session'') bk (\<lambda>session.
                       api_bind (api_string request ''channel'') bk (\<lambda>channel.
                       api_bind (if contains request ''data'' then api_string request ''data'' else Inr []) bk (\<lambda>data.
                         (None, bk, ApiResponse ae ''200'' (SessionToken (io_hmac (ae_io ae)) app session channel data) True)))))
                else if kind = ''access'' then
                  (case api_request ae content [''origin'', ''channel'', ''ttl''] of
                     None \<Rightarrow> api_answer ae ''400'' bk
                   | Some request \<Rightarrow>
                       api_bind (api_string request ''origin'') bk (\<lambda>origin.
                       api_bind (api_string request ''channel'') bk (\<lambda>channel.
                       api_bind (bind_outcome (json_at request ''ttl'') (\<lambda>t. if is_number t then get_size t else Inr 0)) bk (\<lambda>ttl.
                         (None, bk, ApiResponse ae ''200''
                            (AccessToken (io_hmac (ae_io ae)) (ae_enc ae) (nat (io_now (ae_io ae))) (ae_rnd ae) app
                               origin channel ttl) True)))))
                else (None, bk, [])))
      else api_answer ae ''400'' bk)"

section \<open>Web hooks\<close>

text \<open>\<^verbatim>\<open>ApiOnWebHook\<close>, for which no route is made.\<close>

definition ApiOnWebHook :: "api_env \<Rightarrow> headers_t \<Rightarrow> broker \<Rightarrow> api_step" where
  "ApiOnWebHook ae headers bk = (None, bk, ApiResponse ae ''200'' [] (IsConnectionKeepAlive headers))"

section \<open>Short messages\<close>

text \<open>The request goes to a worker, which answers with what the service's \<^verbatim>\<open>Send\<close> returns.\<close>

definition ApiOnModuleSmpp :: "api_env \<Rightarrow> string list \<Rightarrow> string \<Rightarrow> string \<Rightarrow> broker \<Rightarrow> api_step" where
  "ApiOnModuleSmpp ae vals method content bk =
     (if method = ''POST'' then
        api_bind (val_at vals 0) bk (\<lambda>v.
          case GetAppById (ae_credentials ae) v of
            None \<Rightarrow> api_answer ae ''403'' bk
          | Some app \<Rightarrow>
              (case api_request ae content [] of
                 None \<Rightarrow> api_answer ae ''400'' bk
               | Some request \<Rightarrow> (None, bk, [ApiSmppJob request])))
      else api_answer ae ''400'' bk)"

definition run_smpp_job ::
  "api_env \<Rightarrow> smpp_env \<Rightarrow> nat \<Rightarrow> bool \<Rightarrow> attempt list \<Rightarrow> json \<Rightarrow> csmppservice \<Rightarrow> (api_out list \<times> csmppservice) outcome" where
  "run_smpp_job ae env now sockok attempts request svc =
     bind_outcome (smpp_Send env now sockok attempts request svc) (\<lambda>((code, response), svc).
       Inr (ApiResponse ae code (io_dump (ae_io ae) response) True, svc))"

section \<open>Requests\<close>

datatype api_route = RouteEvents | RouteToken | RouteChannels | RouteSmpp

text \<open>The routes of the constructor; \<open>smpp\<close> is the path of the SMPP module when it is enabled.\<close>

definition api_routes :: "string \<Rightarrow> string option \<Rightarrow> api_route routes outcome" where
  "api_routes path smpp =
     bind_outcome (Add (''/'' @ path @ ''/?/events/*'') RouteEvents []) (\<lambda>rs.
     bind_outcome (Add (''/'' @ path @ ''/?/token/?/'') RouteToken rs) (\<lambda>rs.
     bind_outcome (Add (''/'' @ path @ ''/?/channels/?/'') RouteChannels rs) (\<lambda>rs.
       case smpp of
         None \<Rightarrow> Inr rs
       | Some sp \<Rightarrow> Add (''/'' @ sp @ ''/*'') RouteSmpp rs)))"

fun api_handler ::
  "api_env \<Rightarrow> api_route \<Rightarrow> string list \<Rightarrow> string \<Rightarrow> headers_t \<Rightarrow> string \<Rightarrow> broker \<Rightarrow> api_step" where
  "api_handler ae RouteEvents vals method headers content bk = ApiOnEvents ae vals method headers content bk"
| "api_handler ae RouteToken vals method headers content bk = ApiOnToken ae vals method content bk"
| "api_handler ae RouteChannels vals method headers content bk = ApiOnChannels ae vals method headers bk"
| "api_handler ae RouteSmpp vals method headers content bk = ApiOnModuleSmpp ae vals method content bk"

definition refuse :: "string \<Rightarrow> api_out list" where
  "refuse code = [ApiWrite code [] [], ApiClose]"

text \<open>An exception becomes 400; undefined behaviour stays undefined.\<close>

definition OnHttpRequest ::
  "api_env \<Rightarrow> api_route routes \<Rightarrow> string \<Rightarrow> uri_t \<Rightarrow> headers_t \<Rightarrow> string \<Rightarrow> broker \<Rightarrow> (broker \<times> api_out list) outcome" where
  "OnHttpRequest ae routes method path headers content bk =
     (case Call routes path of
        Inl (UB u) \<Rightarrow> Inl (UB u)
      | Inl (Throw w) \<Rightarrow> Inr (bk, refuse ''400'')
      | Inr None \<Rightarrow> Inr (bk, refuse ''404'')
      | Inr (Some (route, vals)) \<Rightarrow>
          (case api_handler ae route vals method headers content bk of
             (Some (UB u), _) \<Rightarrow> Inl (UB u)
           | (Some (Throw w), bk', out) \<Rightarrow> Inr (bk', out @ refuse ''400'')
           | (None, bk', out) \<Rightarrow> Inr (bk', out)))"

end
