(* ===== verification/SessionProps.thy ===== *)
theory SessionProps
  imports Sessions
begin

text \<open>
  What the sessions guarantee. Two relations carry the proofs: a step is \<open>leaving\<close> when it
  subscribes nobody (errors, closes, writes), and \<open>admits\<close> bounds whom a step may subscribe and to what.
  Both are closed under one statement after another. From them: subscriptions need authorisation, errors take a session out
  of its channels, a message is delivered only where its sender is subscribed; and the inputs on
  which a handler throws.
\<close>

section \<open>What a handler may change\<close>

text \<open>The channels a session is subscribed to, by their unique names.\<close>

definition members :: "broker \<Rightarrow> string \<Rightarrow> string set" where
  "members bk sid = {uid. \<exists>ch. um_find (bk_channels bk) uid = Some ch \<and> sid \<in> set (chSubscribers ch)}"

text \<open>The messages a step delivers.\<close>

definition delivered :: "sess_out list \<Rightarrow> (string \<times> json) set" where
  "delivered out = {(x, msg). OutEffect (Deliver x msg) \<in> set out}"

lemma delivered_simps [simp]:
  "delivered [] = {}" "delivered (xs @ ys) = delivered xs \<union> delivered ys"
  "delivered (map OutEffect effs) = {(x, msg). Deliver x msg \<in> set effs}"
  "delivered [OutBytes data] = {}" "delivered [OutClosed fds] = {}" "delivered [OutEnqueueGc] = {}"
  by (auto simp: delivered_def)

lemma UnSubscribe_no_delivery: "UnSubscribe l1 l2 sid ch = (ch', effs) \<Longrightarrow> Deliver x msg \<notin> set effs"
  by (auto simp: UnSubscribe_def Let_def close_if_empty_def triggers_def split: if_splits)

lemma settle_no_delivery: "settle ch effs chans = (chans', effs') \<Longrightarrow> Deliver x msg \<in> set effs' \<longleftrightarrow> Deliver x msg \<in> set effs"
  by (auto simp: settle_def destroyed_def triggers_def split: if_splits)

lemma unsubscribe_all_no_delivery:
  "unsubscribe_all io sid ws bk = (bk', effs) \<Longrightarrow> Deliver x msg \<notin> set effs"
proof (induction io sid ws bk arbitrary: bk' effs rule: unsubscribe_all.induct)
  case (2 io sid name w rest bk)
  obtain bk1 e1 where u: "unsubscribe_from io sid w bk = (bk1, e1)" by fastforce
  obtain bk2 e2 where r: "unsubscribe_all io sid rest bk1 = (bk2, e2)" by fastforce
  have "Deliver x msg \<notin> set e1" using u
    by (auto simp: unsubscribe_from_def settle_no_delivery UnSubscribe_no_delivery split: option.splits prod.splits)
  with "2.IH" [OF u [symmetric] refl r] "2.prems" u r show ?case by auto
qed simp

text \<open>A step that subscribes nobody and delivers nothing: errors, closes, writes.\<close>

definition leaving :: "'sa session \<Rightarrow> broker \<Rightarrow> 'sa step \<Rightarrow> bool" where
  "leaving s bk st \<longleftrightarrow> (case st of (f, s', bk', out) \<Rightarrow>
     f = None \<and> s' = s\<lparr>so := so s'\<rparr> \<and> bk_born bk' = bk_born bk \<and> bk_msgid bk' = bk_msgid bk \<and> delivered out = {}
     \<and> (channels_ok (bk_channels bk) \<longrightarrow> channels_ok (bk_channels bk') \<and> (\<forall>sid. members bk' sid \<subseteq> members bk sid)))"

lemma UnSubscribe_settle:
  assumes "UnSubscribe l1 l2 sid ch = (ch', effs)" "settle ch' effs chans = (chans', effs')"
    "channels_ok chans" "um_find chans uid = Some ch"
  shows "channels_ok chans' \<and> (\<forall>k c. um_find chans' k = Some c \<longrightarrow>
      (\<exists>c0. um_find chans k = Some c0 \<and> set (chSubscribers c) \<subseteq> set (chSubscribers c0)))"
proof -
  have ok: "channel_ok uid ch" using channels_ok_find [OF assms(3,4)] .
  note f = UnSubscribe_fields [OF assms(1), of uid]
  have "distinct (chSubscribers ch')" using f ok by (simp add: channel_ok_def subs_erase_def)
  then have "channels_ok chans'" using settle_channels_ok [OF assms(3) ok _ _ assms(2)] f by blast
  moreover have "chUid ch = uid" using ok by (simp add: channel_ok_def)
  ultimately show ?thesis using f assms(2,4)
    by (auto simp: settle_def same_channel_def UnRegister_def subs_erase_def split: if_splits)
qed

lemma unsubscribe_from_leaving:
  assumes "unsubscribe_from io sid w bk = (bk', effs)"
  shows "bk_born bk' = bk_born bk \<and> bk_msgid bk' = bk_msgid bk
    \<and> (channels_ok (bk_channels bk) \<longrightarrow> channels_ok (bk_channels bk') \<and> (\<forall>s. members bk' s \<subseteq> members bk s))"
proof (cases "lock_weak bk w")
  case None
  with assms show ?thesis by (simp add: unsubscribe_from_def)
next
  case (Some ch)
  obtain l1 l2 ch' effs1 chans effs2 where u: "io_chan_locks io (chName ch) = (l1, l2)"
      "UnSubscribe l1 l2 sid ch = (ch', effs1)" "settle ch' effs1 (bk_channels bk) = (chans, effs2)"
    by (metis prod.exhaust)
  have bk': "bk' = bk\<lparr>bk_channels := chans\<rparr>" using assms Some u by (simp add: unsubscribe_from_def)
  have "um_find (bk_channels bk) (fst w) = Some ch" using Some by (simp add: lock_weak_def split: if_splits)
  with UnSubscribe_settle [OF u(2,3)] bk' show ?thesis by (fastforce simp: members_def)
qed

lemma unsubscribe_all_leaving:
  "unsubscribe_all io sid ws bk = (bk', effs) \<Longrightarrow>
     bk_born bk' = bk_born bk \<and> bk_msgid bk' = bk_msgid bk
     \<and> (channels_ok (bk_channels bk) \<longrightarrow> channels_ok (bk_channels bk') \<and> (\<forall>s. members bk' s \<subseteq> members bk s))"
proof (induction io sid ws bk arbitrary: bk' effs rule: unsubscribe_all.induct)
  case (1 io sid bk)
  then show ?case by simp
next
  case (2 io sid name w rest bk)
  obtain bk1 e1 where u: "unsubscribe_from io sid w bk = (bk1, e1)" by fastforce
  obtain bk2 e2 where r: "unsubscribe_all io sid rest bk1 = (bk2, e2)" by fastforce
  from "2.prems" u r have "bk' = bk2" by simp
  with unsubscribe_from_leaving [OF u] "2.IH" [OF u [symmetric] refl r] show ?case by fastforce
qed

lemma OnSocketError_leaving: "leaving s bk (OnSocketError io s bk)"
proof -
  obtain bk' effs where u: "unsubscribe_all io (subsId s) (SubscribedTo s) bk = (bk', effs)" by fastforce
  obtain r so' closed where c: "SocketClose (so s) = (r, so', closed)" by (metis prod_cases3)
  show ?thesis using unsubscribe_all_leaving [OF u] unsubscribe_all_no_delivery [OF u] u c by (simp add: leaving_def OnSocketError_def)
qed

lemma leaving_andthen:
  assumes "leaving s bk st" "\<And>s' bk'. leaving s' bk' (k s' bk')"
  shows "leaving s bk (andthen st k)"
proof -
  obtain f s1 bk1 out1 where st: "st = (f, s1, bk1, out1)" by (metis prod_cases4)
  obtain f2 s2 bk2 out2 where k: "k s1 bk1 = (f2, s2, bk2, out2)" by (metis prod_cases4)
  have s1: "s1 = s\<lparr>so := so s1\<rparr>" and f: "f = None" using assms(1) st by (simp_all add: leaving_def)
  have "s2 = s1\<lparr>so := so s2\<rparr>" using assms(2) [of s1 bk1] k by (simp add: leaving_def)
  then have "s2 = s\<lparr>so := so s2\<rparr>" using s1 by (metis session.update_convs(2) session.fold_congs(2) session.surjective)
  then show ?thesis using assms(1) assms(2) [of s1 bk1] st k f
    by (simp add: leaving_def andthen_def) blast
qed

lemma leaving_done [simp]: "delivered out = {} \<Longrightarrow> leaving s bk (None, s, bk, out)"
  by (simp add: leaving_def)

lemma ws_react_leaving: "leaving s bk (ws_react io evs s bk)"
proof (induction evs arbitrary: s bk)
  case Nil
  then show ?case by simp
next
  case (Cons ev evs)
  show ?case unfolding ws_react.simps
    by (rule leaving_andthen [OF _ Cons.IH]) (simp split: ws_event.split add: OnSocketError_leaving)
qed

lemma sess_error_leaving: "leaving s bk (sess_error io code err s bk)"
  by (simp add: sess_error_def ws_react_leaving)

lemma sess_write_leaving: "leaving s bk (snd (sess_write io data s bk))"
  by (simp add: sess_write_def ws_react_leaving split: prod.split)

text \<open>No operation of a channel subscribes anybody but its argument.\<close>

lemma broadcast_subset: "broadcast_loop live frm sock subs = Inr (to, kept) \<Longrightarrow> set kept \<subseteq> set subs"
proof (induction subs arbitrary: to kept)
  case Nil
  then show ?case by simp
next
  case (Cons x subs)
  then obtain f to1 kept1 where "frm = Inr f" "broadcast_loop live frm sock subs = Inr (to1, kept1)"
    by (auto simp: bind_outcome_eq_Inr)
  with Cons show ?case by (fastforce simp: bind_outcome_eq_Inr split: if_splits)
qed

lemma select_subset:
  assumes "select_subscribers live msg subs = Inr (to, kept)"
  shows "set kept \<subseteq> set subs"
proof -
  obtain d sock where "msg_delivery msg = Inr d" "msg_socket msg = Inr sock"
    using assms by (auto simp: select_subscribers_def bind_outcome_eq_Inr)
  with assms broadcast_subset [of live "msg_from msg" sock subs to kept] show ?thesis
    by (cases d; cases sock)
      (auto simp: select_subscribers_def multicast_loop_filter unicast_find_def subs_erase_def split: if_splits)
qed

lemma base_Push_subset:
  assumes "base_Push e locks msg ch = Inr (n, ch', effs)"
  shows "set (chSubscribers ch') \<subseteq> set (chSubscribers ch)"
proof -
  obtain to kept where sel: "select_subscribers (alive e) msg (chSubscribers ch) = Inr (to, kept)"
    using assms by (auto simp: base_Push_def bind_outcome_eq_Inr)
  obtain effs0 where "deliver_all e locks msg to (ch\<lparr>chSubscribers := kept\<rparr>) = (ch', effs0)"
    using assms sel by (cases "deliver_all e locks msg to (ch\<lparr>chSubscribers := kept\<rparr>)") (auto simp: base_Push_def)
  from deliver_all_fields [OF this] select_subset [OF sel] show ?thesis by auto
qed

lemma push_made_subset:
  "push_made e locks now m doc ch = (Inr (n, ch', effs), m') \<Longrightarrow> set (chSubscribers ch') \<subseteq> set (chSubscribers ch)"
  by (auto simp: push_made_def bind_outcome_eq_Inr split: prod.splits dest: base_Push_subset)

lemma presence_Subscribe_subset:
  assumes "presence_Subscribe e locks now m s ch = (f, ch', effs, m')"
  shows "set (chSubscribers ch') \<subseteq> insert s (set (chSubscribers ch))"
  using assms
  by (auto simp: presence_Subscribe_def Let_def subs_emplace_def
      split: prod.splits sum.splits if_splits dest!: push_made_subset) blast+

lemma channel_Subscribe_subset:
  assumes "channel_Subscribe io s m ch = (f, ch', effs, m')"
  shows "set (chSubscribers ch') \<subseteq> insert (subsId s) (set (chSubscribers ch))"
  using assms presence_Subscribe_subset
  by (fastforce simp: channel_Subscribe_def Subscribe_def subs_emplace_def Let_def split: if_splits)

lemma set_deliveries: "set (deliveries effs) = {(x, m). Deliver x m \<in> set effs}"
  by (induction effs rule: deliveries.induct) auto

lemma broadcast_to: "broadcast_loop live frm sock subs = Inr (to, kept) \<Longrightarrow> set to \<subseteq> set subs"
proof (induction subs arbitrary: to kept)
  case Nil
  then show ?case by simp
next
  case (Cons y subs)
  then obtain f to1 kept1 where "frm = Inr f" "broadcast_loop live frm sock subs = Inr (to1, kept1)"
    by (auto simp: bind_outcome_eq_Inr)
  with Cons show ?case by (fastforce simp: bind_outcome_eq_Inr split: if_splits)
qed

lemma select_to:
  assumes "select_subscribers live msg subs = Inr (to, kept)"
  shows "set to \<subseteq> set subs"
proof -
  obtain d sock where "msg_delivery msg = Inr d" "msg_socket msg = Inr sock"
    using assms by (auto simp: select_subscribers_def bind_outcome_eq_Inr)
  with assms broadcast_to [of live "msg_from msg" sock subs to kept] show ?thesis
    by (cases d; cases sock)
      (auto simp: select_subscribers_def multicast_loop_filter unicast_find_def subs_erase_def split: if_splits)
qed

lemma base_Push_deliveries:
  assumes "base_Push e locks msg ch = Inr (n, ch', effs)" "Deliver x m \<in> set effs"
  shows "m = msg \<and> x \<in> set (chSubscribers ch)"
proof -
  obtain to kept where sel: "select_subscribers (alive e) msg (chSubscribers ch) = Inr (to, kept)"
    using assms(1) by (auto simp: base_Push_def bind_outcome_eq_Inr)
  obtain effs0 where d: "deliver_all e locks msg to (ch\<lparr>chSubscribers := kept\<rparr>) = (ch', effs0)"
    and effs: "effs = effs0 @ close_if_empty ch'"
    using assms(1) sel by (cases "deliver_all e locks msg to (ch\<lparr>chSubscribers := kept\<rparr>)") (auto simp: base_Push_def)
  have "(x, m) \<in> set (deliveries effs0)"
    using assms(2) effs by (auto simp: set_deliveries close_if_empty_def split: if_splits)
  with deliver_all_fields [OF d] select_to [OF sel] show ?thesis by auto
qed

lemma push_made_spread:
  assumes "push_made e locks now m doc ch = (Inr (n, ch', effs), m')"
  shows "set (chSubscribers ch') \<subseteq> set (chSubscribers ch) \<and> (\<forall>x msg. Deliver x msg \<in> set effs \<longrightarrow> x \<in> set (chSubscribers ch))"
  using push_made_subset [OF assms] assms base_Push_deliveries
  by (fastforce simp: push_made_def bind_outcome_eq_Inr split: prod.splits)

lemma presence_Subscribe_deliveries:
  assumes "presence_Subscribe e locks now m s ch = (f, ch', effs, m')" "Deliver x msg \<in> set effs"
  shows "x \<in> insert s (set (chSubscribers ch))"
proof -
  let ?ch = "ch\<lparr>chSubscribers := subs_emplace s (chSubscribers ch)\<rparr>"
  have "x \<in> set (chSubscribers ?ch)" using assms
    by (auto simp: presence_Subscribe_def Let_def triggers_def split: prod.splits sum.splits if_splits dest!: push_made_spread) blast+
  then show ?thesis by (auto simp: subs_emplace_def split: if_splits)
qed

lemma channel_Subscribe_deliveries:
  assumes "channel_Subscribe io s m ch = (f, ch', effs, m')" "Deliver x msg \<in> set effs"
  shows "x \<in> insert (subsId s) (set (chSubscribers ch))"
  using assms presence_Subscribe_deliveries
  by (fastforce simp: channel_Subscribe_def Subscribe_def triggers_def Let_def split: if_splits)

text \<open>A step that keeps the identity of the session and the registry, subscribes sessions only as \<open>grant\<close> allows, and
  delivers to subscribers only.\<close>

definition admits :: "(string \<Rightarrow> string \<Rightarrow> bool) \<Rightarrow> 'sa session \<Rightarrow> broker \<Rightarrow> 'sa step \<Rightarrow> bool" where
  "admits grant s bk st \<longleftrightarrow> (case st of (f, s', bk', out) \<Rightarrow>
     subsId s' = subsId s \<and> App s' = App s \<and> (channels_ok (bk_channels bk) \<longrightarrow> channels_ok (bk_channels bk')
       \<and> (\<forall>sid uid. uid \<in> members bk' sid \<longrightarrow> uid \<in> members bk sid \<or> grant sid uid)
       \<and> (\<forall>x msg. (x, msg) \<in> delivered out \<longrightarrow> (\<exists>uid. uid \<in> members bk x \<or> grant x uid))))"

lemma admits_done [simp]:
  "subsId s' = subsId s \<Longrightarrow> App s' = App s \<Longrightarrow> bk_channels bk' = bk_channels bk \<Longrightarrow> delivered out = {} \<Longrightarrow>
     admits grant s bk (f, s', bk', out)"
  by (simp add: admits_def members_def)

lemma admits_mono:
  "admits grant s bk st \<Longrightarrow> (\<And>sid uid. grant sid uid \<Longrightarrow> grant' sid uid) \<Longrightarrow> admits grant' s bk st"
  by (fastforce simp: admits_def split: prod.splits)

lemma admits_cong:
  "subsId s = subsId t \<Longrightarrow> App s = App t \<Longrightarrow> bk_channels bk = bk_channels bk' \<Longrightarrow> admits grant s bk st \<longleftrightarrow> admits grant t bk' st"
  by (simp add: admits_def members_def)

lemma leaving_admits:
  assumes "leaving s bk st"
  shows "admits grant s bk st"
proof -
  obtain f s' bk' out where st: "st = (f, s', bk', out)" by (metis prod_cases4)
  then have "s' = s\<lparr>so := so s'\<rparr>" using assms by (simp add: leaving_def)
  then have "subsId s' = subsId s" "App s' = App s"
    by (metis session.ext_inject session.surjective session.update_convs(2))+
  then show ?thesis using assms st by (auto simp: leaving_def admits_def)
qed

lemma admits_andthen:
  assumes "admits grant s bk st"
    and "\<And>s' bk'. subsId s' = subsId s \<Longrightarrow> App s' = App s \<Longrightarrow> admits grant s' bk' (k s' bk')"
  shows "admits grant s bk (andthen st k)"
proof -
  obtain f s1 bk1 out1 where st: "st = (f, s1, bk1, out1)" by (metis prod_cases4)
  obtain f2 s2 bk2 out2 where k: "k s1 bk1 = (f2, s2, bk2, out2)" by (metis prod_cases4)
  have "subsId s1 = subsId s" "App s1 = App s" using assms(1) st by (simp_all add: admits_def)
  with assms(2) [of s1 bk1] assms(1) st k show ?thesis
    by (cases f) (simp_all add: admits_def andthen_def, blast)
qed

lemma channel_Subscribe_sound:
  assumes "channel_Subscribe io s m ch = (f, ch', effs, m')" "channel_ok k ch"
  shows "sound_op ch ch' effs"
  using assms presence_Subscribe_sound Subscribe_sound
  by (fastforce simp: channel_Subscribe_def split: if_splits prod.splits)

lemma join_channel_admits:
  assumes "\<And>s1. upd s = Inr s1 \<Longrightarrow> subsId s1 = subsId s \<and> App s1 = App s"
  shows "admits (\<lambda>sid uid. sid = subsId s \<and> uid = chan_uid (cr_Id (app_cred (App s))) name) s bk
    (snd (join_channel io type name upd s bk))"
proof -
  let ?app = "cr_Id (app_cred (App s))"
  let ?uid = "chan_uid ?app name"
  obtain reg chans effs0 where r: "Register type ?app name (bk_channels bk) = (reg, chans, effs0)"
    by (metis prod_cases3)
  have quiet: "Deliver x msg \<notin> set effs0" for x msg
    using r by (auto simp: Register_def Let_def constructed_def triggers_def split: option.splits)
  show ?thesis
  proof (cases reg)
    case None
    with r quiet show ?thesis by (auto simp: join_channel_def Let_def)
  next
    case (Some ch)
    have chans: "um_find chans k = (if k = ?uid then Some ch else um_find (bk_channels bk) k)" for k
      using r Some by (auto simp: Register_def Let_def um_find_emplace split: option.splits)
    have new: "um_find (bk_channels bk) ?uid = Some ch \<or> chSubscribers ch = []"
      using r Some by (auto simp: Register_def Let_def new_channel_def split: option.splits)
    note reg = Register_channels_ok [OF r [unfolded Some]]
    show ?thesis
    proof (cases "upd s")
      case (Inl f)
      with r Some chans reg new quiet show ?thesis
        by (auto simp: join_channel_def admits_def Let_def members_def split: if_splits)
    next
      case (Inr s1)
      define n where "n = (if um_find (bk_channels bk) ?uid = None then Suc (born bk ?uid) else born bk ?uid)"
      define s2 where "s2 = s1\<lparr>SubscribedTo := um_emplace name (?uid, n) (SubscribedTo s1)\<rparr>"
      obtain f ch' effs1 m where c: "channel_Subscribe io s2 (bk_msgid bk) ch = (f, ch', effs1, m)"
        by (metis prod_cases4)
      obtain chans' effs2 where t: "settle ch' effs1 chans = (chans', effs2)" by fastforce
      let ?bk = "bk\<lparr>bk_channels := chans', bk_born := um_assign ?uid n (bk_born bk), bk_msgid := m\<rparr>"
      have "channels_ok chans' \<and> (\<forall>sid uid. uid \<in> members ?bk sid \<longrightarrow> uid \<in> members bk sid \<or> sid = subsId s \<and> uid = ?uid)
          \<and> (\<forall>x msg. Deliver x msg \<in> set (effs0 @ effs2) \<longrightarrow> (\<exists>uid. uid \<in> members bk x \<or> x = subsId s \<and> uid = ?uid))"
        if ok: "channels_ok (bk_channels bk)"
      proof -
        have reg_ok: "channel_ok ?uid ch" "channels_ok chans" using reg [OF ok] by auto
        have sound: "same_channel ch ch'" "distinct (chSubscribers ch')"
          using channel_Subscribe_sound [OF c reg_ok(1)] by (auto simp: sound_op_def)
        then have uid: "chUid ch' = ?uid" using reg_ok(1) by (auto simp: same_channel_def channel_ok_def)
        have sub: "set (chSubscribers ch') \<subseteq> insert (subsId s) (set (chSubscribers ch))"
          using channel_Subscribe_subset [OF c] assms [OF Inr] by (simp add: s2_def)
        have other: "k \<noteq> ?uid \<Longrightarrow> um_find chans' k = um_find (bk_channels bk) k" for k
          using t uid chans by (auto simp: settle_def UnRegister_def split: if_splits)
        have same: "um_find chans' ?uid = Some c \<Longrightarrow> c = ch'" for c
          using t uid by (auto simp: settle_def UnRegister_def split: if_splits)
        have "k \<in> members bk sid \<or> sid = subsId s \<and> k = ?uid"
          if "um_find chans' k = Some c" "sid \<in> set (chSubscribers c)" for k c sid
          using that other [of k] same sub new by (cases "k = ?uid") (auto simp: members_def)
        moreover have "\<exists>uid. uid \<in> members bk x \<or> x = subsId s \<and> uid = ?uid" if "Deliver x msg \<in> set (effs0 @ effs2)" for x msg
        proof -
          have "Deliver x msg \<in> set effs1" using that quiet settle_no_delivery [OF t] by auto
          then have "x = subsId s \<or> x \<in> set (chSubscribers ch)"
            using channel_Subscribe_deliveries [OF c] assms [OF Inr] by (auto simp: s2_def)
          with new show ?thesis by (auto simp: members_def)
        qed
        ultimately show ?thesis using settle_channels_ok [OF reg_ok(2,1) sound t] by (fastforce simp: members_def)
      qed
      moreover have "snd (join_channel io type name upd s bk) = (f, s2, ?bk, map OutEffect (effs0 @ effs2))"
        using r Some Inr c t by (simp add: join_channel_def Let_def s2_def n_def)
      ultimately show ?thesis using assms [OF Inr] by (auto simp: admits_def s2_def)
    qed
  qed
qed

lemma join_and_reply_admits:
  assumes "\<And>s1. upd s = Inr s1 \<Longrightarrow> subsId s1 = subsId s \<and> App s1 = App s"
  shows "admits (\<lambda>sid uid. sid = subsId s \<and> uid = chan_uid (cr_Id (app_cred (App s))) name) s bk
    (join_and_reply io type name upd answer s bk)"
proof -
  have reply: "leaving s' bk' (case sess_write io (answer ch) s' bk' of (res, st') \<Rightarrow>
      andthen st' (\<lambda>s bk. case res of None \<Rightarrow> (None, s, bk, []) | Some e \<Rightarrow> sess_error io ProtoError e s bk))"
    for ch and s' :: "'a session" and bk'
    using sess_write_leaving [of s' bk' io "answer ch"]
    by (cases "sess_write io (answer ch) s' bk'")
      (auto intro!: leaving_andthen sess_error_leaving split: option.split)
  obtain reg st where j: "join_channel io type name upd s bk = (reg, st)" by (meson surj_pair)
  note st = join_channel_admits [of upd s name bk io type, OF assms, unfolded j snd_conv]
  show ?thesis
    using admits_andthen [OF st leaving_admits [OF sess_error_leaving]] admits_andthen [OF st leaving_admits [OF reply]]
    by (cases reg) (simp_all add: join_and_reply_def j)
qed

lemma set_user_id: "set_user io s = Inr s1 \<Longrightarrow> subsId s1 = subsId s \<and> App s1 = App s"
proof -
  assume a: "set_user io s = Inr s1"
  show ?thesis
  proof (cases "cjson_Unserialize (io_parse io) (SessionPresenceData s)")
    case None
    with a show ?thesis by (simp add: set_user_def)
  next
    case (Some ui)
    with a obtain v where "json_at ui ''user_id'' = Inr v" "(case v of JStr u \<Rightarrow> s\<lparr>SessionUserId := u\<rparr> | _ \<Rightarrow> s) = s1"
      by (auto simp: set_user_def bind_outcome_eq_Inr)
    then show ?thesis by (cases v) auto
  qed
qed

lemma guarded_admits:
  assumes "admits grant s bk (k s bk)"
  shows "admits (\<lambda>sid uid. test = Inr True \<and> grant sid uid) s bk (guarded io test k s bk)"
  using assms leaving_admits [OF sess_error_leaving]
  by (auto simp: guarded_def split: sum.split bool.split intro: admits_mono)

text \<open>What a subscription does: it fails, it is refused, or a check guards the joining of the channel it names.\<close>

lemma OnPusherSubscribe_cases:
  obtains (fail) g s1 where "OnPusherSubscribe io msg s bk = (Some g, s1, bk, [])" "subsId s1 = subsId s" "App s1 = App s"
  | (error) "OnPusherSubscribe io msg s bk = sess_error io ProtoError EPROTO (pusher_touch io s) bk"
  | (join) name token data upd answer t where "sub_channel msg = Inr (Some name)"
      "OnPusherSubscribe io msg s bk = guarded io (allowed io (ChannelType name) name token data t)
         (join_and_reply io (ChannelType name) name upd answer) t bk"
      "subsId t = subsId s" "App t = App s" "\<And>s1. upd t = Inr s1 \<Longrightarrow> subsId s1 = subsId t \<and> App s1 = App t"
proof -
  let ?s = "pusher_touch io s"
  have s: "subsId ?s = subsId s" "App ?s = App s" by (simp_all add: pusher_touch_def)
  consider (none) "\<nexists>name. sub_channel msg = Inr (Some name)"
    | (named) name where "sub_channel msg = Inr (Some name)" by blast
  then show thesis
  proof cases
    case none
    then show thesis
      using fail [of _ ?s] error s by (cases "sub_channel msg"; cases "projr (sub_channel msg)") (auto simp: OnPusherSubscribe_def Let_def)
  next
    case (named name)
    let ?auth = "sub_field msg ''auth''"
    consider (pub) "ChannelType name = ch_pub" | (priv) auth where "ChannelType name = ch_priv" "?auth = Inr (Some auth)"
      | (pres) auth where "ChannelType name = ch_pres" "?auth = Inr (Some auth)"
      | (refused) "ChannelType name \<noteq> ch_pub" "\<nexists>auth. ChannelType name \<in> {ch_priv, ch_pres} \<and> ?auth = Inr (Some auth)"
      by blast
    then show thesis
    proof cases
      case pub
      with named s show thesis
        by (intro join [of name "[]" "[]" ?s Inr "succeeded_text io name"]) (auto simp: OnPusherSubscribe_def Let_def)
    next
      case priv
      with named s show thesis
        by (intro join [of name auth "[]" ?s Inr "succeeded_text io name"]) (auto simp: OnPusherSubscribe_def Let_def)
    next
      case pres
      show thesis
      proof (cases "sub_field msg ''channel_data''")
        case (Inl f)
        with pres named s show thesis by (intro fail [of f ?s]) (auto simp: OnPusherSubscribe_def Let_def)
      next
        case (Inr cd)
        with pres named s show thesis
          by (intro join [of name auth _ "?s\<lparr>SessionPresenceData := (case cd of Some d \<Rightarrow> d | None \<Rightarrow> [])\<rparr>" "set_user io"])
            (auto simp: OnPusherSubscribe_def Let_def set_user_id)
      qed
    next
      case refused
      then show thesis
        using named error by (cases "ChannelType name"; cases ?auth; cases "projr ?auth") (auto simp: OnPusherSubscribe_def Let_def)
    qed
  qed
qed

lemma OnPusherSubscribe_admits:
  "admits (\<lambda>sid uid. sid = subsId s \<and> (\<exists>name token data. sub_channel msg = Inr (Some name)
      \<and> uid = chan_uid (cr_Id (app_cred (App s))) name
      \<and> IsAllowChannelSession (io_hmac io) (App s) (ChannelType name) (subsId s) name token data [] = Inr True))
    s bk (OnPusherSubscribe io msg s bk)"
proof (cases rule: OnPusherSubscribe_cases [of io msg s bk])
  case (fail g s1)
  then show ?thesis by simp
next
  case error
  have "subsId (pusher_touch io s) = subsId s" "App (pusher_touch io s) = App s" by (simp_all add: pusher_touch_def)
  note cong = admits_cong [OF this refl]
  show ?thesis unfolding error cong [symmetric] by (rule leaving_admits [OF sess_error_leaving])
next
  case (join name token data upd answer t)
  have "admits (\<lambda>sid uid. allowed io (ChannelType name) name token data t = Inr True
      \<and> sid = subsId t \<and> uid = chan_uid (cr_Id (app_cred (App t))) name) t bk (OnPusherSubscribe io msg s bk)"
    unfolding join(2) by (rule guarded_admits [OF join_and_reply_admits]) (rule join(5))
  then show ?thesis
    unfolding admits_cong [OF join(3,4) refl]
    by (rule admits_mono) (use join in \<open>auto simp: allowed_def\<close>)
qed


definition sample_io :: io where
  "sample_io = \<lparr>io_now = 100, io_clock = 100000, io_send = (\<lambda>_. None), io_soerr = False,
     io_hmac = (\<lambda>_ _. Some (replicate 32 0)), io_dec = (\<lambda>_ _. None),
     io_parse = (\<lambda>_. None), io_dump = (\<lambda>_. ''{}''), io_env = sample_env, io_sub_locks = (\<lambda>_. (True, True)),
     io_chan_locks = (\<lambda>_. (True, True)), io_info = True, io_warn = True\<rparr>"

definition sample_session :: "nat session" where
  "sample_session = \<lparr>subsId = ''s1'', so = csocket_new 5 0 False True, MaxMessageLength = 65536, KeepAlive = 20,
     ActivityCheckTime = 100, SubscribedTo = [], App = sample_app\<lparr>app_cred := (app_cred sample_app)\<lparr>cr_Channels := channels_code ch_pub\<rparr>\<rparr>, EnablePushOnChannels = 0,
     SessionUserId = [], SessionPresenceData = []\<rparr>"

definition empty_broker :: broker where
  "empty_broker = \<lparr>bk_channels = [], bk_born = [], bk_msgid = 0\<rparr>"

lemma empty_broker_ok: "channels_ok (bk_channels empty_broker)"
  by (simp add: empty_broker_def channels_ok_def um_wf_def um_find_def)

definition subscribe_msg :: "string \<Rightarrow> string \<Rightarrow> json" where
  "subscribe_msg name auth = JObj [(''event'', JStr ''pusher:subscribe''),
     (''data'', JObj [(''channel'', JStr name), (''auth'', JStr auth)])]"

lemma sample_allowed: "allowed io ch_pub name [] [] (sample_session\<lparr>ActivityCheckTime := n\<rparr>) = Inr True"
  by (simp add: allowed_def IsAllowChannelSession_def sample_session_def sample_app_def capplication_new_def
      credential_new_def credential_copy_def cflag_and_def)

lemma sample_sub: "sub_channel (subscribe_msg ''news'' []) = Inr (Some ''news'')"
  by (simp add: sub_channel_def subscribe_msg_def MaxChannelNameLength_def um_find_def)

lemma sess_write_ok:
  "io_send io = (\<lambda>_. None) \<Longrightarrow> fdSocket (so s) > 0 \<Longrightarrow> Make [] op_text (map byte_of data) False \<noteq> [] \<Longrightarrow>
    sess_write io data s bk = (None, (None, s, bk, [OutBytes (Make [] op_text (map byte_of data) False)]))"
  by (simp add: sess_write_def WsWriteMessage_def sess_send_def andthen_def Let_def)

lemma Make_nonempty: "Make key opc data m \<noteq> []"
  by (auto simp: Make_def MakeUnFrame_def MakeFrame_def frame_t_def)

lemma sample_join:
  "\<exists>s' out. OnPusherSubscribe sample_io (subscribe_msg ''news'' []) sample_session empty_broker =
    (None, s', \<lparr>bk_channels = [(''7#news'', (new_channel PublicChannel ''7#news'' ''news'' ''7'' autoclose_yes)\<lparr>chSubscribers := [''s1'']\<rparr>)],
       bk_born = [(''7#news'', 1)], bk_msgid = 0\<rparr>, out)"
proof -
  have t: "ChannelType ''news'' = ch_pub" by (simp add: ChannelType_def starts_with_def)
  let ?s = "sample_session\<lparr>ActivityCheckTime := 120\<rparr>"
  have id: "cr_Id (app_cred (App ?s)) = ''7''" "subsId ?s = ''s1''" "fdSocket (so ?s) > 0" "SubscribedTo ?s = []"
    by (simp_all add: sample_session_def sample_app_def capplication_new_def credential_copy_def csocket_new_def)
  have touch: "pusher_touch sample_io sample_session = ?s"
    by (simp add: pusher_touch_def sample_io_def sample_session_def)
  have "OnPusherSubscribe sample_io (subscribe_msg ''news'' []) sample_session empty_broker =
      join_and_reply sample_io ch_pub ''news'' Inr (succeeded_text sample_io ''news'') ?s empty_broker"
    unfolding OnPusherSubscribe_def touch Let_def by (simp add: sample_sub t guarded_def sample_allowed split: sum.split option.split)
  moreover have "\<exists>x. join_channel sample_io ch_pub ''news'' Inr ?s empty_broker =
     (Some ((new_channel PublicChannel ''7#news'' ''news'' ''7'' autoclose_yes)\<lparr>chSubscribers := [''s1'']\<rparr>), (None,
        ?s\<lparr>SubscribedTo := [(''news'', (''7#news'', 1))]\<rparr>,
        \<lparr>bk_channels = [(''7#news'', (new_channel PublicChannel ''7#news'' ''news'' ''7'' autoclose_yes)\<lparr>chSubscribers := [''s1'']\<rparr>)],
       bk_born = [(''7#news'', 1)], bk_msgid = 0\<rparr>, x))"
    using id by (simp add: join_channel_def empty_broker_def Register_def Let_def um_find_def chan_uid_def channel_Subscribe_def
      Subscribe_def subs_emplace_def settle_def new_channel_def um_emplace_def um_assign_def born_def triggers_def constructed_def)
  moreover have "succeeded_text sample_io ''news'' ch = ''{}''" for ch by (simp add: succeeded_text_def sample_io_def)
  ultimately show ?thesis using id(3) Make_nonempty
    by (auto simp: join_and_reply_def andthen_def sess_write_ok sample_io_def)
qed


section \<open>Leaving\<close>

lemma unsubscribe_from_leaves:
  assumes "unsubscribe_from io sid w bk = (bk', effs)" "channels_ok (bk_channels bk)"
    and "\<forall>name. fst (io_chan_locks io name)" "born bk (fst w) = snd w"
  shows "fst w \<notin> members bk' sid"
proof (cases "lock_weak bk w")
  case None
  with assms show ?thesis by (auto simp: unsubscribe_from_def lock_weak_def members_def)
next
  case (Some ch)
  obtain l1 l2 ch' effs1 chans effs2 where u: "io_chan_locks io (chName ch) = (l1, l2)"
      "UnSubscribe l1 l2 sid ch = (ch', effs1)" "settle ch' effs1 (bk_channels bk) = (chans, effs2)"
    by (metis prod.exhaust)
  have l1: "l1" using assms(3) u(1) by (metis fst_conv)
  have bk': "bk' = bk\<lparr>bk_channels := chans\<rparr>" using assms(1) Some u by (simp add: unsubscribe_from_def)
  have find: "um_find (bk_channels bk) (fst w) = Some ch" using Some by (simp add: lock_weak_def split: if_splits)
  then have "chUid ch = fst w" using assms(2) by (auto simp: channel_ok_def dest: channels_ok_find)
  with UnSubscribe_fields [OF u(2), of "fst w"] u(3) l1 find bk' show ?thesis
    by (auto simp: settle_def members_def same_channel_def UnRegister_def subs_erase_def split: if_splits)
qed

lemma unsubscribe_all_leaves:
  "unsubscribe_all io sid ws bk = (bk', effs) \<Longrightarrow> channels_ok (bk_channels bk) \<Longrightarrow>
     \<forall>name. fst (io_chan_locks io name) \<Longrightarrow> (name, w) \<in> set ws \<Longrightarrow> born bk (fst w) = snd w \<Longrightarrow>
     fst w \<notin> members bk' sid"
proof (induction io sid ws bk arbitrary: bk' effs rule: unsubscribe_all.induct)
  case (1 io sid bk)
  then show ?case by simp
next
  case (2 io sid name1 w1 rest bk)
  obtain bk1 e1 where u: "unsubscribe_from io sid w1 bk = (bk1, e1)" by fastforce
  obtain bk2 e2 where r: "unsubscribe_all io sid rest bk1 = (bk2, e2)" by fastforce
  have bk': "bk' = bk2" using "2.prems"(1) u r by simp
  note q = unsubscribe_from_leaving [OF u] unsubscribe_all_leaving [OF r]
  have k1: "channels_ok (bk_channels bk1)" using q "2.prems"(2) by blast
  show ?case
  proof (cases "(name, w) \<in> set rest")
    case True
    have "born bk1 (fst w) = snd w" using q "2.prems"(5) by (simp add: born_def)
    with "2.IH" [OF u [symmetric] refl r k1 "2.prems"(3) True] bk' show ?thesis by simp
  next
    case False
    then have "w = w1" using "2.prems"(4) by simp
    with unsubscribe_from_leaves [OF u "2.prems"(2,3)] "2.prems"(5) have "fst w \<notin> members bk1 sid" by simp
    with q k1 bk' show ?thesis by blast
  qed
qed

text \<open>
  an error, a close frame, a disconnect and a failed delivery all end in \<^verbatim>\<open>OnSocketError\<close>, which
  takes the session out of every channel it had joined and that still exists, provided the
  channels' locks are free, and closes its socket.
\<close>

theorem session_leaves:
  assumes "channels_ok (bk_channels bk)" "\<forall>name. fst (io_chan_locks io name)"
    and "um_find (SubscribedTo s) name = Some w" "lock_weak bk w = Some ch"
    and "OnSocketError io s bk = (f, s', bk', out)"
  shows "fst w \<notin> members bk' (subsId s) \<and> fdSocket (so s') \<le> 0"
proof -
  obtain bk1 effs where u: "unsubscribe_all io (subsId s) (SubscribedTo s) bk = (bk1, effs)" by fastforce
  have "(name, w) \<in> set (SubscribedTo s)" using assms(3) by (simp add: um_find_def map_of_SomeD)
  moreover have "born bk (fst w) = snd w" using assms(4) by (simp add: lock_weak_def split: if_splits)
  ultimately have "fst w \<notin> members bk1 (subsId s)"
    using unsubscribe_all_leaves [OF u assms(1) assms(2)] by blast
  moreover obtain r so' closed where "SocketClose (so s) = (r, so', closed)" by (metis prod_cases3)
  moreover from this have "fdSocket so' \<le> 0"
    by (auto simp: SocketClose_def PollDelete_def Let_def split: if_splits prod.splits)
  ultimately show ?thesis using u assms(5) by (auto simp: OnSocketError_def)
qed

definition joined_session :: "nat session" where
  "joined_session = sample_session\<lparr>SubscribedTo := [(''news'', (''7#news'', 1))]\<rparr>"

definition joined_broker :: broker where
  "joined_broker = \<lparr>bk_channels = [(''7#news'',
      (new_channel PublicChannel ''7#news'' ''news'' ''7'' autoclose_yes)\<lparr>chSubscribers := [''s1'']\<rparr>)],
    bk_born = [(''7#news'', 1)], bk_msgid = 0\<rparr>"

lemma joined_ok: "registry_ok (bk_channels joined_broker)"
  by (auto simp: registry_ok_def joined_broker_def um_wf_def um_find_def channel_ok_def new_channel_def
      chan_uid_def split: if_splits)

theorem session_leaves_witness:
  "\<exists>f s' bk' out. OnSocketError sample_io joined_session joined_broker = (f, s', bk', out)
     \<and> ''7#news'' \<notin> members bk' ''s1'' \<and> fdSocket (so s') \<le> 0"
proof -
  obtain f s' bk' out where o: "OnSocketError sample_io joined_session joined_broker = (f, s', bk', out)"
    by (metis prod_cases4)
  have "\<forall>name. fst (io_chan_locks sample_io name)" by (simp add: sample_io_def)
  moreover have "um_find (SubscribedTo joined_session) ''news'' = Some (''7#news'', 1)"
    by (simp add: joined_session_def um_find_def)
  moreover have "\<exists>ch. lock_weak joined_broker (''7#news'', 1) = Some ch"
    by (simp add: lock_weak_def joined_broker_def born_def um_find_def)
  moreover have "subsId joined_session = ''s1''" by (simp add: joined_session_def sample_session_def)
  ultimately show ?thesis using session_leaves [OF registry_channels_ok [OF joined_ok] _ _ _ o, of "''news''" "(''7#news'', 1)"] o by auto
qed

lemma sub_channel_Some:
  assumes "sub_channel msg = Inr (Some name)"
  shows "\<exists>data. json_at msg ''data'' = Inr data \<and> is_object data \<and> json_at data ''channel'' = Inr (JStr name)
    \<and> name \<noteq> [] \<and> length name \<le> MaxChannelNameLength"
proof -
  obtain data c where d: "json_at msg ''data'' = Inr data" "is_object data" "json_at data ''channel'' = Inr c"
    and c: "(case c of JStr name \<Rightarrow>
          if \<not> json_empty c \<and> name \<noteq> [] \<and> length name \<le> MaxChannelNameLength then Some name else None
        | _ \<Rightarrow> None) = Some name"
    using assms by (auto simp: sub_channel_def bind_outcome_eq_Inr split: if_splits)
  from c have "c = JStr name \<and> name \<noteq> [] \<and> length name \<le> MaxChannelNameLength"
    by (cases c) (auto split: if_splits)
  with d show ?thesis by blast
qed

text \<open>
  a client that leaves a channel as its last member and joins it again cannot leave it any
  more: \<^verbatim>\<open>SubscribedTo\<close> keeps the pointer to the channel that was closed, \<^verbatim>\<open>emplace\<close> does not replace
  it, and a later \<^verbatim>\<open>pusher:unsubscribe\<close> does nothing. (Here the first channel is already gone.)
\<close>

theorem pusher_stuck_subscription:
  assumes "um_find (SubscribedTo s) name = Some (uid, n)" "uid = chan_uid (cr_Id (app_cred (App s))) name"
    and "um_find (bk_channels bk) uid = None" "n \<le> born bk uid"
    and "sub_channel msg = Inr (Some name)" "ChannelType name = ch_pub"
    and "allowed io ch_pub name [] [] (pusher_touch io s) = Inr True"
    and "\<forall>b. io_send io b = None" "fdSocket (so s) > 0"
  shows "\<exists>s' bk' out. OnPusherSubscribe io msg s bk = (None, s', bk', out) \<and> uid \<in> members bk' (subsId s)
    \<and> OnPusherUnSubscribe io msg s' bk' = (None, s', bk', [])"
proof -
  let ?s = "pusher_touch io s"
  define ch where "ch = (new_channel PublicChannel uid name (cr_Id (app_cred (App s))) autoclose_yes)\<lparr>chSubscribers := [subsId s]\<rparr>"
  define bk' where "bk' = bk\<lparr>bk_channels := um_assign uid ch (um_emplace uid
      (new_channel PublicChannel uid name (cr_Id (app_cred (App s))) autoclose_yes) (bk_channels bk)),
      bk_born := um_assign uid (Suc (born bk uid)) (bk_born bk)\<rparr>"
  have s: "App ?s = App s" "subsId ?s = subsId s" "SubscribedTo ?s = SubscribedTo s" "so ?s = so s"
    by (simp_all add: pusher_touch_def)
  have keep: "um_emplace name (uid, m) (SubscribedTo s) = SubscribedTo s" for m
    using assms(1) by (simp add: um_emplace_def um_find_def) (metis domI dom_map_of_conv_image_fst)
  have "OnPusherSubscribe io msg s bk = join_and_reply io ch_pub name Inr (succeeded_text io name) ?s bk"
    using assms(5-7) by (simp add: OnPusherSubscribe_def Let_def guarded_def)
  moreover have "\<exists>x. join_channel io ch_pub name Inr ?s bk = (Some ch, (None, ?s, bk', x))"
    using assms(2,3) s keep
    by (simp add: join_channel_def Register_def Let_def channel_Subscribe_def Subscribe_def subs_emplace_def
        settle_def new_channel_def ch_def bk'_def triggers_def)
  moreover have "io_send io = (\<lambda>_. None)" using assms(8) by auto
  ultimately have "\<exists>out. OnPusherSubscribe io msg s bk = (None, ?s, bk', out)"
    using assms(9) s Make_nonempty by (auto simp: join_and_reply_def andthen_def sess_write_ok)
  moreover have "uid \<in> members bk' (subsId s)" by (simp add: members_def bk'_def ch_def new_channel_def)
  moreover have "lock_weak bk' (uid, n) = None" using assms(4) by (simp add: lock_weak_def born_def bk'_def)
  then have "OnPusherUnSubscribe io msg ?s bk' = (None, ?s, bk', [])"
    using assms(1) sub_channel_Some [OF assms(5)] s by (auto simp: OnPusherUnSubscribe_def unsubscribe_from_def)
  ultimately show ?thesis by blast
qed

theorem pusher_stuck_subscription_witness:
  "\<exists>s' bk' out. OnPusherSubscribe sample_io (subscribe_msg ''news'' []) joined_session
        (joined_broker\<lparr>bk_channels := []\<rparr>) = (None, s', bk', out)
    \<and> ''7#news'' \<in> members bk' (subsId joined_session)
    \<and> OnPusherUnSubscribe sample_io (subscribe_msg ''news'' []) s' bk' = (None, s', bk', [])"
proof (rule pusher_stuck_subscription [of _ "''news''" _ 1])
  show "allowed sample_io ch_pub ''news'' [] [] (pusher_touch sample_io joined_session) = Inr True"
    by (simp add: allowed_def IsAllowChannelSession_def joined_session_def sample_session_def sample_app_def
        capplication_new_def credential_new_def credential_copy_def cflag_and_def pusher_touch_def)
  show "''7#news'' = chan_uid (cr_Id (app_cred (App joined_session))) ''news''"
    by (simp add: joined_session_def sample_session_def sample_app_def capplication_new_def credential_copy_def chan_uid_def)
qed (simp_all add: joined_session_def joined_broker_def um_find_def born_def sample_sub ChannelType_def starts_with_def
      sample_io_def sample_session_def csocket_new_def)

section \<open>Exceptions\<close>

lemma pusher_no_event_fails:
  assumes "io_parse io data = Some (JObj fs)" "um_wf fs" "fs \<noteq> []"
    and "um_find fs ''event'' = None" "um_find fs ''options'' = None"
  shows "\<exists>s' bk'. pusher_OnWsMessage io data s bk = (Some (Throw ''type_error.302''), s', bk', [])"
proof -
  obtain msg where msg: "msg_stamp (bk_msgid bk + 1) (io_clock io) (subsId s) (JObj fs) = Inr msg"
    using json_sets_ok [of "JObj fs"] assms(2) by (auto simp: msg_stamp_def json_wf_def)
  have "json_find msg k = um_find fs k" "is_object msg" if "k \<in> {''event'', ''options''}" for k
    using json_sets_find [OF msg [unfolded msg_stamp_def]] assms(2) that by (auto simp: json_wf_def)
  then have "json_find msg ''event'' = None" "json_find msg ''options'' = None" "is_object msg"
    using assms(4,5) by auto
  then have "msg_options (io_clock io) msg = Inr msg" "json_at msg ''event'' = Inr JNull"
    by (simp_all add: msg_options_def contains_def json_at_find)
  with msg assms(1,3) show ?thesis
    by (simp add: pusher_OnWsMessage_def pusher_touch_def msg_Unserialize_def cjson_Unserialize_def pusher_dispatch_def Let_def)
qed

text \<open>
  a Pusher message without an event ends in an exception that nothing on the way catches: any
  object that has neither an \<^verbatim>\<open>event\<close> nor \<^verbatim>\<open>options\<close>, from any connected client.
\<close>

theorem pusher_no_event_throws:
  assumes "io_parse io data = Some (JObj fs)" "um_wf fs" "fs \<noteq> []"
    and "um_find fs ''event'' = None" "um_find fs ''options'' = None"
  shows "\<exists>s' bk'. pusher_OnWsMessage io data s bk = (Some (Throw ''type_error.302''), s', bk', [])"
  using assms by (rule pusher_no_event_fails)

theorem pusher_no_event_throws_witness:
  "\<exists>s' bk'. pusher_OnWsMessage (sample_io\<lparr>io_parse := (\<lambda>_. Some (JObj [(''a'', JInt 1)]))\<rparr>) ''x'' sample_session empty_broker
     = (Some (Throw ''type_error.302''), s', bk', [])"
  by (rule pusher_no_event_throws [where fs = "[(''a'', JInt 1)]"]) (simp_all add: um_wf_def um_find_def)

section \<open>Connecting to the websocket protocol\<close>

lemma ws_channels_admits:
  "admits (\<lambda>sid uid. sid = subsId s \<and> (\<exists>name \<in> set names. uid = chan_uid (cr_Id (app_cred (App s))) name
      \<and> IsAllowChannelToken (io_hmac io) (io_dec io) (nat (io_now io)) (App s) (ChannelType name) name token origin = Inr True))
    s bk (snd (ws_channels io token origin names s bk))"
proof (induction names arbitrary: s bk)
  case Nil
  then show ?case by simp
next
  case (Cons name names)
  let ?allow = "IsAllowChannelToken (io_hmac io) (io_dec io) (nat (io_now io)) (App s) (ChannelType name) name token origin"
  let ?grant = "\<lambda>names sid uid. sid = subsId s \<and> (\<exists>name \<in> set names. uid = chan_uid (cr_Id (app_cred (App s))) name
      \<and> IsAllowChannelToken (io_hmac io) (io_dec io) (nat (io_now io)) (App s) (ChannelType name) name token origin = Inr True)"
  have rest: "admits (?grant (name # names)) s' bk' (snd (ws_channels io token origin names s' bk'))"
    if "subsId s' = subsId s" "App s' = App s" for s' :: "'a session" and bk'
    using Cons.IH [of s' bk'] that by (auto elim!: admits_mono)
  consider g where "?allow = Inl g" | "?allow = Inr False" | "?allow = Inr True"
    by (cases ?allow) (metis (full_types))+
  then show ?case
  proof cases
    case 1
    then show ?thesis by simp
  next
    case 2
    then show ?thesis using rest [of s bk] by simp
  next
    case 3
    obtain reg g s1 bk1 out1 where j: "join_channel io (ChannelType name) name Inr s bk = (reg, (g, s1, bk1, out1))"
      by (metis prod_cases5)
    have joined: "admits (?grant (name # names)) s bk (h, s1, bk1, out1)" for h
      using join_channel_admits [of Inr s name bk io "ChannelType name"] 3 by (auto simp: j admits_def)
    have failed: "reg = None \<Longrightarrow> g = None" using j by (auto simp: join_channel_def Let_def split: option.splits prod.splits sum.splits)
    obtain m f2 s2 bk2 out2 where w: "ws_channels io token origin names s1 bk1 = (m, f2, s2, bk2, out2)"
      by (metis prod_cases5)
    have "snd (ws_channels io token origin (name # names) s bk) =
        andthen (g, s1, bk1, out1) (\<lambda>s bk. snd (ws_channels io token origin names s bk))"
      using 3 j w failed by (cases reg; cases g) (auto simp: andthen_def)
    then show ?thesis using admits_andthen [OF joined rest] by simp
  qed
qed

lemma ws_OnWsConnect_admits:
  "admits (\<lambda>sid uid. sid = subsId s \<and> (\<exists>name \<in> set (drop 4 (uriPathList path)). uid = chan_uid (cr_Id (app_cred (App s))) name
      \<and> IsAllowChannelToken (io_hmac io) (io_dec io) (nat (io_now io)) (App s) (ChannelType name) name
          (GetValue headers ''authorization'' (uri_Arg path ''token'')) (GetValue headers ''origin'' []) = Inr True))
    s bk (snd (ws_OnWsConnect io path headers s bk))"
    (is "admits ?grant _ _ _")
proof -
  let ?s = "ws_touch io s"
  let ?chans = "ws_channels io (GetValue headers ''authorization'' (uri_Arg path ''token''))
      (GetValue headers ''origin'' []) (drop 4 (uriPathList path)) ?s bk"
  have s: "subsId ?s = subsId s" "App ?s = App s" by (simp_all add: ws_touch_def)
  obtain n g s1 bk1 out1 where w: "?chans = (n, g, s1, bk1, out1)" by (metis prod_cases5)
  have chans: "admits ?grant s bk (g, s1, bk1, out1)"
    using ws_channels_admits [of ?s "drop 4 (uriPathList path)" io "GetValue headers ''authorization'' (uri_Arg path ''token'')"
        "GetValue headers ''origin'' []" bk]
    by (simp add: w admits_cong [OF s refl] s)
  have close: "admits ?grant s' bk' (sess_close io PolicyViolation s' bk')" for s' :: "'a session" and bk'
    by (rule leaving_admits) (simp add: sess_close_def ws_react_leaving)
  show ?thesis
    using chans admits_andthen [OF chans close]
      admits_andthen [OF chans, of "\<lambda>s bk. (None, s, bk, [OutEnqueueGc])"] w s
    by (cases g) (auto simp: ws_OnWsConnect_def Let_def)
qed

text \<open>
  C8: a client of the websocket protocol is subscribed to the channels of its path only, and to each
  only with leave: for every channel a connection makes any session a member of, the session
  is the new one and the token check of that very channel has succeeded.
\<close>

theorem ws_connect_authorised:
  assumes "channels_ok (bk_channels bk)" "ws_OnWsConnect io path headers s bk = (accepted, f, s', bk', out)"
    and "uid \<in> members bk' sid" "uid \<notin> members bk sid"
  shows "sid = subsId s \<and> (\<exists>name \<in> set (drop 4 (uriPathList path)). uid = chan_uid (cr_Id (app_cred (App s))) name
    \<and> IsAllowChannelToken (io_hmac io) (io_dec io) (nat (io_now io)) (App s) (ChannelType name) name
        (GetValue headers ''authorization'' (uri_Arg path ''token'')) (GetValue headers ''origin'' []) = Inr True)"
  using ws_OnWsConnect_admits [of s path io headers bk] assms by (auto simp: admits_def)

lemma sample_ws_join:
  "\<exists>s' bk' out. ws_OnWsConnect sample_io (empty_uri\<lparr>uriPathList := [''/'', ''ws'', ''v1'', ''k'', ''news'']\<rparr>) [] sample_session empty_broker
     = (True, None, s', bk', out) \<and> ''7#news'' \<in> members bk' ''s1''"
proof -
  have t: "ChannelType ''news'' = ch_pub" by (simp add: ChannelType_def starts_with_def)
  have f: "cr_Id (app_cred (App sample_session)) = ''7''" "subsId sample_session = ''s1''"
    "has_flag (cr_Channels (app_cred (App sample_session))) 1"
    "cr_Origins (app_cred (App sample_session)) = []"
    by (simp_all add: sample_session_def sample_app_def capplication_new_def credential_copy_def credential_new_def cflag_and_def)
  show ?thesis
    by (simp add: ws_OnWsConnect_def t f IsAllowChannelToken_def ws_touch_def join_channel_def empty_broker_def Register_def
        Let_def um_find_def chan_uid_def channel_Subscribe_def Subscribe_def subs_emplace_def settle_def new_channel_def
        um_emplace_def um_assign_def born_def triggers_def constructed_def andthen_def members_def)
qed

theorem ws_connect_authorised_witness:
  "IsAllowChannelToken (io_hmac sample_io) (io_dec sample_io) 100 (App sample_session) (ChannelType ''news'') ''news'' [] []
     = Inr True"
proof -
  let ?path = "empty_uri\<lparr>uriPathList := [''/'', ''ws'', ''v1'', ''k'', ''news'']\<rparr>"
  obtain s' bk' out where j: "ws_OnWsConnect sample_io ?path [] sample_session empty_broker = (True, None, s', bk', out)"
      "''7#news'' \<in> members bk' ''s1''" using sample_ws_join by blast
  have "channels_ok (bk_channels empty_broker)" by (rule empty_broker_ok)
  moreover have "''7#news'' \<notin> members empty_broker ''s1''" by (simp add: members_def empty_broker_def)
  moreover have "nat (io_now sample_io) = 100" by (simp add: sample_io_def)
  ultimately show ?thesis using ws_connect_authorised [OF _ j]
    by (simp add: GetValue_def uri_Arg_def empty_uri_def um_find_def)
qed

section \<open>Publishing\<close>

text \<open>What a message of the websocket protocol is read as.\<close>

lemma ws_UnPack_stamped:
  assumes "ws_UnPack io data s bk = (Some msg, bk')" "\<forall>doc j. io_parse io doc = Some j \<longrightarrow> json_wf j"
  shows "msg_from msg = Inr (subsId s) \<and> bk_channels bk' = bk_channels bk \<and> bk_born bk' = bk_born bk"
proof -
  obtain m where m: "msg_Unserialize (io_parse io) (bk_msgid bk) (io_clock io) data (subsId s) = (Some msg, m)"
    and bk': "bk' = bk\<lparr>bk_msgid := m\<rparr>"
    using assms(1) by (auto simp: ws_UnPack_def Let_def split: prod.splits option.splits if_splits sum.splits)
  from Unserialize_stamped [OF m assms(2)] have "json_find msg ''#msg-from'' = Some (JStr (subsId s))" "is_object msg"
    by (simp_all add: stamped_def)
  with bk' show ?thesis by (simp add: msg_from_def json_at_find)
qed

text \<open>
  C9: a client publishes only where it is subscribed: whenever a message of a websocket session
  is delivered to anybody, the channel named in it is one the session joined and that still
  exists, its type is enabled for publishing in the configuration, the receiver is one of its
  subscribers, and the message bears the session as its producer.
\<close>

theorem ws_push_subscribed:
  assumes "ws_OnWsMessage io data s bk = (f, s', bk', out)" "(x, msg) \<in> delivered out"
    and "\<forall>doc j. io_parse io doc = Some j \<longrightarrow> json_wf j"
  shows "\<exists>name w ch. json_at msg ''channel'' = Inr (JStr name) \<and> um_find (SubscribedTo s) name = Some w
    \<and> lock_weak bk w = Some ch \<and> has_flag (EnablePushOnChannels s) (channels_code (chType ch))
    \<and> x \<in> set (chSubscribers ch) \<and> msg_from msg = Inr (subsId s)"
proof -
  let ?s = "ws_touch io s"
  have s: "subsId ?s = subsId s" "SubscribedTo ?s = SubscribedTo s" "EnablePushOnChannels ?s = EnablePushOnChannels s"
    by (simp_all add: ws_touch_def)
  obtain r g s1 bk1 out1 where t: "ws_try io data ?s bk = (r, g, s1, bk1, out1)" by (metis prod_cases5)
  obtain f2 s2 bk2 out2 where e: "OnSocketError io s1 bk1 = (f2, s2, bk2, out2)" by (metis prod_cases4)
  have "(x, msg) \<in> delivered out1"
    using assms(1,2) t e OnSocketError_leaving [of s1 bk1 io]
    by (auto simp: ws_OnWsMessage_def andthen_def leaving_def split: if_splits)
  then obtain m bk0 name w ch where u: "ws_UnPack io data ?s bk = (Some m, bk0)"
      and c: "json_at m ''channel'' = Inr (JStr name)"
      and w: "um_find (SubscribedTo s) name = Some w" "lock_weak bk0 w = Some ch"
      and d: "ws_deliver io name m ch ?s bk0 = (g, s1, bk1, out1)"
    using t s by (auto simp: ws_try_def delivered_def bind_outcome_eq_Inr get_string_eq_Inr split: prod.splits option.splits sum.splits)
  note st = ws_UnPack_stamped [OF u assms(3)]
  have flag: "has_flag (EnablePushOnChannels s) (channels_code (chType ch))"
    using d \<open>(x, msg) \<in> delivered out1\<close> s by (auto simp: ws_deliver_def delivered_def split: if_splits)
  then obtain n ch' effs where p: "base_Push (io_env io) (io_sub_locks io) m ch = Inr (n, ch', effs)" "Deliver x msg \<in> set effs"
    using d \<open>(x, msg) \<in> delivered out1\<close> s
    by (auto simp: ws_deliver_def delivered_def channel_Push_def settle_no_delivery split: if_splits sum.splits prod.splits)
  have "lock_weak bk w = Some ch" using w(2) st by (auto simp: lock_weak_def born_def split: if_splits)
  with base_Push_deliveries [OF p] st c w(1) flag s show ?thesis by (cases w) auto
qed

definition push_io :: io where
  "push_io = sample_io\<lparr>io_parse := (\<lambda>_. Some (JObj [(''channel'', JStr ''news''), (''event'', JStr ''e''), (''data'', JNull)])),
     io_env := sample_env\<lparr>push_result := (\<lambda>s m. True)\<rparr>\<rparr>"

definition push_broker :: broker where
  "push_broker = joined_broker\<lparr>bk_channels := [(''7#news'',
      (new_channel PublicChannel ''7#news'' ''news'' ''7'' autoclose_yes)\<lparr>chSubscribers := [''s1'', ''s2'']\<rparr>)]\<rparr>"

lemma sample_ws_push:
  "\<exists>s' bk' out msg. ws_OnWsMessage push_io ''x'' (joined_session\<lparr>EnablePushOnChannels := 1\<rparr>) push_broker = (None, s', bk', out)
     \<and> (''s2'', msg) \<in> delivered out"
  by (simp add: ws_OnWsMessage_def ws_try_def ws_UnPack_def msg_Unserialize_def cjson_Unserialize_def push_io_def
      sample_io_def msg_stamp_def msg_options_def contains_def um_find_def um_assign_def ws_touch_def joined_session_def
      sample_session_def lock_weak_def born_def push_broker_def joined_broker_def MaxChannelNameLength_def
      ws_deliver_def new_channel_def channel_Push_def base_Push_def select_subscribers_def msg_delivery_def msg_socket_def
      msg_from_def cflag_and_def sample_env_def Let_def settle_def close_if_empty_def log_event_def delivered_def)

theorem ws_push_subscribed_witness:
  "\<exists>w ch. um_find (SubscribedTo joined_session) ''news'' = Some w
    \<and> lock_weak push_broker w = Some ch \<and> ''s2'' \<in> set (chSubscribers ch)"
proof -
  obtain s' bk' out msg where p: "ws_OnWsMessage push_io ''x'' (joined_session\<lparr>EnablePushOnChannels := 1\<rparr>) push_broker = (None, s', bk', out)"
      "(''s2'', msg) \<in> delivered out" using sample_ws_push by blast
  have "\<forall>doc j. io_parse push_io doc = Some j \<longrightarrow> json_wf j" by (simp add: push_io_def json_wf_def um_wf_def)
  from ws_push_subscribed [OF p this] show ?thesis
    by (auto simp: joined_session_def um_find_def split: if_splits)
qed

text \<open>
  subscribing to a presence channel as a user throws: with leave and channel data that names a
  user, the confirmation the channel sends to its members cannot be read back, and the
  exception leaves the session's handler.
\<close>

theorem pusher_presence_throws:
  assumes "sub_channel msg = Inr (Some name)" "ChannelType name = ch_pres"
    and "sub_field msg ''auth'' = Inr (Some auth)" "sub_field msg ''channel_data'' = Inr (Some cd)"
    and "IsAllowChannelSession (io_hmac io) (App s) ch_pres (subsId s) name auth cd [] = Inr True"
    and "cjson_Unserialize (io_parse io) cd = Some ui" "json_at ui ''user_id'' = Inr (JStr u)" "u \<noteq> []"
    and "um_find (bk_channels bk) (chan_uid (cr_Id (app_cred (App s))) name) = None"
  shows "\<exists>s' bk' out. OnPusherSubscribe io msg s bk = (Some (Throw ''type_error.302''), s', bk', out)"
proof -
  let ?s = "(pusher_touch io s)\<lparr>SessionPresenceData := cd\<rparr>"
  let ?app = "cr_Id (app_cred (App s))"
  let ?ch = "new_channel PresenceChannel (chan_uid ?app name) name ?app autoclose_yes"
  have s: "App ?s = App s" "subsId ?s = subsId s" by (simp_all add: pusher_touch_def)
  have run: "OnPusherSubscribe io msg s bk = join_and_reply io ch_pres name (set_user io) (presence_text io name) ?s bk"
    using assms(1-5) s by (simp add: OnPusherSubscribe_def Let_def guarded_def allowed_def pusher_touch_def)
  have user: "set_user io ?s = Inr (?s\<lparr>SessionUserId := u\<rparr>)" using assms(6,7) by (simp add: set_user_def)
  define s2 where "s2 = ?s\<lparr>SessionUserId := u, SubscribedTo := um_emplace name
      (chan_uid ?app name, Suc (born bk (chan_uid ?app name))) (SubscribedTo ?s)\<rparr>"
  obtain f ch' effs m where c: "channel_Subscribe io s2 (bk_msgid bk) ?ch = (f, ch', effs, m)" by (metis prod_cases4)
  have kind: "chKind ?ch = PresenceChannel" "distinct (chSubscribers ?ch)" by (simp_all add: new_channel_def)
  have f: "f = Some (Throw ''type_error.302'')"
    using presence_confirmation_throws
      [OF _ assms(8) kind(2) c [unfolded channel_Subscribe_def if_P [OF kind(1)]], of cd]
    by (simp add: s2_def)
  have "\<exists>bk' out. join_channel io ch_pres name (set_user io) ?s bk = (Some ch', (f, s2, bk', out))"
    using assms(9) s user c
    by (simp add: join_channel_def Register_def Let_def s2_def split: prod.split)
  then show ?thesis using run f by (auto simp: join_and_reply_def andthen_def)
qed

lemma signature_valid:
  assumes "io_hmac io = (\<lambda>_ _. Some digest)" "length digest = 32"
  shows "ValidateSession (io_hmac io) app (''k'' @ '':'' @ hex_text digest) session channel data = Inr True"
proof -
  have "after_colon (''k'' @ '':'' @ hex_text digest) = hex_text digest"
    using after_colon_prefixed [of "''k''" "hex_text digest"] by simp
  moreover have "TrimBlank (hex_text digest) = hex_text digest"
    by (rule TrimBlank_plain) (auto dest: hex_text_is_hex is_hex_plain)
  ultimately show ?thesis
    using assms digest_loop_hex [of digest "[]"] by (simp add: ValidateSession_def Let_def)
qed

definition presence_io :: io where
  "presence_io = sample_io\<lparr>io_parse := (\<lambda>_. Some (JObj [(''user_id'', JStr ''u1'')]))\<rparr>"

definition presence_session :: "nat session" where
  "presence_session = sample_session\<lparr>App := sample_app\<lparr>app_cred := (app_cred sample_app)\<lparr>cr_Channels := channels_code ch_pres\<rparr>\<rparr>\<rparr>"

definition presence_msg :: json where
  "presence_msg = JObj [(''event'', JStr ''pusher:subscribe''), (''data'', JObj [(''channel'', JStr ''presence-a''),
     (''auth'', JStr (''k'' @ '':'' @ hex_text (replicate 32 0))), (''channel_data'', JStr ''{}'')])]"

theorem pusher_presence_throws_witness:
  "\<exists>s' bk' out. OnPusherSubscribe presence_io presence_msg presence_session empty_broker
     = (Some (Throw ''type_error.302''), s', bk', out)"
proof (rule pusher_presence_throws [where ui = "JObj [(''user_id'', JStr ''u1'')]" and u = "''u1''"])
  show "sub_channel presence_msg = Inr (Some ''presence-a'')"
    by (simp add: sub_channel_def presence_msg_def um_find_def MaxChannelNameLength_def)
  show "ChannelType ''presence-a'' = ch_pres" by (simp add: ChannelType_def starts_with_def)
  show "sub_field presence_msg ''auth'' = Inr (Some (''k'' @ '':'' @ hex_text (replicate 32 0)))"
    "sub_field presence_msg ''channel_data'' = Inr (Some ''{}'')"
    by (simp_all add: sub_field_def presence_msg_def um_find_def)
  have "ValidateSession (io_hmac presence_io) app (''k'' @ '':'' @ hex_text (replicate 32 0)) x y z = Inr True" for app x y z
    by (rule signature_valid) (simp_all add: presence_io_def sample_io_def)
  then show "IsAllowChannelSession (io_hmac presence_io) (App presence_session) ch_pres (subsId presence_session)
      ''presence-a'' (''k'' @ '':'' @ hex_text (replicate 32 0)) ''{}'' [] = Inr True"
    by (simp add: IsAllowChannelSession_def presence_session_def sample_app_def capplication_new_def
        credential_new_def credential_copy_def cflag_and_def)
qed (simp_all add: presence_io_def cjson_Unserialize_def um_find_def empty_broker_def)

end
