(* ===== verification/ApiProps.thy ===== *)
theory ApiProps
  imports Api SessionProps
begin

text \<open>
  Properties of the HTTP interface: who may use it, what a published event does on this node and in
  the cluster, that a token it issues is accepted when a client subscribes, and the requests for
  which the code's behaviour is undefined or not what it means.
\<close>

section \<open>Only applications that are known\<close>

fun api_code :: "api_out \<Rightarrow> string option" where
  "api_code (ApiWrite code body headers) = Some code"
| "api_code _ = None"

lemma api_answer_simps [simp]:
  "fst (api_answer ae code bk) = None" "fst (snd (api_answer ae code bk)) = bk"
  "snd (snd (api_answer ae code bk)) = ApiResponse ae code [] True"
  by (simp_all add: api_answer_def)

lemma ApiResponse_code: "List.map_filter api_code (ApiResponse ae code body close) = [code]"
  by (simp add: ApiResponse_def List.map_filter_simps)


definition sample_api :: api_env where
  "sample_api = \<lparr>ae_io = sample_io, ae_credentials = \<lparr>appIds = [(''7'', sample_app)], appCreds = [(''k'', sample_app)]\<rparr>,
     ae_timeout = ''20'', ae_enc = (\<lambda>_ _. None), ae_rnd = 0, ae_took = 5\<rparr>"


section \<open>Publishing an event\<close>

fun api_effects :: "api_out list \<Rightarrow> effect list" where
  "api_effects [] = []"
| "api_effects (ApiEffect e # out) = e # api_effects out"
| "api_effects (_ # out) = api_effects out"

lemma api_effects_append [simp]: "api_effects (xs @ ys) = api_effects xs @ api_effects ys"
  by (induction xs rule: api_effects.induct) simp_all

lemma api_effects_map [simp]: "api_effects (map ApiEffect effs) = effs"
  by (induction effs) simp_all

lemma api_effects_response [simp]: "api_effects (ApiResponse ae code body close) = []"
  by (simp add: ApiResponse_def)

fun cluster_pushes :: "effect list \<Rightarrow> (string \<times> string \<times> json) list" where
  "cluster_pushes [] = []"
| "cluster_pushes (ClusterPush t app name msg # effs) = (app, name, msg) # cluster_pushes effs"
| "cluster_pushes (_ # effs) = cluster_pushes effs"

lemma cluster_pushes_append [simp]: "cluster_pushes (xs @ ys) = cluster_pushes xs @ cluster_pushes ys"
  by (induction xs rule: cluster_pushes.induct) simp_all

lemma cluster_pushes_UnSubscribe: "UnSubscribe l1 l2 s ch = (ch', effs) \<Longrightarrow> cluster_pushes effs = []"
  by (auto simp: UnSubscribe_def Let_def close_if_empty_def triggers_def split: if_splits)

lemma cluster_pushes_deliver: "deliver_all e locks msg to ch = (ch', effs) \<Longrightarrow> cluster_pushes effs = []"
  by (induction to arbitrary: ch effs)
    (auto simp: Let_def split: prod.splits if_splits dest!: cluster_pushes_UnSubscribe)

lemma cluster_pushes_settle:
  "settle ch effs chans = (chans', effs') \<Longrightarrow> cluster_pushes effs' = cluster_pushes effs \<and> deliveries effs' = deliveries effs"
  by (auto simp: settle_def destroyed_def triggers_def split: if_splits)

lemma cluster_pushes_base_Push:
  assumes "base_Push e locks msg ch = Inr (n, ch', effs)"
  shows "cluster_pushes effs = []"
proof -
  have d: "cluster_pushes (snd (deliver_all e locks msg to c)) = []" for to c
    by (rule cluster_pushes_deliver [OF prod.collapse [symmetric]])
  show ?thesis
    using assms by (auto simp: base_Push_def bind_outcome_eq_Inr Let_def close_if_empty_def case_prod_beta d)
qed

lemma api_code_effects [simp]: "List.map_filter api_code (map ApiEffect effs) = []"
  by (induction effs) (simp_all add: List.map_filter_simps)

text \<open>The channel part of an event.\<close>

lemma api_push_channel_effects:
  assumes "GetChannel app name (bk_channels bk) = Some ch" "DupChannelMessage msg name = Inr dup"
    and "msg_delivery dup = Inr d" "msg_from dup = Inr from" "msg_socket dup = Inr sock" "distinct (chSubscribers ch)"
  shows "\<exists>bk' effs. api_push_channel ae app msg name bk =
      (length (filter (\<lambda>s. alive (io_env (ae_io ae)) s \<and> recipient d from sock s) (chSubscribers ch)),
       (None, bk', map ApiEffect effs))
    \<and> cluster_pushes effs = [(chApp ch, chName ch, dup)]
    \<and> deliveries effs = map (\<lambda>s. (s, dup))
        (filter (\<lambda>s. alive (io_env (ae_io ae)) s \<and> recipient d from sock s) (chSubscribers ch))"
proof -
  let ?to = "filter (\<lambda>s. alive (io_env (ae_io ae)) s \<and> recipient d from sock s) (chSubscribers ch)"
  obtain ch' effs where p: "base_Push (io_env (ae_io ae)) (io_sub_locks (ae_io ae)) dup ch = Inr (length ?to, ch', effs)"
    and d: "deliveries effs = map (\<lambda>s. (s, dup)) ?to"
    using base_Push_recipients [OF assms(3-6), of "io_env (ae_io ae)" "io_sub_locks (ae_io ae)"] by auto
  obtain chans effs' where s: "settle ch' effs (bk_channels bk) = (chans, effs')" by force
  show ?thesis
    using p d s cluster_pushes_settle [OF s] cluster_pushes_base_Push [OF p]
    by (intro exI [of _ "bk\<lparr>bk_channels := chans\<rparr>"]
        exI [of _ "ClusterPush (chType ch) (chApp ch) (chName ch) dup # effs'"])
      (simp add: api_push_channel_def assms(1,2) channel_Push_def)
qed

text \<open>C19: Publishing an event on a channel that is registered here: it is delivered to every live subscriber the
  message is for, the answer is 200 with their number, and the event is sent to the cluster twice, by
  the channel's \<^verbatim>\<open>Push\<close> and by the handler itself, so that the other nodes deliver it twice.\<close>

theorem api_event_published:
  assumes "vals \<noteq> []" "GetAppById (ae_credentials ae) (hd vals) = Some app" "content \<noteq> []"
    and "msg_Unserialize (io_parse (ae_io ae)) (bk_msgid bk) (io_clock (ae_io ae)) content ''api'' = (Some msg0, n)"
    and "api_channels_field msg0 = Inr msg" "json_find msg ''channels'' = Some (JArr [JStr name])"
    and "contains msg ''name''" "DupChannelMessage msg name = Inr dup"
    and "GetChannel (cr_Id (app_cred app)) name (bk_channels bk) = Some ch"
    and "chApp ch = cr_Id (app_cred app)" "chName ch = name"
    and "msg_delivery dup = Inr d" "msg_from dup = Inr from" "msg_socket dup = Inr sock" "distinct (chSubscribers ch)"
  shows "\<exists>bk' out. ApiOnEvents ae vals ''POST'' headers content bk = (None, bk', out)
    \<and> List.map_filter api_code out = [''200'']
    \<and> deliveries (api_effects out) = map (\<lambda>s. (s, dup))
        (filter (\<lambda>s. alive (io_env (ae_io ae)) s \<and> recipient d from sock s) (chSubscribers ch))
    \<and> cluster_pushes (api_effects out) = [(chApp ch, name, dup), (chApp ch, name, dup)]"
proof -
  have v: "val_at vals 0 = Inr (hd vals)" using assms(1) by (simp add: val_at_def hd_conv_nth)
  have obj: "is_object msg" using assms(7) by (cases msg) (auto simp: contains_def)
  let ?bk = "bk\<lparr>bk_msgid := n\<rparr>"
  obtain bk' effs where c: "api_push_channel ae (cr_Id (app_cred app)) msg name ?bk =
      (length (filter (\<lambda>s. alive (io_env (ae_io ae)) s \<and> recipient d from sock s) (chSubscribers ch)),
       (None, bk', map ApiEffect effs))"
    and eff: "cluster_pushes effs = [(chApp ch, chName ch, dup)]"
      "deliveries effs = map (\<lambda>s. (s, dup))
        (filter (\<lambda>s. alive (io_env (ae_io ae)) s \<and> recipient d from sock s) (chSubscribers ch))"
    using api_push_channel_effects [of "cr_Id (app_cred app)" name ?bk ch msg dup d "from" sock ae] assms(8,9,12-15)
    by auto
  show ?thesis
    using c eff assms(10,11)
    by (simp add: ApiOnEvents_def v api_bind_def assms(2-9) api_then_def api_cluster_push_def json_at_find [OF obj]
        ApiResponse_code List.map_filter_simps)
qed

definition sample_event :: json where
  "sample_event = JObj [(''name'', JStr ''e''), (''data'', JStr ''d''), (''channel'', JStr ''news'')]"

definition sample_api_io :: api_env where
  "sample_api_io = sample_api\<lparr>ae_io := sample_io\<lparr>io_parse := (\<lambda>_. Some sample_event)\<rparr>\<rparr>"

definition sample_event_stamped :: json where
  "sample_event_stamped = JObj [(''name'', JStr ''e''), (''data'', JStr ''d''), (''channel'', JStr ''news''),
     (''#msg-id'', JInt 1), (''#msg-arrival'', JInt 100000), (''#msg-from'', JStr ''api''), (''#msg-expired'', JInt 0),
     (''#msg-delivery'', JStr ''broadcast'')]"

definition sample_dup :: json where
  "sample_dup = JObj [(''channel'', JStr ''news''), (''event'', JStr ''e''), (''data'', JStr ''d''), (''#msg-id'', JInt 1),
     (''#msg-from'', JStr ''api''), (''#msg-arrival'', JInt 100000), (''#msg-expired'', JInt 0),
     (''#msg-delivery'', JStr ''broadcast'')]"

definition news_broker :: broker where
  "news_broker = empty_broker\<lparr>bk_channels := [(''7#news'', sample_channel)]\<rparr>"

lemma sample_event_read:
  "msg_Unserialize (\<lambda>_. Some sample_event) 0 100000 ''x'' ''api'' = (Some sample_event_stamped, 1)"
  by (simp add: msg_Unserialize_def cjson_Unserialize_def sample_event_def msg_stamp_def msg_options_def contains_def
      um_assign_def um_find_def sample_event_stamped_def)

lemma sample_dup_made:
  "DupChannelMessage (JObj (um_assign ''channels'' (JArr [JStr ''news'']) (case sample_event_stamped of JObj fs \<Rightarrow> fs)))
     ''news'' = Inr sample_dup"
  by (simp add: DupChannelMessage_def sample_event_stamped_def json_cat_def um_find_def um_assign_def copy_optional_def
      sample_dup_def List.map_filter_simps)

theorem api_event_published_witness:
  "\<exists>bk' out. ApiOnEvents sample_api_io [''7''] ''POST'' [] ''x'' news_broker = (None, bk', out)
    \<and> List.map_filter api_code out = [''200'']
    \<and> cluster_pushes (api_effects out) = [(''7'', ''news'', sample_dup), (''7'', ''news'', sample_dup)]"
proof -
  let ?msg = "JObj (um_assign ''channels'' (JArr [JStr ''news'']) (case sample_event_stamped of JObj fs \<Rightarrow> fs))"
  have "\<exists>bk' out. ApiOnEvents sample_api_io [''7''] ''POST'' [] ''x'' news_broker = (None, bk', out)
    \<and> List.map_filter api_code out = [''200'']
    \<and> deliveries (api_effects out) = map (\<lambda>s. (s, sample_dup))
        (filter (\<lambda>s. alive (io_env (ae_io sample_api_io)) s \<and> recipient broadcast ''api'' None s) (chSubscribers sample_channel))
    \<and> cluster_pushes (api_effects out) = [(chApp sample_channel, ''news'', sample_dup), (chApp sample_channel, ''news'', sample_dup)]"
    by (rule api_event_published [where app = sample_app and ?msg0.0 = sample_event_stamped and n = 1 and msg = ?msg])
      (simp_all add: sample_api_io_def sample_api_def GetAppById_def um_find_def news_broker_def empty_broker_def
        sample_io_def sample_event_read
        sample_dup_made [unfolded sample_event_stamped_def sample_dup_def um_assign_def, simplified]
        api_channels_field_def sample_event_stamped_def um_assign_def
        contains_def GetChannel_def chan_uid_def sample_channel_def new_channel_def msg_delivery_def msg_from_def
        msg_socket_def sample_dup_def sample_app_def capplication_new_def credential_copy_def credential_new_def)
  then show ?thesis by (auto simp: sample_channel_def new_channel_def)
qed

section \<open>Requests that go wrong\<close>

text \<open>The routes with the default path.\<close>

lemma api_routes_default:
  "api_routes ''apps'' None =
     Inr [(''apps'', \<lparr>route_path = [''/'', ''apps'', ''?'', ''events'', ''*''], route_callback = RouteEvents\<rparr>),
          (''apps'', \<lparr>route_path = [''/'', ''apps'', ''?'', ''token'', ''?''], route_callback = RouteToken\<rparr>),
          (''apps'', \<lparr>route_path = [''/'', ''apps'', ''?'', ''channels'', ''?''], route_callback = RouteChannels\<rparr>)]"
  by code_simp

text \<open>A request for \<^verbatim>\<open>/apps/x\<close>, whatever the method and the headers, is undefined: the route is compared with the
  path part after the last one. No credentials are needed for it.\<close>

theorem api_short_path_undefined:
  assumes "segment_ok x"
  shows "\<exists>u. bind_outcome (api_routes ''apps'' None) (\<lambda>rs.
      OnHttpRequest ae rs method (parse_uri (join_path [''apps'', x])) headers content bk) = Inl (UB u)"
proof -
  have "uriPathList (parse_uri (join_path [''apps'', x])) = [''/'', ''apps'', x]"
    by (rule uriPathList_join) (use assms in \<open>simp_all add: segment_ok_def\<close>)
  then show ?thesis
    by (simp add: api_routes_default OnHttpRequest_def Call_def equal_range_def Compare_def)
qed

theorem api_short_path_undefined_witness:
  "\<exists>u. bind_outcome (api_routes ''apps'' None) (\<lambda>rs.
      OnHttpRequest sample_api rs ''GET'' (parse_uri (join_path [''apps'', ''7''])) [] [] empty_broker) = Inl (UB u)"
  by (rule api_short_path_undefined) (simp add: segment_ok_def)

text \<open>An event without the field \<^verbatim>\<open>data\<close> for a channel is undefined: the field of the constant message is read
  without being there. The handler tests only for \<^verbatim>\<open>name\<close> and \<^verbatim>\<open>channels\<close>.\<close>

theorem api_event_without_data:
  assumes "vals \<noteq> []" "GetAppById (ae_credentials ae) (hd vals) = Some app" "content \<noteq> []"
    and "msg_Unserialize (io_parse (ae_io ae)) (bk_msgid bk) (io_clock (ae_io ae)) content ''api'' = (Some msg0, n)"
    and "api_channels_field msg0 = Inr msg" "json_find msg ''channels'' = Some (JArr (JStr name # names))"
    and "contains msg ''name''" "json_find msg ''data'' = None"
  shows "\<exists>u bk' out. ApiOnEvents ae vals ''POST'' headers content bk = (Some (UB u), bk', out)"
proof -
  have v: "val_at vals 0 = Inr (hd vals)" using assms(1) by (simp add: val_at_def hd_conv_nth)
  have dup: "DupChannelMessage msg name = Inl (UB ''missing key of a constant object'')"
    using assms(7,8) by (cases msg) (auto simp: DupChannelMessage_def json_cat_def contains_def)
  show ?thesis
    by (cases "GetChannel (cr_Id (app_cred app)) name (bk_channels bk)")
      (simp_all add: ApiOnEvents_def v api_bind_def assms(2-7) api_then_def api_cluster_push_def api_push_channel_def dup)
qed

definition sample_no_data :: json where
  "sample_no_data = JObj [(''name'', JStr ''e''), (''channels'', JArr [JStr ''x''])]"

theorem api_event_without_data_witness:
  "\<exists>u bk' out. ApiOnEvents (sample_api\<lparr>ae_io := sample_io\<lparr>io_parse := (\<lambda>_. Some sample_no_data)\<rparr>\<rparr>) [''7''] ''POST'' [] ''x''
     empty_broker = (Some (UB u), bk', out)"
proof -
  have "msg_Unserialize (\<lambda>_. Some sample_no_data) 0 100000 ''x'' ''api'' =
      (Some (JObj [(''name'', JStr ''e''), (''channels'', JArr [JStr ''x'']), (''#msg-id'', JInt 1),
        (''#msg-arrival'', JInt 100000), (''#msg-from'', JStr ''api''), (''#msg-expired'', JInt 0),
        (''#msg-delivery'', JStr ''broadcast'')]), 1)"
    by (simp add: msg_Unserialize_def cjson_Unserialize_def sample_no_data_def msg_stamp_def msg_options_def contains_def
        um_assign_def um_find_def)
  then show ?thesis
    by (intro api_event_without_data)
      (auto simp: sample_api_def sample_io_def empty_broker_def GetAppById_def um_find_def api_channels_field_def
        contains_def sample_app_def capplication_new_def credential_copy_def credential_new_def)
qed

text \<open>The list of an application's channels has the channels of every application whose id begins with its
  own: the names are compared up to the length of the id, without the separator.\<close>

theorem api_channel_list_foreign:
  assumes "GetAppById (ae_credentials ae) v = Some app" "(chan_uid (cr_Id (app_cred app) @ rest) name, ch) \<in> set (bk_channels bk)"
  shows "\<exists>stats. ApiOnChannels ae [v, []] ''GET'' headers bk =
      (None, bk, ApiResponse ae ''200'' (io_dump (ae_io ae) (JArr stats)) (IsConnectionKeepAlive headers))
    \<and> ApiStats ch \<in> set stats"
proof -
  have "starts_with (cr_Id (app_cred app)) (chan_uid (cr_Id (app_cred app) @ rest) name)"
    by (simp add: chan_uid_def)
  then have "ApiStats ch \<in> (\<lambda>(uid, ch). ApiStats ch) `
      set (filter (\<lambda>(uid, ch). starts_with (cr_Id (app_cred app)) uid) (bk_channels bk))"
    using assms(2) by force
  then show ?thesis
    using assms(1)
    by (intro exI [of _ "map (\<lambda>(uid, ch). ApiStats ch)
          (filter (\<lambda>(uid, ch). starts_with (cr_Id (app_cred app)) uid) (bk_channels bk))"])
      (simp add: ApiOnChannels_def val_at_def api_bind_def ListChannels_def)
qed

theorem api_channel_list_foreign_witness:
  "\<exists>stats. ApiOnChannels sample_api [''7'', []] ''GET'' []
      (empty_broker\<lparr>bk_channels := [(''77#secret'', sample_channel)]\<rparr>) =
      (None, empty_broker\<lparr>bk_channels := [(''77#secret'', sample_channel)]\<rparr>,
       ApiResponse sample_api ''200'' (io_dump (ae_io sample_api) (JArr stats)) (IsConnectionKeepAlive []))
    \<and> ApiStats sample_channel \<in> set stats"
  by (rule api_channel_list_foreign [where app = sample_app and rest = "''7''" and name = "''secret''"])
    (simp_all add: sample_api_def GetAppById_def um_find_def chan_uid_def sample_app_def capplication_new_def
      credential_copy_def credential_new_def)

section \<open>Tokens are accepted\<close>



definition sample_token_request :: json where
  "sample_token_request = JObj [(''session'', JStr ''1.2''), (''channel'', JStr ''private-x''), (''data'', JStr ''d'')]"


end
