(* ===== verification/Dsn.thy ===== *)
theory Dsn
  imports Regex
begin

text \<open>
  The addresses of the configuration (\<^verbatim>\<open>cconfig::cdsn\<close>, \<^verbatim>\<open>include/core/config/cconfig.h\<close> and \<^verbatim>\<open>source/core/config/cconfig.cpp\<close>). The parts of
  an address are views of its text: a view is unset before the first assignment, and the next one invalidates the
  views it does not set again.
\<close>

section \<open>Parsing\<close>

datatype view = Unset | View string | Stale

definition read_view :: "view \<Rightarrow> string outcome" where
  "read_view v = (case v of Unset \<Rightarrow> Inr [] | View s \<Rightarrow> Inr s | Stale \<Rightarrow> Inl (UB ''dangling view''))"

definition stale_view :: "view \<Rightarrow> view" where
  "stale_view v = (if v = Unset then Unset else Stale)"

record cdsn =
  ds_Value :: string
  ds_Proto :: view
  ds_User :: view
  ds_Pwd :: view
  ds_HostPort :: view
  ds_Host :: view
  ds_Port :: view
  ds_Url :: view
  ds_Path :: view
  ds_Args :: view

definition cdsn_new :: cdsn where
  "cdsn_new =
     \<lparr>ds_Value = [], ds_Proto = Unset, ds_User = Unset, ds_Pwd = Unset, ds_HostPort = Unset, ds_Host = Unset, ds_Port = Unset,
      ds_Url = Unset, ds_Path = Unset, ds_Args = Unset\<rparr>"

text \<open>The expression \<^verbatim>\<open>^([\w-]+://?)?((?:([^:@]+)(?:\:(.+))?@)?(/?([^:/]+)(?::(\d+))?)(([^?]*)(.*)))\<close>.\<close>

definition proto_char :: "char \<Rightarrow> bool" where
  "proto_char c \<longleftrightarrow> word_char c \<or> c = CHR ''-''"

definition re_proto :: regex where
  "re_proto = Grp 1 (Seq (Some1 proto_char) (Seq (Lit '':/'') (Opt (Lit ''/''))))"

definition re_user :: regex where
  "re_user =
     Seq (Grp 3 (Some1 (\<lambda>c. c \<noteq> CHR '':'' \<and> c \<noteq> CHR ''@'')))
       (Seq (Opt (Seq (Lit '':'') (Grp 4 (Some1 dot)))) (Lit ''@''))"

definition host_char :: "char \<Rightarrow> bool" where
  "host_char c \<longleftrightarrow> c \<noteq> CHR '':'' \<and> c \<noteq> CHR ''/''"

definition re_host :: regex where
  "re_host =
     Grp 5 (Seq (Opt (Lit ''/'')) (Seq (Grp 6 (Some1 host_char)) (Opt (Seq (Lit '':'') (Grp 7 (Some1 isdigit))))))"

definition re_rest :: regex where
  "re_rest = Grp 8 (Seq (Grp 9 (Many (\<lambda>c. c \<noteq> CHR ''?''))) (Grp 10 (Many dot)))"

definition re_dsn :: regex where
  "re_dsn = Seq (Opt re_proto) (Grp 2 (Seq (Opt re_user) (Seq re_host re_rest)))"

text \<open>\<^verbatim>\<open>strncasecmp(Proto_.data(), ...)\<close> reads the text from the first character of the view on, beyond its end; a group that
  took no part starts at the end of the text.\<close>

definition proto_data :: "captures \<Rightarrow> string \<Rightarrow> string" where
  "proto_data match value = (if group match 1 = [] then [] else value)"

definition web_text :: "string \<Rightarrow> bool" where
  "web_text s \<longleftrightarrow> strncasecmp_eq s ''http://'' \<or> strncasecmp_eq s ''https://''"

definition has_host :: "string \<Rightarrow> bool" where
  "has_host s \<longleftrightarrow> web_text s \<or> strncasecmp_eq s ''tcp://'' \<or> strncasecmp_eq s ''udp://''"

definition Assign :: "string \<Rightarrow> cdsn \<Rightarrow> bool \<times> cdsn" where
  "Assign text0 c0 =
     (let c = c0\<lparr>ds_Value := text0, ds_Proto := stale_view (ds_Proto c0), ds_User := stale_view (ds_User c0),
           ds_Pwd := stale_view (ds_Pwd c0), ds_HostPort := stale_view (ds_HostPort c0), ds_Host := stale_view (ds_Host c0),
           ds_Port := stale_view (ds_Port c0), ds_Url := stale_view (ds_Url c0), ds_Path := stale_view (ds_Path c0),
           ds_Args := stale_view (ds_Args c0)\<rparr> in
      case regex_match re_dsn text0 of
        None \<Rightarrow> (False, c\<lparr>ds_Value := []\<rparr>)
      | Some match \<Rightarrow>
          (True,
           if has_host (proto_data match text0)
           then c\<lparr>ds_Proto := View (group match 1), ds_User := View (group match 3), ds_Pwd := View (group match 4),
                  ds_HostPort := View (group match 5), ds_Host := View (group match 6), ds_Port := View (group match 7),
                  ds_Url := View (group match 8), ds_Path := View (group match 9), ds_Args := View (group match 10)\<rparr>
           else c\<lparr>ds_Proto := View (group match 1), ds_Path := View (group match 2), ds_Args := View (group match 10)\<rparr>))"

section \<open>Accessors\<close>

definition dsn_Empty :: "cdsn \<Rightarrow> bool" where
  "dsn_Empty c \<longleftrightarrow> ds_Value c = []"

definition dsn_Port :: "cdsn \<Rightarrow> string \<Rightarrow> string outcome" where
  "dsn_Port c def = bind_outcome (read_view (ds_Port c)) (\<lambda>p. Inr (if p \<noteq> [] then p else def))"

definition dsn_Baseurl :: "cdsn \<Rightarrow> string outcome" where
  "dsn_Baseurl c =
     bind_outcome (read_view (ds_Proto c)) (\<lambda>pr.
     bind_outcome (read_view (ds_HostPort c)) (\<lambda>hp.
     bind_outcome (read_view (ds_Path c)) (\<lambda>pa.
       Inr (pr @ hp @ pa @ (if pa = [] \<or> last pa \<noteq> CHR ''/'' then ''/'' else [])))))"

text \<open>The tests on the protocol: on an address that was never assigned they pass a null pointer on.\<close>

definition proto_text :: "cdsn \<Rightarrow> string outcome" where
  "proto_text c =
     (case ds_Proto c of
        Unset \<Rightarrow> Inl (UB ''strncasecmp of a null pointer'')
      | Stale \<Rightarrow> Inl (UB ''dangling view'')
      | View g \<Rightarrow> Inr (if g = [] then [] else ds_Value c))"

definition IsWeb :: "cdsn \<Rightarrow> bool outcome" where
  "IsWeb c = bind_outcome (proto_text c) (\<lambda>s. Inr (web_text s))"

definition IsHttp :: "cdsn \<Rightarrow> bool outcome" where
  "IsHttp c = bind_outcome (proto_text c) (\<lambda>s. Inr (strncasecmp_eq s ''http://''))"

definition IsHttps :: "cdsn \<Rightarrow> bool outcome" where
  "IsHttps c = bind_outcome (proto_text c) (\<lambda>s. Inr (strncasecmp_eq s ''https://''))"

section \<open>The parts make up the address\<close>

lemma proto_set:
  "(s', c') \<in> set (matches (Opt re_proto) s c) \<Longrightarrow> s' = s \<and> c' = c \<or> (\<exists>g. g \<noteq> [] \<and> s = g @ s' \<and> c' = (1, g) # c)"
  by (auto simp: re_proto_def set_matches simp del: matches.simps)

lemma user_set:
  "(s', c') \<in> set (matches (Opt re_user) s c) \<Longrightarrow>
     s' = s \<and> c' = c \<or> (\<exists>u. s = u @ ''@'' @ s' \<and> c' = (3, u) # c)
     \<or> (\<exists>u p. p \<noteq> [] \<and> s = u @ '':'' @ p @ ''@'' @ s' \<and> c' = (4, p) # (3, u) # c)"
  by (auto simp: re_user_def set_matches simp del: matches.simps)

lemma host_set:
  "(s', c') \<in> set (matches re_host s c) \<Longrightarrow>
     \<exists>sl h. (sl = [] \<or> sl = ''/'') \<and> h \<noteq> [] \<and> (\<forall>x \<in> set h. host_char x)
       \<and> (s = sl @ h @ s' \<and> c' = (5, sl @ h) # (6, h) # c
          \<or> (\<exists>p. p \<noteq> [] \<and> (\<forall>x \<in> set p. isdigit x) \<and> s = sl @ h @ '':'' @ p @ s'
                \<and> c' = (5, sl @ h @ '':'' @ p) # (7, p) # (6, h) # c))"
  by (fastforce simp: re_host_def set_matches simp del: matches.simps)

lemma rest_set:
  "(s', c') \<in> set (matches re_rest s c) \<Longrightarrow>
     \<exists>a b. s = a @ b @ s' \<and> CHR ''?'' \<notin> set a \<and> c' = (8, a @ b) # (10, b) # (9, a) # c"
  by (auto simp: re_rest_def set_matches simp del: matches.simps)

definition dsn_parts :: "string \<Rightarrow> (nat \<Rightarrow> string) \<Rightarrow> bool" where
  "dsn_parts s g \<longleftrightarrow>
     s = g 1 @ g 2
     \<and> (g 2 = g 5 @ g 8 \<and> g 3 = [] \<and> g 4 = []
        \<or> g 2 = g 3 @ (if g 4 = [] then [] else '':'' @ g 4) @ ''@'' @ g 5 @ g 8)
     \<and> g 6 \<noteq> [] \<and> (\<forall>c \<in> set (g 6). host_char c) \<and> (\<forall>c \<in> set (g 7). isdigit c)
     \<and> (\<exists>slash \<in> {[], ''/''}. g 5 = slash @ g 6 @ (if g 7 = [] then [] else '':'' @ g 7))
     \<and> g 8 = g 9 @ g 10 \<and> CHR ''?'' \<notin> set (g 9)"

lemma dsn_match_parts:
  assumes "regex_match re_dsn s = Some m"
  shows "dsn_parts s (group m)"
proof -
  have "([], m) \<in> set (matches re_dsn s [])" by (rule regex_match_Some [OF assms])
  then obtain s1 c1 where
    p: "(s1, c1) \<in> set (matches (Opt re_proto) s [])" and
    g: "([], m) \<in> set (matches (Grp 2 (Seq (Opt re_user) (Seq re_host re_rest))) s1 c1)"
    unfolding re_dsn_def set_matches_Seq by blast
  then obtain c3 where m: "m = (2, s1) # c3" and "([], c3) \<in> set (matches (Seq (Opt re_user) (Seq re_host re_rest)) s1 c1)"
    unfolding set_matches_Grp by (metis append_Nil2)
  then obtain s2 c2 s3 c4 where
    u: "(s2, c2) \<in> set (matches (Opt re_user) s1 c1)" and
    h: "(s3, c4) \<in> set (matches re_host s2 c2)" and
    r: "([], c3) \<in> set (matches re_rest s3 c4)"
    unfolding set_matches_Seq by blast
  from proto_set [OF p] user_set [OF u] host_set [OF h] rest_set [OF r] show ?thesis
    unfolding m dsn_parts_def
    by (elim disjE exE conjE) (simp_all add: group_def)
qed

section \<open>Addresses with a host\<close>

text \<open>The text of an address from its parts.\<close>

definition port_text :: "string \<Rightarrow> string" where
  "port_text port = (if port = [] then [] else '':'' @ port)"

definition address_ok :: "string \<Rightarrow> string \<Rightarrow> string \<Rightarrow> string \<Rightarrow> string \<Rightarrow> bool" where
  "address_ok pr host port path args \<longleftrightarrow>
     pr \<noteq> [] \<and> (\<forall>x \<in> set pr. proto_char x)
     \<and> host \<noteq> [] \<and> (\<forall>x \<in> set host. host_char x) \<and> (\<forall>x \<in> set port. isdigit x)
     \<and> (path = [] \<and> args = [] \<or> path \<noteq> [] \<and> hd path = CHR ''/'') \<and> CHR ''?'' \<notin> set path
     \<and> (args = [] \<or> hd args = CHR ''?'') \<and> (\<forall>x \<in> set args. dot x)
     \<and> CHR ''@'' \<notin> set (host @ port @ path @ args)"

lemma leads_proto:
  assumes "pr \<noteq> []" "\<forall>x \<in> set pr. proto_char x"
  shows "leads (Opt re_proto) ((pr @ ''://'') @ s) c s ((1, pr @ ''://'') # c)"
proof -
  have 1: "leads (Some1 proto_char) (pr @ '':/'' @ ''/'' @ s) c ('':/'' @ ''/'' @ s) c"
    using assms by (intro leads_Some1) (auto simp: proto_char_def word_char_def isdigit_def)
  have 2: "leads (Seq (Lit '':/'') (Opt (Lit ''/''))) ('':/'' @ ''/'' @ s) c s c"
    by (rule leads_Seq [OF leads_Lit leads_Opt [OF leads_Lit]])
  have "leads (Seq (Some1 proto_char) (Seq (Lit '':/'') (Opt (Lit ''/'')))) ((pr @ ''://'') @ s) c s c"
    using leads_Seq [OF 1 2] by simp
  then show ?thesis unfolding re_proto_def by (intro leads_Opt leads_Grp)
qed

lemma no_user: "CHR ''@'' \<notin> set s \<Longrightarrow> matches re_user s c = []"
proof (rule matches_none)
  show "plain re_user" by (simp add: re_user_def Some1_def Opt_def Lit_def)
  have "CHR ''@'' \<in> set t" if "t \<in> lang re_user" for t
    using that by (auto simp: re_user_def Lit_def)
  then show "t \<notin> lang re_user" if "CHR ''@'' \<notin> set s" "s = t @ s'" for t s' using that by auto
qed

lemma leads_host:
  assumes "host \<noteq> []" "\<forall>x \<in> set host. host_char x" "\<forall>x \<in> set port. isdigit x" "s = [] \<or> hd s = CHR ''/''"
  shows "leads re_host ((host @ port_text port) @ s) c s
    ((5, host @ port_text port) # (if port = [] then [] else [(7, port)]) @ (6, host) # c)"
proof -
  obtain h hs where h: "host = h # hs" using assms(1) by (cases host) auto
  have 1: "leads (Opt (Lit ''/'')) (host @ port_text port @ s) c (host @ port_text port @ s) c"
    using assms(2) h by (intro leads_Opt_none) (auto simp: Lit_def host_char_def)
  have 2: "leads (Grp 6 (Some1 host_char)) (host @ port_text port @ s) c (port_text port @ s) ((6, host) # c)"
    using assms by (intro leads_Grp leads_Some1) (auto simp: port_text_def host_char_def)
  have 3: "leads (Opt (Seq (Lit '':'') (Grp 7 (Some1 isdigit)))) (port_text port @ s) ((6, host) # c) s
      ((if port = [] then [] else [(7, port)]) @ (6, host) # c)"
  proof (cases "port = []")
    case True
    have "leads (Opt (Seq (Lit '':'') (Grp 7 (Some1 isdigit)))) s ((6, host) # c) s ((6, host) # c)"
      using assms(4) by (intro leads_Opt_none) (cases s; auto simp: Lit_def)
    with True show ?thesis by (simp add: port_text_def)
  next
    case False
    have "leads (Grp 7 (Some1 isdigit)) (port @ s) ((6, host) # c) s ((7, port) # (6, host) # c)"
      using assms False by (intro leads_Grp leads_Some1) (auto simp: isdigit_def)
    then have "leads (Seq (Lit '':'') (Grp 7 (Some1 isdigit))) ('':'' @ port @ s) ((6, host) # c) s ((7, port) # (6, host) # c)"
      by (rule leads_Seq [OF leads_Lit])
    with False show ?thesis by (simp add: port_text_def leads_Opt)
  qed
  have "leads (Seq (Opt (Lit ''/'')) (Seq (Grp 6 (Some1 host_char)) (Opt (Seq (Lit '':'') (Grp 7 (Some1 isdigit))))))
      ((host @ port_text port) @ s) c s ((if port = [] then [] else [(7, port)]) @ (6, host) # c)"
    using leads_Seq [OF 1 leads_Seq [OF 2 3]] by simp
  then show ?thesis unfolding re_host_def by (rule leads_Grp)
qed

lemma leads_rest:
  assumes "CHR ''?'' \<notin> set path" "args = [] \<or> hd args = CHR ''?''" "\<forall>x \<in> set args. dot x"
  shows "leads re_rest ((path @ args) @ []) c [] ((8, path @ args) # (10, args) # (9, path) # c)"
proof -
  have 1: "leads (Grp 9 (Many (\<lambda>c. c \<noteq> CHR ''?''))) (path @ args) c args ((9, path) # c)"
    using assms by (intro leads_Grp leads_Many) auto
  have "leads (Grp 10 (Many dot)) (args @ []) ((9, path) # c) [] ((10, args) # (9, path) # c)"
    using assms(3) by (intro leads_Grp leads_Many) simp_all
  then have "leads (Seq (Grp 9 (Many (\<lambda>c. c \<noteq> CHR ''?''))) (Grp 10 (Many dot))) ((path @ args) @ []) c []
      ((10, args) # (9, path) # c)"
    using leads_Seq [OF 1] by simp
  then show ?thesis unfolding re_rest_def by (rule leads_Grp)
qed

lemma match_address:
  assumes "address_ok pr host port path args"
  shows "regex_match re_dsn (pr @ ''://'' @ host @ port_text port @ path @ args) =
    Some ((2, host @ port_text port @ path @ args) # (8, path @ args) # (10, args) # (9, path)
      # (5, host @ port_text port) # (if port = [] then [] else [(7, port)]) @ [(6, host), (1, pr @ ''://'')])"
proof -
  let ?c1 = "[(1, pr @ ''://'')]" and ?t = "host @ port_text port @ path @ args"
  let ?c5 = "(5, host @ port_text port) # (if port = [] then [] else [(7, port)]) @ (6, host) # ?c1"
  have ok: "pr \<noteq> []" "\<forall>x \<in> set pr. proto_char x" "host \<noteq> []" "\<forall>x \<in> set host. host_char x" "\<forall>x \<in> set port. isdigit x"
    "path @ args = [] \<or> hd (path @ args) = CHR ''/''" "CHR ''?'' \<notin> set path" "args = [] \<or> hd args = CHR ''?''"
    "\<forall>x \<in> set args. dot x" "CHR ''@'' \<notin> set ?t"
    using assms by (auto simp: address_ok_def port_text_def)
  have 1: "leads (Opt re_proto) ((pr @ ''://'') @ ?t) [] ?t ?c1" using ok by (intro leads_proto)
  have 2: "leads (Opt re_user) ?t ?c1 ?t ?c1" using ok by (intro leads_Opt_none no_user)
  have 3: "leads re_host ?t ?c1 (path @ args) ?c5" using leads_host [OF ok(3-6)] by simp
  have 4: "leads re_rest (path @ args) ?c5 [] ((8, path @ args) # (10, args) # (9, path) # ?c5)"
    using leads_rest [OF ok(7-9)] by simp
  have "leads (Seq (Opt re_user) (Seq re_host re_rest)) (?t @ []) ?c1 [] ((8, path @ args) # (10, args) # (9, path) # ?c5)"
    using leads_Seq [OF 2 leads_Seq [OF 3 4]] by simp
  from leads_Grp [OF this, of 2] have "leads re_dsn ((pr @ ''://'') @ ?t) [] []
      ((2, ?t) # (8, path @ args) # (10, args) # (9, path) # ?c5)"
    unfolding re_dsn_def by (intro leads_Seq [OF 1]) simp
  from regex_match_leads [OF this] show ?thesis by simp
qed

text \<open>
  an address \<^verbatim>\<open>protocol://host[:port][/path][?arguments]\<close> of a web, TCP or UDP protocol without login is split
  into exactly these parts; conversely, the parts of every address that is accepted make it up.
\<close>

theorem dsn_roundtrip:
  assumes "address_ok pr host port path args" "pr \<in> {''http'', ''https'', ''tcp'', ''udp''}"
    and "text0 = pr @ ''://'' @ host @ port_text port @ path @ args"
    and "regex_match re_dsn other = Some m"
  shows "Assign text0 cdsn_new =
      (True,
       \<lparr>ds_Value = text0, ds_Proto = View (pr @ ''://''), ds_User = View [], ds_Pwd = View [],
        ds_HostPort = View (host @ port_text port), ds_Host = View host, ds_Port = View port,
        ds_Url = View (path @ args), ds_Path = View path, ds_Args = View args\<rparr>)
    \<and> dsn_parts other (group m)"
proof
  have "has_host text0"
    using assms(2,3) by (auto simp: has_host_def web_text_def strncasecmp_eq_def)
  then show "Assign text0 cdsn_new =
      (True,
       \<lparr>ds_Value = text0, ds_Proto = View (pr @ ''://''), ds_User = View [], ds_Pwd = View [],
        ds_HostPort = View (host @ port_text port), ds_Host = View host, ds_Port = View port,
        ds_Url = View (path @ args), ds_Path = View path, ds_Args = View args\<rparr>)"
    using match_address [OF assms(1)] assms(3)
    by (simp add: Assign_def cdsn_new_def stale_view_def proto_data_def group_def)
  show "dsn_parts other (group m)" by (rule dsn_match_parts [OF assms(4)])
qed

theorem dsn_roundtrip_witness:
  "\<exists>c. Assign ''http://web.io:81/a?b=1'' cdsn_new = (True, c) \<and> ds_Host c = View ''web.io'' \<and> ds_Port c = View ''81''
     \<and> ds_Url c = View ''/a?b=1''"
  using dsn_roundtrip [of "''http''" "''web.io''" "''81''" "''/a''" "''?b=1''" "''http://web.io:81/a?b=1''",
      OF _ _ _ match_address [of "''tcp''" "''h''" "[]" "[]" "[]"]]
  by (simp add: address_ok_def proto_char_def word_char_def host_char_def isdigit_def dot_def port_text_def)

text \<open>An address that does not match leaves its views unset, and the first test of its protocol passes a null pointer to
  \<^verbatim>\<open>strncasecmp\<close>.\<close>

lemma unparsed_address_tests:
  "regex_match re_dsn s = None \<Longrightarrow> IsWeb (snd (Assign s cdsn_new)) = Inl (UB ''strncasecmp of a null pointer'')"
  by (simp add: Assign_def cdsn_new_def stale_view_def IsWeb_def proto_text_def)

text \<open>A second assignment that sets fewer views leaves the others dangling.\<close>

lemma second_assignment_dangles:
  assumes "Assign a cdsn_new = (True, c)" "ds_Host c \<noteq> Unset"
    and "regex_match re_dsn b = Some m" "\<not> has_host (proto_data m b)"
  shows "read_view (ds_Host (snd (Assign b c))) = Inl (UB ''dangling view'')"
  using assms(2-4) by (simp add: Assign_def stale_view_def read_view_def)

end
