(* ===== verification/Hooks.thy ===== *)
theory Hooks
  imports HttpConn Workers Json Flags Dsn
begin

text \<open>
  The hooks of an application (\<^verbatim>\<open>source/core/hooks/chooks.cpp\<close>) and the two ways to open a connection
  (\<^verbatim>\<open>source/inet/cinet.cpp\<close>): a web hook turns a trigger into a job of the hook workers that connects,
  writes one request, reads the answer and closes. The descriptors that a call opens and closes
  are recorded, so that it can be said which of them stay open. What system calls return is a
  parameter; a result of \<^verbatim>\<open>socket\<close> that is not positive is a failure.
\<close>

section \<open>Connecting\<close>

record net_call =
  nc_sockaddr :: "string \<Rightarrow> errno option"
  nc_socket :: int
  nc_errno :: errno
  nc_connect :: "errno option"
  nc_ssl_new :: bool
  nc_ssl_connect :: bool

text \<open>\<^verbatim>\<open>TcpConnect\<close> and \<^verbatim>\<open>SslConnect\<close>: the result, the descriptor, whether there is a TLS object, and the
  descriptors opened and closed.\<close>

definition TcpConnect :: "net_call \<Rightarrow> errno option \<times> int \<times> int list \<times> int list" where
  "TcpConnect nc =
     (let fd = nc_socket nc in
      if fd > 0 then
        (case nc_connect nc of
           None \<Rightarrow> (None, fd, [fd], [])
         | Some e \<Rightarrow> if e = EINPROGRESS then (Some e, fd, [fd], []) else (Some e, -1, [fd], [fd]))
      else (None, fd, [], []))"

definition SslConnect :: "bool \<Rightarrow> net_call \<Rightarrow> errno option \<times> int \<times> bool \<times> int list \<times> int list" where
  "SslConnect ctx nc =
     (if \<not> ctx \<or> \<not> nc_ssl_new nc then (Some EINVAL, -1, False, [], [])
      else
        let fd = nc_socket nc in
        if fd > 0 then
          (case nc_connect nc of
             None \<Rightarrow> (if nc_ssl_connect nc then None else Some EPROTO, fd, True, [fd], [])
           | Some e \<Rightarrow>
               if e = EINPROGRESS then (Some e, fd, True, [fd], []) else (Some e, -1, False, [fd], [fd]))
        else (Some (nc_errno nc), fd, True, [], []))"

text \<open>\<^verbatim>\<open>inet::Close\<close>.\<close>

definition inet_Close :: "int \<Rightarrow> int \<times> int list" where
  "inet_Close so = (if so > 0 then (-1, [so]) else (so, []))"

section \<open>Web hooks\<close>

record dsn_t =
  dsn_https :: bool
  dsn_Host :: string
  dsn_HostPort :: string
  dsn_Url :: string

record cwebhook =
  wh_fdEndpoint :: int
  wh_fdSslCtx :: bool
  wh_fdSsl :: bool
  wh_endpoint :: dsn_t
  wh_keepalive :: bool

definition cwebhook_new :: "dsn_t \<Rightarrow> bool \<Rightarrow> bool \<Rightarrow> cwebhook" where
  "cwebhook_new endpoint keepalive ctx_ok =
     \<lparr>wh_fdEndpoint = -1, wh_fdSslCtx = dsn_https endpoint \<and> ctx_ok, wh_fdSsl = False, wh_endpoint = endpoint,
      wh_keepalive = keepalive\<rparr>"

text \<open>\<^verbatim>\<open>Connect\<close>: the port for an address without one is chosen by \<^verbatim>\<open>fdSsl\<close>, which has just been reset.\<close>

definition hook_Connect :: "net_call \<Rightarrow> cwebhook \<Rightarrow> bool \<times> cwebhook \<times> int list \<times> int list" where
  "hook_Connect nc wh =
     (let wh = wh\<lparr>wh_fdSsl := False\<rparr>;
          (_, shut0) = inet_Close (wh_fdEndpoint wh);
          wh = wh\<lparr>wh_fdEndpoint := -1\<rparr> in
      case nc_sockaddr nc (if wh_fdSsl wh then ''443'' else ''80'') of
        Some e \<Rightarrow> (False, wh, [], shut0)
      | None \<Rightarrow>
          if \<not> wh_fdSslCtx wh then
            (case TcpConnect nc of
               (None, fd, opened, shut) \<Rightarrow> (True, wh\<lparr>wh_fdEndpoint := fd\<rparr>, opened, shut0 @ shut)
             | (Some e, fd, opened, shut) \<Rightarrow> (False, wh\<lparr>wh_fdEndpoint := -1\<rparr>, opened, shut0 @ shut))
          else
            (case SslConnect (wh_fdSslCtx wh) nc of
               (None, fd, ssl, opened, shut) \<Rightarrow>
                 (True, wh\<lparr>wh_fdEndpoint := fd, wh_fdSsl := ssl\<rparr>, opened, shut0 @ shut)
             | (Some e, fd, ssl, opened, shut) \<Rightarrow>
                 (False, wh\<lparr>wh_fdEndpoint := -1, wh_fdSsl := ssl\<rparr>, opened, shut0 @ shut)))"

text \<open>\<^verbatim>\<open>ReadResponse\<close>: \<open>ok\<close> tells whether \<^verbatim>\<open>HttpReadRequest\<close> returned 0.\<close>

definition hook_ReadResponse :: "bool \<Rightarrow> cwebhook \<Rightarrow> cwebhook \<times> int list" where
  "hook_ReadResponse ok wh =
     (if ok then (wh, [])
      else let (fd, shut) = inet_Close (wh_fdEndpoint wh) in (wh\<lparr>wh_fdEndpoint := fd, wh_fdSsl := False\<rparr>, shut))"

record http_job =
  hj_method :: string
  hj_uri :: string
  hj_headers :: "(string \<times> string) list"
  hj_body :: string

text \<open>\<^verbatim>\<open>Write\<close>: the texts that were sent, the hook, and the descriptors opened and closed. \<open>send\<close> is
  \<^verbatim>\<open>SocketSend\<close> on the connection.\<close>

definition hook_Write ::
  "net_call \<Rightarrow> (string \<Rightarrow> errno option) \<Rightarrow> bool \<Rightarrow> http_job \<Rightarrow> cwebhook
     \<Rightarrow> string list \<times> cwebhook \<times> int list \<times> int list" where
  "hook_Write nc send readok job wh =
     (let (ok, wh, opened, shut) = hook_Connect nc wh in
      if ok then
        let sent = request_text (hj_method job) (hj_uri job) (hj_headers job) (hj_body job);
            res = HttpWriteRequest send (hj_method job) (hj_uri job) (hj_headers job) (hj_body job);
            (wh, shut1) = (if res = None then hook_ReadResponse readok wh else (wh, []));
            (_, shut2) = inet_Close (wh_fdEndpoint wh) in
        (if res = None then [sent] else [], wh\<lparr>wh_fdSsl := False, wh_fdEndpoint := -1\<rparr>, opened,
         shut @ shut1 @ shut2)
      else ([], wh, opened, shut))"

text \<open>\<^verbatim>\<open>Send\<close> is \<^verbatim>\<open>Write\<close> to the endpoint's own address, with its host.\<close>

definition hook_Send ::
  "net_call \<Rightarrow> (string \<Rightarrow> errno option) \<Rightarrow> bool \<Rightarrow> (json \<Rightarrow> string) \<Rightarrow> string \<Rightarrow> json \<Rightarrow> (string, string) umap \<Rightarrow> cwebhook
     \<Rightarrow> string list \<times> cwebhook \<times> int list \<times> int list" where
  "hook_Send nc send readok dump method data headers wh =
     hook_Write nc send readok
       \<lparr>hj_method = method, hj_uri = dsn_Url (wh_endpoint wh),
        hj_headers = um_assign ''Host'' (dsn_Host (wh_endpoint wh)) headers, hj_body = dump data\<rparr> wh"

text \<open>The job of \<^verbatim>\<open>Trigger\<close>; the message is a JSON text inside the JSON document.\<close>

definition trigger_document :: "(json \<Rightarrow> string) \<Rightarrow> hook_trigger_t \<Rightarrow> string \<Rightarrow> string \<Rightarrow> string \<Rightarrow> json \<Rightarrow> json" where
  "trigger_document dump trigger app channel session msg =
     JObj [(''event'', JStr (Str_hook trigger)), (''app'', JStr app), (''channel'', JStr channel),
       (''session'', JStr session), (''data'', JStr (dump msg))]"

definition trigger_job ::
  "(json \<Rightarrow> string) \<Rightarrow> cwebhook \<Rightarrow> hook_trigger_t \<Rightarrow> string \<Rightarrow> string \<Rightarrow> string \<Rightarrow> json \<Rightarrow> http_job" where
  "trigger_job dump wh trigger app channel session msg =
     \<lparr>hj_method = ''POST'', hj_uri = dsn_Url (wh_endpoint wh),
      hj_headers = [(''Accept'', ''application/json''), (''Content-Type'', ''application/json''),
        (''Connection'', if \<not> wh_keepalive wh then ''close'' else ''keep-alive''),
        (''Host'', dsn_Host (wh_endpoint wh))],
      hj_body = dump (trigger_document dump trigger app channel session msg)\<rparr>"

text \<open>All hooks share the queue \<^verbatim>\<open>HookProcessing\<close>: a job is a call of \<^verbatim>\<open>Write\<close> on a web hook, or of a function of a script with its
  arguments.\<close>

datatype hook_job = WebJob cwebhook http_job | LuaJob string string "string list"

definition web_Trigger ::
  "(json \<Rightarrow> string) \<Rightarrow> cwebhook \<Rightarrow> hook_trigger_t \<Rightarrow> string \<Rightarrow> string \<Rightarrow> string \<Rightarrow> json
     \<Rightarrow> hook_job casyncqueue \<Rightarrow> hook_job casyncqueue" where
  "web_Trigger dump wh trigger app channel session msg q =
     Enqueue (WebJob wh (trigger_job dump wh trigger app channel session msg)) q"

text \<open>\<^verbatim>\<open>Push\<close>: headers that are given win over the default ones.\<close>

definition push_job :: "(json \<Rightarrow> string) \<Rightarrow> cwebhook \<Rightarrow> string \<Rightarrow> json \<Rightarrow> (string, string) umap \<Rightarrow> http_job" where
  "push_job dump wh method data headers =
     \<lparr>hj_method = method, hj_uri = dsn_Url (wh_endpoint wh),
      hj_headers =
        um_emplace ''Host'' (dsn_Host (wh_endpoint wh))
          (um_emplace ''Connection'' ''close''
            (um_emplace ''Content-Type'' ''application/json'' (um_emplace ''Accept'' ''application/json'' headers))),
      hj_body = dump data\<rparr>"

definition web_Push ::
  "(json \<Rightarrow> string) \<Rightarrow> cwebhook \<Rightarrow> string \<Rightarrow> json \<Rightarrow> (string, string) umap \<Rightarrow> hook_job casyncqueue \<Rightarrow> hook_job casyncqueue" where
  "web_Push dump wh method data headers q = Enqueue (WebJob wh (push_job dump wh method data headers)) q"

section \<open>Lua hooks\<close>

record cluahook =
  luaAllowed :: bool
  luaScript :: string

definition lua_Trigger ::
  "(json \<Rightarrow> string) \<Rightarrow> cluahook \<Rightarrow> hook_trigger_t \<Rightarrow> string \<Rightarrow> string \<Rightarrow> string \<Rightarrow> json
     \<Rightarrow> hook_job casyncqueue \<Rightarrow> hook_job casyncqueue" where
  "lua_Trigger dump lh trigger app channel session msg q =
     (if luaAllowed lh
      then Enqueue (LuaJob (luaScript lh) ''OnTrigger'' [Str_hook trigger, app, channel, session, dump msg]) q
      else q)"

text \<open>\<^verbatim>\<open>cbroker::RegisterHook\<close>: a web address gives a web hook, anything else names a script.\<close>

datatype chook = WebHook cwebhook | LuaHook cluahook

definition dsn_of :: "cdsn \<Rightarrow> dsn_t outcome" where
  "dsn_of c =
     bind_outcome (IsHttps c) (\<lambda>https.
     bind_outcome (read_view (ds_Host c)) (\<lambda>host.
     bind_outcome (read_view (ds_HostPort c)) (\<lambda>hostport.
     bind_outcome (read_view (ds_Url c)) (\<lambda>url.
       Inr \<lparr>dsn_https = https, dsn_Host = host, dsn_HostPort = hostport, dsn_Url = url\<rparr>))))"

definition RegisterHook :: "bool \<Rightarrow> (string \<Rightarrow> bool) \<Rightarrow> string \<Rightarrow> bool \<Rightarrow> chook outcome" where
  "RegisterHook ctx_ok exists_file endpoint keepalive =
     (let dsn = snd (Assign endpoint cdsn_new) in
      bind_outcome (IsWeb dsn) (\<lambda>web.
        if web then bind_outcome (dsn_of dsn) (\<lambda>d. Inr (WebHook (cwebhook_new d keepalive ctx_ok)))
        else Inr (LuaHook \<lparr>luaAllowed = exists_file endpoint, luaScript = endpoint\<rparr>)))"

section \<open>Properties\<close>

text \<open>A hook without TLS: when a job is done, every descriptor it opened is closed, so is the one that was
  open before, and the hook holds none. What was sent is the one request of the job or nothing.\<close>

theorem hook_Write_balanced:
  assumes "\<not> wh_fdSslCtx wh" "nc_connect nc \<noteq> Some EINPROGRESS"
  shows "case hook_Write nc send readok job wh of (sent, wh', opened, shut) \<Rightarrow>
    wh_fdEndpoint wh' = -1 \<and> shut = (if wh_fdEndpoint wh > 0 then [wh_fdEndpoint wh] else []) @ opened
    \<and> sent \<in> {[], [request_text (hj_method job) (hj_uri job) (hj_headers job) (hj_body job)]}"
  using assms
  by (auto simp: hook_Write_def hook_Connect_def TcpConnect_def inet_Close_def hook_ReadResponse_def Let_def
      split: option.splits)

definition sample_dsn :: dsn_t where
  "sample_dsn = \<lparr>dsn_https = True, dsn_Host = ''h'', dsn_HostPort = ''h'', dsn_Url = ''/x''\<rparr>"

definition sample_net :: net_call where
  "sample_net = \<lparr>nc_sockaddr = (\<lambda>p. None), nc_socket = 9, nc_errno = EMFILE, nc_connect = None, nc_ssl_new = True,
     nc_ssl_connect = False\<rparr>"

definition sample_http_job :: http_job where
  "sample_http_job = \<lparr>hj_method = ''POST'', hj_uri = ''/x'', hj_headers = [], hj_body = ''{}''\<rparr>"

theorem hook_Write_balanced_witness:
  "case hook_Write sample_net (\<lambda>_. None) True sample_http_job ((cwebhook_new sample_dsn False False)\<lparr>wh_fdEndpoint := 4\<rparr>) of
     (sent, wh', opened, shut) \<Rightarrow> wh_fdEndpoint wh' = -1 \<and> shut = [4, 9] \<and> opened = [9]"
  using hook_Write_balanced [where wh = "(cwebhook_new sample_dsn False False)\<lparr>wh_fdEndpoint := 4\<rparr>" and nc = sample_net
      and send = "\<lambda>_. None" and readok = True and job = sample_http_job]
  by (simp add: cwebhook_new_def sample_net_def sample_dsn_def hook_Write_def hook_Connect_def TcpConnect_def inet_Close_def
      hook_ReadResponse_def HttpWriteRequest_def)

text \<open>A hook with TLS whose peer refuses the handshake: the connection was opened, is not closed, and the
  hook forgets it.\<close>

theorem hook_tls_refused_leaks:
  assumes "wh_fdSslCtx wh" "nc_sockaddr nc ''80'' = None" "nc_ssl_new nc" "nc_socket nc > 0" "nc_connect nc = None"
    and "\<not> nc_ssl_connect nc" "wh_fdEndpoint wh \<noteq> nc_socket nc"
  shows "case hook_Write nc send readok job wh of (sent, wh', opened, shut) \<Rightarrow>
    sent = [] \<and> wh_fdEndpoint wh' = -1 \<and> opened = [nc_socket nc] \<and> nc_socket nc \<notin> set shut"
  using assms by (auto simp: hook_Write_def hook_Connect_def SslConnect_def inet_Close_def Let_def)

theorem hook_tls_refused_leaks_witness:
  "case hook_Write sample_net (\<lambda>_. None) True sample_http_job (cwebhook_new sample_dsn False True) of
     (sent, wh', opened, shut) \<Rightarrow> wh_fdEndpoint wh' = -1 \<and> opened = [9] \<and> shut = []"
  using hook_tls_refused_leaks [where wh = "cwebhook_new sample_dsn False True" and nc = sample_net
      and send = "\<lambda>_. None" and readok = True and job = sample_http_job]
  by (simp add: cwebhook_new_def sample_net_def sample_dsn_def hook_Write_def hook_Connect_def SslConnect_def inet_Close_def)

text \<open>The default port of a secure hook is 80, like that of a plain one.\<close>

lemma hook_https_port: "hook_Connect nc wh = hook_Connect (nc\<lparr>nc_sockaddr := (\<lambda>_. nc_sockaddr nc ''80'')\<rparr>) wh"
proof -
  have "TcpConnect (nc\<lparr>nc_sockaddr := f\<rparr>) = TcpConnect nc" "SslConnect ctx (nc\<lparr>nc_sockaddr := f\<rparr>) = SslConnect ctx nc" for f ctx
    by (simp_all add: TcpConnect_def SslConnect_def Let_def)
  then show ?thesis
    by (cases "nc_sockaddr nc ''80''"; cases "wh_fdSslCtx wh") (simp_all add: hook_Connect_def Let_def)
qed

text \<open>When \<^verbatim>\<open>socket\<close> fails, \<^verbatim>\<open>TcpConnect\<close> still reports success.\<close>

lemma TcpConnect_no_socket: "nc_socket nc \<le> 0 \<Longrightarrow> TcpConnect nc = (None, nc_socket nc, [], [])"
  by (simp add: TcpConnect_def)

end
