(* ===== verification/Servers.thy ===== *)
theory Servers
  imports SessionProps HttpConn Poll Cluster
begin

text \<open>
  The servers that accept connections: the acceptor and the TCP server (\<^verbatim>\<open>include/inet/cacceptor.h\<close>,
  \<^verbatim>\<open>source/inet/ctcpserver.cpp\<close>), the first request on a websocket connection (\<^verbatim>\<open>source/http/cwsserver.cpp\<close>)
  with the protocols of \<^verbatim>\<open>cwebsocketserver\<close>, the data of an HTTP connection (\<^verbatim>\<open>source/http/chttpserver.cpp\<close>), the
  thread of \<^verbatim>\<open>cpoll\<close> with its handlers, and the idle work of the broker (\<^verbatim>\<open>cbroker.cpp\<close>). What system calls
  return is a parameter; a signal that is raised is part of the result.
\<close>

section \<open>Accepting\<close>

record workers =
  wk_polls :: "nat"
  wk_seq :: u64

text \<open>\<^verbatim>\<open>PeekPoll\<close>: the number of the worker, in turn.\<close>

definition PeekPoll :: "workers \<Rightarrow> nat outcome \<times> workers" where
  "PeekPoll w =
     (if wk_polls w = 0 then (Inl (Throw ''service IO is not running''), w)
      else
        let seq = wk_seq w;
            next = (if seq + 1 = - 1 then 0 else seq + 1) in
        (Inr (unat seq mod wk_polls w), w\<lparr>wk_seq := next\<rparr>))"

text \<open>\<^verbatim>\<open>Accept\<close> and \<^verbatim>\<open>AcceptSSL\<close>: \<open>acc\<close> is what \<^verbatim>\<open>TcpAccept\<close> gives, \<open>tls\<close> what the handshake gives, \<open>on_accept\<close> what
  \<^verbatim>\<open>OnTcpAccept\<close> returns for the client. The result and the descriptors that are closed.\<close>

definition close_fd :: "int \<Rightarrow> int list" where
  "close_fd fd = (if fd > 0 then [fd] else [])"

definition Accept :: "errno option \<times> int \<Rightarrow> (int \<Rightarrow> errno option) \<Rightarrow> errno option \<times> int list" where
  "Accept acc on_accept =
     (case acc of
        (None, cli) \<Rightarrow>
          (case on_accept cli of
             None \<Rightarrow> (None, [])
           | Some e \<Rightarrow> (Some e, close_fd cli))
      | (Some e, cli) \<Rightarrow> (Some e, if e \<noteq> EAGAIN then close_fd cli else []))"

definition AcceptSSL ::
  "errno option \<times> int \<Rightarrow> errno option \<Rightarrow> (int \<Rightarrow> errno option) \<Rightarrow> errno option \<times> int list" where
  "AcceptSSL acc tls on_accept =
     (case acc of
        (None, cli) \<Rightarrow>
          (case tls of
             Some e \<Rightarrow> (Some e, close_fd cli)
           | None \<Rightarrow>
               (case on_accept cli of
                  None \<Rightarrow> (None, [])
                | Some e \<Rightarrow> (Some e, close_fd cli)))
      | (Some e, cli) \<Rightarrow> (Some e, close_fd cli))"

datatype signal = SIGPIPE | SIGHUP | SIGINT | SIGQUIT | SIGABRT | SIGSEGV

text \<open>The handler of a listening descriptor: \<open>accepted\<close> is the result of \<^verbatim>\<open>Accept\<close> or \<^verbatim>\<open>AcceptSSL\<close>. An error that is
  not among the ignored ones closes the listening descriptor.\<close>

definition ignore_errors :: "errno list" where
  "ignore_errors = [EAGAIN, ENETDOWN, EPROTO, ENOPROTOOPT, EHOSTDOWN, ENONET, EHOSTUNREACH, EOPNOTSUPP, ENETUNREACH]"

definition OnAccept :: "int \<Rightarrow> bool \<Rightarrow> (errno option \<times> int list) \<Rightarrow> errno option \<times> int list \<times> signal list" where
  "OnAccept fd epollin accepted =
     (if epollin then (fst accepted, snd accepted, []) else (Some EINVAL, close_fd fd, [SIGPIPE]))"

definition listen_event ::
  "bool \<Rightarrow> int \<Rightarrow> bool \<Rightarrow> (errno option \<times> int list) \<Rightarrow> int list \<times> signal list" where
  "listen_event poll_alive fd epollin accepted =
     (if \<not> poll_alive then ([], [])
      else
        let (res, shut, sigs) = OnAccept fd epollin accepted in
        (shut @ (case res of Some e \<Rightarrow> if e \<in> set ignore_errors then [] else close_fd fd | None \<Rightarrow> []), sigs))"

section \<open>The first request of a websocket connection\<close>

datatype proto = ProtoWebSocket | ProtoPusher | ProtoMqtt

record server_config =
  sc_websocket :: "string option"
  sc_pusher :: "string option"
  sc_mqtt :: "string option"
  sc_Path :: string

text \<open>\<^verbatim>\<open>ProtoRoutes\<close> of the constructor: each protocol under its own path if it is enabled, Pusher under
  \<^verbatim>\<open>app\<close> as well.\<close>

definition ProtoRoutes :: "server_config \<Rightarrow> (string, proto) umap" where
  "ProtoRoutes cfg =
     (let rs = (case sc_websocket cfg of Some p \<Rightarrow> um_assign p ProtoWebSocket [] | None \<Rightarrow> []);
          rs = (case sc_pusher cfg of Some p \<Rightarrow> um_assign p ProtoPusher (um_assign ''app'' ProtoPusher rs) | None \<Rightarrow> rs) in
      case sc_mqtt cfg of Some p \<Rightarrow> um_assign p ProtoMqtt rs | None \<Rightarrow> rs)"

datatype ws_action =
    Respond string "(string \<times> string) list"
  | CloseSocket
  | PollDeleteFd
  | CloseFdOnly
  | StartSession proto capplication
  | SessionError errno

text \<open>The position of the application's key in the path.\<close>

definition app_key :: "server_config \<Rightarrow> uri_t \<Rightarrow> string outcome" where
  "app_key cfg path =
     bind_outcome (uri_At path 1) (\<lambda>p. uri_At path (if p \<noteq> sc_Path cfg then 3 else 2))"

definition upgrade_headers :: "(bytes \<Rightarrow> bytes) \<Rightarrow> headers_t \<Rightarrow> (string \<times> string) list" where
  "upgrade_headers sha1 headers =
     [(''Upgrade'', ''WebSocket''), (''Connection'', ''Upgrade''),
      (''Sec-WebSocket-Accept'', SecKey sha1 (GetValue headers ''sec-websocket-key'' [])),
      (''Sec-WebSocket-Version'', ''13'')]"

text \<open>\<^verbatim>\<open>cwebsocketserver::WsUpgrade\<close>: \<open>send\<close> is whether the response 101 could be written.\<close>

definition WsUpgrade ::
  "server_config \<Rightarrow> ccredentials \<Rightarrow> (bytes \<Rightarrow> bytes) \<Rightarrow> errno option \<Rightarrow> uri_t \<Rightarrow> headers_t
     \<Rightarrow> (errno option \<times> ws_action list) outcome" where
  "WsUpgrade cfg creds sha1 send path headers =
     bind_outcome (uri_At path 1) (\<lambda>p.
       case um_find (ProtoRoutes cfg) p of
         None \<Rightarrow> Inr (Some ENOTDIR, [Respond ''404'' [], CloseSocket])
       | Some _ \<Rightarrow>
           bind_outcome (app_key cfg path) (\<lambda>key.
             case GetAppByKey creds key of
               Some app \<Rightarrow> Inr (send, [Respond ''101'' (upgrade_headers sha1 headers)])
             | None \<Rightarrow> Inr (Some EACCES, [Respond ''403'' [], CloseSocket])))"

text \<open>\<^verbatim>\<open>OnWsUpgrade\<close>: \<open>started\<close> tells whether the session's \<^verbatim>\<open>OnWsConnect\<close> accepted the client; the route of MQTT
  never gives a session. Without an application the session's constructor dereferences null.\<close>

definition OnWsUpgrade ::
  "server_config \<Rightarrow> ccredentials \<Rightarrow> (proto \<Rightarrow> capplication \<Rightarrow> bool) \<Rightarrow> uri_t
     \<Rightarrow> ((proto \<times> capplication) option \<times> ws_action list) outcome" where
  "OnWsUpgrade cfg creds started path =
     bind_outcome (app_key cfg path) (\<lambda>key.
     bind_outcome (uri_At path 1) (\<lambda>p.
       case (um_find (ProtoRoutes cfg) p, GetAppByKey creds key) of
         (None, _) \<Rightarrow> Inl (Throw ''bad_function_call'')
       | (Some ProtoMqtt, _) \<Rightarrow> Inr (None, [Respond ''400'' [], CloseSocket])
       | (Some r, None) \<Rightarrow> Inl (UB ''null application'')
       | (Some r, Some app) \<Rightarrow>
           if started r app then Inr (Some (r, app), [StartSession r app])
           else Inr (None, [Respond ''400'' [], CloseSocket])))"

text \<open>The test for an upgrade: the headers begin with the words, the version is at least 12.\<close>

definition wants_upgrade :: "string \<Rightarrow> headers_t \<Rightarrow> bool" where
  "wants_upgrade method headers \<longleftrightarrow>
     method = ''GET'' \<and> strncasecmp_eq (GetValue headers ''connection'' []) ''upgrade''
     \<and> strncasecmp_eq (GetValue headers ''upgrade'' []) ''websocket''
     \<and> unat (ToNumber (GetValue headers ''sec-websocket-version'' [])) \<ge> 12"

text \<open>\<^verbatim>\<open>WsAccept\<close>: \<open>request\<close> is what \<^verbatim>\<open>HttpReadRequest\<close> gave, \<open>update\<close> what \<^verbatim>\<open>PollUpdate\<close> gives for the session's
  handler. The session and the actions.\<close>

definition WsAccept ::
  "server_config \<Rightarrow> ccredentials \<Rightarrow> (bytes \<Rightarrow> bytes) \<Rightarrow> errno option \<Rightarrow> (proto \<Rightarrow> capplication \<Rightarrow> bool)
     \<Rightarrow> errno option \<Rightarrow> bool \<Rightarrow> bool \<Rightarrow> errno option \<times> http_request \<Rightarrow> ((proto \<times> capplication) option \<times> ws_action list) outcome" where
  "WsAccept cfg creds sha1 send started update poll_alive epollin request =
     (if \<not> poll_alive then Inr (None, [CloseFdOnly])
      else if \<not> epollin then Inr (None, [PollDeleteFd])
      else
        (case request of
           (Some e, rq) \<Rightarrow> Inr (None, [Respond ''400'' [], PollDeleteFd])
         | (None, rq) \<Rightarrow>
             if wants_upgrade (rq_method rq) (rq_headers rq) then
               bind_outcome (WsUpgrade cfg creds sha1 send (rq_uri rq) (rq_headers rq)) (\<lambda>(res, acts).
                 if res = None then
                   bind_outcome (OnWsUpgrade cfg creds started (rq_uri rq)) (\<lambda>(con, acts').
                     Inr (con, acts @ acts' @ (case (con, update) of (Some _, Some e) \<Rightarrow> [SessionError e] | _ \<Rightarrow> [])))
                 else Inr (None, acts))
             else Inr (None, [Respond ''426'' [], PollDeleteFd])))"

text \<open>\<^verbatim>\<open>WsData\<close> and \<^verbatim>\<open>HttpData\<close>: which call an event makes; \<open>events\<close> are those for reading and writing alone, and
  whether the others have the error or the hang-up of the peer.\<close>

datatype poll_events = EPOLLIN | EPOLLOUT | OtherEvents bool bool

datatype socket_call = CallRecv | CallSend | CallError errno | CallPollDelete | CallRequest | CallHttpError | CallClose | CallNone

definition WsData :: "bool \<Rightarrow> bool \<Rightarrow> poll_events \<Rightarrow> socket_call" where
  "WsData has_socket poll_alive events =
     (if has_socket then
        (case events of
           EPOLLIN \<Rightarrow> CallRecv
         | EPOLLOUT \<Rightarrow> CallSend
         | OtherEvents err rdhup \<Rightarrow> CallError (if err then EPIPE else if rdhup then ESTRPIPE else EREMOTEIO))
      else if poll_alive then CallPollDelete else CallNone)"

definition HttpData :: "bool \<Rightarrow> poll_events \<Rightarrow> errno option \<Rightarrow> socket_call" where
  "HttpData poll_alive events res =
     (if poll_alive then
        (case events of
           EPOLLIN \<Rightarrow> (case res of None \<Rightarrow> CallRequest | Some e \<Rightarrow> CallHttpError)
         | _ \<Rightarrow> CallClose)
      else CallClose)"

section \<open>The poll thread\<close>

text \<open>A batch of events with handlers that act on a state: whether the thread goes on, was asked to leave, or
  ended with an exception, which raises \<^verbatim>\<open>SIGHUP\<close>. Descriptors without a handler are closed.\<close>

datatype poll_end = PollGoesOn | PollLeaves | PollRaises signal

type_synonym 'st handler = "'st \<Rightarrow> failure option \<times> 'st"

fun poll_serve :: "int \<Rightarrow> (int, 'st handler option) umap \<Rightarrow> int list \<Rightarrow> 'st \<Rightarrow> poll_end \<times> 'st \<times> int list" where
  "poll_serve exitFd handlers [] st = (PollGoesOn, st, [])"
| "poll_serve exitFd handlers (fd # fds) st =
     (if fd = exitFd then (PollLeaves, st, [])
      else
        (case um_find handlers fd of
           Some (Some h) \<Rightarrow>
             (case h st of
                (Some f, st') \<Rightarrow> (PollRaises SIGHUP, st', [])
              | (None, st') \<Rightarrow> poll_serve exitFd handlers fds st')
         | _ \<Rightarrow> (case poll_serve exitFd handlers fds st of (r, st', shut) \<Rightarrow> (r, st', close_fd fd @ shut))))"

text \<open>The main thread: idle rounds until one of the signals it waits for has come.\<close>

definition waited_signals :: "signal list" where
  "waited_signals = [SIGINT, SIGQUIT, SIGABRT, SIGSEGV, SIGHUP]"

definition WaitFor_stops :: "signal list \<Rightarrow> bool" where
  "WaitFor_stops sigs \<longleftrightarrow> list_ex (\<lambda>sig. sig \<in> set waited_signals) sigs"

section \<open>Idle work\<close>

text \<open>\<^verbatim>\<open>cbroker::OnIdle\<close>: channels are collected in turn until one is found empty, which is unregistered.\<close>

fun idle_collect ::
  "env \<Rightarrow> (string \<Rightarrow> bool) \<Rightarrow> (string \<times> cchannel) list \<Rightarrow> cchannels \<Rightarrow> cchannels \<times> effect list" where
  "idle_collect e locks [] chans = (chans, [])"
| "idle_collect e locks ((name, ch) # rest) chans =
     (let (n, ch', effs) = channel_Gc e (locks name) ch;
          (chans1, effs1) = settle ch' effs chans in
      if n \<noteq> 0 then
        (case idle_collect e locks rest chans1 of (chans2, effs2) \<Rightarrow> (chans2, effs1 @ effs2))
      else (UnRegister name chans1, effs1))"

definition OnIdle ::
  "env \<Rightarrow> (string \<Rightarrow> bool) \<Rightarrow> (json \<Rightarrow> string) \<Rightarrow> int \<Rightarrow> cchannels \<Rightarrow> 'sa ccluster
     \<Rightarrow> (cchannels \<times> effect list) \<times> 'sa ccluster \<times> ('sa \<times> bytes) list" where
  "OnIdle e locks dump now chans cluster =
     (idle_collect e locks (ListChannels chans) chans, Check dump now cluster)"

section \<open>Properties of accepting\<close>

fun peeks :: "nat \<Rightarrow> workers \<Rightarrow> nat outcome list" where
  "peeks 0 w = []"
| "peeks (Suc k) w = (case PeekPoll w of (r, w') \<Rightarrow> r # peeks k w')"

text \<open>Connections go to the workers in turn.\<close>

theorem PeekPoll_round_robin:
  assumes "wk_polls w > 0" "unat (wk_seq w) + k < 2 ^ 64 - 1"
  shows "peeks k w = map (\<lambda>i. Inr ((unat (wk_seq w) + i) mod wk_polls w)) [0..<k]"
  using assms
proof (induction k arbitrary: w)
  case (Suc k)
  let ?w = "w\<lparr>wk_seq := wk_seq w + 1\<rparr>"
  have "unat (wk_seq w) + 1 < 2 ^ 64 - 1" using Suc.prems by simp
  then have u: "unat (wk_seq w + 1) = unat (wk_seq w) + 1"
    by (subst unat_word_ariths) (simp add: unat_1)
  have m: "unat (- 1 :: u64) = 2 ^ 64 - 1" by (simp add: unsigned_minus_1_eq_mask mask_eq_exp_minus_1)
  have "wk_seq w + 1 \<noteq> - 1"
  proof
    assume eq: "wk_seq w + 1 = - 1"
    from u have "unat (wk_seq w) + 1 = 2 ^ 64 - 1" unfolding eq m by (rule sym)
    with Suc.prems(2) show False by linarith
  qed
  then have p: "PeekPoll w = (Inr (unat (wk_seq w) mod wk_polls w), ?w)"
    using Suc.prems(1) by (simp add: PeekPoll_def Let_def)
  have "peeks k ?w = map (\<lambda>i. Inr ((unat (wk_seq w) + Suc i) mod wk_polls w)) [0..<k]"
    using Suc.IH [of ?w] Suc.prems u by simp
  then show ?case
    using p by (simp add: upt_conv_Cons map_Suc_upt [symmetric] o_def del: upt_Suc map_Suc_upt)
qed simp

theorem PeekPoll_round_robin_witness:
  "peeks 5 \<lparr>wk_polls = 2, wk_seq = 7\<rparr> = [Inr 1, Inr 0, Inr 1, Inr 0, Inr 1]"
  using PeekPoll_round_robin [of "\<lparr>wk_polls = 2, wk_seq = 7\<rparr>" 5] by (simp add: upt_rec del: peeks.simps)

text \<open>A client that gives up between connecting and \<^verbatim>\<open>accept\<close>, or a process that is out of descriptors, closes
  the listening socket for good: the error of \<^verbatim>\<open>accept\<close> is not among the ignored ones.\<close>

theorem accept_error_closes_listener:
  assumes "e \<in> {ECONNABORTED, EMFILE, ENOMEM}" "fd > 0"
  shows "fd \<in> set (fst (listen_event True fd True (Accept (Some e, -1) on_accept)))
    \<and> fd \<in> set (fst (listen_event True fd True (AcceptSSL (Some e, -1) tls on_accept)))"
  using assms
  by (auto simp: listen_event_def OnAccept_def Accept_def AcceptSSL_def close_fd_def ignore_errors_def Let_def)

theorem accept_error_closes_listener_witness:
  "3 \<in> set (fst (listen_event True 3 True (Accept (Some ECONNABORTED, -1) (\<lambda>_. None))))"
  using accept_error_closes_listener [of ECONNABORTED 3 "\<lambda>_. None" None] by simp

section \<open>Properties of the first request\<close>

text \<open>C10: A session is started only for a request that asks for an upgrade, on a protocol that is enabled, for
  an enabled application whose key is in the path, and after the response 101 was written.\<close>

theorem ws_session_authorised:
  assumes "WsAccept cfg creds sha1 send started update poll_alive epollin (res, rq) = Inr (Some (r, app), acts)"
  shows "res = None \<and> poll_alive \<and> epollin \<and> wants_upgrade (rq_method rq) (rq_headers rq) \<and> send = None \<and> r \<noteq> ProtoMqtt
    \<and> (\<exists>p key. uri_At (rq_uri rq) 1 = Inr p \<and> um_find (ProtoRoutes cfg) p = Some r
        \<and> app_key cfg (rq_uri rq) = Inr key \<and> GetAppByKey creds key = Some app)
    \<and> started r app \<and> acts = [Respond ''101'' (upgrade_headers sha1 (rq_headers rq)), StartSession r app]
        @ (case update of Some e \<Rightarrow> [SessionError e] | None \<Rightarrow> [])"
  using assms
  by (auto simp: WsAccept_def WsUpgrade_def OnWsUpgrade_def bind_outcome_eq_Inr
      split: if_splits option.splits proto.splits)

definition sample_config :: server_config where
  "sample_config = \<lparr>sc_websocket = Some ''ws'', sc_pusher = Some ''pusher'', sc_mqtt = None, sc_Path = ''app''\<rparr>"

definition sample_upgrade :: "string \<Rightarrow> string list \<Rightarrow> http_request" where
  "sample_upgrade connection path = empty_request\<lparr>rq_method := ''GET'', rq_uri := empty_uri\<lparr>uriPathList := path\<rparr>,
     rq_headers := [(''connection'', connection), (''upgrade'', ''websocket''), (''sec-websocket-version'', ''13''),
       (''sec-websocket-key'', ''x'')]\<rparr>"

definition sample_creds :: ccredentials where
  "sample_creds = \<lparr>appIds = [(''7'', sample_app)], appCreds = [(''k'', sample_app)]\<rparr>"

lemma sample_wants: "wants_upgrade ''GET'' (rq_headers (sample_upgrade ''upgrade'' path))"
  by (simp add: wants_upgrade_def sample_upgrade_def GetValue_def um_find_def strncasecmp_eq_def tolower_def ToNumber_def
      number_loop_def isdigit_def digit_value_def)

lemma sample_accept:
  "WsAccept sample_config sample_creds (\<lambda>b. []) None (\<lambda>_ _. True) None True True
     (None, sample_upgrade ''upgrade'' [''/'', ''app'', ''k'']) =
   Inr (Some (ProtoPusher, sample_app),
     [Respond ''101'' (upgrade_headers (\<lambda>b. []) (rq_headers (sample_upgrade ''upgrade'' [''/'', ''app'', ''k'']))),
      StartSession ProtoPusher sample_app])"
  using sample_wants [of "[''/'', ''app'', ''k'']"]
  by (simp add: WsAccept_def WsUpgrade_def OnWsUpgrade_def sample_config_def ProtoRoutes_def um_assign_def um_find_def
      app_key_def uri_At_def sample_upgrade_def sample_creds_def GetAppByKey_def sample_app_def capplication_new_def
      credential_copy_def credential_new_def)

theorem ws_session_authorised_witness:
  "wants_upgrade (rq_method (sample_upgrade ''upgrade'' [''/'', ''app'', ''k'']))
     (rq_headers (sample_upgrade ''upgrade'' [''/'', ''app'', ''k''])) \<and> GetAppByKey sample_creds ''k'' = Some sample_app"
  using ws_session_authorised [OF sample_accept]
  by (auto simp: app_key_def uri_At_def sample_upgrade_def sample_config_def)

text \<open>A browser that sends \<^verbatim>\<open>Connection: keep-alive, Upgrade\<close>, as RFC 6455 allows, is refused with 426: only a
  header that begins with the word is taken.\<close>

theorem ws_connection_list_refused:
  assumes "strncasecmp_eq (GetValue (rq_headers rq) ''connection'' []) ''keep-alive''"
  shows "WsAccept cfg creds sha1 send started update True True (None, rq) = Inr (None, [Respond ''426'' [], PollDeleteFd])"
proof -
  have "\<not> strncasecmp_eq (GetValue (rq_headers rq) ''connection'' []) ''upgrade''"
    using assms by (cases "GetValue (rq_headers rq) ''connection'' []") (auto simp: strncasecmp_eq_def tolower_def)
  then show ?thesis by (simp add: WsAccept_def wants_upgrade_def)
qed

theorem ws_connection_list_refused_witness:
  "WsAccept sample_config sample_creds (\<lambda>b. []) None (\<lambda>_ _. True) None True True
     (None, sample_upgrade ''keep-alive, Upgrade'' [''/'', ''app'', ''k'']) = Inr (None, [Respond ''426'' [], PollDeleteFd])"
  by (rule ws_connection_list_refused)
    (simp add: sample_upgrade_def GetValue_def um_find_def strncasecmp_eq_def)

text \<open>The default protocol is registered under \<^verbatim>\<open>app\<close> whatever the configuration says: with another path in the
  configuration, that path is answered with 404.\<close>

theorem app_path_not_served:
  assumes "wants_upgrade (rq_method rq) (rq_headers rq)" "uri_At (rq_uri rq) 1 = Inr (sc_Path cfg)"
    and "sc_Path cfg \<noteq> ''app''" "sc_websocket cfg \<noteq> Some (sc_Path cfg)" "sc_pusher cfg \<noteq> Some (sc_Path cfg)"
    and "sc_mqtt cfg \<noteq> Some (sc_Path cfg)"
  shows "WsAccept cfg creds sha1 send started update True True (None, rq) = Inr (None, [Respond ''404'' [], CloseSocket])"
proof -
  have "um_find (ProtoRoutes cfg) (sc_Path cfg) = None"
    using assms(3-6) by (auto simp: ProtoRoutes_def Let_def um_find_assign um_find_Nil split: option.splits)
  with assms(1,2) show ?thesis by (simp add: WsAccept_def WsUpgrade_def)
qed

theorem app_path_not_served_witness:
  "WsAccept (sample_config\<lparr>sc_Path := ''main''\<rparr>) sample_creds (\<lambda>b. []) None (\<lambda>_ _. True) None True True
     (None, sample_upgrade ''upgrade'' [''/'', ''main'', ''k'']) = Inr (None, [Respond ''404'' [], CloseSocket])"
  by (rule app_path_not_served)
    (use sample_wants [of "[''/'', ''main'', ''k'']"] in
      \<open>simp_all add: sample_config_def sample_upgrade_def uri_At_def empty_request_def\<close>)

text \<open>An upgrade of a path that has no second part reads the list of the path's parts past its end.\<close>

lemma ws_short_path_undefined:
  assumes "wants_upgrade (rq_method rq) (rq_headers rq)" "length (uriPathList (rq_uri rq)) < 2"
  shows "\<exists>u. WsAccept cfg creds sha1 send started update True True (None, rq) = Inl (UB u)"
  using assms by (simp add: WsAccept_def WsUpgrade_def uri_At_def)

section \<open>One client ends the broker\<close>

text \<open>The handler of a Pusher session's descriptor on the poll thread.\<close>

definition pusher_handler :: "io \<Rightarrow> bytes \<Rightarrow> errno \<Rightarrow> bytes \<Rightarrow> ('sa session \<times> broker) handler" where
  "pusher_handler io junk fail inp st =
     (case pusher_OnSocketRecv io junk fail inp (fst st) (snd st) of (f, s, bk, out) \<Rightarrow> (f, s, bk))"

text \<open>C38: A client of the Pusher protocol that sends one text frame with a JSON object without an event, for
  which no authorisation is needed, ends the poll thread by an exception; the signal it raises is one the
  main thread waits for to shut the broker down.\<close>

theorem client_message_stops_broker:
  assumes "io_parse io (map char_of_byte msg) = Some (JObj fs)" "um_wf fs" "fs \<noteq> []"
    and "um_find fs ''event'' = None" "um_find fs ''options'' = None"
    and "length msg < MaxMessageLength s" "length msg < 2 ^ 64" "length key = 4"
    and "fd \<noteq> exitFd" "um_find handlers fd = Some (Some (pusher_handler io junk fail (Make key op_text msg True @ rest)))"
  shows "\<exists>st'. poll_serve exitFd handlers (fd # fds) (s, bk) = (PollRaises SIGHUP, st', []) \<and> WaitFor_stops [SIGHUP]"
proof -
  obtain s' bk' where m: "pusher_OnWsMessage io (map char_of_byte msg) s bk = (Some (Throw ''type_error.302''), s', bk', [])"
    using pusher_no_event_fails [OF assms(1-5)] by blast
  have "WsReadMessage (sess_send io s) (MaxMessageLength s) fail (Make key op_text msg True @ rest) =
      ((None, [OnWsMessage (opcode_code op_text) (Some msg) (length msg)]), rest)"
    using read_Make [OF assms(6-8)] by (simp add: ws_dispatch_def)
  then have "pusher_handler io junk fail (Make key op_text msg True @ rest) (s, bk) = (Some (Throw ''type_error.302''), s', bk')"
    by (simp add: pusher_handler_def pusher_OnSocketRecv_def andthen_def m)
  with assms(9,10) show ?thesis by (simp add: WaitFor_stops_def waited_signals_def)
qed

theorem client_message_stops_broker_witness:
  "\<exists>st'. poll_serve 3 [(5, Some (pusher_handler (sample_io\<lparr>io_parse := (\<lambda>_. Some (JObj [(''a'', JInt 1)]))\<rparr>) [] ECONNRESET
      (Make [1, 2, 3, 4] op_text [65] True @ [])))] [5] (sample_session, empty_broker) = (PollRaises SIGHUP, st', [])
    \<and> WaitFor_stops [SIGHUP]"
  by (rule client_message_stops_broker [where fs = "[(''a'', JInt 1)]" and msg = "[65]" and key = "[1, 2, 3, 4]"
        and io = "sample_io\<lparr>io_parse := (\<lambda>_. Some (JObj [(''a'', JInt 1)]))\<rparr>" and junk = "[]" and fail = ECONNRESET
        and rest = "[]"])
    (simp_all add: um_wf_def um_find_def sample_session_def)

section \<open>Idle work keeps the registry\<close>

lemma settle_other:
  "settle ch effs chans = (chans', effs') \<Longrightarrow> k \<noteq> chUid ch \<Longrightarrow> um_find chans' k = um_find chans k"
  by (auto simp: settle_def UnRegister_def um_find_erase um_find_assign split: if_splits)

lemma settle_keeps_rest:
  assumes "settle ch' effs chans = (chans', effs')" "chUid ch' = name" "distinct (map fst ((name, ch) # rest))"
    and "\<forall>(nm, c) \<in> set ((name, ch) # rest). um_find chans nm = Some c"
  shows "\<forall>(nm, c) \<in> set rest. um_find chans' nm = Some c"
proof safe
  fix nm c assume mem: "(nm, c) \<in> set rest"
  then have "nm \<noteq> name" using assms(3) by (metis fst_conv image_eqI list.set_map distinct.simps(2) list.simps(9))
  then show "um_find chans' nm = Some c" using settle_other [OF assms(1)] assms(2,4) mem by auto
qed

lemma idle_collect_ok:
  assumes "registry_ok chans" "distinct (map fst rest)" "\<forall>(name, ch) \<in> set rest. um_find chans name = Some ch"
  shows "registry_ok (fst (idle_collect e locks rest chans))"
  using assms
proof (induction rest arbitrary: chans)
  case (Cons p rest)
  obtain name ch where p: "p = (name, ch)" by force
  obtain n ch' effs where g: "channel_Gc e (locks name) ch = (n, ch', effs)" by (metis prod_cases3)
  obtain chans1 effs1 where s: "settle ch' effs chans = (chans1, effs1)" by force
  have ch: "channel_ok name ch" "chSubscribers ch \<noteq> []" "um_wf chans"
    using Cons.prems p by (auto simp: registry_ok_def)
  have snd: "sound_op ch ch' effs" using channel_Gc_sound [OF g ch(1,2)] .
  then have uid: "chUid ch' = name" using ch(1) by (auto simp: sound_op_def same_channel_def channel_ok_def)
  have ok: "registry_ok chans1"
    using settle_ok [OF registry_ok_erase [OF Cons.prems(1)] ch(3) ch(1) snd s] .
  note keep = settle_keeps_rest [OF s uid Cons.prems(2,3) [unfolded p]]
  show ?case
    using Cons.IH [OF ok _ keep] Cons.prems(2) registry_ok_erase [OF ok] p
    by (simp add: g s UnRegister_def split: prod.splits) (metis fst_conv)
qed simp

text \<open>The idle round keeps the registry well formed: no channel without subscribers stays in it.\<close>

theorem OnIdle_keeps_registry:
  assumes "registry_ok chans"
  shows "registry_ok (fst (fst (OnIdle e locks dump now chans cluster)))"
proof -
  have "\<forall>(name, ch) \<in> set chans. um_find chans name = Some ch" "distinct (map fst chans)"
    using assms by (auto simp: registry_ok_def um_wf_def um_find_def)
  then show ?thesis using idle_collect_ok [OF assms] by (simp add: OnIdle_def ListChannels_def)
qed

definition idle_registry :: cchannels where
  "idle_registry = [(''7#news'', (new_channel PublicChannel ''7#news'' ''news'' ''7'' autoclose_yes)\<lparr>chSubscribers := [''s1'']\<rparr>)]"

theorem OnIdle_keeps_registry_witness: "registry_ok (fst (idle_collect sample_env (\<lambda>_. True) idle_registry idle_registry))"
proof (rule OnIdle_keeps_registry [of idle_registry sample_env "\<lambda>_. True", unfolded OnIdle_def ListChannels_def fst_conv])
  show "registry_ok idle_registry"
    by (auto simp: idle_registry_def registry_ok_def um_wf_def um_find_def channel_ok_def new_channel_def chan_uid_def split: if_splits)
qed

end
