(* ===== verification/HttpClient.thy ===== *)
theory HttpClient
  imports Hooks Sockets
begin

text \<open>
  The HTTP client: reading a response and the documents of a chunked one
  (\<^verbatim>\<open>HttpReadResponse\<close>, \<^verbatim>\<open>HttpReadChunkedResponse\<close> of \<^verbatim>\<open>source/http/chttpconn.cpp\<close>), and
  \<^verbatim>\<open>crequest::Call\<close> of \<^verbatim>\<open>source/http/chttprequest.cpp\<close> over them. What \<^verbatim>\<open>SocketRecv\<close> returns
  is a parameter, one value for every call; a receive that finds nothing is \<open>Inr []\<close>. A call
  that goes on receiving when the values are used up has not returned (\<open>None\<close>).
\<close>

unbundle bit_operations_syntax

section \<open>Chunked responses\<close>

text \<open>The inner loop: whole documents are cut off the front of \<^verbatim>\<open>chunkStr\<close>.\<close>

lemma ExtractJson_Nil [simp]: "ExtractJson [] = Inr (-1)"
  by (simp add: ExtractJson_def)

function extract_docs :: "string \<Rightarrow> (string list \<times> string) outcome" where
  "extract_docs chunkStr =
     (case ExtractJson chunkStr of
        Inl f \<Rightarrow> Inl f
      | Inr n \<Rightarrow>
          if n > 0 then
            (case extract_docs (drop (nat n + 1) chunkStr) of
               Inl f \<Rightarrow> Inl f
             | Inr (docs, rest) \<Rightarrow> Inr (take (nat n + 1) chunkStr # docs, rest))
          else Inr ([], chunkStr))"
  by pat_completeness auto
termination
proof (relation "measure length", goal_cases)
  case 1
  then show ?case by simp
next
  case (2 chunkStr n)
  then show ?case by (cases chunkStr) simp_all
qed

declare extract_docs.simps [simp del]

text \<open>One round of the outer loop before the documents are cut off: the result, \<^verbatim>\<open>chunkStr\<close> and
  \<^verbatim>\<open>body\<close>. A size with its top bit set is negative.\<close>

definition chunk_step :: "string \<Rightarrow> string \<Rightarrow> (errno option \<times> string \<times> string) outcome" where
  "chunk_step chunkStr body =
     (let (chunkLength, body) = (case FindFirstOf CRLF body of Some ab \<Rightarrow> ab | None \<Rightarrow> ([], body)) in
      if chunkLength \<noteq> [] \<and> FromHex chunkLength \<noteq> - 1 then
        let n = sint (FromHex chunkLength) in
        if n + 2 \<ge> 2 ^ 63 then Inl (UB ''signed overflow'')
        else if int (length body) < n + 2 then Inr (Some ENODATA, chunkStr @ body, body)
        else if n + 2 < 0 then Inl (UB ''remove_prefix past the end of the view'')
        else Inr (None, chunkStr @ (if n < 0 then body else take (nat n) body), drop (nat (n + 2)) body)
      else if chunkLength \<noteq> [] then Inr (None, chunkStr @ chunkLength, body)
      else Inr (None, chunkStr @ body, []))"

lemma FindFirstOf_Some: "FindFirstOf pat s = Some (a, b) \<Longrightarrow> s = a @ pat @ b"
proof (induction pat s arbitrary: a rule: FindFirstOf.induct)
  case (1 pat)
  then show ?case by simp
next
  case (2 pat x xs)
  then show ?case
    by (auto simp: starts_with_def split: if_splits) (metis append_take_drop_id)
qed

lemma chunk_step_length:
  assumes "chunk_step chunkStr body = Inr (None, chunkStr', body')" "body \<noteq> []"
  shows "length body' < length body"
proof (cases "FindFirstOf CRLF body")
  case None
  with assms show ?thesis by (simp add: chunk_step_def)
next
  case (Some ab)
  obtain a b where ab: "ab = (a, b)" by fastforce
  have "length b < length body" using FindFirstOf_Some [of CRLF body a b] Some ab by simp
  with assms Some ab show ?thesis by (auto simp: chunk_step_def Let_def split: if_splits)
qed

function chunk_loop :: "string \<Rightarrow> string \<Rightarrow> string list \<Rightarrow> (errno option \<times> string \<times> string list) outcome" where
  "chunk_loop chunkStr body chunks =
     (if body = [] then Inr (None, chunkStr, chunks)
      else case chunk_step chunkStr body of
        Inl f \<Rightarrow> Inl f
      | Inr (Some e, chunkStr', _) \<Rightarrow> Inr (Some e, chunkStr', chunks)
      | Inr (None, chunkStr', body') \<Rightarrow>
          (case extract_docs chunkStr' of
             Inl f \<Rightarrow> Inl f
           | Inr (docs, rest) \<Rightarrow> chunk_loop rest body' (chunks @ docs)))"
  by pat_completeness auto
termination
  by (relation "measure (\<lambda>(_, body, _). length body)") (auto dest: chunk_step_length)

declare chunk_loop.simps [simp del]

text \<open>\<^verbatim>\<open>HttpReadChunkedResponse\<close>: the returned value, the chunks that were added, and \<^verbatim>\<open>data\<close>, which
  the call has moved from when the receive fails.\<close>

definition HttpReadChunkedResponse ::
  "string \<Rightarrow> errno + string \<Rightarrow> (errno option \<times> string list \<times> string) outcome" where
  "HttpReadChunkedResponse data recv =
     (case recv of
        Inl e \<Rightarrow> Inr (Some e, [], [])
      | Inr body \<Rightarrow>
          bind_outcome (chunk_loop data body []) (\<lambda>(res, chunkStr, chunks).
            case res of
              Some e \<Rightarrow> Inr (Some e, chunks, chunkStr)
            | None \<Rightarrow> Inr (None, chunks, dropWhile (\<lambda>c. c = LF \<or> c = CR) chunkStr)))"

section \<open>Responses\<close>

definition is_chunked :: "headers_t \<Rightarrow> bool" where
  "is_chunked headers \<longleftrightarrow> um_find headers ''transfer-encoding'' = Some ''chunked''"

text \<open>\<^verbatim>\<open>HttpReadResponse\<close>: the returned value, the output parameters, and \<^verbatim>\<open>data\<close>. The buffer has been
  resized to \<open>max_size\<close>, so that the size test for the second receive holds only when the sum wraps;
  that receive then is for more than the buffer has.\<close>

definition HttpReadResponse ::
  "nat \<Rightarrow> string \<Rightarrow> errno + string \<Rightarrow> ((errno + nat) \<times> http_response \<times> string) outcome" where
  "HttpReadResponse max_size data recv =
     (let none = \<lparr>rs_code = [], rs_msg = [], rs_headers = [], rs_content = [], rs_contentLength = 0\<rparr> in
      case recv of
        Inl e \<Rightarrow> Inr (Inl e, none, data)
      | Inr buf \<Rightarrow>
          bind_outcome (ParseResponse buf) (\<lambda>(res, rs).
            case res of
              Inr n \<Rightarrow>
                if n > 0 then
                  if is_chunked (rs_headers rs) then
                    let content = (case FindFirstOf CRLF (rs_content rs) of
                                     Some (_, rest) \<Rightarrow> rest | None \<Rightarrow> rs_content rs) in
                    Inr (Inr (length buf - n), rs\<lparr>rs_content := content\<rparr>, data @ content)
                  else Inr (Inr (length buf - n), rs, data)
                else Inr (Inr 0, rs\<lparr>rs_content := []\<rparr>, data)
            | Inl e \<Rightarrow>
                if e = ENODATA then
                  let missing = rs_contentLength rs - of_nat (length (rs_content rs)) in
                  if rs_contentLength rs \<noteq> 0 \<and> of_nat max_size + missing \<le> (of_nat max_size :: u64)
                  then Inl (UB ''recv past the end of the buffer'')
                  else if rs_contentLength rs = 0 then Inr (Inr 0, rs\<lparr>rs_content := []\<rparr>, data)
                  else Inr (Inl e, rs\<lparr>rs_content := []\<rparr>, data)
                else Inr (Inl e, rs\<lparr>rs_content := []\<rparr>, data)))"

text \<open>\<^verbatim>\<open>response_t\<close> and \<^verbatim>\<open>chunk_t\<close>: \<^verbatim>\<open>Json\<close> leaves null when the text does not parse.\<close>

definition response_Json :: "(string \<Rightarrow> json option) \<Rightarrow> string \<Rightarrow> json" where
  "response_Json parse body =
     (if body = [] then JNull else case parse body of Some v \<Rightarrow> v | None \<Rightarrow> JNull)"

definition response_Header :: "http_response \<Rightarrow> string \<Rightarrow> string" where
  "response_Header rs header = (case um_find (rs_headers rs) header of Some v \<Rightarrow> v | None \<Rightarrow> [])"

definition response_KeepAlive :: "http_response \<Rightarrow> bool" where
  "response_KeepAlive rs =
     (let con = response_Header rs ''connection'' in if con = [] then True else con = ''keep-alive'')"

section \<open>Calls\<close>

text \<open>Assignment of a socket: the descriptor it had is overwritten, not closed.\<close>

definition csocket_assign :: "'sa csocket \<Rightarrow> 'sa csocket \<Rightarrow> 'sa csocket \<times> 'sa csocket" where
  "csocket_assign self so =
     (let self = self\<lparr>fdSocket := fdSocket so, Sockets.fdSsl := Sockets.fdSsl so, fdPoll := fdPoll so\<rparr> in
      (self, so\<lparr>fdSocket := -1, Sockets.fdSsl := False, fdSa := fdSa self\<rparr>))"

record 'sa crequest =
  cq_so :: "'sa csocket"
  cq_headers :: "(string \<times> string) list"
  cq_sslCtx :: bool

definition crequest_new :: "'sa \<Rightarrow> (string \<times> string) list \<Rightarrow> bool \<Rightarrow> 'sa crequest" where
  "crequest_new sa0 headers sslCtx =
     \<lparr>cq_so = csocket_new (-1) sa0 False False, cq_headers = headers, cq_sslCtx = sslCtx\<rparr>"

text \<open>The loop over the chunks: the text of the first one.\<close>

fun call_chunks :: "string \<Rightarrow> (errno + string) list \<Rightarrow> string outcome option" where
  "call_chunks data [] = None"
| "call_chunks data (r # recvs) =
     (case HttpReadChunkedResponse data r of
        Inl f \<Rightarrow> Some (Inl f)
      | Inr (res, chunks, data') \<Rightarrow>
          if res \<noteq> None \<and> res \<noteq> Some ENODATA then Some (Inl (Throw ''K8s chunked reply error''))
          else (case chunks of
                  chunk # _ \<Rightarrow> Some (Inr chunk)
                | [] \<Rightarrow> call_chunks data' recvs))"

definition call_read :: "(errno + string) list \<Rightarrow> http_response outcome option" where
  "call_read recvs =
     (case recvs of
        [] \<Rightarrow> None
      | r # recvs' \<Rightarrow>
          (case HttpReadResponse 65536 [] r of
             Inl f \<Rightarrow> Some (Inl f)
           | Inr (Inl e, _, _) \<Rightarrow> Some (Inl (Throw ''K8s reply error''))
           | Inr (Inr n, rs, data) \<Rightarrow>
               if is_chunked (rs_headers rs)
               then map_option (\<lambda>r. bind_outcome r (\<lambda>chunk. Inr (rs\<lparr>rs_content := chunk\<rparr>))) (call_chunks data recvs')
               else Some (Inr rs)))"

text \<open>\<^verbatim>\<open>Call\<close>: the response, the request object, and the descriptors opened and closed.\<close>

definition crequest_Call ::
  "net_call \<Rightarrow> (string \<Rightarrow> errno option) \<Rightarrow> (errno + string) list \<Rightarrow> 'sa \<Rightarrow> string \<Rightarrow> 'sa crequest
     \<Rightarrow> http_response outcome option \<times> 'sa crequest \<times> int list \<times> int list" where
  "crequest_Call nc send recvs sa path rq =
     (case nc_sockaddr nc ''0'' of
        Some e \<Rightarrow> (Some (Inl (Throw ''can't get http address'')), rq, [], [])
      | None \<Rightarrow>
          let (res, fd, ssl, opened, shut) =
                (if cq_sslCtx rq then SslConnect True nc
                 else let (res, fd, opened, shut) = TcpConnect nc in (res, fd, False, opened, shut)) in
          case res of
            Some e \<Rightarrow> (Some (Inl (Throw ''Connect to k8s'')), rq, opened, shut)
          | None \<Rightarrow>
              let rq = rq\<lparr>cq_so := fst (csocket_assign (cq_so rq) (csocket_new fd sa ssl False))\<rparr> in
              (case HttpWriteRequest send ''GET'' path (cq_headers rq) [] of
                 Some e \<Rightarrow> (Some (Inl (Throw ''Send to k8s'')), rq, opened, shut)
               | None \<Rightarrow> (call_read recvs, rq, opened, shut)))"

text \<open>The destructor.\<close>

definition crequest_destroy :: "'sa crequest \<Rightarrow> int list" where
  "crequest_destroy rq = snd (snd (SocketClose (cq_so rq)))"

section \<open>Documents\<close>

lemma ExtractJson_loop_append:
  "ExtractJson_loop i stack cs = Inr r \<Longrightarrow> r \<noteq> -1 \<Longrightarrow> ExtractJson_loop i stack (cs @ ds) = Inr r"
  by (induction i stack cs rule: ExtractJson_loop.induct) (auto split: list.splits if_splits)

definition no_brace :: "string \<Rightarrow> bool" where
  "no_brace p \<longleftrightarrow> CHR ''{'' \<notin> set p \<and> CHR ''}'' \<notin> set p"

lemma ExtractJson_loop_shift:
  "ExtractJson_loop i stack cs = Inr r \<Longrightarrow> r \<noteq> -1 \<Longrightarrow>
     ExtractJson_loop (i + k) stack cs = Inr (r + int k)"
proof (induction i stack cs rule: ExtractJson_loop.induct)
  case (1 i stack)
  then show ?case by simp
next
  case (2 i stack c cs)
  then show ?case by (auto split: list.splits if_splits)
qed

lemma ExtractJson_loop_skip:
  "no_brace p \<Longrightarrow> ExtractJson_loop i stack (p @ cs) = ExtractJson_loop (i + length p) stack cs"
  by (induction p arbitrary: i) (auto simp: no_brace_def)

text \<open>A JSON object as text: it ends where its first brace is closed.\<close>

definition object_text :: "string \<Rightarrow> bool" where
  "object_text d \<longleftrightarrow> 2 \<le> length d \<and> hd d = CHR ''{'' \<and> ExtractJson d = Inr (int (length d) - 1)"

lemma object_text_prefix:
  assumes "object_text d" "no_brace l"
  shows "ExtractJson (l @ d @ rest) = Inr (int (length l + length d) - 1)"
proof -
  have d: "ExtractJson_loop 0 [] d = Inr (int (length d) - 1)" "int (length d) - 1 \<noteq> -1"
    using assms by (auto simp: object_text_def ExtractJson_def)
  from ExtractJson_loop_shift [OF ExtractJson_loop_append [OF d, of rest] d(2), of "length l"] assms(2)
  show ?thesis by (simp add: ExtractJson_def ExtractJson_loop_skip)
qed

lemma extract_docs_object:
  assumes "object_text d" "no_brace l"
  shows "extract_docs (l @ d @ rest) =
    (case extract_docs rest of Inl f \<Rightarrow> Inl f | Inr (docs, r) \<Rightarrow> Inr ((l @ d) # docs, r))"
proof -
  have "2 \<le> length d" using assms by (simp add: object_text_def)
  then have n: "nat (int (length l + length d) - 1) + 1 = length (l @ d)"
    "0 < int (length l + length d) - 1" by simp_all
  have "take (length (l @ d)) ((l @ d) @ rest) = l @ d" "drop (length (l @ d)) ((l @ d) @ rest) = rest"
    by simp_all
  with n object_text_prefix [OF assms, of rest] show ?thesis
    by (simp add: extract_docs.simps [of "l @ d @ rest"] del: take_append drop_append split: sum.split)
qed

text \<open>What may be left in front of a document: nothing, or the line feed that ended the one before.\<close>

definition lead :: "string \<Rightarrow> bool" where
  "lead l \<longleftrightarrow> l = [] \<or> l = [LF]"

lemma lead_no_brace: "lead l \<Longrightarrow> no_brace l"
  by (auto simp: lead_def no_brace_def)

lemma extract_docs_blank: "no_brace l \<Longrightarrow> extract_docs l = Inr ([], l)"
  using ExtractJson_loop_skip [of l 0 "[]" "[]"] by (simp add: extract_docs.simps ExtractJson_def)

text \<open>A chunk as a server writes it: the size in hexadecimal, the text, and the delimiters.\<close>

definition chunk_text :: "string \<times> string \<Rightarrow> string" where
  "chunk_text c = fst c @ CRLF @ snd c @ CRLF"

definition chunk_ok :: "string \<times> string \<Rightarrow> bool" where
  "chunk_ok c \<longleftrightarrow> fst c \<noteq> [] \<and> CR \<notin> set (fst c) \<and> FromHex (fst c) = of_nat (length (snd c))
     \<and> length (snd c) < 2 ^ 62"

lemma FindFirstOf_CRLF: "CR \<notin> set a \<Longrightarrow> FindFirstOf CRLF (a @ CR # LF # b) = Some (a, b)"
  by (induction a) (auto simp: starts_with_def)

lemma sint_size:
  assumes "n < 2 ^ 62"
  shows "sint (of_nat n :: u64) = int n" "(of_nat n :: u64) \<noteq> - 1"
proof -
  show s: "sint (of_nat n :: u64) = int n"
    using assms by (simp add: signed_of_nat signed_take_bit_int_eq_self)
  have "sint (- 1 :: u64) = - 1" by simp
  with s show "(of_nat n :: u64) \<noteq> - 1" by auto
qed

lemma chunk_step_chunk:
  assumes "chunk_ok c"
  shows "chunk_step chunkStr (chunk_text c @ body) = Inr (None, chunkStr @ snd c, body)"
proof -
  have "FindFirstOf CRLF (chunk_text c @ body) = Some (fst c, snd c @ CR # LF # body)"
    using assms FindFirstOf_CRLF [of "fst c"] by (simp add: chunk_ok_def chunk_text_def)
  with assms show ?thesis
    using sint_size [of "length (snd c)"] by (simp add: chunk_step_def chunk_ok_def nat_add_distrib)
qed

definition line_chunks :: "(string \<times> string) list \<Rightarrow> (string \<times> string) list" where
  "line_chunks = map (\<lambda>(h, d). (h, d @ [LF]))"

lemma chunk_loop_documents:
  assumes "\<forall>(h, d) \<in> set cs. object_text d \<and> chunk_ok (h, d @ [LF])" "lead l"
  shows "\<exists>ms l'. lead l' \<and> map (dropWhile (\<lambda>c. c = LF)) ms = map snd cs
    \<and> chunk_loop l (concat (map chunk_text (line_chunks cs))) chunks = Inr (None, l', chunks @ ms)"
  using assms
proof (induction cs arbitrary: l chunks)
  case Nil
  then show ?case by (simp add: line_chunks_def chunk_loop.simps)
next
  case (Cons c cs)
  obtain h d where c: "c = (h, d)" by fastforce
  with Cons.prems have d: "object_text d" "chunk_ok (h, d @ [LF])" by auto
  let ?rest = "concat (map chunk_text (line_chunks cs))"
  have step: "chunk_step l (chunk_text (h, d @ [LF]) @ ?rest) = Inr (None, l @ d @ [LF], ?rest)"
    using chunk_step_chunk [OF d(2)] by simp
  have docs: "extract_docs (l @ d @ [LF]) = Inr ([l @ d], [LF])"
    using extract_docs_object [OF d(1) lead_no_brace [OF Cons.prems(2)], of "[LF]"]
    by (simp add: extract_docs_blank no_brace_def)
  have "lead [LF]" by (simp add: lead_def)
  with Cons.IH [of "[LF]" "chunks @ [l @ d]"] Cons.prems(1) obtain ms l' where ih: "lead l'"
    "map (dropWhile (\<lambda>c. c = LF)) ms = map snd cs"
    "chunk_loop [LF] ?rest (chunks @ [l @ d]) = Inr (None, l', (chunks @ [l @ d]) @ ms)" by auto
  have "dropWhile (\<lambda>c. c = LF) (l @ d) = d"
    using d(1) Cons.prems(2) by (cases d) (auto simp: object_text_def lead_def)
  moreover have "chunk_text (h, d @ [LF]) \<noteq> []" by (simp add: chunk_text_def)
  ultimately show ?case
    using ih step docs c
    by (intro exI [of _ "(l @ d) # ms"] exI [of _ l'])
      (simp add: line_chunks_def chunk_loop.simps [of l])
qed


definition two_chunks :: "(string \<times> string) list" where
  "two_chunks = [(''3'', ''{}''), (''5'', ''{{}}'')]"


text \<open>
  A chunk whose delimiter comes with the next receive costs the document after it: the delimiter
  is taken for an empty size, the rest of the receive for text, and the next document is delivered
  with its size in front.
\<close>

theorem chunk_delimiter_split:
  assumes "object_text d" "chunk_ok (h, d)" "object_text d'" "no_brace h'"
  shows "HttpReadChunkedResponse [] (Inr (h @ CRLF @ d)) = Inr (Some ENODATA, [], d)
    \<and> HttpReadChunkedResponse d (Inr (CRLF @ chunk_text (h', d'))) = Inr (None, [d, h' @ CRLF @ d'], [])"
proof
  have "chunk_step [] (h @ CRLF @ d) = Inr (Some ENODATA, d, d)"
    using assms(2) FindFirstOf_CRLF [of h d] sint_size [of "length d"]
    by (simp add: chunk_step_def chunk_ok_def)
  then show "HttpReadChunkedResponse [] (Inr (h @ CRLF @ d)) = Inr (Some ENODATA, [], d)"
    using assms(2) by (simp add: HttpReadChunkedResponse_def chunk_loop.simps chunk_ok_def)
  have "no_brace []" "no_brace (h' @ CRLF)" "no_brace CRLF" using assms(4) by (auto simp: no_brace_def)
  then have "extract_docs (d @ h' @ CRLF @ d' @ CRLF) = Inr ([d, h' @ CRLF @ d'], CRLF)"
    using extract_docs_object [OF assms(1), of "[]" "h' @ CRLF @ d' @ CRLF"]
      extract_docs_object [OF assms(3), of "h' @ CRLF" CRLF] extract_docs_blank [of CRLF] by simp
  moreover have "chunk_step d (CRLF @ h' @ CRLF @ d' @ CRLF) = Inr (None, d @ h' @ CRLF @ d' @ CRLF, [])"
    by (simp add: chunk_step_def starts_with_def)
  ultimately show "HttpReadChunkedResponse d (Inr (CRLF @ chunk_text (h', d'))) = Inr (None, [d, h' @ CRLF @ d'], [])"
    by (simp add: HttpReadChunkedResponse_def chunk_text_def chunk_loop.simps [of d] chunk_loop.simps [of _ "[]"])
qed

theorem chunk_delimiter_split_witness:
  "HttpReadChunkedResponse [] (Inr (''2'' @ CRLF @ ''{}'')) = Inr (Some ENODATA, [], ''{}'')
    \<and> HttpReadChunkedResponse ''{}'' (Inr (CRLF @ chunk_text (''2'', ''{}''))) = Inr (None, [''{}'', ''2'' @ CRLF @ ''{}''], [])"
  by (rule chunk_delimiter_split)
    (simp_all add: object_text_def chunk_ok_def ExtractJson_def FromHex_def hex_digit_def no_brace_def)

section \<open>A document that is never closed\<close>

definition nonneg :: "string \<Rightarrow> bool" where
  "nonneg s \<longleftrightarrow> (\<forall>k. 0 \<le> depth (take k s))"

definition open_text :: "string \<Rightarrow> bool" where
  "open_text l \<longleftrightarrow> (\<exists>p q. l = p @ CHR ''{'' # q \<and> no_brace p \<and> nonneg q)"

lemma nonneg_append: "nonneg a \<Longrightarrow> nonneg b \<Longrightarrow> nonneg (a @ b)"
  by (simp add: nonneg_def)

lemma no_brace_nonneg: "no_brace p \<Longrightarrow> nonneg p"
proof -
  assume "no_brace p"
  then have "CHR ''}'' \<notin> set (take k p)" for k by (auto simp: no_brace_def dest: in_set_takeD)
  then have "count_list (take k p) (CHR ''}'') = 0" for k by (simp add: count_list_0_iff)
  then show ?thesis by (simp add: nonneg_def depth_def)
qed

lemma open_text_append:
  assumes "open_text l" "nonneg s"
  shows "open_text (l @ s)"
proof -
  obtain p q where "l = p @ CHR ''{'' # q" "no_brace p" "nonneg q" using assms(1) by (auto simp: open_text_def)
  with nonneg_append [OF _ assms(2)] show ?thesis
    unfolding open_text_def by (intro exI [of _ p] exI [of _ "q @ s"]) auto
qed

lemma open_text_strip:
  assumes "open_text l"
  shows "open_text (dropWhile (\<lambda>c. c = LF \<or> c = CR) l)"
proof -
  obtain p q where l: "l = p @ CHR ''{'' # q" "no_brace p" "nonneg q" using assms by (auto simp: open_text_def)
  let ?p = "dropWhile (\<lambda>c. c = LF \<or> c = CR) p"
  have "no_brace ?p" using l(2) by (auto simp: no_brace_def dest: set_dropWhileD)
  moreover have "dropWhile (\<lambda>c. c = LF \<or> c = CR) l = ?p @ CHR ''{'' # q"
    unfolding l(1) by (induction p) auto
  ultimately show ?thesis using l(3) by (auto simp: open_text_def)
qed

lemma ExtractJson_loop_unclosed:
  "\<forall>k. 1 \<le> int (length stack) + depth (take k cs) \<Longrightarrow> ExtractJson_loop i stack cs = Inr (-1)"
proof (induction i stack cs rule: ExtractJson_loop.induct)
  case (1 i stack)
  then show ?case by simp
next
  case (2 i stack c cs)
  have "1 \<le> int (length stack) + depth (take (Suc k) (c # cs))" for k using "2.prems" by blast
  then have rest: "1 \<le> int (length stack) + (if c = CHR ''{'' then 1 else if c = CHR ''}'' then -1 else 0)
      + depth (take k cs)" for k by (simp add: add.assoc)
  show ?case
  proof (cases "c = CHR ''}''")
    case True
    with rest [of 0] obtain d stack' where "stack = d # stack'" "stack' \<noteq> []"
      by (cases stack; cases "tl stack") auto
    with 2 True rest show ?thesis by auto
  next
    case False
    with 2 rest show ?thesis by (auto split: if_splits)
  qed
qed

lemma open_text_ExtractJson: "open_text l \<Longrightarrow> extract_docs l = Inr ([], l)"
proof -
  assume "open_text l"
  then obtain p q where l: "l = p @ CHR ''{'' # q" "no_brace p" "nonneg q" by (auto simp: open_text_def)
  have "ExtractJson_loop (Suc (length p)) [CHR ''{''] q = Inr (-1)"
    using l(3) by (intro ExtractJson_loop_unclosed) (simp add: nonneg_def)
  with l show ?thesis by (simp add: extract_docs.simps ExtractJson_def ExtractJson_loop_skip)
qed

lemma ExtractJson_loop_depth:
  "ExtractJson_loop i stack cs = Inr r \<Longrightarrow> r = int (i + length cs) - 1 \<Longrightarrow> cs \<noteq> []
     \<Longrightarrow> 0 \<le> int (length stack) + depth (take k cs)"
proof (induction i stack cs arbitrary: k rule: ExtractJson_loop.induct)
  case (1 i stack)
  then show ?case by simp
next
  case (2 i stack c cs)
  show ?case
  proof (cases k)
    case 0
    then show ?thesis by simp
  next
    case (Suc m)
    show ?thesis
    proof (cases "cs = []")
      case True
      with 2 Suc show ?thesis by (auto split: if_splits list.splits)
    next
      case False
      consider (lbrace) "c = CHR ''{''" | (rbrace) "c = CHR ''}''" | (other) "c \<noteq> CHR ''{''" "c \<noteq> CHR ''}''" by blast
      then show ?thesis
      proof cases
        case lbrace
        with "2.IH"(1) [of m] "2.prems" False Suc show ?thesis by simp
      next
        case rbrace
        then obtain d stack' where st: "stack = d # stack'" using "2.prems" by (cases stack) auto
        with rbrace False "2.prems" have "stack' \<noteq> []" by auto
        with "2.IH"(2) [of d stack' m] rbrace st "2.prems" False Suc show ?thesis by simp
      next
        case other
        with "2.IH"(3) [of m] "2.prems" False Suc show ?thesis by simp
      qed
    qed
  qed
qed

lemma object_text_nonneg: "object_text d \<Longrightarrow> nonneg d"
  using ExtractJson_loop_depth [of 0 "[]" d "int (length d) - 1"]
  by (cases d) (auto simp: object_text_def nonneg_def ExtractJson_def)

lemma chunk_loop_stuck:
  assumes "\<forall>c \<in> set cs. chunk_ok c \<and> nonneg (snd c)" "open_text l"
  shows "chunk_loop l (concat (map chunk_text cs)) chunks = Inr (None, l @ concat (map snd cs), chunks)"
  using assms
proof (induction cs arbitrary: l)
  case Nil
  then show ?case by (simp add: chunk_loop.simps)
next
  case (Cons c cs)
  then have l: "open_text (l @ snd c)" using open_text_append by simp
  have "chunk_text c \<noteq> []" by (simp add: chunk_text_def)
  with Cons l show ?case
    by (simp add: chunk_loop.simps [of l] chunk_step_chunk open_text_ExtractJson)
qed

lemma HttpReadChunkedResponse_stuck:
  assumes "\<forall>(h, d) \<in> set cs. object_text d \<and> chunk_ok (h, d @ [LF])" "open_text data"
  shows "\<exists>data'. open_text data'
    \<and> HttpReadChunkedResponse data (Inr (concat (map chunk_text (line_chunks cs)))) = Inr (None, [], data')"
proof -
  have ok: "\<forall>c \<in> set (line_chunks cs). chunk_ok c \<and> nonneg (snd c)"
    using assms(1) nonneg_append [OF object_text_nonneg no_brace_nonneg, of _ "[LF]"]
    by (auto simp: line_chunks_def no_brace_def)
  have "nonneg (concat (map snd (line_chunks cs)))"
    using ok by (induction cs) (auto simp: line_chunks_def nonneg_append no_brace_nonneg no_brace_def)
  then have "open_text (data @ concat (map snd (line_chunks cs)))" using open_text_append assms(2) by blast
  then show ?thesis
    using chunk_loop_stuck [OF ok assms(2)] open_text_strip by (auto simp: HttpReadChunkedResponse_def)
qed

section \<open>Calls that do not see their answer\<close>

lemma HttpReadChunkedResponse_idle:
  "HttpReadChunkedResponse data (Inr []) = Inr (None, [], dropWhile (\<lambda>c. c = LF \<or> c = CR) data)"
  by (simp add: HttpReadChunkedResponse_def chunk_loop.simps)

lemma call_chunks_idle: "call_chunks data (replicate k (Inr [])) = None"
  by (induction k arbitrary: data) (simp_all add: HttpReadChunkedResponse_idle)

lemma call_chunks_idle_error:
  "e \<noteq> ENODATA \<Longrightarrow> call_chunks data (replicate k (Inr []) @ [Inl e]) = Some (Inl (Throw ''K8s chunked reply error''))"
  by (induction k arbitrary: data) (simp_all add: HttpReadChunkedResponse_idle, simp add: HttpReadChunkedResponse_def)

text \<open>
  C30: A chunked response that arrives whole with its head is never returned: its text is put aside by
  the first receive and looked at only when more bytes come. As long as none do, the call loops;
  when the connection ends, it throws.
\<close>

theorem call_chunked_spins:
  assumes "ParseResponse buf = Inr (Inr n, rs)" "0 < n" "is_chunked (rs_headers rs)" "e \<noteq> ENODATA"
  shows "call_read (Inr buf # replicate k (Inr [])) = None
    \<and> call_read (Inr buf # replicate k (Inr []) @ [Inl e]) = Some (Inl (Throw ''K8s chunked reply error''))"
  using assms call_chunks_idle call_chunks_idle_error
  by (simp add: call_read_def HttpReadResponse_def Let_def)

definition pod_answer :: string where
  "pod_answer = ''HTTP/1.1 200 OK'' @ CRLF @ ''Transfer-Encoding: chunked'' @ CRLF @ CRLF
     @ ''2'' @ CRLF @ ''{}'' @ CRLF @ ''0'' @ CRLF @ CRLF"

lemma pod_answer_parsed:
  "ParseResponse pod_answer = Inr (Inr 47, \<lparr>rs_code = ''200'', rs_msg = ''OK'',
     rs_headers = [(''transfer-encoding'', ''chunked'')],
     rs_content = ''2'' @ CRLF @ ''{}'' @ CRLF @ ''0'' @ CRLF @ CRLF, rs_contentLength = 0\<rparr>)"
  by code_simp

theorem call_chunked_spins_witness:
  "call_read (Inr pod_answer # replicate 1000 (Inr [])) = None
    \<and> call_read (Inr pod_answer # replicate 1000 (Inr []) @ [Inl ECONNABORTED]) = Some (Inl (Throw ''K8s chunked reply error''))"
  by (rule call_chunked_spins [OF pod_answer_parsed]) (simp_all add: is_chunked_def um_find_def)

lemma call_read_early: "call_read (Inr [] # recvs) = Some (Inr \<lparr>rs_code = [], rs_msg = [], rs_headers = [],
    rs_content = [], rs_contentLength = 0\<rparr>)"
  by (simp add: call_read_def HttpReadResponse_def ParseResponse_def eod_def is_chunked_def um_find_def)

text \<open>The body of a response that is announced with its length is not waited for.\<close>

lemma HttpReadResponse_body_late:
  assumes "ParseResponse buf = Inr (Inl ENODATA, rs)" "rs_contentLength rs \<noteq> 0"
    "unat (rs_contentLength rs - of_nat (length (rs_content rs))) < 2 ^ 63" "max_size < 2 ^ 63"
    "rs_contentLength rs \<noteq> of_nat (length (rs_content rs))"
  shows "\<exists>rs'. HttpReadResponse max_size data (Inr buf) = Inr (Inl ENODATA, rs', data)"
proof -
  let ?m = "rs_contentLength rs - of_nat (length (rs_content rs))"
  have "unat (of_nat max_size :: u64) = max_size"
    using assms(4) by (simp add: unat_of_nat take_bit_nat_eq_self)
  then have "\<not> of_nat max_size + ?m \<le> (of_nat max_size :: u64)"
    using assms(3,4,5) by (simp add: word_le_nat_alt unat_word_ariths unat_eq_0)
  with assms show ?thesis by (simp add: HttpReadResponse_def)
qed

lemma crequest_Call_plain:
  assumes "\<not> cq_sslCtx rq" "nc_sockaddr nc ''0'' = None" "nc_connect nc = None" "0 < nc_socket nc"
  shows "crequest_Call nc send recvs sa path rq =
    (if send (request_text ''GET'' path (cq_headers rq) []) = None then call_read recvs
     else Some (Inl (Throw ''Send to k8s'')),
     rq\<lparr>cq_so := (cq_so rq)\<lparr>fdSocket := nc_socket nc, Sockets.fdSsl := False, fdPoll := False\<rparr>\<rparr>, [nc_socket nc], [])"
  using assms
  by (simp add: crequest_Call_def TcpConnect_def csocket_assign_def csocket_new_def HttpWriteRequest_def Let_def
      split: option.split)

text \<open>
  A second call of a request object overwrites the descriptor of the first without closing it, and
  the destructor closes the last one only: the first connection stays open.
\<close>

theorem second_call_leaks:
  assumes "crequest_Call nc send recvs sa path rq = (r, rq', opened, shut)"
    "crequest_Call nc' send' recvs' sa path' rq' = (r', rq'', opened', shut')"
    "\<not> cq_sslCtx rq" "nc_sockaddr nc ''0'' = None" "nc_sockaddr nc' ''0'' = None"
    "nc_connect nc = None" "nc_connect nc' = None" "0 < nc_socket nc" "0 < nc_socket nc'" "nc_socket nc \<noteq> nc_socket nc'"
  shows "nc_socket nc \<in> set opened \<and> nc_socket nc \<notin> set (shut @ shut' @ crequest_destroy rq'')
    \<and> crequest_destroy rq'' = [nc_socket nc']"
proof -
  have rq': "rq' = rq\<lparr>cq_so := (cq_so rq)\<lparr>fdSocket := nc_socket nc, Sockets.fdSsl := False, fdPoll := False\<rparr>\<rparr>"
    "opened = [nc_socket nc]" "shut = []"
    using assms(1) crequest_Call_plain [OF assms(3,4,6,8), of send recvs sa path] by auto
  then have "\<not> cq_sslCtx rq'" using assms(3) by simp
  from crequest_Call_plain [OF this assms(5,7,9), of send' recvs' sa path'] assms(2) rq' assms(8,9,10)
  show ?thesis by (auto simp: crequest_destroy_def SocketClose_def)
qed

theorem second_call_leaks_witness:
  "case crequest_Call (sample_net\<lparr>nc_socket := 7\<rparr>) (\<lambda>_. None) [Inr []] (0::nat) ''/a'' (crequest_new 0 [] False) of
     (r, rq', opened, shut) \<Rightarrow>
       (case crequest_Call (sample_net\<lparr>nc_socket := 8\<rparr>) (\<lambda>_. None) [Inr []] 0 ''/b'' rq' of
          (r', rq'', opened', shut') \<Rightarrow> 7 \<in> set opened \<and> 7 \<notin> set (shut @ shut' @ crequest_destroy rq''))"
proof -
  obtain r rq' opened shut where 1: "crequest_Call (sample_net\<lparr>nc_socket := 7\<rparr>) (\<lambda>_. None) [Inr []] (0::nat)
      ''/a'' (crequest_new 0 [] False) = (r, rq', opened, shut)" using prod_cases4 by blast
  obtain r' rq'' opened' shut' where 2: "crequest_Call (sample_net\<lparr>nc_socket := 8\<rparr>) (\<lambda>_. None) [Inr []] 0 ''/b'' rq'
      = (r', rq'', opened', shut')" using prod_cases4 by blast
  from second_call_leaks [OF 1 2] 1 2 show ?thesis
    by (simp add: crequest_new_def sample_net_def)
qed

end
