(* ===== verification/K8s.thy ===== *)
theory K8s
  imports HttpClient Cluster
begin

text \<open>
  The Kubernetes adapter (\<^verbatim>\<open>source/core/cluster/adapter/ck8sadapter.cpp\<close>): it asks the API server
  for the service of its own pod, then watches the endpoint slices of that service over one
  long chunked response and keeps the table of cluster peers. The adapter is a state machine over
  its connection; the events are what \<^verbatim>\<open>epoll\<close> reports and the periodic \<^verbatim>\<open>Check\<close>. Name
  resolution, the addresses of this machine, parsing and the system calls are parameters.
\<close>

section \<open>JSON access\<close>

text \<open>\<^verbatim>\<open>begin()->\<close>: the first element; a value that is no container is its own only element.\<close>

fun json_begin :: "json \<Rightarrow> json outcome" where
  "json_begin (JArr xs) = (case xs of x # _ \<Rightarrow> Inr x | [] \<Rightarrow> Inl (UB ''dereferenced end iterator''))"
| "json_begin (JObj fs) = (case fs of (_, v) # _ \<Rightarrow> Inr v | [] \<Rightarrow> Inl (UB ''dereferenced end iterator''))"
| "json_begin JNull = Inl (Throw ''invalid_iterator.214'')"
| "json_begin v = Inr v"

text \<open>The elements a range \<^verbatim>\<open>for\<close> visits.\<close>

fun json_items :: "json \<Rightarrow> json list" where
  "json_items (JArr xs) = xs"
| "json_items (JObj fs) = map snd fs"
| "json_items JNull = []"
| "json_items v = [v]"

text \<open>\<^verbatim>\<open>get<int>()\<close>: the low 32 bits; a boolean counts as a number.\<close>

fun get_int :: "json \<Rightarrow> int outcome" where
  "get_int (JInt i) = Inr (sint (word_of_int i :: u32))"
| "get_int (JFloat r) = Inr (sint (word_of_int (if r \<ge> 0 then floor r else ceiling r) :: u32))"
| "get_int (JBool b) = Inr (of_bool b)"
| "get_int _ = Inl (Throw ''type_error.302'')"

fun get_bool :: "json \<Rightarrow> bool outcome" where
  "get_bool (JBool b) = Inr b"
| "get_bool _ = Inl (Throw ''type_error.302'')"

section \<open>Events\<close>

datatype k8sevent_t = k8s_none | k8s_added | k8s_modified | k8s_deleted

definition FromStr :: "string \<Rightarrow> k8sevent_t" where
  "FromStr str =
     (if str = ''ADDED'' then k8s_added
      else if str = ''MODIFIED'' then k8s_modified
      else if str = ''DELETED'' then k8s_deleted
      else k8s_none)"

text \<open>The port loop of \<^verbatim>\<open>processItem\<close>: the port named cluster over UDP, -1 if there is none.\<close>

fun cluster_port :: "json list \<Rightarrow> int outcome" where
  "cluster_port [] = Inr (-1)"
| "cluster_port (p # ps) =
     (if \<not> contains p ''protocol'' \<or> \<not> contains p ''name'' \<or> \<not> contains p ''port'' then cluster_port ps
      else
        bind_outcome (bind_outcome (json_cat p ''protocol'') get_string) (\<lambda>protocol.
        if ToLower protocol \<noteq> ''udp'' then cluster_port ps
        else
          bind_outcome (bind_outcome (json_cat p ''name'') get_string) (\<lambda>name.
          if ToLower name \<noteq> ''cluster'' then cluster_port ps
          else bind_outcome (json_cat p ''port'') get_int)))"

type_synonym endpoint = "string \<times> u32 \<times> bool"

fun process_endpoints :: "json list \<Rightarrow> json list \<Rightarrow> endpoint list outcome" where
  "process_endpoints ports [] = Inr []"
| "process_endpoints ports (e # es) =
     bind_outcome (bind_outcome (bind_outcome (json_cat e ''addresses'') json_begin) get_string) (\<lambda>addr.
     bind_outcome (cluster_port ports) (\<lambda>port.
       if port = -1 then process_endpoints ports es
       else
         bind_outcome (json_cat e ''conditions'') (\<lambda>conditions.
         bind_outcome (case json_find conditions ''ready'' of Some v \<Rightarrow> get_bool v | None \<Rightarrow> Inr False) (\<lambda>ready.
         bind_outcome (process_endpoints ports es) (\<lambda>rest.
           Inr ((addr, word_of_int port, ready) # rest))))))"

definition processItem :: "json \<Rightarrow> endpoint list outcome" where
  "processItem item =
     (case (json_find item ''endpoints'', json_find item ''ports'') of
        (Some es, Some ps) \<Rightarrow>
          if json_empty es \<or> json_empty ps then Inr [] else process_endpoints (json_items ps) (json_items es)
      | _ \<Rightarrow> Inr [])"

definition validate_slice :: "json \<Rightarrow> bool" where
  "validate_slice object =
     (case json_find object ''kind'' of
        Some (JStr kind) \<Rightarrow> contains_sub ''EndpointSlice'' kind
      | _ \<Rightarrow> False)"

text \<open>The two loops over the endpoints. \<open>resolve\<close> is \<^verbatim>\<open>GetSockAddr\<close> with the address it gives,
  \<open>local\<close> is \<^verbatim>\<open>IsLocalIp\<close>.\<close>

record 'sa k8s_net =
  kn_resolve :: "string \<Rightarrow> string \<Rightarrow> (u32 \<times> 'sa) option"
  kn_local :: "u32 \<Rightarrow> bool"

definition enable_endpoint :: "'sa k8s_net \<Rightarrow> endpoint \<Rightarrow> 'sa peers \<Rightarrow> 'sa peers" where
  "enable_endpoint net ep nodes =
     (case ep of (host, port, ready) \<Rightarrow>
        (case kn_resolve net host (to_string (unat port)) of
           None \<Rightarrow> nodes
         | Some (ip, sa) \<Rightarrow>
             if ready then
               if \<not> kn_local net ip then um_emplace ip \<lparr>NodeLastActivity = 0, NodeAddress = sa\<rparr> nodes else nodes
             else um_erase ip nodes))"

definition delete_endpoint :: "'sa k8s_net \<Rightarrow> endpoint \<Rightarrow> 'sa peers \<Rightarrow> 'sa peers" where
  "delete_endpoint net ep nodes =
     (case ep of (host, port, _) \<Rightarrow>
        (case kn_resolve net host (to_string (unat port)) of
           None \<Rightarrow> nodes
         | Some (ip, sa) \<Rightarrow> um_erase ip nodes))"

definition apply_event :: "'sa k8s_net \<Rightarrow> k8sevent_t \<Rightarrow> endpoint list \<Rightarrow> 'sa peers \<Rightarrow> 'sa peers" where
  "apply_event net event endpoints nodes =
     (case event of
        k8s_added \<Rightarrow> fold (enable_endpoint net) endpoints nodes
      | k8s_modified \<Rightarrow> fold (enable_endpoint net) endpoints nodes
      | k8s_deleted \<Rightarrow> fold (delete_endpoint net) endpoints nodes
      | k8s_none \<Rightarrow> nodes)"

definition k8s_OnResponse :: "'sa k8s_net \<Rightarrow> json \<Rightarrow> 'sa peers \<Rightarrow> 'sa peers outcome" where
  "k8s_OnResponse net jsonResp nodes =
     (if json_empty jsonResp then Inr nodes
      else case json_find jsonResp ''type'' of
        None \<Rightarrow> Inr nodes
      | Some t \<Rightarrow>
          bind_outcome (get_string t) (\<lambda>strType.
            let event = FromStr strType in
            if event = k8s_none then Inr nodes
            else
              bind_outcome (json_at jsonResp ''object'') (\<lambda>object.
              if \<not> validate_slice object then Inr nodes
              else
                bind_outcome (processItem object) (\<lambda>endpoints. Inr (apply_event net event endpoints nodes)))))"

section \<open>The connection\<close>

datatype k8s_status = st_none | st_started | st_active | st_disconnected

record 'sa ck8sadapter =
  k8sSocket :: "'sa csocket"
  k8s_sslCtx :: bool
  k8s_sa :: 'sa
  k8s_url :: string
  k8s_space :: string
  k8s_token :: string
  k8s_pod :: string
  k8s_serviceName :: string
  k8s_statusOf :: k8s_status
  k8s_data :: string
  k8s_nodes :: "'sa peers"

definition ck8sadapter_new :: "'sa \<Rightarrow> 'sa \<Rightarrow> string \<Rightarrow> string \<Rightarrow> string \<Rightarrow> string \<Rightarrow> bool \<Rightarrow> 'sa ck8sadapter" where
  "ck8sadapter_new sa0 sa url space token pod ssl =
     \<lparr>k8sSocket = csocket_new (-1) sa0 False False, k8s_sslCtx = ssl, k8s_sa = sa, k8s_url = url, k8s_space = space,
      k8s_token = token, k8s_pod = pod, k8s_serviceName = [], k8s_statusOf = st_none, k8s_data = [], k8s_nodes = []\<rparr>"

definition k8s_close :: "'sa ck8sadapter \<Rightarrow> 'sa ck8sadapter \<times> int list" where
  "k8s_close a = (let (_, so, shut) = SocketClose (k8sSocket a) in (a\<lparr>k8sSocket := so\<rparr>, shut))"

definition k8s_Disconnect :: "'sa ck8sadapter \<Rightarrow> 'sa ck8sadapter \<times> int list" where
  "k8s_Disconnect a = (let (a, shut) = k8s_close a in (a\<lparr>k8s_statusOf := st_disconnected\<rparr>, shut))"

definition k8s_headers :: "'sa ck8sadapter \<Rightarrow> (string \<times> string) list" where
  "k8s_headers a =
     [(''Content-Type'', ''application/json''), (''Host'', k8s_url a), (''Authorization'', ''Bearer '' @ k8s_token a)]"

text \<open>The path is computed at the first call and kept; neither the namespace nor the name of
  the service changes after that.\<close>

definition watch_path :: "'sa ck8sadapter \<Rightarrow> string" where
  "watch_path a = ''/apis/discovery.k8s.io/v1/namespaces/'' @ k8s_space a @ ''/endpointslices?watch=true''
     @ (if k8s_serviceName a \<noteq> [] then ''&labelSelector=kubernetes.io/service-name%3D'' @ k8s_serviceName a else [])"

text \<open>\<^verbatim>\<open>Connect\<close>: the adapter, and the descriptors opened and closed; \<open>padd\<close> is \<^verbatim>\<open>PollAdd\<close>.\<close>

definition k8s_Connect ::
  "net_call \<Rightarrow> (int \<Rightarrow> errno option) \<Rightarrow> (string \<Rightarrow> errno option) \<Rightarrow> 'sa ck8sadapter
     \<Rightarrow> 'sa ck8sadapter \<times> int list \<times> int list" where
  "k8s_Connect nc padd send a =
     (let (a, shut0) = k8s_close a;
          (res, fd, ssl, opened, shut) =
            (if k8s_sslCtx a then SslConnect True nc
             else let (res, fd, opened, shut) = TcpConnect nc in (res, fd, False, opened, shut)) in
      if res \<noteq> None then let (a, shut1) = k8s_Disconnect a in (a, opened, shut0 @ shut @ shut1)
      else
        let a = a\<lparr>k8sSocket := fst (csocket_assign (k8sSocket a) (csocket_new fd (k8s_sa a) ssl True))\<rparr> in
        if padd (fdSocket (k8sSocket a)) \<noteq> None
        then let (a, shut1) = k8s_Disconnect a in (a, opened, shut0 @ shut @ shut1)
        else
          let a = a\<lparr>k8s_statusOf := st_started\<rparr> in
          if HttpWriteRequest send ''GET'' (watch_path a) (k8s_headers a) [] \<noteq> None
          then let (a, shut1) = k8s_Disconnect a in (a, opened, shut0 @ shut @ shut1)
          else (a, opened, shut0 @ shut))"

definition k8s_Check ::
  "net_call \<Rightarrow> (int \<Rightarrow> errno option) \<Rightarrow> (string \<Rightarrow> errno option) \<Rightarrow> 'sa ck8sadapter
     \<Rightarrow> 'sa ck8sadapter \<times> int list \<times> int list" where
  "k8s_Check nc padd send a =
     (if k8s_statusOf a = st_disconnected then k8s_Connect nc padd send a else (a, [], []))"

fun on_chunks :: "(string \<Rightarrow> json option) \<Rightarrow> 'sa k8s_net \<Rightarrow> string list \<Rightarrow> 'sa peers \<Rightarrow> 'sa peers outcome" where
  "on_chunks parse net [] nodes = Inr nodes"
| "on_chunks parse net (c # cs) nodes =
     bind_outcome (k8s_OnResponse net (response_Json parse c) nodes) (on_chunks parse net cs)"

text \<open>\<^verbatim>\<open>OnK8sReply\<close>: \<open>only_in\<close> tells whether the events are \<^verbatim>\<open>EPOLLIN\<close> and nothing else, \<open>recv\<close> is what
  the receive gives. The result is the adapter and the descriptors closed. An exception leaves
  the handler. First the two cases of the switch.\<close>

definition reply_started ::
  "(string \<Rightarrow> json option) \<Rightarrow> 'sa k8s_net \<Rightarrow> (errno + nat) \<times> http_response \<times> string \<Rightarrow> 'sa ck8sadapter
     \<Rightarrow> ('sa ck8sadapter \<times> int list) outcome" where
  "reply_started parse net got a =
     (case got of
        (Inr n, rs, data) \<Rightarrow>
          bind_outcome (k8s_OnResponse net (response_Json parse (rs_content rs)) (k8s_nodes a)) (\<lambda>nodes.
            Inr (a\<lparr>k8s_data := data, k8s_statusOf := st_active, k8s_nodes := nodes\<rparr>, []))
      | (Inl e, rs, data) \<Rightarrow> Inr (k8s_Disconnect (a\<lparr>k8s_data := data\<rparr>)))"

definition reply_active ::
  "(string \<Rightarrow> json option) \<Rightarrow> 'sa k8s_net \<Rightarrow> errno option \<times> string list \<times> string \<Rightarrow> 'sa ck8sadapter
     \<Rightarrow> ('sa ck8sadapter \<times> int list) outcome" where
  "reply_active parse net got a =
     (case got of (res, chunks, data) \<Rightarrow>
        if res = None \<or> res = Some ENODATA then
          bind_outcome (on_chunks parse net chunks (k8s_nodes a)) (\<lambda>nodes.
            Inr (a\<lparr>k8s_data := data, k8s_nodes := nodes\<rparr>, []))
        else Inr (k8s_Disconnect (a\<lparr>k8s_data := data\<rparr>)))"

definition OnK8sReply ::
  "(string \<Rightarrow> json option) \<Rightarrow> 'sa k8s_net \<Rightarrow> bool \<Rightarrow> errno + string \<Rightarrow> 'sa ck8sadapter
     \<Rightarrow> ('sa ck8sadapter \<times> int list) outcome" where
  "OnK8sReply parse net only_in recv a =
     (if fdSocket (k8sSocket a) > 0 then
        if only_in \<and> k8s_statusOf a = st_started then
          bind_outcome (HttpReadResponse 65536 (k8s_data a) recv) (\<lambda>got. reply_started parse net got a)
        else if only_in \<and> k8s_statusOf a = st_active then
          bind_outcome (HttpReadChunkedResponse (k8s_data a) recv) (\<lambda>got. reply_active parse net got a)
        else Inr (k8s_Disconnect a)
      else Inr (a, []))"

section \<open>Starting\<close>

fun statefulset_name :: "json list \<Rightarrow> string outcome" where
  "statefulset_name [] = Inr []"
| "statefulset_name (ref # refs) =
     bind_outcome (bind_outcome (json_at ref ''kind'') get_string) (\<lambda>kind.
       if ToLower kind \<noteq> ''statefulset'' then statefulset_name refs
       else bind_outcome (json_at ref ''name'') get_string)"

definition pod_owner :: "json \<Rightarrow> string outcome" where
  "pod_owner data =
     (case json_find data ''metadata'' of
        Some (JObj md) \<Rightarrow>
          (case um_find md ''ownerReferences'' of
             Some (JArr refs) \<Rightarrow> statefulset_name refs
           | _ \<Rightarrow> Inl (Throw ''unexpected k8s pod info''))
      | _ \<Rightarrow> Inl (Throw ''unexpected k8s pod info''))"

definition service_name :: "json \<Rightarrow> string outcome" where
  "service_name data =
     (case json_find data ''spec'' of
        Some (JObj spec) \<Rightarrow>
          (case um_find spec ''serviceName'' of
             Some (JStr s) \<Rightarrow> Inr s
           | _ \<Rightarrow> Inl (Throw ''unexpected k8s statefulset info''))
      | _ \<Rightarrow> Inl (Throw ''unexpected k8s statefulset info''))"

record call_io =
  ci_net :: net_call
  ci_send :: "string \<Rightarrow> errno option"
  ci_recvs :: "(errno + string) list"

text \<open>\<^verbatim>\<open>Init\<close> makes two calls of one request object: for the pod, then for the stateful set that
  owns it.\<close>

definition k8s_Init ::
  "(string \<Rightarrow> json option) \<Rightarrow> call_io \<Rightarrow> call_io \<Rightarrow> 'sa \<Rightarrow> 'sa ck8sadapter
     \<Rightarrow> 'sa ck8sadapter outcome option \<times> int list \<times> int list" where
  "k8s_Init parse io1 io2 sa0 a =
     (let rq = crequest_new sa0 (k8s_headers a) (k8s_sslCtx a);
          podPath = ''/api/v1/namespaces/'' @ k8s_space a @ ''/pods/'' @ k8s_pod a;
          (r1, rq1, o1, s1) = crequest_Call (ci_net io1) (ci_send io1) (ci_recvs io1) (k8s_sa a) podPath rq in
      case r1 of
        None \<Rightarrow> (None, o1, s1)
      | Some r1 \<Rightarrow>
          (case bind_outcome r1 (\<lambda>resp.
                  if rs_code resp \<noteq> ''200'' then Inl (Throw ''can't get k8s pod info'')
                  else pod_owner (response_Json parse (rs_content resp))) of
             Inl f \<Rightarrow> (Some (Inl f), o1, s1 @ crequest_destroy rq1)
           | Inr statefulSetName \<Rightarrow>
               let path = ''/apis/apps/v1/namespaces/'' @ k8s_space a @ ''/statefulsets/'' @ statefulSetName;
                   (r2, rq2, o2, s2) = crequest_Call (ci_net io2) (ci_send io2) (ci_recvs io2) (k8s_sa a) path rq1 in
               (map_option (\<lambda>r2. bind_outcome r2 (\<lambda>resp.
                  if rs_code resp \<noteq> ''200'' then Inl (Throw ''can't get k8s statefulset info'')
                  else bind_outcome (service_name (response_Json parse (rs_content resp))) (\<lambda>name.
                    Inr (a\<lparr>k8s_serviceName := name\<rparr>)))) r2,
                o1 @ o2, s1 @ s2 @ (if r2 = None then [] else crequest_destroy rq2))))"

definition k8s_Start ::
  "(string \<Rightarrow> json option) \<Rightarrow> call_io \<Rightarrow> call_io \<Rightarrow> net_call \<Rightarrow> (int \<Rightarrow> errno option) \<Rightarrow> (string \<Rightarrow> errno option)
     \<Rightarrow> 'sa \<Rightarrow> 'sa ck8sadapter \<Rightarrow> 'sa ck8sadapter outcome option" where
  "k8s_Start parse io1 io2 nc padd send sa0 a =
     map_option (\<lambda>r. bind_outcome r (\<lambda>a. Inr (fst (k8s_Connect nc padd send a)))) (fst (k8s_Init parse io1 io2 sa0 a))"

section \<open>The state machine\<close>

text \<open>What happens to a started adapter: the periodic check, an event on the connection, a ping of a
  peer and the collection of silent peers. \<^verbatim>\<open>epoll_ctl\<close> refuses a descriptor that is not open.\<close>

definition padd_ok :: "(int \<Rightarrow> errno option) \<Rightarrow> bool" where
  "padd_ok padd \<longleftrightarrow> (\<forall>fd. padd fd = None \<longrightarrow> fd > 0)"

inductive k8s_step :: "'sa ck8sadapter \<Rightarrow> 'sa ck8sadapter \<Rightarrow> bool" where
  check: "padd_ok padd \<Longrightarrow> k8s_step a (fst (k8s_Check nc padd send a))"
| reply: "OnK8sReply parse net only_in recv a = Inr (a', shut) \<Longrightarrow> k8s_step a a'"
| ping: "k8s_step a (a\<lparr>k8s_nodes := UpdatePeer now ip sa (k8s_nodes a)\<rparr>)"
| gc: "k8s_step a (a\<lparr>k8s_nodes := snd (peers_Gc now interval (k8s_nodes a))\<rparr>)"

definition k8s_ok :: "'sa ck8sadapter \<Rightarrow> bool" where
  "k8s_ok a \<longleftrightarrow> k8s_statusOf a \<noteq> st_none \<and> (k8s_statusOf a = st_disconnected \<longleftrightarrow> \<not> fdSocket (k8sSocket a) > 0)
     \<and> um_wf (k8s_nodes a)"

lemma SocketClose_gone: "SocketClose so = (r, so', shut) \<Longrightarrow> \<not> fdSocket so' > 0"
  by (auto simp: SocketClose_def PollDelete_def Let_def split: if_splits)

lemma k8s_close_keeps:
  assumes "k8s_close a = (a', shut)"
  shows "\<not> fdSocket (k8sSocket a') > 0" "k8s_data a' = k8s_data a" "k8s_nodes a' = k8s_nodes a"
    "k8s_sslCtx a' = k8s_sslCtx a"
  using assms SocketClose_gone by (fastforce simp: k8s_close_def split: prod.splits)+

lemma k8s_Disconnect_keeps:
  assumes "k8s_Disconnect a = (a', shut)"
  shows "k8s_statusOf a' = st_disconnected" "\<not> fdSocket (k8sSocket a') > 0" "k8s_data a' = k8s_data a"
    "k8s_nodes a' = k8s_nodes a"
  using assms k8s_close_keeps by (fastforce simp: k8s_Disconnect_def split: prod.splits)+

lemma k8s_Connect_cases:
  assumes "k8s_Connect nc padd send a = (a', opened, shut)"
  shows "k8s_data a' = k8s_data a \<and> k8s_nodes a' = k8s_nodes a \<and>
    (k8s_statusOf a' = st_disconnected \<and> \<not> fdSocket (k8sSocket a') > 0
     \<or> k8s_statusOf a' = st_started \<and> padd (fdSocket (k8sSocket a')) = None)"
proof -
  obtain a1 shut0 where a1: "k8s_close a = (a1, shut0)" by fastforce
  note closed = k8s_close_keeps [OF a1]
  have dis: "k8s_data b' = k8s_data b \<and> k8s_nodes b' = k8s_nodes b \<and> k8s_statusOf b' = st_disconnected
      \<and> \<not> fdSocket (k8sSocket b') > 0"
    if "k8s_Disconnect b = (b', sh)" for b b' :: "'a ck8sadapter" and sh
    using k8s_Disconnect_keeps [OF that] by simp_all
  show ?thesis
    using assms closed
    by (auto simp: k8s_Connect_def a1 Let_def dest!: dis split: prod.splits if_splits)
qed

lemma k8s_Connect_ok:
  assumes "padd_ok padd" "um_wf (k8s_nodes a)"
  shows "k8s_ok (fst (k8s_Connect nc padd send a))"
proof -
  obtain a' opened shut where c: "k8s_Connect nc padd send a = (a', opened, shut)" using prod_cases3 by blast
  from k8s_Connect_cases [OF this] assms c show ?thesis
    by (auto simp: k8s_ok_def padd_ok_def)
qed

lemma enable_endpoint_wf: "um_wf nodes \<Longrightarrow> um_wf (enable_endpoint net ep nodes)"
  by (auto simp: enable_endpoint_def split: prod.splits option.splits)

lemma delete_endpoint_wf: "um_wf nodes \<Longrightarrow> um_wf (delete_endpoint net ep nodes)"
  by (auto simp: delete_endpoint_def split: prod.splits option.splits)

lemma fold_wf: "(\<And>x m. um_wf m \<Longrightarrow> um_wf (f x m)) \<Longrightarrow> um_wf m \<Longrightarrow> um_wf (fold f xs m)"
  by (induction xs arbitrary: m) auto

lemma apply_event_wf: "um_wf nodes \<Longrightarrow> um_wf (apply_event net event eps nodes)"
  by (cases event) (simp_all add: apply_event_def fold_wf enable_endpoint_wf delete_endpoint_wf)

lemma k8s_OnResponse_wf: "k8s_OnResponse net j nodes = Inr nodes' \<Longrightarrow> um_wf nodes \<Longrightarrow> um_wf nodes'"
  by (auto simp: k8s_OnResponse_def bind_outcome_eq_Inr Let_def apply_event_wf split: if_splits option.splits)

lemma on_chunks_wf: "on_chunks parse net cs nodes = Inr nodes' \<Longrightarrow> um_wf nodes \<Longrightarrow> um_wf nodes'"
  by (induction cs arbitrary: nodes) (auto simp: bind_outcome_eq_Inr dest: k8s_OnResponse_wf)

lemma k8s_Disconnect_ok: "k8s_Disconnect a = (a', shut) \<Longrightarrow> um_wf (k8s_nodes a) \<Longrightarrow> k8s_ok a'"
  using k8s_Disconnect_keeps [of a a' shut] by (simp add: k8s_ok_def)

lemma reply_started_ok:
  "reply_started parse net got a = Inr (a', shut) \<Longrightarrow> k8s_ok a \<Longrightarrow> k8s_statusOf a = st_started \<Longrightarrow> k8s_ok a'"
  by (cases got; cases "fst got")
    (auto simp: reply_started_def bind_outcome_eq_Inr k8s_ok_def [of a] intro: k8s_Disconnect_ok,
     auto simp: k8s_ok_def dest: k8s_OnResponse_wf)

lemma reply_active_ok:
  "reply_active parse net got a = Inr (a', shut) \<Longrightarrow> k8s_ok a \<Longrightarrow> k8s_statusOf a = st_active \<Longrightarrow> k8s_ok a'"
  by (cases got)
    (auto simp: reply_active_def bind_outcome_eq_Inr k8s_ok_def [of a] intro: k8s_Disconnect_ok split: if_splits,
     auto simp: k8s_ok_def dest: on_chunks_wf)

lemma OnK8sReply_ok:
  assumes "OnK8sReply parse net only_in recv a = Inr (a', shut)" "k8s_ok a"
  shows "k8s_ok a'"
proof -
  have "um_wf (k8s_nodes a)" using assms(2) by (simp add: k8s_ok_def)
  with assms show ?thesis
    by (auto simp: OnK8sReply_def bind_outcome_eq_Inr dest: reply_started_ok reply_active_ok
        intro: k8s_Disconnect_ok split: if_splits)
qed

lemma k8s_step_ok: "k8s_step a a' \<Longrightarrow> k8s_ok a \<Longrightarrow> k8s_ok a'"
proof (induction rule: k8s_step.induct)
  case (check padd a nc send)
  then show ?case using k8s_Connect_ok [of padd a nc send] by (simp add: k8s_Check_def k8s_ok_def)
next
  case (reply parse net only_in recv a a' shut)
  then show ?case using OnK8sReply_ok by blast
next
  case (ping a now ip sa)
  then show ?case by (simp add: k8s_ok_def UpdatePeer_def split: option.splits)
next
  case (gc a now interval)
  then show ?case by (simp add: k8s_ok_def peers_Gc_def)
qed

text \<open>
  C31: The adapter holds an open connection exactly when its status says so: from a successful start on,
  whatever the API server sends, whichever system calls fail and however checks, events, pings and
  collections follow each other, the status is disconnected iff there is no socket, and no peer
  is listed twice.
\<close>

theorem k8s_invariant:
  assumes "k8s_Start parse io1 io2 nc padd send sa0 (ck8sadapter_new sa0 sa url space token pod ssl) = Some (Inr a)"
    "padd_ok padd" "k8s_step\<^sup>*\<^sup>* a a'"
  shows "(k8s_statusOf a' = st_disconnected \<longleftrightarrow> \<not> fdSocket (k8sSocket a') > 0) \<and> k8s_statusOf a' \<noteq> st_none
    \<and> um_wf (k8s_nodes a')"
proof -
  obtain b where b: "fst (k8s_Init parse io1 io2 sa0 (ck8sadapter_new sa0 sa url space token pod ssl)) = Some (Inr b)"
    "a = fst (k8s_Connect nc padd send b)"
    using assms(1) by (auto simp: k8s_Start_def bind_outcome_eq_Inr)
  then have "k8s_nodes b = []"
    by (auto simp: k8s_Init_def bind_outcome_eq_Inr ck8sadapter_new_def Let_def split: prod.splits option.splits sum.splits if_splits)
  then have "k8s_ok a" using k8s_Connect_ok [OF assms(2), of b nc send] b(2) by simp
  with assms(3) have "k8s_ok a'" by (induction rule: rtranclp_induct) (auto dest: k8s_step_ok)
  then show ?thesis by (simp add: k8s_ok_def)
qed

text \<open>A sample: the answers of an API server for a pod of the stateful set \<open>push\<close> with the service
  \<open>svc\<close>, and a parser that knows their texts.\<close>

definition sample_answer :: "string \<Rightarrow> string" where
  "sample_answer body = ''HTTP/1.1 200 OK'' @ CRLF @ ''Content-Length: 1'' @ CRLF @ CRLF @ body"

definition sample_parse :: "string \<Rightarrow> json option" where
  "sample_parse txt =
     (if txt = ''P'' then Some (JObj [(''metadata'', JObj [(''ownerReferences'', JArr
         [JObj [(''kind'', JStr ''StatefulSet''), (''name'', JStr ''push'')]])])])
      else if txt = ''S'' then Some (JObj [(''spec'', JObj [(''serviceName'', JStr ''svc'')])])
      else None)"

definition sample_io :: "int \<Rightarrow> string \<Rightarrow> call_io" where
  "sample_io fd body = \<lparr>ci_net = sample_net\<lparr>nc_socket := fd\<rparr>, ci_send = (\<lambda>_. None), ci_recvs = [Inr (sample_answer body)]\<rparr>"

definition sample_padd :: "int \<Rightarrow> errno option" where
  "sample_padd fd = (if fd > 0 then None else Some EBADF)"

abbreviation sample_k8s :: "nat ck8sadapter" where
  "sample_k8s \<equiv> ck8sadapter_new 0 1 ''api'' ''ns'' ''tok'' ''pod'' False"

definition sample_started :: "nat ck8sadapter" where
  "sample_started = sample_k8s\<lparr>k8sSocket := (csocket_new 9 0 False True),
     k8s_serviceName := ''svc'', k8s_statusOf := st_started\<rparr>"

definition sample_response :: "string \<Rightarrow> http_response" where
  "sample_response body = \<lparr>rs_code = ''200'', rs_msg = ''OK'', rs_headers = [(''content-length'', ''1'')],
     rs_content = body, rs_contentLength = 1\<rparr>"

lemma sample_parsed:
  "ParseResponse (sample_answer ''P'') = Inr (Inr 39, sample_response ''P'')"
  "ParseResponse (sample_answer ''S'') = Inr (Inr 39, sample_response ''S'')"
  by code_simp+

lemma sample_call:
  "call_read [Inr (sample_answer ''P'')] = Some (Inr (sample_response ''P''))"
  "call_read [Inr (sample_answer ''S'')] = Some (Inr (sample_response ''S''))"
  by (simp_all add: call_read_def HttpReadResponse_def sample_parsed sample_response_def is_chunked_def um_find_def)

lemma sample_start:
  "k8s_Start sample_parse (sample_io 7 ''P'') (sample_io 8 ''S'') sample_net sample_padd (\<lambda>_. None) 0 sample_k8s
     = Some (Inr sample_started)"
proof -
  have "fst (k8s_Init sample_parse (sample_io 7 ''P'') (sample_io 8 ''S'') 0 sample_k8s) =
      Some (Inr (sample_k8s\<lparr>k8s_serviceName := ''svc''\<rparr>))"
    by (simp add: k8s_Init_def crequest_Call_plain sample_io_def sample_net_def crequest_new_def ck8sadapter_new_def
        sample_call sample_response_def response_Json_def sample_parse_def pod_owner_def service_name_def um_find_def ToLower_def tolower_def)
  then show ?thesis
    by (simp add: k8s_Start_def k8s_Connect_def k8s_close_def SocketClose_def PollDelete_def ck8sadapter_new_def
        csocket_new_def TcpConnect_def sample_net_def csocket_assign_def sample_padd_def sample_started_def
        HttpWriteRequest_def)
qed

theorem k8s_invariant_witness:
  "let a' = sample_started\<lparr>k8s_nodes := UpdatePeer 5 1 2 (k8s_nodes sample_started)\<rparr> in
     (k8s_statusOf a' = st_disconnected \<longleftrightarrow> \<not> fdSocket (k8sSocket a') > 0) \<and> k8s_statusOf a' \<noteq> st_none
     \<and> um_wf (k8s_nodes a')"
  unfolding Let_def
  by (rule k8s_invariant [OF sample_start])
    (simp add: padd_ok_def sample_padd_def, rule r_into_rtranclp, rule k8s_step.ping)

section \<open>What an event does to the table\<close>

text \<open>What one endpoint of an event says of an address: that it is a peer, that it is none, or nothing.\<close>

definition endpoint_vote :: "'sa k8s_net \<Rightarrow> k8sevent_t \<Rightarrow> endpoint \<Rightarrow> u32 \<Rightarrow> bool option" where
  "endpoint_vote net event ep ip =
     (case ep of (host, port, ready) \<Rightarrow>
        (case kn_resolve net host (to_string (unat port)) of
           None \<Rightarrow> None
         | Some (ip', sa) \<Rightarrow>
             if ip' \<noteq> ip then None
             else if event = k8s_deleted \<or> \<not> ready then Some False
             else if kn_local net ip then None else Some True))"

definition verdict :: "'sa k8s_net \<Rightarrow> k8sevent_t \<Rightarrow> endpoint list \<Rightarrow> u32 \<Rightarrow> bool option" where
  "verdict net event eps ip =
     (case rev (List.map_filter (\<lambda>ep. endpoint_vote net event ep ip) eps) of [] \<Rightarrow> None | v # _ \<Rightarrow> Some v)"

lemma verdict_snoc:
  "verdict net event (eps @ [ep]) ip =
     (case endpoint_vote net event ep ip of None \<Rightarrow> verdict net event eps ip | Some v \<Rightarrow> Some v)"
  by (simp add: verdict_def map_filter_append map_filter_simps split: option.split)

lemma enable_endpoint_vote:
  assumes "event = k8s_added \<or> event = k8s_modified"
  shows "case endpoint_vote net event ep ip of
      None \<Rightarrow> um_find (enable_endpoint net ep nodes) ip = um_find nodes ip
    | Some known \<Rightarrow> (um_find (enable_endpoint net ep nodes) ip \<noteq> None) = known"
  using assms
  by (auto simp: endpoint_vote_def enable_endpoint_def um_find_emplace split: prod.splits option.splits)

lemma delete_endpoint_vote:
  "case endpoint_vote net k8s_deleted ep ip of
      None \<Rightarrow> um_find (delete_endpoint net ep nodes) ip = um_find nodes ip
    | Some known \<Rightarrow> (um_find (delete_endpoint net ep nodes) ip \<noteq> None) = known"
  by (auto simp: endpoint_vote_def delete_endpoint_def split: prod.splits option.splits)

lemma fold_verdict:
  assumes "\<And>ep nodes. case endpoint_vote net event ep ip of
      None \<Rightarrow> um_find (f ep nodes) ip = um_find nodes ip
    | Some known \<Rightarrow> (um_find (f ep nodes) ip \<noteq> None) = known"
  shows "case verdict net event eps ip of
      None \<Rightarrow> um_find (fold f eps nodes) ip = um_find nodes ip
    | Some known \<Rightarrow> (um_find (fold f eps nodes) ip \<noteq> None) = known"
proof (induction eps rule: rev_induct)
  case Nil
  then show ?case by (simp add: verdict_def map_filter_simps)
next
  case (snoc ep eps)
  with assms [of ep "fold f eps nodes"] show ?case
    by (auto simp: verdict_snoc split: option.splits)
qed

lemma apply_event_verdict:
  assumes "event \<noteq> k8s_none"
  shows "case verdict net event eps ip of
      None \<Rightarrow> um_find (apply_event net event eps nodes) ip = um_find nodes ip
    | Some known \<Rightarrow> (um_find (apply_event net event eps nodes) ip \<noteq> None) = known"
proof (cases "event = k8s_deleted")
  case True
  then have "apply_event net event eps nodes = fold (delete_endpoint net) eps nodes" by (simp add: apply_event_def)
  with True fold_verdict [OF delete_endpoint_vote] show ?thesis by (simp only:)
next
  case False
  with assms have ev: "event = k8s_added \<or> event = k8s_modified" by (cases event) simp_all
  then have "apply_event net event eps nodes = fold (enable_endpoint net) eps nodes" by (auto simp: apply_event_def)
  with fold_verdict [OF enable_endpoint_vote [OF ev]] show ?thesis by (simp only:)
qed


definition sample_slice :: json where
  "sample_slice = JObj [(''kind'', JStr ''EndpointSlice''),
     (''endpoints'', JArr [JObj [(''addresses'', JArr [JStr ''10.0.0.2'']), (''conditions'', JObj [(''ready'', JBool True)])]]),
     (''ports'', JArr [JObj [(''name'', JStr ''cluster''), (''protocol'', JStr ''UDP''), (''port'', JInt 6001)]])]"

definition sample_k8s_net :: "nat k8s_net" where
  "sample_k8s_net = \<lparr>kn_resolve = (\<lambda>h p. if h = ''10.0.0.2'' then Some (2, 7) else None), kn_local = (\<lambda>ip. ip = 1)\<rparr>"

lemma ToLower_udp: "ToLower ''UDP'' = ''udp''" "ToLower ''cluster'' = ''cluster''"
  by code_simp+


section \<open>An interrupted document\<close>

fun run_replies :: "(string \<Rightarrow> json option) \<Rightarrow> 'sa k8s_net \<Rightarrow> string list \<Rightarrow> 'sa ck8sadapter \<Rightarrow> 'sa ck8sadapter outcome" where
  "run_replies parse net [] a = Inr a"
| "run_replies parse net (r # rs) a =
     bind_outcome (OnK8sReply parse net True (Inr r) a) (\<lambda>(a, _). run_replies parse net rs a)"

lemma run_replies_stuck:
  assumes "\<forall>cs \<in> set rounds. \<forall>(h, d) \<in> set cs. object_text d \<and> chunk_ok (h, d @ [LF])"
    "open_text (k8s_data a)" "k8s_statusOf a = st_active" "fdSocket (k8sSocket a) > 0"
  shows "\<exists>a'. run_replies parse net (map (\<lambda>cs. concat (map chunk_text (line_chunks cs))) rounds) a = Inr a'
    \<and> k8s_nodes a' = k8s_nodes a"
  using assms
proof (induction rounds arbitrary: a)
  case Nil
  then show ?case by simp
next
  case (Cons cs rounds)
  then obtain data' where d: "open_text data'"
    "HttpReadChunkedResponse (k8s_data a) (Inr (concat (map chunk_text (line_chunks cs)))) = Inr (None, [], data')"
    using HttpReadChunkedResponse_stuck [of cs "k8s_data a"] by auto
  with Cons.prems have "OnK8sReply parse net True (Inr (concat (map chunk_text (line_chunks cs)))) a =
      Inr (a\<lparr>k8s_data := data', k8s_nodes := k8s_nodes a\<rparr>, [])"
    by (simp add: OnK8sReply_def reply_active_def)
  with Cons.IH [of "a\<lparr>k8s_data := data', k8s_nodes := k8s_nodes a\<rparr>"] Cons.prems d show ?case by simp
qed


definition watch_head :: string where
  "watch_head = ''HTTP/1.1 200 OK'' @ CRLF @ ''Transfer-Encoding: chunked'' @ CRLF @ CRLF"

lemma watch_head_parsed:
  "ParseResponse watch_head = Inr (Inr 47, \<lparr>rs_code = ''200'', rs_msg = ''OK'',
     rs_headers = [(''transfer-encoding'', ''chunked'')], rs_content = [], rs_contentLength = 0\<rparr>)"
  by code_simp

definition sample_active :: "nat ck8sadapter" where
  "sample_active = sample_started\<lparr>k8s_statusOf := st_active, k8s_data := ''{x''\<rparr>"


text \<open>
  Over a connection without TLS the adapter does not start unless the API server has answered
  before the first receive, which does not wait: the receive finds nothing, this counts as an
  empty response, and its code is not 200.
\<close>

theorem k8s_start_too_early:
  assumes "\<not> ssl" "nc_sockaddr (ci_net io1) ''0'' = None" "nc_connect (ci_net io1) = None" "0 < nc_socket (ci_net io1)"
    "ci_send io1 = (\<lambda>_. None)" "ci_recvs io1 = Inr [] # later"
  shows "k8s_Start parse io1 io2 nc padd send sa0 (ck8sadapter_new sa0 sa url space token pod ssl) =
    Some (Inl (Throw ''can't get k8s pod info''))"
proof -
  have "fst (k8s_Init parse io1 io2 sa0 (ck8sadapter_new sa0 sa url space token pod ssl)) =
      Some (Inl (Throw ''can't get k8s pod info''))"
    using assms by (simp add: k8s_Init_def ck8sadapter_new_def crequest_new_def crequest_Call_plain call_read_early)
  then show ?thesis by (simp add: k8s_Start_def)
qed

theorem k8s_start_too_early_witness:
  "k8s_Start sample_parse ((sample_io 7 ''P'')\<lparr>ci_recvs := [Inr [], Inr (sample_answer ''P'')]\<rparr>) (sample_io 8 ''S'')
     sample_net sample_padd (\<lambda>_. None) 0 sample_k8s = Some (Inl (Throw ''can't get k8s pod info''))"
  by (rule k8s_start_too_early) (simp_all add: sample_io_def sample_net_def)

end
