(* ===== verification/Config.thy ===== *)
theory Config
  imports Credentials Dsn
begin

text \<open>
  Loading the configuration (\<^verbatim>\<open>source/core/config/cconfig.cpp\<close>): the sections of the server, the
  cluster, the interface and the applications, read from YAML nodes. The YAML library is a
  parameter, the record \<open>yaml_lib\<close>: what a node is, access to a member of a constant node (\<open>yAt\<close>) and of one that may be changed
  (\<open>yRef\<close>), and the conversions of a scalar; all but the test whether a node is defined may throw. So are the files and variables that a pod finds. An
  address is kept as its text.
\<close>

unbundle bit_operations_syntax

record 'y yaml_lib =
  yIsDefined :: "'y \<Rightarrow> bool"
  yIsMap :: "'y \<Rightarrow> bool outcome"
  yIsSequence :: "'y \<Rightarrow> bool outcome"
  yIsScalar :: "'y \<Rightarrow> bool outcome"
  yIsNull :: "'y \<Rightarrow> bool outcome"
  yAt :: "'y \<Rightarrow> string \<Rightarrow> 'y outcome"
  yRef :: "'y \<Rightarrow> string \<Rightarrow> 'y outcome"
  yItems :: "'y \<Rightarrow> 'y list"
  yFields :: "'y \<Rightarrow> ('y \<times> 'y) list"
  yString :: "'y \<Rightarrow> string outcome"
  ySize :: "'y \<Rightarrow> nat outcome"
  yInt :: "'y \<Rightarrow> int outcome"
  yBool :: "'y \<Rightarrow> bool outcome"

section \<open>Values\<close>

text \<open>\<^verbatim>\<open>n.IsDefined() and n.IsX()\<close>.\<close>

definition y_is :: "'y yaml_lib \<Rightarrow> ('y \<Rightarrow> bool outcome) \<Rightarrow> 'y \<Rightarrow> bool outcome" where
  "y_is Y kind n = (if yIsDefined Y n then kind n else Inr False)"

fun map_loop :: "'y yaml_lib \<Rightarrow> (string \<times> u32) list \<Rightarrow> 'y list \<Rightarrow> cflag \<Rightarrow> cflag outcome" where
  "map_loop Y names [] res = Inr res"
| "map_loop Y names (v # vs) res =
     bind_outcome (yString Y v) (\<lambda>s.
       map_loop Y names vs (case map_of names s of Some e \<Rightarrow> cflag_add res e | None \<Rightarrow> res))"

definition yaml_Map :: "'y yaml_lib \<Rightarrow> 'y \<Rightarrow> (string \<times> u32) list \<Rightarrow> u32 \<Rightarrow> cflag outcome" where
  "yaml_Map Y vals names def =
     bind_outcome (y_is Y (yIsSequence Y) vals) (\<lambda>yes.
       if yes then map_loop Y names (yItems Y vals) def else Inr def)"

definition yaml_Value :: "'y yaml_lib \<Rightarrow> ('y \<Rightarrow> 'a outcome) \<Rightarrow> 'y \<Rightarrow> 'a \<Rightarrow> 'a outcome" where
  "yaml_Value Y as vals def = bind_outcome (y_is Y (yIsScalar Y) vals) (\<lambda>yes. if yes then as vals else Inr def)"

definition PathValue :: "'y yaml_lib \<Rightarrow> 'y \<Rightarrow> string \<Rightarrow> string outcome" where
  "PathValue Y vals def =
     bind_outcome (y_is Y (yIsScalar Y) vals) (\<lambda>scalar.
     bind_outcome (if scalar then bind_outcome (yIsNull Y vals) (\<lambda>null. Inr (\<not> null)) else Inr False) (\<lambda>yes.
     bind_outcome (if yes then yString Y vals else Inr []) (\<lambda>val.
       let trimPath = trim_with (\<lambda>c. c = CHR ''/'') val in
       Inr (if trimPath \<noteq> [] then trimPath else def))))"

text \<open>Member access followed by one of these; two of them for \<^verbatim>\<open>options[a][b]\<close>.\<close>

definition at_Value :: "'y yaml_lib \<Rightarrow> ('y \<Rightarrow> 'a outcome) \<Rightarrow> 'y \<Rightarrow> string list \<Rightarrow> 'a \<Rightarrow> 'a outcome" where
  "at_Value Y as options path def =
     bind_outcome (fold (\<lambda>k n. bind_outcome n (\<lambda>n. yAt Y n k)) path (Inr options)) (\<lambda>n. yaml_Value Y as n def)"

definition at_Path :: "'y yaml_lib \<Rightarrow> 'y \<Rightarrow> string \<Rightarrow> string \<Rightarrow> string outcome" where
  "at_Path Y options key def = bind_outcome (yAt Y options key) (\<lambda>n. PathValue Y n def)"

definition at_Map :: "'y yaml_lib \<Rightarrow> 'y \<Rightarrow> string \<Rightarrow> (string \<times> u32) list \<Rightarrow> u32 \<Rightarrow> cflag outcome" where
  "at_Map Y options key names def = bind_outcome (yAt Y options key) (\<lambda>n. yaml_Map Y n names def)"

text \<open>Assignment of a node to an address: the text when it is well formed, else the address is
  emptied; no scalar, no change.\<close>

definition dsn_assign :: "'y yaml_lib \<Rightarrow> 'y \<Rightarrow> string \<Rightarrow> string outcome" where
  "dsn_assign Y n old =
     bind_outcome (y_is Y (yIsScalar Y) n) (\<lambda>yes.
       if yes then bind_outcome (yString Y n) (\<lambda>s. Inr (ds_Value (snd (Assign s cdsn_new)))) else Inr old)"

section \<open>The server\<close>

record ssloptions_t =
  ssl_Enable :: bool
  ssl_Client :: bool
  ssl_Cert :: string
  ssl_Key :: string

definition ssloptions_new :: ssloptions_t where
  "ssloptions_new = \<lparr>ssl_Enable = False, ssl_Client = False, ssl_Cert = [], ssl_Key = []\<rparr>"

record srvproto_t =
  sp_Path :: string
  sp_ActivityTimeout :: nat
  sp_MaxPayloadSize :: nat
  sp_PushOn :: cflag

definition srvproto_new :: srvproto_t where
  "srvproto_new = \<lparr>sp_Path = [], sp_ActivityTimeout = 20, sp_MaxPayloadSize = 65400, sp_PushOn = 0\<rparr>"

record server_t =
  sv_Proto :: cflag
  sv_Threads :: nat
  sv_Accept :: nat
  sv_Listen :: string
  sv_Ssl :: ssloptions_t
  sv_Path :: string
  sv_Pusher :: srvproto_t
  sv_WebSocket :: srvproto_t
  sv_MQTT :: srvproto_t

definition server_new :: server_t where
  "server_new = \<lparr>sv_Proto = 0, sv_Threads = 3, sv_Accept = 3, sv_Listen = [], sv_Ssl = ssloptions_new, sv_Path = [],
     sv_Pusher = srvproto_new, sv_WebSocket = srvproto_new, sv_MQTT = srvproto_new\<rparr>"

text \<open>The SSL options that the server and the interface share.\<close>

definition load_ssl :: "'y yaml_lib \<Rightarrow> 'y \<Rightarrow> ssloptions_t \<Rightarrow> ssloptions_t outcome" where
  "load_ssl Y options ssl =
     bind_outcome (at_Value Y (yString Y) options [''ssl'', ''cert''] []) (\<lambda>cert.
     bind_outcome (at_Value Y (yString Y) options [''ssl'', ''key''] []) (\<lambda>key.
     bind_outcome (at_Value Y (yBool Y) options [''ssl'', ''enable''] False) (\<lambda>enable.
       Inr (ssl\<lparr>ssl_Cert := cert, ssl_Key := key, ssl_Enable := enable\<rparr>))))"

definition proto_names :: "(string \<times> u32) list" where
  "proto_names = [(''pusher'', protocols_code proto_pusher), (''mqtt'', protocols_code proto_mqtt3),
     (''websocket'', protocols_code proto_websocket)]"

definition push_names :: "(string \<times> u32) list" where
  "push_names = [(''public'', channels_code ch_pub), (''private'', channels_code ch_priv),
     (''presence'', channels_code ch_pres)]"

definition push_default :: u32 where
  "push_default = channels_code ch_pub OR channels_code ch_prot OR channels_code ch_pres"

definition load_pusher :: "'y yaml_lib \<Rightarrow> 'y \<Rightarrow> server_t \<Rightarrow> server_t outcome" where
  "load_pusher Y options sv =
     bind_outcome (yAt Y options ''pusher'') (\<lambda>sec.
     bind_outcome (yIsMap Y sec) (\<lambda>is_map.
       if is_map then
         bind_outcome (at_Value Y (ySize Y) sec [''activity-timeout''] (sp_ActivityTimeout (sv_Pusher sv))) (\<lambda>t.
         bind_outcome (at_Value Y (ySize Y) sec [''max-request-payload''] (sp_MaxPayloadSize (sv_Pusher sv))) (\<lambda>m.
         bind_outcome (at_Path Y sec ''path'' ''pusher'') (\<lambda>p.
           Inr (sv\<lparr>sv_Pusher := \<lparr>sp_Path = p, sp_ActivityTimeout = t, sp_MaxPayloadSize = m,
             sp_PushOn = channels_code ch_pres\<rparr>\<rparr>))))
       else Inr (sv\<lparr>sv_Proto := cflag_sub (sv_Proto sv) (protocols_code proto_pusher)\<rparr>)))"

text \<open>The sections of the websocket and the MQTT protocol differ in the default of the timeout and in
  names; the payload limit defaults to that of the Pusher protocol.\<close>

definition load_proto :: "'y yaml_lib \<Rightarrow> 'y \<Rightarrow> nat \<Rightarrow> nat \<Rightarrow> string \<Rightarrow> srvproto_t outcome" where
  "load_proto Y sec timeout payload path =
     bind_outcome (at_Value Y (ySize Y) sec [''activity-timeout''] timeout) (\<lambda>t.
     bind_outcome (at_Value Y (ySize Y) sec [''max-request-payload''] payload) (\<lambda>m.
     bind_outcome (at_Map Y sec ''push'' push_names push_default) (\<lambda>on.
     bind_outcome (at_Path Y sec ''path'' path) (\<lambda>p.
       Inr \<lparr>sp_Path = p, sp_ActivityTimeout = t, sp_MaxPayloadSize = m, sp_PushOn = on\<rparr>))))"

definition load_websocket :: "'y yaml_lib \<Rightarrow> 'y \<Rightarrow> server_t \<Rightarrow> server_t outcome" where
  "load_websocket Y options sv =
     bind_outcome (yAt Y options ''websocket'') (\<lambda>sec.
     bind_outcome (yIsMap Y sec) (\<lambda>is_map.
       if is_map then
         bind_outcome (load_proto Y sec (sp_ActivityTimeout (sv_WebSocket sv)) (sp_MaxPayloadSize (sv_Pusher sv)) ''ws'')
           (\<lambda>p. Inr (sv\<lparr>sv_WebSocket := p\<rparr>))
       else Inr (sv\<lparr>sv_Proto := cflag_sub (sv_Proto sv) (protocols_code proto_websocket)\<rparr>)))"

definition load_mqtt :: "'y yaml_lib \<Rightarrow> 'y \<Rightarrow> server_t \<Rightarrow> server_t outcome" where
  "load_mqtt Y options sv =
     bind_outcome (yAt Y options ''mqtt'') (\<lambda>sec.
     bind_outcome (yIsMap Y sec) (\<lambda>is_map.
       if is_map then
         bind_outcome (load_proto Y sec 0 (sp_MaxPayloadSize (sv_Pusher sv)) ''mqtt'') (\<lambda>p. Inr (sv\<lparr>sv_MQTT := p\<rparr>))
       else Inr (sv\<lparr>sv_Proto := cflag_sub (sv_Proto sv) (protocols_code proto_mqtt3)\<rparr>)))"

definition server_Load :: "'y yaml_lib \<Rightarrow> 'y \<Rightarrow> server_t \<Rightarrow> server_t outcome" where
  "server_Load Y options sv =
     bind_outcome (y_is Y (yIsMap Y) options) (\<lambda>is_map.
      if is_map then
        bind_outcome (at_Map Y options ''proto'' proto_names (protocols_code proto_none)) (\<lambda>proto.
        bind_outcome (at_Value Y (ySize Y) options [''threads''] (sv_Threads sv)) (\<lambda>threads.
        bind_outcome (at_Value Y (ySize Y) options [''accept''] (sv_Accept sv)) (\<lambda>accept.
        bind_outcome (bind_outcome (yAt Y options ''listen'') (\<lambda>n. dsn_assign Y n (sv_Listen sv))) (\<lambda>listen.
        bind_outcome (load_ssl Y options (sv_Ssl sv)) (\<lambda>ssl.
        bind_outcome (at_Path Y options ''path'' ''app'') (\<lambda>path.
        bind_outcome (load_pusher Y options (sv\<lparr>sv_Proto := proto, sv_Threads := threads, sv_Accept := accept,
            sv_Listen := listen, sv_Ssl := ssl, sv_Path := path\<rparr>)) (\<lambda>sv.
        bind_outcome (load_websocket Y options sv) (\<lambda>sv. load_mqtt Y options sv))))))))
      else Inl (Throw ''Server section not found''))"

section \<open>The cluster\<close>

datatype cluster_type = type_nil | type_peers | type_k8s

definition cluster_FromStr :: "string \<Rightarrow> cluster_type outcome" where
  "cluster_FromStr str =
     (if str = ''k8s'' then Inr type_k8s
      else if str = ''peers'' then Inr type_peers
      else Inl (Throw ''wrong cluster adapter type''))"

record cluster_t =
  cl_Enable :: bool
  cl_InPod :: bool
  cl_Sync :: cflag
  cl_PingInterval :: nat
  cl_Listen :: string
  cl_Module :: string
  cl_Type :: cluster_type
  cl_Nodes :: "string list"
  cl_Url :: string
  cl_Namespace :: string
  cl_Token :: string
  cl_PodName :: string
  cl_Ssl :: ssloptions_t

definition cluster_new :: cluster_t where
  "cluster_new = \<lparr>cl_Enable = False, cl_InPod = False, cl_Sync = 0, cl_PingInterval = 30, cl_Listen = [], cl_Module = [],
     cl_Type = type_nil, cl_Nodes = [], cl_Url = [], cl_Namespace = [], cl_Token = [], cl_PodName = [],
     cl_Ssl = ssloptions_new\<rparr>"

text \<open>What the process finds around it: the two files of a pod, the host name, the variables of the
  API server, and the file system.\<close>

record pod_env =
  pe_token :: "string option"
  pe_namespace :: "string option"
  pe_hostname :: "string option"
  pe_host :: "string option"
  pe_port :: "string option"
  pe_exists :: "string \<Rightarrow> bool"
  pe_absolute :: "string \<Rightarrow> string outcome"

definition sync_names :: "(string \<times> u32) list" where
  "sync_names = [(''register'', hook_code hook_reg), (''unregister'', hook_code hook_unreg), (''join'', hook_code hook_join),
     (''leave'', hook_code hook_leave), (''push'', hook_code hook_push)]"

fun load_nodes :: "'y yaml_lib \<Rightarrow> 'y list \<Rightarrow> cluster_t \<Rightarrow> cluster_t outcome" where
  "load_nodes Y [] cl = Inr cl"
| "load_nodes Y (n # ns) cl =
     bind_outcome (yaml_Value Y (yString Y) n []) (\<lambda>node.
       let nodes = (if node \<in> set (cl_Nodes cl) then cl_Nodes cl else cl_Nodes cl @ [node]) in
       load_nodes Y ns (cl\<lparr>cl_Nodes := nodes, cl_Enable := (nodes \<noteq> [])\<rparr>))"

definition load_in_pod :: "pod_env \<Rightarrow> string \<Rightarrow> string \<Rightarrow> cluster_t \<Rightarrow> cluster_t outcome" where
  "load_in_pod pe token space cl =
     (case pe_hostname pe of
        None \<Rightarrow> Inl (Throw ''can't get hostname'')
      | Some name \<Rightarrow>
          (case pe_host pe of
             None \<Rightarrow> Inl (Throw ''KUBERNETES_SERVICE_HOST variable unset'')
           | Some apiHost \<Rightarrow>
               (case pe_port pe of
                  None \<Rightarrow> Inl (Throw ''KUBERNETES_SERVICE_PORT variable unset'')
                | Some apiPort \<Rightarrow>
                    Inr (cl\<lparr>cl_Token := token, cl_Namespace := space, cl_PodName := name,
                      cl_Url := apiHost @ '':'' @ apiPort,
                      cl_Ssl := \<lparr>ssl_Enable = True, ssl_Client = True, ssl_Cert = [], ssl_Key = []\<rparr>\<rparr>))))"

definition absolute_path :: "pod_env \<Rightarrow> string \<Rightarrow> string outcome" where
  "absolute_path pe file = (if starts_with ''/'' file then Inr file else pe_absolute pe file)"

definition load_k8s_ssl :: "'y yaml_lib \<Rightarrow> pod_env \<Rightarrow> 'y \<Rightarrow> cluster_t \<Rightarrow> cluster_t outcome" where
  "load_k8s_ssl Y pe ssl cl =
     bind_outcome (y_is Y (yIsMap Y) ssl) (\<lambda>yes.
       if yes then
         bind_outcome (at_Value Y (yString Y) ssl [''cert''] []) (\<lambda>cert.
         bind_outcome (at_Value Y (yString Y) ssl [''key''] []) (\<lambda>key.
         bind_outcome (absolute_path pe cert) (\<lambda>cert.
         bind_outcome (absolute_path pe key) (\<lambda>key.
         bind_outcome (at_Value Y (yBool Y) ssl [''enable''] False) (\<lambda>enable.
           Inr (cl\<lparr>cl_Ssl := \<lparr>ssl_Enable = enable, ssl_Client = True, ssl_Cert = cert, ssl_Key = key\<rparr>,
             cl_Enable := (cl_Enable cl \<and> pe_exists pe cert \<and> pe_exists pe key)\<rparr>))))))
       else Inr cl)"

definition load_k8s :: "'y yaml_lib \<Rightarrow> pod_env \<Rightarrow> 'y \<Rightarrow> cluster_t \<Rightarrow> cluster_t outcome" where
  "load_k8s Y pe family cl =
     (case (pe_token pe, pe_namespace pe) of
        (Some token, Some space) \<Rightarrow> load_in_pod pe token space (cl\<lparr>cl_InPod := True\<rparr>)
      | _ \<Rightarrow>
          bind_outcome (at_Value Y (yString Y) family [''url''] []) (\<lambda>url.
          if url = [] then Inr (cl\<lparr>cl_InPod := False, cl_Url := url, cl_Enable := False\<rparr>)
          else
            bind_outcome (at_Value Y (yString Y) family [''podname''] []) (\<lambda>pod.
            if pod = [] then Inl (Throw ''k8s pod name must be set'')
            else
              bind_outcome (at_Value Y (yString Y) family [''namespace''] ''default'') (\<lambda>space.
              bind_outcome (yAt Y family ''ssl'') (\<lambda>ssl.
                load_k8s_ssl Y pe ssl (cl\<lparr>cl_InPod := False, cl_Url := url, cl_Enable := True, cl_PodName := pod,
                  cl_Namespace := space\<rparr>))))))"

definition cluster_Load :: "'y yaml_lib \<Rightarrow> pod_env \<Rightarrow> 'y \<Rightarrow> cluster_t \<Rightarrow> cluster_t outcome" where
  "cluster_Load Y pe options cl =
     bind_outcome (y_is Y (yIsMap Y) options) (\<lambda>is_map.
       let cl = cl\<lparr>cl_Enable := False\<rparr> in
       if \<not> is_map then Inr cl
       else
         bind_outcome (bind_outcome (yAt Y options ''listen'') (\<lambda>n. dsn_assign Y n (cl_Listen cl))) (\<lambda>listen.
         bind_outcome (bind_outcome (yAt Y options ''module'') (\<lambda>n. dsn_assign Y n (cl_Module cl))) (\<lambda>module.
         bind_outcome (at_Value Y (ySize Y) options [''ping-interval''] (cl_PingInterval cl)) (\<lambda>interval.
         bind_outcome (at_Map Y options ''sync'' sync_names (hook_code hook_none)) (\<lambda>sync.
         bind_outcome (yAt Y options ''family'') (\<lambda>family.
         bind_outcome (yIsMap Y family) (\<lambda>has_family.
           let cl = cl\<lparr>cl_Listen := listen, cl_Module := module, cl_PingInterval := interval, cl_Sync := sync\<rparr> in
           if \<not> has_family then Inr cl
           else
             bind_outcome (yAt Y family ''adapter'') (\<lambda>adapter.
             if \<not> yIsDefined Y adapter then Inr cl
             else
               bind_outcome (bind_outcome (yString Y adapter) cluster_FromStr) (\<lambda>type.
                 let cl = cl\<lparr>cl_Type := type, cl_Enable := (listen \<noteq> [])\<rparr> in
                 (case type of
                    type_peers \<Rightarrow> bind_outcome (yAt Y family ''nodes'') (\<lambda>nodes. load_nodes Y (yItems Y nodes) cl)
                  | type_k8s \<Rightarrow> load_k8s Y pe family cl
                  | type_nil \<Rightarrow> Inl (Throw ''wrong cluster adapter type'')))))))))))"

section \<open>The interface\<close>

record smpp_t =
  sm_Enable :: bool
  sm_Hook :: string
  sm_Path :: string
  sm_Rps :: nat

record interface_t =
  if_Interface :: cflag
  if_Tcp :: string
  if_Unix :: string
  if_Path :: string
  if_KeepAlive :: int
  if_Ssl :: ssloptions_t
  if_Threads :: nat
  if_Accept :: nat
  if_Smpp :: smpp_t

definition interface_new :: interface_t where
  "interface_new = \<lparr>if_Interface = api_code api_disable, if_Tcp = [], if_Unix = [], if_Path = [], if_KeepAlive = 10,
     if_Ssl = ssloptions_new, if_Threads = 3, if_Accept = 3,
     if_Smpp = \<lparr>sm_Enable = False, sm_Hook = [], sm_Path = [], sm_Rps = 100\<rparr>\<rparr>"

text \<open>The rate is read as an unsigned number, so the test that it is not negative never fails.\<close>

definition smpp_Load :: "'y yaml_lib \<Rightarrow> 'y \<Rightarrow> smpp_t \<Rightarrow> smpp_t outcome" where
  "smpp_Load Y options sm =
     bind_outcome (at_Value Y (yBool Y) options [''enable''] False) (\<lambda>enable.
       if \<not> enable then Inr (sm\<lparr>sm_Enable := False\<rparr>)
       else
         bind_outcome (at_Path Y options ''path'' ''smpp'') (\<lambda>path.
         bind_outcome (at_Value Y (yString Y) options [''webhook''] []) (\<lambda>hook.
         bind_outcome (at_Value Y (ySize Y) options [''rps''] (sm_Rps sm)) (\<lambda>rps.
           Inr \<lparr>sm_Enable = True, sm_Hook = hook, sm_Path = path, sm_Rps = rps\<rparr>))))"

fun load_listen :: "'y yaml_lib \<Rightarrow> 'y list \<Rightarrow> interface_t \<Rightarrow> interface_t outcome" where
  "load_listen Y [] i = Inr i"
| "load_listen Y (dsn # dsns) i =
     bind_outcome (yString Y dsn) (\<lambda>con.
       if starts_with ''tcp://'' con
       then bind_outcome (dsn_assign Y dsn (if_Tcp i)) (\<lambda>v. load_listen Y dsns (i\<lparr>if_Tcp := v\<rparr>))
       else if starts_with ''unix://'' con
       then bind_outcome (dsn_assign Y dsn (if_Unix i)) (\<lambda>v. load_listen Y dsns (i\<lparr>if_Unix := v\<rparr>))
       else load_listen Y dsns i)"

definition api_names :: "(string \<times> u32) list" where
  "api_names = [(''pusher'', api_code api_pusher), (''push1st'', api_code api_push1st)]"

definition load_module :: "'y yaml_lib \<Rightarrow> 'y \<Rightarrow> interface_t \<Rightarrow> interface_t outcome" where
  "load_module Y options i =
     bind_outcome (yAt Y options ''module'') (\<lambda>module.
       if \<not> yIsDefined Y module then Inr i
       else
         bind_outcome (yAt Y module ''smpp'') (\<lambda>smpp.
         bind_outcome (yIsMap Y smpp) (\<lambda>is_map.
           if is_map then bind_outcome (smpp_Load Y smpp (if_Smpp i)) (\<lambda>sm. Inr (i\<lparr>if_Smpp := sm\<rparr>)) else Inr i)))"

definition interface_Load :: "'y yaml_lib \<Rightarrow> 'y \<Rightarrow> interface_t \<Rightarrow> interface_t outcome" where
  "interface_Load Y options i =
     bind_outcome (at_Value Y (yInt Y) options [''keep-alive-timeout''] 0) (\<lambda>keep.
     bind_outcome (at_Map Y options ''interface'' api_names (api_code api_disable)) (\<lambda>iface.
     bind_outcome (at_Path Y options ''path'' ''apps'') (\<lambda>path.
     bind_outcome (at_Value Y (ySize Y) options [''threads''] (if_Threads i)) (\<lambda>threads.
     bind_outcome (at_Value Y (ySize Y) options [''accept''] (if_Accept i)) (\<lambda>accept.
     bind_outcome (load_ssl Y options (if_Ssl i)) (\<lambda>ssl.
     bind_outcome (yAt Y options ''listen'') (\<lambda>listen.
     bind_outcome (y_is Y (yIsSequence Y) listen) (\<lambda>is_seq.
     bind_outcome (let i = i\<lparr>if_KeepAlive := keep, if_Interface := iface, if_Path := path, if_Threads := threads,
         if_Accept := accept, if_Ssl := ssl\<rparr> in
       if is_seq then load_listen Y (yItems Y listen) i else Inr (i\<lparr>if_Interface := api_code api_disable\<rparr>))
       (load_module Y options)))))))))"

section \<open>Applications\<close>

definition channel_names :: "(string \<times> u32) list" where
  "channel_names = push_names @ [(''protected'', channels_code ch_prot)]"

definition at_ref :: "'y yaml_lib \<Rightarrow> 'y \<Rightarrow> string list \<Rightarrow> 'y outcome" where
  "at_ref Y node path = fold (\<lambda>k n. bind_outcome n (\<lambda>n. yRef Y n k)) path (Inr node)"

definition ref_Value :: "'y yaml_lib \<Rightarrow> ('y \<Rightarrow> 'a outcome) \<Rightarrow> 'y \<Rightarrow> string list \<Rightarrow> 'a \<Rightarrow> 'a outcome" where
  "ref_Value Y as node path def = bind_outcome (at_ref Y node path) (\<lambda>n. yaml_Value Y as n def)"

definition set_add :: "'a \<Rightarrow> 'a list \<Rightarrow> 'a list" where
  "set_add x xs = (if x \<in> set xs then xs else xs @ [x])"

fun load_strings :: "'y yaml_lib \<Rightarrow> (string \<Rightarrow> bool) \<Rightarrow> 'y list \<Rightarrow> string list \<Rightarrow> string list outcome" where
  "load_strings Y ok [] out = Inr out"
| "load_strings Y ok (n # ns) out =
     bind_outcome (yString Y n) (\<lambda>s. load_strings Y ok ns (if ok s then set_add s out else out))"

definition endpoint_ok :: "string \<Rightarrow> bool" where
  "endpoint_ok ep \<longleftrightarrow> starts_with ''http://'' ep \<or> starts_with ''https://'' ep \<or> starts_with ''lua://'' ep"

definition load_origins :: "'y yaml_lib \<Rightarrow> 'y \<Rightarrow> credential_t \<Rightarrow> credential_t outcome" where
  "load_origins Y node cr =
     bind_outcome (at_ref Y node [''origins'']) (\<lambda>origins.
     bind_outcome (y_is Y (yIsSequence Y) origins) (\<lambda>yes.
     bind_outcome (if yes then load_strings Y (\<lambda>_. True) (yItems Y origins) (cr_Origins cr) else Inr (cr_Origins cr)) (\<lambda>os.
       Inr (cr\<lparr>cr_Origins := os\<rparr>))))"

definition load_endpoints :: "'y yaml_lib \<Rightarrow> 'y \<Rightarrow> credential_t \<Rightarrow> credential_t outcome" where
  "load_endpoints Y node cr =
     bind_outcome (at_ref Y node [''hook'', ''endpoint'']) (\<lambda>ep.
     bind_outcome (yIsSequence Y ep) (\<lambda>is_seq.
     bind_outcome (if is_seq then Inr (yItems Y ep)
                   else bind_outcome (yIsScalar Y ep) (\<lambda>scalar. Inr (if scalar then [ep] else []))) (\<lambda>eps.
     bind_outcome (load_strings Y endpoint_ok eps (cr_Endpoints cr)) (\<lambda>eps.
       Inr (cr\<lparr>cr_Endpoints := eps\<rparr>)))))"

definition load_hook :: "'y yaml_lib \<Rightarrow> 'y \<Rightarrow> credential_t \<Rightarrow> credential_t outcome" where
  "load_hook Y node cr =
     bind_outcome (at_ref Y node [''hook'']) (\<lambda>hook.
       if \<not> yIsDefined Y hook then Inr cr
       else
         bind_outcome (ref_Value Y (yBool Y) node [''hook'', ''keep-alive''] (cr_OptionKeepAlive cr)) (\<lambda>_.
         let cr = cr\<lparr>cr_OptionKeepAlive := False\<rparr> in
         bind_outcome (at_ref Y node [''hook'', ''trigger'']) (\<lambda>trigger.
         bind_outcome (yIsSequence Y trigger) (\<lambda>is_seq.
           if \<not> is_seq then Inr cr
           else
             bind_outcome (yaml_Map Y trigger sync_names (hook_code hook_none)) (\<lambda>hooks.
               let cr = cr\<lparr>cr_Hooks := hooks\<rparr> in
               if hooks \<noteq> hook_code hook_none then load_endpoints Y node cr else Inr cr)))))"

text \<open>One entry of an application file; every entry is read into the same credential.\<close>

definition load_entry :: "'y yaml_lib \<Rightarrow> 'y \<times> 'y \<Rightarrow> credential_t \<Rightarrow> credential_t outcome" where
  "load_entry Y entry cr =
     bind_outcome (yaml_Value Y (yString Y) (fst entry) []) (\<lambda>i.
     bind_outcome (ref_Value Y (yBool Y) (snd entry) [''enable''] (cr_Enable cr)) (\<lambda>enable.
     bind_outcome (ref_Value Y (yString Y) (snd entry) [''name''] []) (\<lambda>name.
     bind_outcome (ref_Value Y (yString Y) (snd entry) [''key''] []) (\<lambda>key.
     bind_outcome (ref_Value Y (yString Y) (snd entry) [''secret''] []) (\<lambda>secret.
     bind_outcome (ref_Value Y (yBool Y) (snd entry) [''options'', ''client-messages''] (cr_OptionClientMessages cr)) (\<lambda>cm.
     bind_outcome (ref_Value Y (yBool Y) (snd entry) [''options'', ''statistic''] (cr_OptionStatistic cr)) (\<lambda>st.
     bind_outcome (bind_outcome (at_ref Y (snd entry) [''channels'']) (\<lambda>n. yaml_Map Y n channel_names (channels_code ch_none)))
       (\<lambda>channels.
     bind_outcome (load_origins Y (snd entry) (cr\<lparr>cr_Id := i, cr_Enable := enable, cr_Name := name, cr_Key := key,
         cr_Secret := secret, cr_OptionClientMessages := cm, cr_OptionStatistic := st, cr_Channels := channels\<rparr>)) (\<lambda>cr.
       load_hook Y (snd entry) cr)))))))))"

fun load_entries :: "'y yaml_lib \<Rightarrow> ('y \<times> 'y) list \<Rightarrow> credential_t \<Rightarrow> credential_t outcome" where
  "load_entries Y [] cr = Inr cr"
| "load_entries Y (e # es) cr = bind_outcome (load_entry Y e cr) (load_entries Y es)"

definition credential_Load :: "'y yaml_lib \<Rightarrow> 'y \<Rightarrow> credential_t \<Rightarrow> credential_t outcome" where
  "credential_Load Y credOptions cr =
     bind_outcome (y_is Y (yIsMap Y) credOptions) (\<lambda>is_map.
       if is_map then load_entries Y (yFields Y credOptions) cr else Inr cr)"

text \<open>The masks of the section: \<open>de_files\<close> lists the regular files in the directory of a path,
  \<open>de_load\<close> parses a file. The mask is the last part of the path and is compared with the whole name of
  a file.\<close>

record 'y dir_env =
  de_join :: "string \<Rightarrow> string \<Rightarrow> string"
  de_filename :: "string \<Rightarrow> string"
  de_files :: "string \<Rightarrow> string list outcome"
  de_fnmatch :: "string \<Rightarrow> string \<Rightarrow> bool"
  de_load :: "string \<Rightarrow> 'y outcome"

fun load_files :: "'y yaml_lib \<Rightarrow> 'y dir_env \<Rightarrow> string \<Rightarrow> string list \<Rightarrow> credential_t list \<Rightarrow> credential_t list outcome" where
  "load_files Y D fmask [] apps = Inr apps"
| "load_files Y D fmask (f # fs) apps =
     (if de_fnmatch D fmask f then
        bind_outcome (de_load D f) (\<lambda>credOptions.
        bind_outcome (credential_Load Y credOptions credential_new) (\<lambda>cr. load_files Y D fmask fs (apps @ [cr])))
      else load_files Y D fmask fs apps)"

fun load_masks :: "'y yaml_lib \<Rightarrow> 'y dir_env \<Rightarrow> string \<Rightarrow> 'y list \<Rightarrow> credential_t list \<Rightarrow> credential_t list outcome" where
  "load_masks Y D basedir [] apps = Inr apps"
| "load_masks Y D basedir (r # rs) apps =
     bind_outcome (yString Y r) (\<lambda>path.
       if path = [] then load_masks Y D basedir rs apps
       else
         let path = (if starts_with ''/'' path then path else de_join D basedir path) in
         bind_outcome (de_files D path) (\<lambda>files.
         bind_outcome (load_files Y D (de_filename D path) files apps) (load_masks Y D basedir rs)))"

definition credentials_Load :: "'y yaml_lib \<Rightarrow> 'y dir_env \<Rightarrow> string \<Rightarrow> 'y \<Rightarrow> credential_t list \<Rightarrow> credential_t list outcome" where
  "credentials_Load Y D basedir options apps =
     bind_outcome (y_is Y (yIsSequence Y) options) (\<lambda>is_seq.
       if is_seq then load_masks Y D basedir (yItems Y options) apps else Inr apps)"

section \<open>What a configuration can say\<close>

lemma map_loop_mono:
  "map_loop Y names vs res = Inr res' \<Longrightarrow> res AND res' = res"
proof (induction vs arbitrary: res)
  case Nil
  then show ?case by simp
next
  case (Cons v vs)
  then obtain s where s: "map_loop Y names vs (case map_of names s of Some e \<Rightarrow> cflag_add res e | None \<Rightarrow> res) = Inr res'"
    by (auto simp: bind_outcome_eq_Inr)
  show ?case
  proof (cases "map_of names s")
    case None
    with Cons.IH s show ?thesis by simp
  next
    case (Some e)
    with Cons.IH s have "(res OR e) AND res' = res OR e" by (simp add: cflag_add_def)
    then have "res AND ((res OR e) AND res') = res" by simp
    then show ?thesis by (simp add: and.assoc [symmetric])
  qed
qed

lemma yaml_Map_mono: "yaml_Map Y vals names def = Inr res \<Longrightarrow> def AND res = def"
  by (auto simp: yaml_Map_def bind_outcome_eq_Inr map_loop_mono split: if_splits)

lemma load_proto_push:
  assumes "load_proto Y sec t m p = Inr sp"
  shows "push_default AND sp_PushOn sp = push_default"
  using assms by (auto simp: load_proto_def at_Map_def bind_outcome_eq_Inr yaml_Map_mono)

text \<open>
  The list of channel types on which websocket clients may publish only adds to its default: whatever
  a configuration with a websocket section says, publishing stays enabled on public, protected and
  presence channels.
\<close>

theorem push_default_kept:
  assumes "server_Load Y options sv = Inr sv'" "yAt Y options ''websocket'' = Inr sec" "yIsMap Y sec = Inr True"
    "kind = ch_pub \<or> kind = ch_prot \<or> kind = ch_pres"
  shows "has_flag (sp_PushOn (sv_WebSocket sv')) (channels_code kind)"
proof -
  obtain sv1 sv2 where "load_websocket Y options sv1 = Inr sv2" "load_mqtt Y options sv2 = Inr sv'"
    using assms(1) by (auto simp: server_Load_def bind_outcome_eq_Inr split: if_splits)
  moreover from this(1) assms(2,3) obtain p where "sv2 = sv1\<lparr>sv_WebSocket := p\<rparr>" "push_default AND sp_PushOn p = push_default"
    by (auto simp: load_websocket_def bind_outcome_eq_Inr dest: load_proto_push)
  moreover have "sv_WebSocket sv' = sv_WebSocket sv2"
    using calculation(2) by (auto simp: load_mqtt_def bind_outcome_eq_Inr split: if_splits)
  ultimately have d: "push_default AND sp_PushOn (sv_WebSocket sv') = push_default" by simp
  have sub: "channels_code kind AND push_default = channels_code kind" "channels_code kind \<noteq> 0"
    using assms(4) by (auto simp: push_default_def)
  have "channels_code kind AND sp_PushOn (sv_WebSocket sv') = channels_code kind"
    using sub(1) d by (metis and.assoc)
  with sub(2) show ?thesis by (simp add: cflag_and_def and.commute)
qed

text \<open>A library that the laws below hold of: nodes are trees, access to a member of anything but a map is
  refused, and what is asked of a missing constant node throws.\<close>

datatype ynode = YUndef | YNull | YStr string | YSeq "ynode list" | YMap "(string \<times> ynode) list"

fun ynode_at :: "ynode \<Rightarrow> string \<Rightarrow> ynode outcome" where
  "ynode_at (YMap fs) k = Inr (case map_of fs k of Some n \<Rightarrow> n | None \<Rightarrow> YUndef)"
| "ynode_at YNull k = Inr YUndef"
| "ynode_at YUndef k = Inl (Throw ''invalid node'')"
| "ynode_at _ k = Inl (Throw ''operator[] call on a scalar'')"

definition ynode_is :: "(ynode \<Rightarrow> bool) \<Rightarrow> ynode \<Rightarrow> bool outcome" where
  "ynode_is P n = (if n = YUndef then Inl (Throw ''invalid node'') else Inr (P n))"

definition ynode_lib :: "ynode yaml_lib" where
  "ynode_lib =
     \<lparr>yIsDefined = (\<lambda>n. n \<noteq> YUndef),
      yIsMap = ynode_is (\<lambda>n. case n of YMap _ \<Rightarrow> True | _ \<Rightarrow> False),
      yIsSequence = ynode_is (\<lambda>n. case n of YSeq _ \<Rightarrow> True | _ \<Rightarrow> False),
      yIsScalar = ynode_is (\<lambda>n. case n of YStr _ \<Rightarrow> True | _ \<Rightarrow> False),
      yIsNull = ynode_is (\<lambda>n. n = YNull),
      yAt = ynode_at,
      yRef = (\<lambda>n k. if n = YUndef then Inr YUndef else ynode_at n k),
      yItems = (\<lambda>n. case n of YSeq xs \<Rightarrow> xs | _ \<Rightarrow> []),
      yFields = (\<lambda>n. case n of YMap fs \<Rightarrow> map (\<lambda>(k, v). (YStr k, v)) fs | _ \<Rightarrow> []),
      yString = (\<lambda>n. case n of YStr s \<Rightarrow> Inr s | _ \<Rightarrow> Inl (Throw ''bad conversion'')),
      ySize = (\<lambda>n. Inl (Throw ''bad conversion'')), yInt = (\<lambda>n. Inl (Throw ''bad conversion'')),
      yBool = (\<lambda>n. case n of YStr s \<Rightarrow> Inr (s = ''true'') | _ \<Rightarrow> Inl (Throw ''bad conversion''))\<rparr>"

lemma ynode_lib_sel [simp]:
  "yIsDefined ynode_lib n = (n \<noteq> YUndef)"
  "yIsMap ynode_lib n = ynode_is (\<lambda>n. case n of YMap _ \<Rightarrow> True | _ \<Rightarrow> False) n"
  "yIsSequence ynode_lib n = ynode_is (\<lambda>n. case n of YSeq _ \<Rightarrow> True | _ \<Rightarrow> False) n"
  "yIsScalar ynode_lib n = ynode_is (\<lambda>n. case n of YStr _ \<Rightarrow> True | _ \<Rightarrow> False) n"
  "yIsNull ynode_lib n = ynode_is (\<lambda>n. n = YNull) n"
  "yAt ynode_lib n k = ynode_at n k"
  "yRef ynode_lib n k = (if n = YUndef then Inr YUndef else ynode_at n k)"
  "yItems ynode_lib n = (case n of YSeq xs \<Rightarrow> xs | _ \<Rightarrow> [])"
  "yFields ynode_lib n = (case n of YMap fs \<Rightarrow> map (\<lambda>(k, v). (YStr k, v)) fs | _ \<Rightarrow> [])"
  "yString ynode_lib n = (case n of YStr s \<Rightarrow> Inr s | _ \<Rightarrow> Inl (Throw ''bad conversion''))"
  "yBool ynode_lib n = (case n of YStr s \<Rightarrow> Inr (s = ''true'') | _ \<Rightarrow> Inl (Throw ''bad conversion''))"
  by (simp_all add: ynode_lib_def)

lemmas config_eval = ynode_is_def Let_def trim_with_def dropWhileEnd_def y_is_def yaml_Value_def yaml_Map_def PathValue_def at_Value_def at_Path_def
  at_Map_def dsn_assign_def load_ssl_def load_pusher_def load_websocket_def load_mqtt_def load_proto_def server_Load_def

definition sample_server :: ynode where
  "sample_server = YMap [(''proto'', YSeq [YStr ''websocket'']), (''ssl'', YMap []), (''pusher'', YNull),
     (''websocket'', YMap [(''push'', YSeq [YStr ''private''])]), (''mqtt'', YNull)]"

lemma sample_server_loaded:
  "\<exists>sv'. server_Load ynode_lib sample_server server_new = Inr sv'"
  by (simp add: config_eval sample_server_def)

theorem push_default_kept_witness:
  "\<exists>sv'. server_Load ynode_lib sample_server server_new = Inr sv'
     \<and> has_flag (sp_PushOn (sv_WebSocket sv')) (channels_code ch_pub)"
proof -
  obtain sv' where sv': "server_Load ynode_lib sample_server server_new = Inr sv'" using sample_server_loaded by blast
  have "yAt ynode_lib sample_server ''websocket'' = Inr (YMap [(''push'', YSeq [YStr ''private''])])"
    by (simp add: sample_server_def)
  from push_default_kept [OF sv' this, of ch_pub] sv' show ?thesis by (simp add: ynode_is_def)
qed

text \<open>
  A protocol is enabled only when its section is there: when the loaded flags have the Pusher, the
  websocket or the MQTT protocol, the section of that name is a map.
\<close>

theorem proto_needs_section:
  assumes "server_Load Y options sv = Inr sv'"
  shows "(has_flag (sv_Proto sv') (protocols_code proto_pusher) \<longrightarrow>
      (\<exists>sec. yAt Y options ''pusher'' = Inr sec \<and> yIsMap Y sec = Inr True))
    \<and> (has_flag (sv_Proto sv') (protocols_code proto_websocket) \<longrightarrow>
      (\<exists>sec. yAt Y options ''websocket'' = Inr sec \<and> yIsMap Y sec = Inr True))
    \<and> (has_flag (sv_Proto sv') (protocols_code proto_mqtt3) \<longrightarrow>
      (\<exists>sec. yAt Y options ''mqtt'' = Inr sec \<and> yIsMap Y sec = Inr True))"
proof -
  obtain sv1 sv2 sv3 where l: "load_pusher Y options sv1 = Inr sv2" "load_websocket Y options sv2 = Inr sv3"
    "load_mqtt Y options sv3 = Inr sv'"
    using assms by (auto simp: server_Load_def bind_outcome_eq_Inr split: if_splits)
  note keeps = protocols_flags.sub_keeps protocols_flags.sub_clears
  have p: "has_flag (sv_Proto sv2) (protocols_code proto_pusher) \<Longrightarrow>
      \<exists>sec. yAt Y options ''pusher'' = Inr sec \<and> yIsMap Y sec = Inr True"
    using l(1)
    by (auto simp: load_pusher_def bind_outcome_eq_Inr keeps simp del: protocols_code.simps split: if_splits)
  have w: "has_flag (sv_Proto sv3) (protocols_code proto_websocket) \<Longrightarrow>
      \<exists>sec. yAt Y options ''websocket'' = Inr sec \<and> yIsMap Y sec = Inr True"
    and w': "has_flag (sv_Proto sv3) (protocols_code proto_pusher) \<Longrightarrow> has_flag (sv_Proto sv2) (protocols_code proto_pusher)"
    using l(2)
    by (auto simp: load_websocket_def bind_outcome_eq_Inr keeps simp del: protocols_code.simps split: if_splits)
  have m: "has_flag (sv_Proto sv') (protocols_code proto_mqtt3) \<Longrightarrow>
      \<exists>sec. yAt Y options ''mqtt'' = Inr sec \<and> yIsMap Y sec = Inr True"
    and m': "e \<noteq> proto_mqtt3 \<Longrightarrow> has_flag (sv_Proto sv') (protocols_code e) \<Longrightarrow> has_flag (sv_Proto sv3) (protocols_code e)" for e
    using l(3)
    by (auto simp: load_mqtt_def bind_outcome_eq_Inr keeps simp del: protocols_code.simps split: if_splits)
  from p w w' m m' show ?thesis by blast
qed

theorem proto_needs_section_witness:
  "\<exists>sv'. server_Load ynode_lib sample_server server_new = Inr sv'
     \<and> \<not> has_flag (sv_Proto sv') (protocols_code proto_pusher)"
proof -
  obtain sv' where sv': "server_Load ynode_lib sample_server server_new = Inr sv'" using sample_server_loaded by blast
  have "\<not> (\<exists>sec. yAt ynode_lib sample_server ''pusher'' = Inr sec \<and> yIsMap ynode_lib sec = Inr True)"
    by (simp add: sample_server_def ynode_is_def)
  with proto_needs_section [OF sv'] sv' show ?thesis by blast
qed

text \<open>
  The section \<^verbatim>\<open>ssl\<close> cannot be left out: when access to a member of a missing constant node throws, as
  the YAML library documents, a server section without it does not load.
\<close>

theorem ssl_section_required:
  assumes "\<And>n k. \<not> yIsDefined Y n \<Longrightarrow> \<exists>e. yAt Y n k = Inl e"
    "yAt Y options ''ssl'' = Inr sec" "\<not> yIsDefined Y sec"
  shows "\<exists>e. server_Load Y options sv = Inl e"
proof (rule ccontr)
  assume "\<not> ?thesis"
  then obtain sv' where "server_Load Y options sv = Inr sv'" by (cases "server_Load Y options sv") auto
  moreover have "\<nexists>ssl'. load_ssl Y options ssl = Inr ssl'" for ssl
    using assms(1) [OF assms(3), of "''cert''"] assms(2) by (auto simp: load_ssl_def at_Value_def)
  ultimately show False by (auto simp: server_Load_def bind_outcome_eq_Inr split: if_splits)
qed

theorem ssl_section_required_witness:
  "\<exists>e. server_Load ynode_lib (YMap [(''listen'', YStr ''tcp://*:6001'')]) server_new = Inl e"
  by (rule ssl_section_required [where sec = YUndef]) (simp_all)

section \<open>Application files\<close>

lemma load_strings_mono: "load_strings Y ok ns out = Inr out' \<Longrightarrow> set out \<subseteq> set out'"
  by (induction ns arbitrary: out) (fastforce simp: bind_outcome_eq_Inr set_add_def split: if_splits)+

lemma load_origins_keeps:
  "load_origins Y node cr = Inr cr' \<Longrightarrow> set (cr_Origins cr) \<subseteq> set (cr_Origins cr') \<and> cr_Id cr' = cr_Id cr"
  using load_strings_mono by (fastforce simp: load_origins_def bind_outcome_eq_Inr split: if_splits)

lemma load_endpoints_keeps: "load_endpoints Y node cr = Inr cr' \<Longrightarrow> cr_Origins cr' = cr_Origins cr \<and> cr_Id cr' = cr_Id cr"
  by (auto simp: load_endpoints_def bind_outcome_eq_Inr)

lemma load_hook_keeps: "load_hook Y node cr = Inr cr' \<Longrightarrow> cr_Origins cr' = cr_Origins cr \<and> cr_Id cr' = cr_Id cr"
  by (auto simp: load_hook_def bind_outcome_eq_Inr Let_def dest: load_endpoints_keeps split: if_splits)

lemma load_entry_keeps:
  assumes "load_entry Y e cr = Inr cr'"
  shows "set (cr_Origins cr) \<subseteq> set (cr_Origins cr') \<and> yaml_Value Y (yString Y) (fst e) [] = Inr (cr_Id cr')"
proof -
  obtain i cr0 cr1 where cr: "yaml_Value Y (yString Y) (fst e) [] = Inr i"
    "load_origins Y (snd e) cr0 = Inr cr1" "load_hook Y (snd e) cr1 = Inr cr'"
    "cr_Origins cr0 = cr_Origins cr" "cr_Id cr0 = i"
    using assms unfolding load_entry_def bind_outcome_eq_Inr
    by (elim exE conjE) (rule that, assumption, assumption, assumption, simp_all)
  with load_origins_keeps [OF cr(2)] load_hook_keeps [OF cr(3)] show ?thesis by simp
qed

lemma load_entries_append:
  "load_entries Y (es @ fs) cr = bind_outcome (load_entries Y es cr) (load_entries Y fs)"
  by (induction es arbitrary: cr) (simp_all add: bind_outcome_def split: sum.split)

text \<open>
  The applications of one file are merged into one: the file gives a single credential with the name
  of its last entry, and the origins that the entries before it allow stay allowed.
\<close>

theorem credential_file_merged:
  assumes "credential_Load Y n cr = Inr cr'" "y_is Y (yIsMap Y) n = Inr True" "yFields Y n = es @ [e]"
  shows "\<exists>cr1. load_entries Y es cr = Inr cr1 \<and> set (cr_Origins cr1) \<subseteq> set (cr_Origins cr')
    \<and> yaml_Value Y (yString Y) (fst e) [] = Inr (cr_Id cr')"
proof -
  obtain cr1 where "load_entries Y es cr = Inr cr1" "load_entry Y e cr1 = Inr cr'"
    using assms by (auto simp: credential_Load_def load_entries_append bind_outcome_eq_Inr)
  with load_entry_keeps show ?thesis by blast
qed

definition sample_apps :: ynode where
  "sample_apps = YMap [(''one'', YMap [(''origins'', YSeq [YStr ''a.example''])]), (''two'', YMap [(''key'', YStr ''k2'')])]"

lemma sample_apps_loaded:
  "\<exists>cr'. credential_Load ynode_lib sample_apps credential_new = Inr cr'"
  by (simp add: credential_Load_def y_is_def ynode_is_def sample_apps_def load_entry_def yaml_Value_def
      ref_Value_def at_ref_def yaml_Map_def load_origins_def load_hook_def)

theorem credential_file_merged_witness:
  "\<exists>cr'. credential_Load ynode_lib sample_apps credential_new = Inr cr' \<and> cr_Id cr' = ''two''
     \<and> ''a.example'' \<in> set (cr_Origins cr')"
proof -
  obtain cr' where cr': "credential_Load ynode_lib sample_apps credential_new = Inr cr'" using sample_apps_loaded by blast
  let ?es = "[(YStr ''one'', YMap [(''origins'', YSeq [YStr ''a.example''])])]"
  have f: "y_is ynode_lib (yIsMap ynode_lib) sample_apps = Inr True"
    "yFields ynode_lib sample_apps = ?es @ [(YStr ''two'', YMap [(''key'', YStr ''k2'')])]"
    by (simp_all add: y_is_def ynode_is_def sample_apps_def)
  obtain cr1 where cr1: "load_entries ynode_lib ?es credential_new = Inr cr1" "set (cr_Origins cr1) \<subseteq> set (cr_Origins cr')"
    "yaml_Value ynode_lib (yString ynode_lib) (YStr ''two'') [] = Inr (cr_Id cr')"
    using credential_file_merged [OF cr' f] by auto
  from cr1(1) have "cr_Origins cr1 = [''a.example'']"
    by (auto simp: y_is_def ynode_is_def load_entry_def yaml_Value_def credential_new_def set_add_def
        ref_Value_def at_ref_def yaml_Map_def load_origins_def load_hook_def)
  with cr' cr1(2,3) show ?thesis by (auto simp: yaml_Value_def y_is_def ynode_is_def)
qed

text \<open>
  A mask without a wildcard finds nothing: it is the bare name of a file and is compared with the
  path of every file of the directory. \<open>de_fnmatch\<close> is a parameter, of which only what \<^verbatim>\<open>fnmatch\<close> does with a pattern
  that has no special character is used.
\<close>

theorem literal_mask_finds_nothing:
  assumes "\<And>m f. set m \<inter> {CHR ''*'', CHR ''?'', CHR ''['', CHR 0x5C} = {} \<Longrightarrow> de_fnmatch D m f = (map tolower m = map tolower f)"
    "set fmask \<inter> {CHR ''*'', CHR ''?'', CHR ''['', CHR 0x5C} = {}" "CHR ''/'' \<notin> set fmask"
    "\<forall>f \<in> set files. \<exists>dir name. f = dir @ ''/'' @ name"
  shows "load_files Y D fmask files apps = Inr apps"
  using assms(4)
proof (induction files)
  case Nil
  then show ?case by simp
next
  case (Cons f files)
  then obtain dir name where f: "f = dir @ ''/'' @ name" by auto
  have slash: "c = CHR ''/''" if "tolower c = CHR ''/''" for c
  proof (cases "65 \<le> (of_char c :: nat) \<and> (of_char c :: nat) \<le> 90")
    case True
    then have "(of_char (tolower c) :: nat) = of_char c + 32" by (simp add: tolower_def of_char_of)
    with that True show ?thesis by simp
  next
    case False
    with that show ?thesis by (auto simp: tolower_def)
  qed
  have "CHR ''/'' \<notin> set (map tolower fmask)"
  proof
    assume "CHR ''/'' \<in> set (map tolower fmask)"
    then obtain c where "c \<in> set fmask" "tolower c = CHR ''/''" by (metis imageE list.set_map)
    with slash assms(3) show False by blast
  qed
  moreover have "CHR ''/'' \<in> set (map tolower f)" by (auto simp: f tolower_def)
  ultimately have "\<not> de_fnmatch D fmask f" using assms(1) [OF assms(2), of f] by metis
  with Cons show ?case by simp
qed

theorem literal_mask_finds_nothing_witness:
  "load_files ynode_lib \<lparr>de_join = (@), de_filename = id, de_files = (\<lambda>_. Inr []),
       de_fnmatch = (\<lambda>m f. map tolower m = map tolower f), de_load = (\<lambda>_. Inr YNull)\<rparr>
     ''app.yml'' [''/etc/push1st/app.yml''] [] = Inr []"
proof (rule literal_mask_finds_nothing)
  have "''/etc/push1st/app.yml'' = ''/etc/push1st'' @ ''/'' @ ''app.yml''" by simp
  then show "\<forall>f \<in> set [''/etc/push1st/app.yml'']. \<exists>dir name. f = dir @ ''/'' @ name"
    unfolding list.set ball_simps by blast
qed simp_all

end
