(* ===== verification/Lua.thy ===== *)
theory Lua
  imports HttpText Containers
begin

text \<open>
  The script engine (\<^verbatim>\<open>source/core/lua/clua.cpp\<close>, \<^verbatim>\<open>include/core/lua/clua.h\<close>): how C++ values are pushed on the stack of Lua, how a
  function of a script is called and its results are taken, how arguments are read, modules and package paths. The
  stack is a list with the top first. Lua itself is a parameter: running a file, calling a function, and its conversions between
  numbers and strings. An error that Lua raises outside a protected call ends the process.
\<close>

section \<open>Values\<close>

datatype 'f lval = LNil | LBool bool | LInt int | LFlt 'f | LStr string | LTab "('f lval \<times> 'f lval) list" | LFn nat | LLight nat | LUser "nat option"

text \<open>\<open>LUser\<close> is the user data of an object, which holds a pointer to it; \<open>AObj\<close> is \<^verbatim>\<open>class_t::self_t\<close>, which owns the object it points
  to and gives it away when it is copied.\<close>

text \<open>\<^verbatim>\<open>std::any\<close> by the type it holds: the integer types, \<^verbatim>\<open>float\<close> and \<^verbatim>\<open>double\<close>, the kinds of strings and containers of \<^verbatim>\<open>PushTypecast\<close>, and
  the three types the engine itself produces that the table does not have: \<^verbatim>\<open>unordered_map<string, string>\<close>, \<^verbatim>\<open>vector<string>\<close> and
  \<^verbatim>\<open>vector<uint8_t>\<close>.\<close>

datatype 'f any = AEmpty | ANull | AInt int | AFlt 'f | ABool bool | ACStr string | AStr string | AView string
  | AViews "string list" | ADeque "'f any list" | AVec "'f any list" | ASet "'f any list"
  | AMap "(string \<times> 'f any) list" | AViewMap "(string \<times> 'f any) list" | AObj "nat option"
  | ATable "(string, string) umap" | AStrings "string list" | ARaw bytes

type_synonym 'f stack = "'f lval list"

definition lua_integer :: "int \<Rightarrow> int" where
  "lua_integer i = sint (of_int i :: 64 word)"

definition tab_set :: "'f lval \<Rightarrow> 'f lval \<Rightarrow> ('f lval \<times> 'f lval) list \<Rightarrow> ('f lval \<times> 'f lval) list" where
  "tab_set k v t = (if v = LNil then um_erase k t else um_assign k v t)"

text \<open>\<^verbatim>\<open>lua_settable(L, -3)\<close>: the value and the key are popped and the table below them is set.\<close>

fun settable3 :: "'f stack \<Rightarrow> 'f stack outcome" where
  "settable3 (v # k # LTab t # st) = (if k = LNil then Inl (UB ''lua panic'') else Inr (LTab (tab_set k v t) # st))"
| "settable3 _ = Inl (UB ''lua panic'')"

section \<open>Pushing\<close>

fun push_views :: "nat \<Rightarrow> string list \<Rightarrow> 'f stack \<Rightarrow> 'f stack outcome" where
  "push_views n [] st = Inr st"
| "push_views n (s # ss) st = bind_outcome (settable3 (LStr s # LInt (int n) # st)) (push_views (Suc n) ss)"

text \<open>The functions for containers copy the container once to see whether it is empty. The copy takes the objects in it, and they
  are deleted with it; what is pushed for them afterwards is a null pointer.\<close>

fun null_object :: "'f lval \<Rightarrow> 'f lval" where
  "null_object (LUser p) = LUser None"
| "null_object v = v"

fun null_top :: "'f stack \<Rightarrow> 'f stack" where
  "null_top (v # st) = null_object v # st"
| "null_top [] = []"

text \<open>\<^verbatim>\<open>push_value\<close> with the functions of its table. A type that is not in the table is only logged: nothing is pushed.\<close>

fun push_value :: "'f any \<Rightarrow> 'f stack \<Rightarrow> 'f stack outcome"
  and push_seq :: "nat \<Rightarrow> 'f any list \<Rightarrow> 'f stack \<Rightarrow> 'f stack outcome"
  and push_map :: "(string \<times> 'f any) list \<Rightarrow> 'f stack \<Rightarrow> 'f stack outcome" where
  "push_value AEmpty st = Inr (LNil # st)"
| "push_value ANull st = Inr (LNil # st)"
| "push_value (AInt i) st = Inr (LInt (lua_integer i) # st)"
| "push_value (AFlt f) st = Inr (LFlt f # st)"
| "push_value (ABool b) st = Inr (LBool b # st)"
| "push_value (ACStr s) st = Inr (LStr (c_str s) # st)"
| "push_value (AStr s) st = Inr (LStr s # st)"
| "push_value (AView s) st = Inr (LStr s # st)"
| "push_value (AViews ss) st = push_views 1 ss (LTab [] # st)"
| "push_value (ADeque vs) st = push_seq 1 vs (LTab [] # st)"
| "push_value (AVec vs) st = push_seq 1 vs (LTab [] # st)"
| "push_value (ASet vs) st = push_seq 1 vs (LTab [] # st)"
| "push_value (AMap kvs) st = push_map kvs (LTab [] # st)"
| "push_value (AViewMap kvs) st = push_map kvs (LTab [] # st)"
| "push_value (AObj n) st = Inr (LUser n # st)"
| "push_value (ATable m) st = Inr st"
| "push_value (AStrings ss) st = Inr st"
| "push_value (ARaw bs) st = Inr st"
| "push_seq n [] st = Inr st"
| "push_seq n (v # vs) st =
     bind_outcome (push_value v (LInt (int n) # st)) (\<lambda>st. bind_outcome (settable3 (null_top st)) (push_seq (Suc n) vs))"
| "push_map [] st = Inr st"
| "push_map ((k, v) # kvs) st =
     bind_outcome (push_value v (LStr k # st)) (\<lambda>st. bind_outcome (settable3 (null_top st)) (push_map kvs))"

section \<open>Conversions of Lua\<close>

text \<open>What Lua does with numbers: the text of a float, the integer it is converted to (0 when it has none), and the same for
  a string that reads as a number. \<^verbatim>\<open>lua_tostring\<close> gives a null pointer for anything but strings and numbers; a C++ string is
  made of what is before the first NUL.\<close>

record 'f lua_lib =
  ll_text :: "'f \<Rightarrow> string"
  ll_int :: "'f \<Rightarrow> int"
  ll_float :: "'f \<Rightarrow> 'f"
  ll_number :: "string \<Rightarrow> int option"
  ll_dofile :: "string \<Rightarrow> (string \<Rightarrow> 'f lval) \<Rightarrow> (string + 'f lval list) \<times> (string \<Rightarrow> 'f lval)"
  ll_pcall :: "nat \<Rightarrow> (string \<Rightarrow> 'f lval) \<Rightarrow> 'f lval list \<Rightarrow> string + 'f lval list"

fun lua_tostring :: "'f lua_lib \<Rightarrow> 'f lval \<Rightarrow> string option" where
  "lua_tostring L (LStr s) = Some s"
| "lua_tostring L (LInt i) = Some (int_to_string i)"
| "lua_tostring L (LFlt f) = Some (ll_text L f)"
| "lua_tostring L _ = None"

definition std_string :: "'f lua_lib \<Rightarrow> 'f lval \<Rightarrow> string outcome" where
  "std_string L v =
     (case lua_tostring L v of Some s \<Rightarrow> Inr (c_str s) | None \<Rightarrow> Inl (Throw ''basic_string: construction from null''))"

text \<open>The text of a key: of an integer for everything that reads as a number, else the string; \<open>None\<close> for other keys.\<close>

fun key_text :: "'f lua_lib \<Rightarrow> 'f lval \<Rightarrow> string option" where
  "key_text L (LInt i) = Some (int_to_string i)"
| "key_text L (LFlt f) = Some (int_to_string (ll_int L f))"
| "key_text L (LStr s) = Some (case ll_number L s of Some i \<Rightarrow> int_to_string i | None \<Rightarrow> c_str s)"
| "key_text L _ = None"

text \<open>A table as \<^verbatim>\<open>unordered_map<string, string>\<close>.\<close>

fun table_loop :: "'f lua_lib \<Rightarrow> ('f lval \<times> 'f lval) list \<Rightarrow> (string, string) umap \<Rightarrow> (string, string) umap outcome" where
  "table_loop L [] m = Inr m"
| "table_loop L ((k, v) # t) m =
     (case key_text L k of
        None \<Rightarrow> table_loop L t m
      | Some key \<Rightarrow> bind_outcome (std_string L v) (\<lambda>s. table_loop L t (um_emplace key s m)))"

section \<open>Calling a function of a script\<close>

text \<open>One result. Functions and user data are passed over.\<close>

fun lua_result :: "'f lua_lib \<Rightarrow> 'f lval \<Rightarrow> 'f any list outcome" where
  "lua_result L (LInt i) = Inr [AInt i]"
| "lua_result L (LBool b) = Inr [ABool b]"
| "lua_result L LNil = Inr [ANull]"
| "lua_result L (LStr s) = Inr [AStr s]"
| "lua_result L (LFlt f) = Inr [AStr (ll_text L f)]"
| "lua_result L (LTab t) = bind_outcome (table_loop L t []) (\<lambda>m. Inr [ATable m])"
| "lua_result L _ = Inr []"

text \<open>The results in order, up to the first that makes the conversion throw; the exception is caught.\<close>

fun lua_results :: "'f lua_lib \<Rightarrow> 'f lval list \<Rightarrow> 'f any list" where
  "lua_results L [] = []"
| "lua_results L (v # vs) = (case lua_result L v of Inr r \<Rightarrow> r @ lua_results L vs | Inl e \<Rightarrow> [])"

fun push_all :: "'f any list \<Rightarrow> 'f stack \<Rightarrow> 'f stack outcome" where
  "push_all [] st = Inr st"
| "push_all (v # vs) st = bind_outcome (push_value v st) (push_all vs)"

text \<open>\<^verbatim>\<open>lua_pcall\<close> with \<open>n\<close> arguments: the callee lies below them. With too few values on the stack nothing is defined.\<close>

definition lua_pcall :: "'f lua_lib \<Rightarrow> (string \<Rightarrow> 'f lval) \<Rightarrow> nat \<Rightarrow> 'f stack \<Rightarrow> (string + 'f stack) outcome" where
  "lua_pcall L G n st =
     (if length st \<le> n then Inl (UB ''lua stack underflow'')
      else
        (case st ! n of
           LFn f \<Rightarrow>
             (case ll_pcall L f G (rev (take n st)) of
                Inl e \<Rightarrow> Inr (Inl e)
              | Inr rets \<Rightarrow> Inr (Inr (rev rets @ drop (Suc n) st)))
         | _ \<Rightarrow> Inr (Inl ''attempt to call'')))"

text \<open>The part of \<^verbatim>\<open>luaExecute\<close> for the function, on the stack and the globals the script left. When fewer values are left than
  before, the negative count makes \<^verbatim>\<open>reserve\<close> throw.\<close>

definition call_function :: "'f lua_lib \<Rightarrow> (string \<Rightarrow> 'f lval) \<Rightarrow> string \<Rightarrow> 'f any list \<Rightarrow> 'f stack \<Rightarrow> 'f any list outcome" where
  "call_function L G luaFunction luaArgs st =
     (case G (c_str luaFunction) of
        LFn f \<Rightarrow>
          bind_outcome (push_all luaArgs (LFn f # st)) (\<lambda>st1.
          bind_outcome (lua_pcall L G (length luaArgs) st1) (\<lambda>r.
            case r of
              Inl e \<Rightarrow> Inr []
            | Inr st2 \<Rightarrow>
                if length st2 < length st then Inr []
                else Inr (lua_results L (rev (take (length st2 - length st) st2)))))
      | _ \<Rightarrow> Inr [])"

definition luaExecute ::
  "'f lua_lib \<Rightarrow> (string \<Rightarrow> 'f lval) \<Rightarrow> string \<Rightarrow> string \<Rightarrow> 'f any list \<Rightarrow> 'f any list outcome" where
  "luaExecute L G luaScript luaFunction luaArgs =
     (case (if luaScript = [] then (Inr [], G) else ll_dofile L luaScript G) of
        (Inl e, _) \<Rightarrow> Inr []
      | (Inr rets, G') \<Rightarrow> if luaFunction = [] then Inr [] else call_function L G' luaFunction luaArgs (rev rets))"

section \<open>Reading arguments\<close>

text \<open>\<^verbatim>\<open>argslist\<close>: \<open>args\<close> is the argument at the place asked for, if there is one.\<close>

definition args_string :: "'f lval option \<Rightarrow> 'f any" where
  "args_string arg = (case arg of Some (LStr s) \<Rightarrow> AStr (c_str s) | _ \<Rightarrow> AStr [])"

definition args_array :: "'f lval option \<Rightarrow> 'f any" where
  "args_array arg = (case arg of Some (LStr s) \<Rightarrow> ARaw (map byte_of s) | _ \<Rightarrow> ARaw [])"

definition args_boolean :: "'f lval option \<Rightarrow> 'f any" where
  "args_boolean arg = (case arg of Some (LBool b) \<Rightarrow> ABool b | _ \<Rightarrow> ABool False)"

definition args_number :: "'f lua_lib \<Rightarrow> 'f lval option \<Rightarrow> 'f any" where
  "args_number L arg = (case arg of Some (LInt i) \<Rightarrow> AInt i | Some (LFlt f) \<Rightarrow> AInt (ll_int L f) | _ \<Rightarrow> AInt 0)"

definition args_table :: "'f lua_lib \<Rightarrow> 'f lval option \<Rightarrow> 'f any outcome" where
  "args_table L arg = (case arg of Some (LTab t) \<Rightarrow> bind_outcome (table_loop L t []) (\<lambda>m. Inr (ATable m)) | _ \<Rightarrow> Inr (ATable []))"

fun vector_loop :: "'f lua_lib \<Rightarrow> ('f lval \<times> 'f lval) list \<Rightarrow> string list outcome" where
  "vector_loop L [] = Inr []"
| "vector_loop L ((k, v) # t) = bind_outcome (std_string L v) (\<lambda>s. bind_outcome (vector_loop L t) (\<lambda>ss. Inr (s # ss)))"

definition args_vector :: "'f lua_lib \<Rightarrow> 'f lval option \<Rightarrow> 'f any outcome" where
  "args_vector L arg = (case arg of Some (LTab t) \<Rightarrow> bind_outcome (vector_loop L t) (\<lambda>ss. Inr (AStrings ss)) | _ \<Rightarrow> Inr (AStrings []))"

text \<open>\<^verbatim>\<open>map\<close> and \<^verbatim>\<open>pop_table_any\<close>, which is its loop again for a table inside: a key that is neither a number nor a string leaves
  the key of the entry before.\<close>

fun map_value :: "'f lua_lib \<Rightarrow> 'f lval \<Rightarrow> 'f any"
  and map_fields :: "'f lua_lib \<Rightarrow> ('f lval \<times> 'f lval) list \<Rightarrow> string \<Rightarrow> (string \<times> 'f any) list \<Rightarrow> (string \<times> 'f any) list" where
  "map_value L (LStr s) = AStr (c_str s)"
| "map_value L (LInt i) = AInt i"
| "map_value L (LFlt f) = AFlt (ll_float L f)"
| "map_value L (LBool b) = ABool b"
| "map_value L (LTab t) = AMap (map_fields L t [] [])"
| "map_value L _ = ANull"
| "map_fields L [] key m = m"
| "map_fields L ((k, v) # t) key m =
     (let key' = (case key_text L k of Some s \<Rightarrow> s | None \<Rightarrow> key) in map_fields L t key' (um_emplace key' (map_value L v) m))"

definition args_map :: "'f lua_lib \<Rightarrow> 'f lval option \<Rightarrow> 'f any" where
  "args_map L arg = (case arg of Some (LTab t) \<Rightarrow> AMap (map_fields L t [] []) | _ \<Rightarrow> AMap [])"

section \<open>Modules and packages\<close>

definition module_table :: "nat \<Rightarrow> (string \<times> nat) list \<Rightarrow> 'f lval" where
  "module_table self methods =
     LTab (fold (\<lambda>(mn, mfn). tab_set (LStr (c_str mn)) (LFn mfn)) methods (tab_set (LStr ''__self'') (LLight self) []))"

definition luaRegisterModule ::
  "(string \<times> nat) list \<Rightarrow> nat \<Rightarrow> string \<Rightarrow> string \<Rightarrow> (string \<Rightarrow> 'f lval) \<Rightarrow> (string \<Rightarrow> 'f lval)" where
  "luaRegisterModule methods self modName modNamespace G =
     (if modNamespace \<noteq> [] then
        let G = (if G modNamespace = LNil then G(modNamespace := LTab []) else G) in
        (case G modNamespace of
           LTab t \<Rightarrow> G(modNamespace := LTab (tab_set (LStr (c_str modName)) (module_table self methods) t))
         | _ \<Rightarrow> G)
      else G(modName := module_table self methods))"

definition getModule :: "string \<Rightarrow> string \<Rightarrow> (string \<Rightarrow> 'f lval) \<Rightarrow> nat option" where
  "getModule modName modNamespace G =
     (case G modNamespace of
        LTab t \<Rightarrow>
          (case um_find t (LStr (c_str modName)) of
             Some (LTab m) \<Rightarrow> (case um_find m (LStr ''__self'') of Some (LLight self) \<Rightarrow> Some self | _ \<Rightarrow> None)
           | _ \<Rightarrow> None)
      | _ \<Rightarrow> None)"

text \<open>\<^verbatim>\<open>clua::call\<close>: the results of the method are pushed and counted.\<close>

definition module_call :: "string \<Rightarrow> string \<Rightarrow> (string \<Rightarrow> 'f lval) \<Rightarrow> (nat \<Rightarrow> 'f any list) \<Rightarrow> 'f stack \<Rightarrow> (nat \<times> 'f stack) outcome" where
  "module_call modName modNamespace G fn st =
     (case getModule modName modNamespace G of
        Some self \<Rightarrow> bind_outcome (push_all (fn self) st) (\<lambda>st'. Inr (length (fn self), st'))
      | None \<Rightarrow> Inl (Throw (modNamespace @ ''::'' @ modName @ '' lua module not exists'')))"

record engine =
  packagePaths :: "string list"
  packageBasePath :: string

definition paths_add :: "string \<Rightarrow> engine \<Rightarrow> engine" where
  "paths_add p e = (if p \<in> set (packagePaths e) then e else e\<lparr>packagePaths := packagePaths e @ [p]\<rparr>)"

definition luaAddPackagePath :: "string \<Rightarrow> engine \<Rightarrow> engine" where
  "luaAddPackagePath path e =
     (if path = [] then e else paths_add (path @ (if last path = CHR ''/'' then ''?.lua'' else ''/?.lua'')) e)"

definition luaAddBasePackagePath :: "string \<Rightarrow> engine \<Rightarrow> engine" where
  "luaAddBasePackagePath path e =
     (if path = [] then e else e\<lparr>packageBasePath := (if last path = CHR ''/'' then path else path @ ''/'')\<rparr>)"

text \<open>With a state, its \<^verbatim>\<open>package.path\<close> \<open>cur\<close> is extended too.\<close>

definition luaAddRelativePackagePath :: "string option \<Rightarrow> string \<Rightarrow> engine \<Rightarrow> engine \<times> string option" where
  "luaAddRelativePackagePath cur path e =
     (if path = [] then (e, cur)
      else
        let pPath = (if hd path \<noteq> CHR ''/'' then packageBasePath e @ path else path) in
        (paths_add pPath e, map_option (\<lambda>c. c @ '';'' @ pPath) cur))"

definition luaPackagePath :: "engine \<Rightarrow> string \<Rightarrow> string" where
  "luaPackagePath e pathPackages = fold (\<lambda>path p. p @ '';'' @ path) (packagePaths e) pathPackages"

section \<open>Objects\<close>

text \<open>\<^verbatim>\<open>clua::class_t\<close>: the objects that exist, with the methods \<^verbatim>\<open>__method\<close> gave them.\<close>

type_synonym objects = "(nat, (string, nat) umap) umap"

definition class_method :: "string \<Rightarrow> nat \<Rightarrow> (string, nat) umap \<Rightarrow> (string, nat) umap" where
  "class_method method fn methods = um_emplace method fn methods"

text \<open>\<^verbatim>\<open>clua::cls\<close>: a new object, owned by what is returned.\<close>

definition class_new :: "nat \<Rightarrow> (string, nat) umap \<Rightarrow> objects \<Rightarrow> 'f any \<times> objects" where
  "class_new n methods objs = (AObj (Some n), um_emplace n methods objs)"

text \<open>\<^verbatim>\<open>delete\<close>: twice is undefined.\<close>

definition delete_object :: "nat \<Rightarrow> objects \<Rightarrow> objects outcome" where
  "delete_object n objs = (if um_find objs n = None then Inl (UB ''double free'') else Inr (um_erase n objs))"

text \<open>The copy constructor of \<^verbatim>\<open>self_t\<close>, and its destructor.\<close>

definition self_copy :: "nat option \<Rightarrow> nat option \<times> nat option" where
  "self_copy p = (p, None)"

definition self_destroy :: "nat option \<Rightarrow> objects \<Rightarrow> objects outcome" where
  "self_destroy p objs = (case p of None \<Rightarrow> Inr objs | Some n \<Rightarrow> delete_object n objs)"

text \<open>\<^verbatim>\<open>__index\<close>, \<^verbatim>\<open>__tostring\<close> and \<^verbatim>\<open>__gc\<close> of the metatable: the values that are returned. The name of the method must be a string or a
  number.\<close>

definition class_index :: "'f lua_lib \<Rightarrow> objects \<Rightarrow> 'f lval \<Rightarrow> 'f lval \<Rightarrow> 'f lval list outcome" where
  "class_index L objs u k =
     (case u of
        LUser (Some n) \<Rightarrow>
          (case um_find objs n of
             None \<Rightarrow> Inl (UB ''object was deleted'')
           | Some methods \<Rightarrow>
               (case lua_tostring L k of
                  None \<Rightarrow> Inl (UB ''string view of null'')
                | Some name \<Rightarrow> Inr (case um_find methods (c_str name) of Some fn \<Rightarrow> [LFn fn] | None \<Rightarrow> [])))
      | _ \<Rightarrow> Inl (UB ''null object''))"

definition class_tostring :: "'f lval list" where
  "class_tostring = [LStr ''class_t'']"

definition class_gc :: "objects \<Rightarrow> 'f lval \<Rightarrow> objects outcome" where
  "class_gc objs u = (case u of LUser p \<Rightarrow> self_destroy p objs | _ \<Rightarrow> Inl (UB ''null user data''))"

text \<open>\<^verbatim>\<open>class_t::self\<close>, from which a method gets its object: the first argument must be user data.\<close>

definition class_self :: "'f lval \<Rightarrow> nat option outcome" where
  "class_self u = (case u of LUser p \<Rightarrow> Inr p | LLight n \<Rightarrow> Inr (Some n) | _ \<Rightarrow> Inl (Throw ''invalid type''))"

text \<open>\<^verbatim>\<open>cluamethod\<close>: the method is called on the object and its results are pushed and counted.\<close>

definition class_call :: "'f lval \<Rightarrow> (nat option \<Rightarrow> 'f any list) \<Rightarrow> 'f stack \<Rightarrow> (nat \<times> 'f stack) outcome" where
  "class_call u fn st =
     bind_outcome (class_self u) (\<lambda>self. bind_outcome (push_all (fn self) st) (\<lambda>st'. Inr (length (fn self), st')))"

text \<open>The objects a value owns, and those that are deleted while it is pushed.\<close>

fun owned :: "'f any \<Rightarrow> nat list" where
  "owned (AObj (Some n)) = [n]"
| "owned (ADeque vs) = concat (map owned vs)"
| "owned (AVec vs) = concat (map owned vs)"
| "owned (ASet vs) = concat (map owned vs)"
| "owned (AMap kvs) = concat (map (\<lambda>(k, v). owned v) kvs)"
| "owned (AViewMap kvs) = concat (map (\<lambda>(k, v). owned v) kvs)"
| "owned _ = []"

fun delete_all :: "nat list \<Rightarrow> objects \<Rightarrow> objects outcome" where
  "delete_all [] objs = Inr objs"
| "delete_all (n # ns) objs = bind_outcome (delete_object n objs) (delete_all ns)"

definition push_deletes :: "'f any \<Rightarrow> objects \<Rightarrow> objects outcome" where
  "push_deletes v objs = delete_all (case v of AObj p \<Rightarrow> [] | _ \<Rightarrow> owned v) objs"

section \<open>What a script receives\<close>

text \<open>The Lua value of a C++ value, without the stack.\<close>

definition views_tab :: "string list \<Rightarrow> ('f lval \<times> 'f lval) list" where
  "views_tab ss = map (\<lambda>(i, s). (LInt (int i), LStr s)) (enumerate 1 ss)"

fun lua_of :: "'f any \<Rightarrow> 'f lval"
  and seq_tab :: "nat \<Rightarrow> 'f any list \<Rightarrow> ('f lval \<times> 'f lval) list \<Rightarrow> ('f lval \<times> 'f lval) list"
  and map_tab :: "(string \<times> 'f any) list \<Rightarrow> ('f lval \<times> 'f lval) list \<Rightarrow> ('f lval \<times> 'f lval) list" where
  "lua_of (AInt i) = LInt (lua_integer i)"
| "lua_of (AFlt f) = LFlt f"
| "lua_of (ABool b) = LBool b"
| "lua_of (ACStr s) = LStr (c_str s)"
| "lua_of (AStr s) = LStr s"
| "lua_of (AView s) = LStr s"
| "lua_of (AViews ss) = LTab (views_tab ss)"
| "lua_of (ADeque vs) = LTab (seq_tab 1 vs [])"
| "lua_of (AVec vs) = LTab (seq_tab 1 vs [])"
| "lua_of (ASet vs) = LTab (seq_tab 1 vs [])"
| "lua_of (AMap kvs) = LTab (map_tab kvs [])"
| "lua_of (AViewMap kvs) = LTab (map_tab kvs [])"
| "lua_of (AObj n) = LUser n"
| "lua_of _ = LNil"
| "seq_tab n [] t = t"
| "seq_tab n (v # vs) t = seq_tab (Suc n) vs (tab_set (LInt (int n)) (null_object (lua_of v)) t)"
| "map_tab [] t = t"
| "map_tab ((k, v) # kvs) t = map_tab kvs (tab_set (LStr k) (null_object (lua_of v)) t)"

text \<open>The types of the table, all the way down.\<close>

fun pushable :: "'f any \<Rightarrow> bool" where
  "pushable (ADeque vs) = (\<forall>v \<in> set vs. pushable v)"
| "pushable (AVec vs) = (\<forall>v \<in> set vs. pushable v)"
| "pushable (ASet vs) = (\<forall>v \<in> set vs. pushable v)"
| "pushable (AMap kvs) = (\<forall>(k, v) \<in> set kvs. pushable v)"
| "pushable (AViewMap kvs) = (\<forall>(k, v) \<in> set kvs. pushable v)"
| "pushable (ATable m) = False"
| "pushable (AStrings ss) = False"
| "pushable (ARaw bs) = False"
| "pushable _ = True"

lemma push_views_tab:
  "list_all (\<lambda>(k, v). \<exists>i < n. k = LInt (int i)) t \<Longrightarrow>
     push_views n ss (LTab t # st) = Inr (LTab (t @ map (\<lambda>(i, s). (LInt (int i), LStr s)) (enumerate n ss)) # st)"
proof (induction ss arbitrary: n t)
  case (Cons s ss)
  have "LInt (int n) \<notin> fst ` set t" using Cons.prems by (auto simp: list_all_iff)
  then have "tab_set (LInt (int n)) (LStr s) t = t @ [(LInt (int n), LStr s)]"
    by (induction t) (auto simp: tab_set_def um_assign_def)
  moreover have "list_all (\<lambda>(k, v). \<exists>i < Suc n. k = LInt (int i)) (t @ [(LInt (int n), LStr s)])"
    using Cons.prems by (auto simp: list_all_iff less_Suc_eq)
  ultimately show ?case using Cons.IH by simp
qed simp

lemma push_value_lua_of:
  "pushable v \<Longrightarrow> push_value v st = Inr (lua_of v # st)"
  "\<forall>v \<in> set vs. pushable v \<Longrightarrow> push_seq n vs (LTab t # st) = Inr (LTab (seq_tab n vs t) # st)"
  "\<forall>(k, v) \<in> set kvs. pushable v \<Longrightarrow> push_map kvs (LTab t # st) = Inr (LTab (map_tab kvs t) # st)"
  by (induction v and n vs t and kvs t arbitrary: st and st and st rule: lua_of_seq_tab_map_tab.induct)
    (auto simp: push_views_tab views_tab_def)

lemma push_all_lua_of: "list_all pushable vs \<Longrightarrow> push_all vs st = Inr (rev (map lua_of vs) @ st)"
  by (induction vs arbitrary: st) (auto simp: push_value_lua_of)

text \<open>
  C37: when a script defines the function and all arguments have types of the engine's table, the function is called with exactly
  their Lua values, in order; the results come back converted, in order, up to one that cannot be converted. A call that fails
  gives no results. What the script itself returned is not among them.
\<close>

theorem luaExecute_calls:
  assumes "ll_dofile L script G = (Inr rets, G')" "script \<noteq> []" "fn \<noteq> []" "G' (c_str fn) = LFn f" "list_all pushable args"
  shows "luaExecute L G script fn args =
    (case ll_pcall L f G' (map lua_of args) of Inl e \<Rightarrow> Inr [] | Inr res \<Rightarrow> Inr (lua_results L res))"
proof -
  let ?st = "rev (map lua_of args) @ LFn f # rev rets"
  have "lua_pcall L G' (length args) ?st =
      (case ll_pcall L f G' (map lua_of args) of Inl e \<Rightarrow> Inr (Inl e) | Inr res \<Rightarrow> Inr (Inr (rev res @ rev rets)))"
    by (simp add: lua_pcall_def nth_append drop_append Suc_diff_le split: sum.splits)
  then show ?thesis
    using assms push_all_lua_of [OF assms(5), of "LFn f # rev rets"]
    by (auto simp: luaExecute_def call_function_def split: sum.splits)
qed

text \<open>An argument of a type that is not in the table: nothing is pushed for it, and the function's place on the stack is taken for
  its argument. If the script left nothing on the stack, the call reads below its bottom.\<close>

lemma luaExecute_unknown_type:
  assumes "ll_dofile L script G = (Inr [], G')" "script \<noteq> []" "fn \<noteq> []" "G' (c_str fn) = LFn f"
    and "list_all pushable args" "arg \<in> {ATable m, AStrings ss, ARaw bs}"
  shows "luaExecute L G script fn (args @ [arg]) = Inl (UB ''lua stack underflow'')"
proof -
  have "push_all (vs @ ws) st = bind_outcome (push_all vs st) (push_all ws)" for vs ws :: "'a any list" and st
    by (induction vs arbitrary: st) (auto simp: bind_outcome_def split: sum.splits)
  then have "push_all (args @ [arg]) [LFn f] = Inr (rev (map lua_of args) @ [LFn f])"
    using assms(6) push_all_lua_of [OF assms(5), of "[LFn f]"] by auto
  then show ?thesis using assms(1-4) by (simp add: luaExecute_def call_function_def lua_pcall_def)
qed

definition sample_lua :: "nat lua_lib" where
  "sample_lua = \<lparr>ll_text = to_string, ll_int = int, ll_float = id, ll_number = (\<lambda>_. None),
     ll_dofile = (\<lambda>script G. (Inr [LStr ''loaded''], G(''OnTrigger'' := LFn 1))), ll_pcall = (\<lambda>f G vs. Inr (rev vs))\<rparr>"

theorem luaExecute_calls_witness:
  "luaExecute sample_lua (\<lambda>_. LNil) ''hook.lua'' ''OnTrigger'' [ACStr ''push'', AInt 5] = Inr [AInt 5, AStr ''push'']"
  using luaExecute_calls [of sample_lua "''hook.lua''" "\<lambda>_. LNil" "[LStr ''loaded'']" "(\<lambda>_. LNil)(''OnTrigger'' := LFn 1)" "''OnTrigger''" 1
      "[ACStr ''push'', AInt 5]"]
  by (simp add: sample_lua_def c_str_def lua_integer_def)

section \<open>Objects reach a script, but not in containers\<close>

lemma class_object_pushed:
  assumes "um_find objs n = Some methods" "um_find methods (c_str name) = Some fn"
  shows "push_value (AObj (Some n)) st = Inr (LUser (Some n) # st) \<and> push_deletes (AObj (Some n) :: 'f any) objs = Inr objs
    \<and> class_index L objs (LUser (Some n)) (LStr name) = Inr [LFn fn]
    \<and> (\<exists>objs'. class_gc objs (LUser (Some n) :: 'f lval) = Inr objs' \<and> um_find objs' n = None
        \<and> class_gc objs' (LUser (Some n) :: 'f lval) = Inl (UB ''double free''))"
  using assms by (simp add: push_deletes_def class_index_def class_gc_def self_destroy_def delete_object_def)

text \<open>An object in a container is deleted before the script sees it, and the script's first use of it follows a null pointer.\<close>

theorem class_object_in_container:
  assumes "um_find objs n = Some methods"
  shows "push_value (AVec [AObj (Some n)]) st = Inr (LTab [(LInt 1, LUser None)] # st)
    \<and> (\<exists>objs'. push_deletes (AVec [AObj (Some n)] :: 'f any) objs = Inr objs' \<and> um_find objs' n = None
        \<and> class_index L objs' (LUser None) k = Inl (UB ''null object''))"
  using assms by (simp add: push_deletes_def delete_object_def class_index_def tab_set_def um_assign_def)

section \<open>Maps survive a call\<close>

text \<open>Values that a map can carry to Lua and back: numbers of 64 bits, booleans, strings without NUL, and maps of such, with
  every key once, without NUL and not readable as a number.\<close>

fun portable :: "'f lua_lib \<Rightarrow> 'f any \<Rightarrow> bool" where
  "portable L (AInt i) \<longleftrightarrow> - (2 ^ 63) \<le> i \<and> i < 2 ^ 63"
| "portable L (ABool b) \<longleftrightarrow> True"
| "portable L (AStr s) \<longleftrightarrow> CHR 0x00 \<notin> set s"
| "portable L (AMap kvs) \<longleftrightarrow> distinct (map fst kvs)
     \<and> (\<forall>(k, v) \<in> set kvs. CHR 0x00 \<notin> set k \<and> ll_number L k = None \<and> portable L v)"
| "portable L _ \<longleftrightarrow> False"

lemma portable_not_nil: "portable L v \<Longrightarrow> lua_of v \<noteq> LNil \<and> null_object (lua_of v) = lua_of v"
  by (cases "(L, v)" rule: portable.cases) auto

lemma um_assign_new: "k \<notin> fst ` set t \<Longrightarrow> um_assign k v t = t @ [(k, v)]"
  by (induction t) (auto simp: um_assign_def)

lemma map_tab_append:
  "\<forall>(k, v) \<in> set kvs. lua_of v \<noteq> LNil \<and> null_object (lua_of v) = lua_of v \<Longrightarrow> distinct (map fst kvs) \<Longrightarrow> LStr ` fst ` set kvs \<inter> fst ` set t = {} \<Longrightarrow>
     map_tab kvs t = t @ map (\<lambda>(k, v). (LStr k, lua_of v)) kvs"
proof (induction kvs arbitrary: t)
  case (Cons kv kvs)
  obtain k v where kv: "kv = (k, v)" by (cases kv)
  have "tab_set (LStr k) (lua_of v) t = t @ [(LStr k, lua_of v)]"
    using Cons.prems kv by (simp add: tab_set_def um_assign_new)
  moreover have "map_tab kvs (t @ [(LStr k, lua_of v)]) = (t @ [(LStr k, lua_of v)]) @ map (\<lambda>(k, v). (LStr k, lua_of v)) kvs"
    using Cons.prems kv by (intro Cons.IH) auto
  ultimately show ?case using Cons.prems by (simp add: kv)
qed simp

lemma map_fields_append:
  "\<forall>(k, v) \<in> set kvs. CHR 0x00 \<notin> set k \<and> ll_number L k = None \<and> map_value L (lua_of v) = v \<Longrightarrow> distinct (map fst kvs) \<Longrightarrow>
     fst ` set kvs \<inter> fst ` set m = {} \<Longrightarrow> map_fields L (map (\<lambda>(k, v). (LStr k, lua_of v)) kvs) key m = m @ kvs"
proof (induction kvs arbitrary: key m)
  case (Cons kv kvs)
  obtain k v where kv: "kv = (k, v)" by (cases kv)
  have "map_fields L (map (\<lambda>(k, v). (LStr k, lua_of v)) kvs) k (m @ [(k, v)]) = (m @ [(k, v)]) @ kvs"
    using Cons.prems kv by (intro Cons.IH) auto
  then show ?case using Cons.prems kv by (simp add: c_str_id um_emplace_def)
qed simp

lemma map_value_lua_of: "portable L v \<Longrightarrow> map_value L (lua_of v) = v"
proof (induction L v rule: portable.induct)
  case (1 L i)
  then show ?case by (simp add: lua_integer_def sint_sbintrunc' signed_take_bit_int_eq_self)
next
  case (3 L s)
  then show ?case by (simp add: c_str_id)
next
  case (4 L kvs)
  have "\<forall>(k, v) \<in> set kvs. lua_of v \<noteq> LNil \<and> null_object (lua_of v) = lua_of v" using 4(2) portable_not_nil by fastforce
  then have "map_tab kvs [] = map (\<lambda>(k, v). (LStr k, lua_of v)) kvs"
    using map_tab_append [of kvs "[]"] 4(2) by simp
  moreover have "map_fields L (map (\<lambda>(k, v). (LStr k, lua_of v)) kvs) [] [] = kvs"
    using 4 map_fields_append [of kvs L "[]" "[]"] by fastforce
  ultimately show ?case by simp
qed simp_all

text \<open>
  a map of C++ values that is pushed to Lua and read back as an argument is the same map, inner maps included, if its keys do not
  read as numbers, strings hold no NUL and no value is empty.
\<close>

theorem lua_map_roundtrip:
  assumes "portable L (AMap kvs)"
  shows "\<exists>v. push_value (AMap kvs) st = Inr (v # st) \<and> args_map L (Some v) = AMap kvs"
proof -
  have "pushable v" if "portable L v" for v using that by (induction L v rule: portable.induct) auto
  from push_value_lua_of(1) [OF this [OF assms]] have "push_value (AMap kvs) st = Inr (LTab (map_tab kvs []) # st)" by simp
  moreover have "args_map L (Some (LTab (map_tab kvs []))) = AMap kvs" using map_value_lua_of [OF assms] by (simp add: args_map_def)
  ultimately show ?thesis by blast
qed

theorem lua_map_roundtrip_witness:
  "\<exists>v. push_value (AMap [(''a'', AInt 1), (''m'', AMap [(''b'', ABool True)])]) [] = Inr (v # [])
     \<and> args_map sample_lua (Some v) = AMap [(''a'', AInt 1), (''m'', AMap [(''b'', ABool True)])]"
  by (rule lua_map_roundtrip) (simp add: sample_lua_def)

section \<open>Modules\<close>

lemma self_kept:
  "\<forall>(mn, mfn) \<in> set methods. c_str mn \<noteq> ''__self'' \<Longrightarrow>
     um_find (fold (\<lambda>(mn, mfn). tab_set (LStr (c_str mn)) (LFn mfn)) methods t) (LStr ''__self'') = um_find t (LStr ''__self'')"
  by (induction methods arbitrary: t) (auto simp: tab_set_def)

lemma module_found:
  fixes G :: "string \<Rightarrow> 'f lval"
  assumes "modNamespace \<noteq> []" "G modNamespace = LNil \<or> G modNamespace = LTab t" "\<forall>(mn, mfn) \<in> set methods. c_str mn \<noteq> ''__self''"
  shows "getModule modName modNamespace (luaRegisterModule methods self modName modNamespace G) = Some self"
proof -
  have "\<exists>m. (module_table self methods :: 'f lval) = LTab m \<and> um_find m (LStr ''__self'') = Some (LLight self)"
    using self_kept [OF assms(3), of "[(LStr ''__self'', LLight self)]"]
    by (auto simp: module_table_def tab_set_def um_assign_def um_find_def)
  then show ?thesis
    using assms(1,2) by (auto simp: luaRegisterModule_def getModule_def tab_set_def Let_def)
qed

text \<open>A module that is registered without a namespace is not found: it is looked for in the global with the empty name.\<close>

lemma module_without_namespace:
  "modName \<noteq> [] \<Longrightarrow> G [] = LNil \<Longrightarrow> getModule modName [] (luaRegisterModule methods self modName [] G) = None"
  by (simp add: luaRegisterModule_def getModule_def)

text \<open>The path of the packages ends with every path that was added, in the order of the set.\<close>

lemma luaPackagePath_text: "luaPackagePath e p = p @ concat (map (\<lambda>path. '';'' @ path) (packagePaths e))"
proof -
  have "fold (\<lambda>path p. p @ '';'' @ path) ps p = p @ concat (map (\<lambda>path. '';'' @ path) ps)" for ps
    by (induction ps arbitrary: p) simp_all
  then show ?thesis by (simp add: luaPackagePath_def)
qed

end
