(* ===== verification/Address.thy ===== *)
theory Address
  imports Regex Containers
begin

text \<open>
  Addresses: the text forms of \<^verbatim>\<open>inet\<close> (\<^verbatim>\<open>source/inet/cinet.cpp\<close>: \<^verbatim>\<open>GetSockAddr\<close>, \<^verbatim>\<open>GetAddress\<close>, \<^verbatim>\<open>ResolveAddress\<close>,
  the accessors of a socket address), the addresses of this machine and the network interfaces
  (\<^verbatim>\<open>source/inet/ciface.cpp\<close>). Name resolution and the textual form of IPv6 addresses are parameters. A result is the number the C++
  function returns, 0 or a negative \<^verbatim>\<open>errno\<close>; \<^verbatim>\<open>errno\<close> from before the call is a parameter where the code returns it.
\<close>

section \<open>Numbers\<close>

text \<open>\<^verbatim>\<open>std::stoi\<close> and \<^verbatim>\<open>std::stoul\<close>: blanks, a sign, digits; what follows is ignored.\<close>

definition read_sign :: "string \<Rightarrow> bool \<times> string" where
  "read_sign s =
     (case dropWhile isspace s of
        [] \<Rightarrow> (False, [])
      | c # cs \<Rightarrow> if c = CHR ''-'' then (True, cs) else if c = CHR ''+'' then (False, cs) else (False, c # cs))"

definition stoi :: "string \<Rightarrow> int outcome" where
  "stoi s =
     (let (neg, ds) = read_sign s; ds = takeWhile isdigit ds; v = int (digits_value 0 ds); v = (if neg then - v else v) in
      if ds = [] then Inl (Throw ''stoi: invalid_argument'')
      else if v < - (2 ^ 31) \<or> v \<ge> 2 ^ 31 then Inl (Throw ''stoi: out_of_range'')
      else Inr v)"

definition stoul :: "string \<Rightarrow> u64 outcome" where
  "stoul s =
     (let (neg, ds) = read_sign s; ds = takeWhile isdigit ds; v = digits_value 0 ds in
      if ds = [] then Inl (Throw ''stoul: invalid_argument'')
      else if v \<ge> 2 ^ 64 then Inl (Throw ''stoul: out_of_range'')
      else Inr (if neg then - of_nat v else of_nat v))"

definition htons :: "u16 \<Rightarrow> u16" where
  "htons w = push_bit 8 w OR drop_bit 8 w"

section \<open>Socket addresses\<close>

datatype af = AF_UNSPEC | AF_UNIX | AF_INET | AF_INET6

text \<open>\<^verbatim>\<open>sockaddr_storage\<close>: the port stands at the same place for both versions of IP and is in network byte order; the
  bytes of an address are in network order.\<close>

record sockaddr =
  ss_family :: af
  sin_port :: u16
  sin_addr :: bytes
  sin6_addr :: bytes
  sun_path :: string

definition sa_zero :: sockaddr where
  "sa_zero = \<lparr>ss_family = AF_UNSPEC, sin_port = 0, sin_addr = replicate 4 0, sin6_addr = replicate 16 0, sun_path = []\<rparr>"

text \<open>\<^verbatim>\<open>strncpy\<close> into \<^verbatim>\<open>sun_path\<close>.\<close>

definition path108 :: "string \<Rightarrow> string" where
  "path108 s = takeWhile (\<lambda>c. c \<noteq> CHR 0x00) (take 108 s)"

text \<open>\<^verbatim>\<open>inet_pton(AF_INET)\<close>: four decimal numbers below 256 without leading zeros.\<close>

fun pton4 :: "nat list \<Rightarrow> nat option \<Rightarrow> string \<Rightarrow> nat list option" where
  "pton4 done cur [] = (case cur of Some v \<Rightarrow> if length done = 3 then Some (done @ [v]) else None | None \<Rightarrow> None)"
| "pton4 done cur (c # cs) =
     (if isdigit c then
        (case cur of
           None \<Rightarrow> if length done \<ge> 4 then None else pton4 done (Some (digit_value c)) cs
         | Some v \<Rightarrow>
             if v = 0 \<or> v * 10 + digit_value c > 255 then None else pton4 done (Some (v * 10 + digit_value c)) cs)
      else if c = CHR ''.'' then
        (case cur of
           Some v \<Rightarrow> if length done = 3 then None else pton4 (done @ [v]) None cs
         | None \<Rightarrow> None)
      else None)"

definition inet_pton4 :: "string \<Rightarrow> bytes option" where
  "inet_pton4 s = map_option (map of_nat) (pton4 [] None s)"

definition inet_ntop4 :: "bytes \<Rightarrow> string" where
  "inet_ntop4 bs =
     to_string (unat (bs ! 0)) @ ''.'' @ to_string (unat (bs ! 1)) @ ''.'' @ to_string (unat (bs ! 2)) @ ''.''
       @ to_string (unat (bs ! 3))"

text \<open>The library: \<^verbatim>\<open>inet_pton\<close> and \<^verbatim>\<open>inet_ntop\<close> for IPv6, \<^verbatim>\<open>gethostbyname2\<close> (an address or \<^verbatim>\<open>h_errno\<close>) and
  \<^verbatim>\<open>getaddrinfo\<close>.\<close>

record netlib =
  pton6 :: "string \<Rightarrow> bytes option"
  ntop6 :: "bytes \<Rightarrow> string"
  hostbyname :: "string \<Rightarrow> af \<Rightarrow> int + af \<times> bytes"
  addrinfo :: "string \<Rightarrow> (af \<times> bytes) list option"

definition set_port :: "int outcome \<Rightarrow> sockaddr \<Rightarrow> sockaddr outcome" where
  "set_port p sa = bind_outcome p (\<lambda>v. Inr (sa\<lparr>sin_port := htons (of_int v)\<rparr>))"

definition hostport_char :: "char \<Rightarrow> bool" where
  "hostport_char c \<longleftrightarrow> isdigit c \<or> (97 \<le> (of_char c :: nat) \<and> (of_char c :: nat) \<le> 102)"

definition digdot :: "char \<Rightarrow> bool" where
  "digdot c \<longleftrightarrow> isdigit c \<or> c = CHR ''.''"

text \<open>The expression \<^verbatim>\<open>(?:(\d+\.[\d.]+)|([\da-f]+:[\da-f:]+)|([^:]*))\:?(\d*)\<close>.\<close>

definition re_ip4 :: regex where
  "re_ip4 = Grp 1 (Seq (Some1 isdigit) (Seq (Lit ''.'') (Some1 digdot)))"

definition re_ip6 :: regex where
  "re_ip6 = Grp 2 (Seq (Some1 hostport_char) (Seq (Lit '':'') (Some1 (\<lambda>c. hostport_char c \<or> c = CHR '':''))))"

definition re_port :: regex where
  "re_port = Seq (Opt (Lit '':'')) (Grp 4 (Many isdigit))"

definition reHostPort :: regex where
  "reHostPort = Seq (Alt re_ip4 (Alt re_ip6 (Grp 3 (Many (\<lambda>c. c \<noteq> CHR '':''))))) re_port"

text \<open>The host: the address that is set so far, or the negative number that is returned.\<close>

definition host_addr :: "netlib \<Rightarrow> int \<Rightarrow> captures \<Rightarrow> af \<Rightarrow> int + sockaddr" where
  "host_addr N errno0 match defaultAF =
     (if group match 1 \<noteq> [] then
        (case inet_pton4 (group match 1) of
           Some a \<Rightarrow> Inr (sa_zero\<lparr>ss_family := AF_INET, sin_addr := a\<rparr>)
         | None \<Rightarrow> Inl (- errno0))
      else if group match 2 \<noteq> [] then
        (case pton6 N (group match 2) of
           Some a \<Rightarrow> Inr (sa_zero\<lparr>ss_family := AF_INET6, sin6_addr := a\<rparr>)
         | None \<Rightarrow> Inl (- errno0))
      else if group match 3 \<noteq> [] \<and> group match 3 \<noteq> ''*'' then
        (case hostbyname N (group match 3) defaultAF of
           Inr (AF_INET, a) \<Rightarrow> Inr (sa_zero\<lparr>ss_family := AF_INET, sin_addr := a\<rparr>)
         | Inr (AF_INET6, a) \<Rightarrow> Inr (sa_zero\<lparr>ss_family := AF_INET6, sin6_addr := a\<rparr>)
         | Inr _ \<Rightarrow> Inl (- 97)
         | Inl h \<Rightarrow> Inl (- h))
      else Inr (sa_zero\<lparr>ss_family := defaultAF\<rparr>))"

text \<open>\<^verbatim>\<open>GetSockAddr\<close>: the number that is returned and the address. After an error the address is not read by any caller;
  where the number is 0 it is the zeroed one. Only \<^verbatim>\<open>regex_error\<close> is caught, so what \<^verbatim>\<open>stoi\<close> throws leaves the function.\<close>

definition GetSockAddr :: "netlib \<Rightarrow> int \<Rightarrow> string \<Rightarrow> string \<Rightarrow> af \<Rightarrow> (int \<times> sockaddr) outcome" where
  "GetSockAddr N errno0 strHostPort strPort defaultAF =
     (if defaultAF = AF_UNIX then Inr (0, sa_zero\<lparr>ss_family := AF_UNIX, sun_path := path108 strHostPort\<rparr>)
      else case regex_match reHostPort strHostPort of
        None \<Rightarrow> Inr (- 96, sa_zero)
      | Some match \<Rightarrow>
          (case host_addr N errno0 match defaultAF of
             Inl res \<Rightarrow> Inr (res, sa_zero)
           | Inr sa \<Rightarrow>
               bind_outcome (set_port (stoi (if group match 4 \<noteq> [] then group match 4 else strPort)) sa)
                 (\<lambda>sa. Inr (0, sa))))"

section \<open>The other operations\<close>

definition GetIp :: "netlib \<Rightarrow> sockaddr \<Rightarrow> string" where
  "GetIp N sa =
     (case ss_family sa of AF_INET \<Rightarrow> inet_ntop4 (sin_addr sa) | AF_INET6 \<Rightarrow> ntop6 N (sin6_addr sa) | _ \<Rightarrow> [])"

text \<open>Four bytes of memory as \<^verbatim>\<open>uint32_t\<close>.\<close>

definition le_u32 :: "bytes \<Rightarrow> u32" where
  "le_u32 bs = ucast (bs ! 0) OR push_bit 8 (ucast (bs ! 1)) OR push_bit 16 (ucast (bs ! 2)) OR push_bit 24 (ucast (bs ! 3))"

definition GetIp4 :: "sockaddr \<Rightarrow> u32" where
  "GetIp4 sa =
     (case ss_family sa of AF_INET \<Rightarrow> le_u32 (sin_addr sa) | AF_INET6 \<Rightarrow> le_u32 (drop 12 (sin6_addr sa)) | _ \<Rightarrow> 0)"

definition GetIp6 :: "sockaddr \<Rightarrow> bytes option" where
  "GetIp6 sa = (if ss_family sa = AF_INET6 then Some (sin6_addr sa) else None)"

definition GetPort :: "sockaddr \<Rightarrow> u16" where
  "GetPort sa = (if ss_family sa = AF_INET \<or> ss_family sa = AF_INET6 then sin_port sa else 0)"

text \<open>\<^verbatim>\<open>GetAddress\<close> of an address: its text. \<^verbatim>\<open>GetAddress\<close> of a host and a port: the address.\<close>

definition GetAddress :: "netlib \<Rightarrow> sockaddr \<Rightarrow> string" where
  "GetAddress N sa =
     (case ss_family sa of
        AF_INET \<Rightarrow> inet_ntop4 (sin_addr sa) @ '':'' @ to_string (unat (htons (sin_port sa)))
      | AF_INET6 \<Rightarrow> ntop6 N (sin6_addr sa) @ '':'' @ to_string (unat (htons (sin_port sa)))
      | _ \<Rightarrow> [])"

definition GetAddress_of :: "netlib \<Rightarrow> int \<Rightarrow> af \<Rightarrow> string \<Rightarrow> string \<Rightarrow> (int \<times> sockaddr) outcome" where
  "GetAddress_of N h_errno0 af port host =
     (case (if host \<noteq> [] \<and> host \<noteq> ''*'' then
              if af \<noteq> AF_UNIX then
                (case hostbyname N host af of
                   Inr (AF_INET, a) \<Rightarrow> Inr (sa_zero\<lparr>ss_family := af, sin_addr := a\<rparr>)
                 | Inr (AF_INET6, a) \<Rightarrow> Inr (sa_zero\<lparr>ss_family := AF_INET6, sin6_addr := a\<rparr>)
                 | Inr _ \<Rightarrow> Inl (- h_errno0)
                 | Inl h \<Rightarrow> Inl (- 113))
              else Inr (sa_zero\<lparr>ss_family := AF_UNIX\<rparr>)
            else Inr (sa_zero\<lparr>ss_family := af\<rparr>)) of
        Inl res \<Rightarrow> Inr (res, sa_zero)
      | Inr sa \<Rightarrow>
          if ss_family sa = AF_INET \<or> af = AF_INET6
          then bind_outcome (set_port (stoi port) sa) (\<lambda>sa. Inr (0, sa))
          else if af = AF_UNIX then Inr (0, sa\<lparr>sun_path := path108 port\<rparr>)
          else Inr (- 97, sa))"

text \<open>\<^verbatim>\<open>ResolveAddress\<close>: the expression \<^verbatim>\<open>^(\w+://)?(?:.*?@)?([^:/]+)(?::(\d+))?.*\<close>, the loop over the addresses of the
  name (the first IPv4 address, or the last IPv6 address before it) and the port.\<close>

definition re_url :: regex where
  "re_url =
     Seq (Opt (Grp 1 (Seq (Some1 word_char) (Lit ''://''))))
       (Seq (Opt (Seq (ManyLazy dot) (Lit ''@'')))
         (Seq (Grp 2 (Some1 (\<lambda>c. c \<noteq> CHR '':'' \<and> c \<noteq> CHR ''/'')))
           (Seq (Opt (Seq (Lit '':'') (Grp 3 (Some1 isdigit)))) (Many dot))))"

fun addr_loop :: "string \<Rightarrow> (af \<times> bytes) list \<Rightarrow> sockaddr \<Rightarrow> sockaddr outcome" where
  "addr_loop port [] sa = Inr sa"
| "addr_loop port ((AF_INET, a) # its) sa =
     bind_outcome (stoul port) (\<lambda>v. Inr (sa\<lparr>ss_family := AF_INET, sin_addr := a, sin_port := htons (ucast v)\<rparr>))"
| "addr_loop port ((AF_INET6, a) # its) sa =
     bind_outcome (stoul port) (\<lambda>v.
       addr_loop port its (sa\<lparr>ss_family := AF_INET6, sin6_addr := a, sin_port := htons (ucast v)\<rparr>))"
| "addr_loop port (_ # its) sa = addr_loop port its sa"

definition ResolveAddress :: "netlib \<Rightarrow> string \<Rightarrow> string \<Rightarrow> (int \<times> sockaddr) outcome" where
  "ResolveAddress N hostUrl defPort =
     (case regex_match re_url hostUrl of
        None \<Rightarrow> Inr (- 22, sa_zero)
      | Some match \<Rightarrow>
          if \<not> starts_with ''unix://'' (group match 1) then
            (case addrinfo N (group match 2) of
               None \<Rightarrow> Inr (- 113, sa_zero)
             | Some its \<Rightarrow>
                 bind_outcome (addr_loop (if group match 3 \<noteq> [] then group match 3 else defPort) its sa_zero) (\<lambda>sa.
                   if ss_family sa = AF_UNSPEC then Inr (- 101, sa) else Inr (0, sa)))
          else Inr (0, sa_zero\<lparr>ss_family := AF_UNIX, sun_path := path108 hostUrl\<rparr>))"

section \<open>This machine\<close>

text \<open>An entry of \<^verbatim>\<open>getifaddrs\<close>; the lists are empty when the call fails.\<close>

record ifaddr =
  ifa_name :: "string option"
  ifa_addr :: "sockaddr option"
  ifa_netmask :: "sockaddr option"
  ifa_flags :: u32

definition local_address :: "ifaddr \<Rightarrow> u32 list" where
  "local_address ifa =
     (case (ifa_name ifa, ifa_addr ifa) of
        (Some _, Some sa) \<Rightarrow> if ss_family sa = AF_INET \<or> ss_family sa = AF_INET6 then [GetIp4 sa] else []
      | _ \<Rightarrow> [])"

definition GetLocalAddresses :: "ifaddr list \<Rightarrow> u32 list" where
  "GetLocalAddresses ifas = remdups (concat (map local_address ifas))"

definition IsLocalIp :: "u32 list \<Rightarrow> u32 \<Rightarrow> bool" where
  "IsLocalIp LocalIpList ip \<longleftrightarrow> ip \<in> set LocalIpList \<or> (ip AND 0x0000007f) = 0x0000007f"

record ciface =
  if_name :: string
  if_flags :: u32
  if_mtu :: nat
  if_index :: nat
  ip4_address :: u32
  ip4_netmask :: u32
  ip6_address :: bytes
  ip6_netmask :: bytes
  mac_address :: bytes

definition ciface_new :: "string \<Rightarrow> ciface" where
  "ciface_new iface_name =
     \<lparr>if_name = iface_name, if_flags = 0, if_mtu = 0, if_index = 0, ip4_address = 0, ip4_netmask = 0,
      ip6_address = replicate 16 0, ip6_netmask = replicate 16 0, mac_address = replicate 6 0\<rparr>"

definition ip4_Empty :: "ciface \<Rightarrow> bool" where
  "ip4_Empty i \<longleftrightarrow> ip4_address i = 0"

definition le_u64 :: "bytes \<Rightarrow> u64" where
  "le_u64 bs = word_rcat (rev (take 8 bs))"

definition ip6_Empty :: "ciface \<Rightarrow> bool" where
  "ip6_Empty i \<longleftrightarrow> le_u64 (ip6_address i) + le_u64 (drop 8 (ip6_address i)) = 0"

definition le_u16 :: "bytes \<Rightarrow> u16" where
  "le_u16 bs = word_rcat (rev (take 2 bs))"

definition mac_Empty :: "ciface \<Rightarrow> bool" where
  "mac_Empty i \<longleftrightarrow>
     unat (le_u16 (mac_address i)) + unat (le_u16 (drop 2 (mac_address i))) + unat (le_u16 (drop 4 (mac_address i))) = 0"

definition ntohl :: "bytes \<Rightarrow> u32" where
  "ntohl bs = word_rcat bs"

text \<open>One entry: the address by its family, with the netmask if there is one, and the flags.\<close>

definition iface_addr :: "ifaddr \<Rightarrow> ciface \<Rightarrow> ciface" where
  "iface_addr ifa i =
     (case ifa_addr ifa of
        None \<Rightarrow> i
      | Some sa \<Rightarrow>
          (case ss_family sa of
             AF_INET \<Rightarrow>
               (let i = i\<lparr>ip4_address := ntohl (sin_addr sa)\<rparr> in
                case ifa_netmask ifa of Some m \<Rightarrow> i\<lparr>ip4_netmask := ntohl (sin_addr m)\<rparr> | None \<Rightarrow> i)
           | AF_INET6 \<Rightarrow>
               (let i = i\<lparr>ip6_address := sin6_addr sa\<rparr> in
                case ifa_netmask ifa of Some m \<Rightarrow> i\<lparr>ip6_netmask := sin6_addr m\<rparr> | None \<Rightarrow> i)
           | _ \<Rightarrow> i)\<lparr>if_flags := ifa_flags ifa\<rparr>)"

text \<open>The three \<^verbatim>\<open>ioctl\<close>s of an interface, on a socket of their own; the first two only as long as the value is
  unknown.\<close>

record ioctls =
  io_sock :: bool
  io_hwaddr :: "string \<Rightarrow> bytes option"
  io_mtu :: "string \<Rightarrow> nat option"
  io_index :: "string \<Rightarrow> nat option"

definition iface_ioctl :: "ioctls \<Rightarrow> string \<Rightarrow> ciface \<Rightarrow> ciface" where
  "iface_ioctl io name i =
     (if \<not> io_sock io then i
      else
        let n = take 16 name;
            i = (if mac_Empty i then (case io_hwaddr io n of Some a \<Rightarrow> i\<lparr>mac_address := take 6 a\<rparr> | None \<Rightarrow> i) else i);
            i = (if if_mtu i = 0 then (case io_mtu io n of Some m \<Rightarrow> i\<lparr>if_mtu := m\<rparr> | None \<Rightarrow> i) else i) in
        case io_index io n of Some k \<Rightarrow> i\<lparr>if_index := k\<rparr> | None \<Rightarrow> i)"

fun GetNetInterfaces :: "ioctls \<Rightarrow> ifaddr list \<Rightarrow> (string, ciface) umap \<Rightarrow> (string, ciface) umap" where
  "GetNetInterfaces io [] lst = lst"
| "GetNetInterfaces io (ifa # ifas) lst =
     GetNetInterfaces io ifas
       (case ifa_name ifa of
          None \<Rightarrow> lst
        | Some n \<Rightarrow>
            let lst = um_emplace n (ciface_new n) lst;
                i = the (um_find lst n) in
            um_assign n (iface_ioctl io n (iface_addr ifa i)) lst)"

section \<open>Text and address\<close>

lemma htons_htons [simp]: "htons (htons w) = w"
  unfolding htons_def by (rule bit_word_eqI) (auto simp: bit_simps)

lemma unat_htons_of_nat: "p < 65536 \<Longrightarrow> unat (htons (htons (of_nat p :: u16))) = p"
  by (simp add: unat_of_nat take_bit_nat_eq_self)

lemma read_sign_digits: "\<forall>c \<in> set ds. isdigit c \<Longrightarrow> ds \<noteq> [] \<Longrightarrow> read_sign ds = (False, ds)"
  by (cases ds) (auto simp: read_sign_def isdigit_def isspace_def)

lemma takeWhile_to_string: "takeWhile isdigit (to_string p) = to_string p"
  using to_string_digits [of p] by (simp add: takeWhile_eq_all_conv)

lemma stoi_to_string: "p < 65536 \<Longrightarrow> stoi (to_string p) = Inr (int p)"
  by (simp add: stoi_def read_sign_digits to_string_digits takeWhile_to_string digits_value_to_string Let_def)

lemma to_string_cases:
  assumes "n < 1000"
  shows "n < 10 \<and> to_string n = [char_of (48 + n)]
    \<or> 10 \<le> n \<and> n < 100 \<and> to_string n = [char_of (48 + n div 10), char_of (48 + n mod 10)]
    \<or> 100 \<le> n \<and> to_string n = [char_of (48 + n div 100), char_of (48 + n div 10 mod 10), char_of (48 + n mod 10)]"
proof -
  consider "n < 10" | "10 \<le> n" "n < 100" | "100 \<le> n" by linarith
  then show ?thesis
  proof cases
    case 3
    with assms have "n div 10 \<ge> 10" "n div 10 div 10 < 10" by simp_all
    with 3 show ?thesis by (simp add: to_string.simps [of n] to_string.simps [of "n div 10"]
        to_string.simps [of "n div 10 div 10"] to_string.simps [of "n div 100"] flip: div_mult2_eq)
  qed (simp_all add: to_string.simps [of n] to_string.simps [of "n div 10"])
qed

lemma pton4_number:
  assumes "n < 256" "length done < 4"
  shows "pton4 done None (to_string n @ rest) = pton4 done (Some n) rest"
proof -
  consider "n < 10" "to_string n = [char_of (48 + n)]"
    | "10 \<le> n" "n < 100" "to_string n = [char_of (48 + n div 10), char_of (48 + n mod 10)]"
    | "100 \<le> n" "to_string n = [char_of (48 + n div 100), char_of (48 + n div 10 mod 10), char_of (48 + n mod 10)]"
    using to_string_cases [of n] assms by auto
  then show ?thesis
  proof cases
    case 3
    have "n div 100 = n div 10 div 10" by (simp flip: div_mult2_eq)
    then have "n div 100 < 10" "n div 100 \<noteq> 0" "n div 100 * 10 + n div 10 mod 10 = n div 10" using 3(1) assms by simp_all
    moreover from this have "n div 10 * 10 + n mod 10 = n" "n div 10 \<noteq> 0" "n div 10 \<le> 25" using 3(1) assms by simp_all
    ultimately show ?thesis using 3 assms by simp
  qed (use assms in \<open>auto simp: less_mult_imp_div_less\<close>)
qed

lemma inet_pton4_ntop4:
  assumes "length bs = 4"
  shows "inet_pton4 (inet_ntop4 bs) = Some bs"
proof -
  obtain a b c d where bs: "bs = [a, b, c, d]" using assms by (auto simp: numeral_eq_Suc length_Suc_conv)
  have dot: "\<not> isdigit (CHR ''.'')" by (simp add: isdigit_def)
  have "pton4 [] None (inet_ntop4 bs) = Some [unat a, unat b, unat c, unat d]"
    using pton4_number [of "unat d" _ "[]"] by (simp add: bs inet_ntop4_def pton4_number dot)
  then show ?thesis by (simp add: inet_pton4_def bs)
qed

lemma leads_re_ip4:
  assumes "a \<noteq> []" "\<forall>x \<in> set a. isdigit x" "b \<noteq> []" "\<forall>x \<in> set b. digdot x" "rest = [] \<or> \<not> digdot (hd rest)"
  shows "leads re_ip4 ((a @ ''.'' @ b) @ rest) [] rest [(1, a @ ''.'' @ b)]"
proof -
  have 1: "leads (Some1 isdigit) (a @ ''.'' @ b @ rest) [] (''.'' @ b @ rest) []"
    using assms(1,2) by (intro leads_Some1) (auto simp: isdigit_def)
  have 2: "leads (Lit ''.'') (''.'' @ b @ rest) [] (b @ rest) []" by (rule leads_Lit)
  have 3: "leads (Some1 digdot) (b @ rest) [] rest []" using assms by (intro leads_Some1) auto
  have "leads (Seq (Some1 isdigit) (Seq (Lit ''.'') (Some1 digdot))) (a @ ''.'' @ b @ rest) [] rest []"
    by (rule leads_Seq [OF 1 leads_Seq [OF 2 3]])
  then have "leads (Seq (Some1 isdigit) (Seq (Lit ''.'') (Some1 digdot))) ((a @ ''.'' @ b) @ rest) [] rest []"
    by (simp only: append_assoc)
  then show ?thesis unfolding re_ip4_def by (rule leads_Grp)
qed

lemma leads_re_port:
  assumes "\<forall>x \<in> set ds. isdigit x" "colon = '':'' \<or> colon = [] \<and> ds = []"
  shows "leads re_port (colon @ ds) c [] ((4, ds) # c)"
proof -
  have "leads (Many isdigit) (ds @ []) c [] c" using assms(1) by (intro leads_Many) simp_all
  then have 2: "leads (Grp 4 (Many isdigit)) ds c [] ((4, ds) # c)" using leads_Grp [of _ ds "[]"] by simp
  have "leads (Opt (Lit '':'')) (colon @ ds) c ds c"
    using assms(2)
  proof
    assume "colon = [] \<and> ds = []"
    then show ?thesis using leads_Opt_none [of "Lit '':''" "[]" c] by (simp add: Lit_def)
  next
    assume "colon = '':''"
    then show ?thesis by (simp only: leads_Opt leads_Lit)
  qed
  then show ?thesis unfolding re_port_def using 2 by (rule leads_Seq)
qed

text \<open>What \<^verbatim>\<open>GetSockAddr\<close> takes for an IPv4 address.\<close>

lemma match_ip4:
  assumes "a \<noteq> []" "\<forall>x \<in> set a. isdigit x" "b \<noteq> []" "\<forall>x \<in> set b. digdot x"
    and "\<forall>x \<in> set ds. isdigit x" "colon = '':'' \<or> colon = [] \<and> ds = []"
  shows "regex_match reHostPort ((a @ ''.'' @ b) @ colon @ ds) = Some [(4, ds), (1, a @ ''.'' @ b)]"
proof -
  have "leads re_ip4 ((a @ ''.'' @ b) @ colon @ ds) [] (colon @ ds) [(1, a @ ''.'' @ b)]"
    using assms by (intro leads_re_ip4) (auto simp: digdot_def isdigit_def)
  then have "leads reHostPort ((a @ ''.'' @ b) @ colon @ ds) [] [] [(4, ds), (1, a @ ''.'' @ b)]"
    unfolding reHostPort_def by (intro leads_Seq [OF leads_Alt leads_re_port]) (use assms(5,6) in auto)
  then show ?thesis by (rule regex_match_leads)
qed

lemma ntop4_shape:
  obtains a b where "inet_ntop4 bs = a @ ''.'' @ b" "a \<noteq> []" "\<forall>x \<in> set a. isdigit x" "b \<noteq> []" "\<forall>x \<in> set b. digdot x"
proof
  show "inet_ntop4 bs = to_string (unat (bs ! 0)) @ ''.'' @ (to_string (unat (bs ! 1)) @ ''.'' @ to_string (unat (bs ! 2)) @ ''.''
      @ to_string (unat (bs ! 3)))" by (simp add: inet_ntop4_def)
qed (use to_string_digits in \<open>auto simp: digdot_def\<close>)

text \<open>
  C25: the text \<^verbatim>\<open>address:port\<close> of every IPv4 address and port is read by \<^verbatim>\<open>GetSockAddr\<close> as that address and that
  port (in network byte order), whatever the default port and the resolver, and \<^verbatim>\<open>GetAddress\<close> prints it back.
\<close>

theorem sockaddr_roundtrip:
  assumes "length bs = 4" "p < 65536" "defaultAF \<noteq> AF_UNIX"
  shows "\<exists>sa. GetSockAddr N errno0 (inet_ntop4 bs @ '':'' @ to_string p) strPort defaultAF = Inr (0, sa)
    \<and> ss_family sa = AF_INET \<and> sin_addr sa = bs \<and> GetPort sa = htons (of_nat p)
    \<and> GetAddress N sa = inet_ntop4 bs @ '':'' @ to_string p"
proof -
  obtain a b where ab: "inet_ntop4 bs = a @ ''.'' @ b" "a \<noteq> []" "\<forall>x \<in> set a. isdigit x" "b \<noteq> []" "\<forall>x \<in> set b. digdot x"
    by (rule ntop4_shape)
  let ?m = "[(4, to_string p), (1, inet_ntop4 bs)]"
  have m: "regex_match reHostPort (inet_ntop4 bs @ '':'' @ to_string p) = Some ?m"
    unfolding ab(1) by (rule match_ip4) (use ab to_string_digits in auto)
  have "group ?m 1 = inet_ntop4 bs" "group ?m 4 = to_string p" by (simp_all add: group_def)
  moreover have "inet_ntop4 bs \<noteq> []" using ab(1) by simp
  ultimately have "GetSockAddr N errno0 (inet_ntop4 bs @ '':'' @ to_string p) strPort defaultAF =
      Inr (0, sa_zero\<lparr>ss_family := AF_INET, sin_addr := bs, sin_port := htons (of_nat p)\<rparr>)"
    using m assms by (simp add: GetSockAddr_def host_addr_def inet_pton4_ntop4 set_port_def stoi_to_string)
  then show ?thesis using unat_htons_of_nat [OF assms(2)] by (simp add: GetPort_def GetAddress_def)
qed

definition sample_net :: netlib where
  "sample_net = \<lparr>pton6 = (\<lambda>_. None), ntop6 = (\<lambda>_. ''::''), hostbyname = (\<lambda>_ _. Inl 1), addrinfo = (\<lambda>_. None)\<rparr>"

theorem sockaddr_roundtrip_witness:
  "\<exists>sa. GetSockAddr sample_net 0 (inet_ntop4 [10, 0, 0, 1] @ '':'' @ to_string 6001) ''0'' AF_INET = Inr (0, sa)
    \<and> sin_addr sa = [10, 0, 0, 1]"
  using sockaddr_roundtrip [of "[10, 0, 0, 1]" 6001 AF_INET sample_net 0 "''0''"] by auto

text \<open>
  A dotted text that is no IPv4 address is reported with \<^verbatim>\<open>errno\<close>, which \<^verbatim>\<open>inet_pton\<close> does not set: with
  \<^verbatim>\<open>errno\<close> 0 the call returns success with an address of no family, and it does so whatever the resolver says.
\<close>

theorem invalid_ip4_reported_as_errno:
  assumes "a \<noteq> []" "\<forall>x \<in> set a. isdigit x" "b \<noteq> []" "\<forall>x \<in> set b. digdot x" "inet_pton4 (a @ ''.'' @ b) = None"
    and "\<forall>x \<in> set ds. isdigit x" "defaultAF \<noteq> AF_UNIX"
  shows "GetSockAddr N errno0 ((a @ ''.'' @ b) @ '':'' @ ds) strPort defaultAF = Inr (- errno0, sa_zero)"
proof -
  have "regex_match reHostPort ((a @ ''.'' @ b) @ '':'' @ ds) = Some [(4, ds), (1, a @ ''.'' @ b)]"
    by (rule match_ip4) (use assms in auto)
  then show ?thesis using assms(5,7) by (simp add: GetSockAddr_def host_addr_def group_def)
qed

theorem invalid_ip4_reported_as_errno_witness:
  "GetSockAddr sample_net 0 ''999.1:80'' ''0'' AF_INET = Inr (0, sa_zero) \<and> ss_family sa_zero = AF_UNSPEC"
  using invalid_ip4_reported_as_errno [of "''999''" "''1''" "''80''" AF_INET sample_net 0 "''0''"]
  by (simp add: digdot_def isdigit_def inet_pton4_def digit_value_def sa_zero_def)

text \<open>A host name of hexadecimal digits with a port is taken for an IPv6 address; it is never looked up.\<close>

lemma hex_name_taken_for_ip6:
  assumes "name \<noteq> []" "\<forall>x \<in> set name. hostport_char x" "ds \<noteq> []" "\<forall>x \<in> set ds. isdigit x" "defaultAF \<noteq> AF_UNIX"
    and "pton6 N (name @ '':'' @ ds) = None"
  shows "GetSockAddr N errno0 (name @ '':'' @ ds) strPort defaultAF = Inr (- errno0, sa_zero)"
proof -
  let ?s = "name @ '':'' @ ds" and ?P = "\<lambda>c. hostport_char c \<or> c = CHR '':''"
  have "CHR ''.'' \<in> set w" if "w \<in> lang re_ip4" for w
    using that by (auto simp: re_ip4_def Lit_def)
  moreover have "CHR ''.'' \<notin> set ?s" using assms(2,4) by (auto simp: hostport_char_def isdigit_def)
  moreover have "plain re_ip4" by (simp add: re_ip4_def Some1_def Lit_def)
  ultimately have 1: "matches re_ip4 ?s [] = []" by (metis matches_none Un_iff set_append)
  have a: "leads (Some1 hostport_char) ?s [] ('':'' @ ds) []"
    using assms(1,2) by (intro leads_Some1) (auto simp: hostport_char_def isdigit_def)
  have b: "leads (Some1 ?P) (ds @ []) [] [] []"
    by (intro leads_Some1) (use assms(3,4) in \<open>auto simp: hostport_char_def\<close>)
  then have b: "leads (Some1 ?P) ds [] [] []" by simp
  have "leads (Seq (Some1 hostport_char) (Seq (Lit '':'') (Some1 ?P))) (?s @ []) [] [] []"
    using leads_Seq [OF a leads_Seq [OF leads_Lit b]] by simp
  then have "leads re_ip6 (?s @ []) [] [] [(2, ?s)]" unfolding re_ip6_def by (rule leads_Grp)
  then have "leads (Alt re_ip4 (Alt re_ip6 (Grp 3 (Many (\<lambda>c. c \<noteq> CHR '':''))))) ?s [] [] [(2, ?s)]"
    using 1 by (intro leads_Alt2 leads_Alt) simp_all
  moreover have "leads re_port [] [(2, ?s)] [] [(4, []), (2, ?s)]" using leads_re_port [of "[]" "[]"] by simp
  ultimately have "regex_match reHostPort ?s = Some [(4, []), (2, ?s)]"
    unfolding reHostPort_def by (intro regex_match_leads) (rule leads_Seq)
  then show ?thesis using assms(5,6) by (simp add: GetSockAddr_def host_addr_def group_def)
qed

text \<open>The test for a loopback address looks at seven bits of the first byte, so it accepts \<^verbatim>\<open>255\<close> like \<^verbatim>\<open>127\<close>.\<close>

lemma byte_and_7f: "(b AND 0x7f :: u8) = 0x7f \<longleftrightarrow> b = 0x7f \<or> b = 0xff"
proof
  assume eq: "b AND 0x7f = 0x7f"
  have "b AND 0x7f = take_bit 7 b" by (simp add: take_bit_eq_mask mask_eq_exp_minus_1)
  with eq have "take_bit 7 (unat b) = 127" using unsigned_take_bit_eq [of 7 b] by simp
  then have "unat b mod 128 = 127" by (simp add: take_bit_eq_mod)
  moreover have "unat b < 256" by simp
  moreover have "unat b = 128 * (unat b div 128) + unat b mod 128" by simp
  moreover have "unat b div 128 < 2" using \<open>unat b < 256\<close> by (simp add: less_mult_imp_div_less)
  then have "unat b div 128 = 0 \<or> unat b div 128 = 1" by auto
  ultimately have "unat b = 127 \<or> unat b = 255" by auto
  then show "b = 0x7f \<or> b = 0xff" by (auto simp: word_unat_eq_iff)
qed auto

lemma ucast_u8_inj: "(ucast (x :: u8) :: u32) = ucast y \<longleftrightarrow> x = y"
proof
  assume "(ucast x :: u32) = ucast y"
  then have "unat (ucast x :: u32) = unat (ucast y :: u32)" by (rule arg_cong)
  then show "x = y" by (simp add: unsigned_ucast_eq take_bit_nat_eq_self order_less_trans [OF unat_u8_less] word_unat_eq_iff)
qed simp

lemma le_u32_and_7f: "(le_u32 bs AND 0x7f) = 0x7f \<longleftrightarrow> bs ! 0 = 127 \<or> bs ! 0 = 255"
proof -
  have "le_u32 bs AND 0x7f = ucast (bs ! 0 AND 0x7f)"
  proof -
    have m: "(0x7f :: u32) = mask 7" "(0x7f :: u8) = mask 7" by (simp_all add: mask_eq_exp_minus_1)
    show ?thesis unfolding le_u32_def m by (rule bit_word_eqI) (auto simp: bit_simps)
  qed
  moreover have "(0x7f :: u32) = ucast (0x7f :: u8)" by simp
  ultimately have "(le_u32 bs AND 0x7f) = 0x7f \<longleftrightarrow> (bs ! 0 AND 0x7f) = 0x7f"
    by (metis ucast_u8_inj)
  then show ?thesis by (simp add: byte_and_7f)
qed

lemma IsLocalIp_iff:
  "ss_family sa = AF_INET \<Longrightarrow>
     IsLocalIp lst (GetIp4 sa) \<longleftrightarrow> GetIp4 sa \<in> set lst \<or> sin_addr sa ! 0 = 127 \<or> sin_addr sa ! 0 = 255"
  by (simp add: IsLocalIp_def GetIp4_def le_u32_and_7f)

text \<open>The test for an empty IPv6 address adds its halves, which may cancel.\<close>

lemma ip6_Empty_cancels:
  "ip6_Empty ((ciface_new ''eth0'')\<lparr>ip6_address := [1, 0, 0, 0, 0, 0, 0, 0] @ replicate 8 0xff\<rparr>)"
proof -
  have "le_u64 [1, 0, 0, 0, 0, 0, 0, 0] = 1" "le_u64 (replicate 8 0xff) = - 1"
    by (simp_all add: le_u64_def word_rcat_def horner_sum_simps numeral_eq_Suc) (code_simp)+
  then show ?thesis by (simp add: ip6_Empty_def ciface_new_def le_u64_def)
qed

text \<open>The list of interfaces has one entry for every name, under that name.\<close>

lemma GetNetInterfaces_names:
  assumes "um_wf lst" "\<forall>n i. um_find lst n = Some i \<longrightarrow> if_name i = n"
  shows "um_wf (GetNetInterfaces io ifas lst)
    \<and> (\<forall>n i. um_find (GetNetInterfaces io ifas lst) n = Some i \<longrightarrow> if_name i = n)
    \<and> (\<forall>n. um_find (GetNetInterfaces io ifas lst) n \<noteq> None \<longleftrightarrow>
          um_find lst n \<noteq> None \<or> Some n \<in> ifa_name ` set ifas)"
  using assms
proof (induction ifas arbitrary: lst)
  case (Cons ifa ifas)
  have io: "if_name (iface_ioctl io n i) = if_name i" for n i
    by (simp add: iface_ioctl_def Let_def split: option.splits)
  have ad: "if_name (iface_addr ifa i) = if_name i" for i
    by (simp add: iface_addr_def Let_def split: option.splits af.splits)
  show ?case
  proof (cases "ifa_name ifa")
    case None
    then have "GetNetInterfaces io (ifa # ifas) lst = GetNetInterfaces io ifas lst"
      "Some m \<in> ifa_name ` set (ifa # ifas) \<longleftrightarrow> Some m \<in> ifa_name ` set ifas" for m by simp_all
    then show ?thesis using Cons.IH [OF Cons.prems] by presburger
  next
    case (Some n)
    define lst' where "lst' = um_emplace n (ciface_new n) lst"
    define j where "j = iface_ioctl io n (iface_addr ifa (the (um_find lst' n)))"
    have found: "um_find lst' m = (if m = n \<and> um_find lst n = None then Some (ciface_new n) else um_find lst m)" for m
      by (auto simp: lst'_def um_find_emplace)
    have find: "um_find (um_assign n j lst') m = (if m = n then Some j else um_find lst m)" for m
      by (simp add: found)
    have "if_name (the (um_find lst' n)) = n" using Cons.prems(2) by (auto simp: found ciface_new_def)
    then have "if_name j = n" by (simp add: j_def io ad)
    moreover have wf: "um_wf (um_assign n j lst')" using Cons.prems(1) by (simp add: lst'_def)
    ultimately have "\<forall>m i. um_find (um_assign n j lst') m = Some i \<longrightarrow> if_name i = m" using Cons.prems(2) by (auto simp: found)
    note IH = Cons.IH [OF wf this]
    have eq: "GetNetInterfaces io (ifa # ifas) lst = GetNetInterfaces io ifas (um_assign n j lst')"
      using Some by (simp add: j_def lst'_def Let_def)
    have "Some m \<in> ifa_name ` set (ifa # ifas) \<longleftrightarrow> m = n \<or> Some m \<in> ifa_name ` set ifas" for m
      using Some by (simp add: eq_commute)
    then show ?thesis unfolding eq using IH by (auto simp: found)
  qed
qed auto

text \<open>A unix address with an absolute path does not take the branch for such addresses: the expression skips the
  scheme, and the host that is looked up is \<^verbatim>\<open>unix\<close>.\<close>

lemma resolve_unix_absolute:
  "ResolveAddress N ''unix:///run/log'' port =
     (case addrinfo N ''unix'' of
        None \<Rightarrow> Inr (- 113, sa_zero)
      | Some its \<Rightarrow>
          bind_outcome (addr_loop port its sa_zero) (\<lambda>sa. if ss_family sa = AF_UNSPEC then Inr (- 101, sa) else Inr (0, sa)))"
proof -
  have "map_option (\<lambda>m. (group m 1, group m 2, group m 3)) (regex_match re_url ''unix:///run/log'') = Some ([], ''unix'', [])"
    by code_simp
  then obtain m where "regex_match re_url ''unix:///run/log'' = Some m" "group m 1 = []" "group m 2 = ''unix''" "group m 3 = []"
    by auto
  then show ?thesis by (simp add: ResolveAddress_def starts_with_def)
qed

end
