(* ===== verification/Listen.thy ===== *)
theory Listen
  imports Servers Address
begin

text \<open>
  Listening sockets (\<^verbatim>\<open>source/inet/cinet.cpp\<close>: \<^verbatim>\<open>TcpServer\<close>, \<^verbatim>\<open>UdpServer\<close>, \<^verbatim>\<open>UnixServer\<close>, \<^verbatim>\<open>UdpConnect\<close>, the accept calls and the
  options), the acceptor that opens one socket for each of its workers (\<^verbatim>\<open>include/inet/cacceptor.h\<close>), the UDP server
  (\<^verbatim>\<open>source/inet/cudpserver.cpp\<close>) and the unix server with the API behind it (\<^verbatim>\<open>source/inet/cunixserver.cpp\<close>, \<^verbatim>\<open>capiserver.cpp\<close>). The kernel is
  the list of open descriptors and the unix names that lead to a socket; what a system call answers is a parameter.
\<close>

section \<open>The kernel\<close>

record kernel =
  kn_open :: "int list"
  kn_paths :: "(string, int) umap"

text \<open>What the calls answer: the new descriptor (or a number that is not positive, with \<^verbatim>\<open>errno\<close>), and the errors of the calls on it.\<close>

record sock_calls =
  sk_socket :: int
  sk_errno :: errno
  sk_reuseaddr :: "errno option"
  sk_reuseport :: "errno option"
  sk_bind :: "errno option"
  sk_listen :: "errno option"
  sk_connect :: "errno option"

definition open_fd :: "int \<Rightarrow> kernel \<Rightarrow> kernel" where
  "open_fd fd k = k\<lparr>kn_open := fd # kn_open k\<rparr>"

definition shut_fd :: "int \<Rightarrow> kernel \<Rightarrow> kernel" where
  "shut_fd fd k = k\<lparr>kn_open := remove1 fd (kn_open k)\<rparr>"

text \<open>The way out of a failed step: the error is kept, the socket closed and the caller's variable set to \<open>-1\<close>.\<close>

type_synonym sock_result = "errno option \<times> int \<times> kernel"

definition guard_call :: "errno option \<Rightarrow> int \<Rightarrow> kernel \<Rightarrow> sock_result \<Rightarrow> sock_result" where
  "guard_call res fd k continue = (case res of Some e \<Rightarrow> (Some e, -1, shut_fd fd k) | None \<Rightarrow> continue)"

text \<open>A descriptor 0 is taken for a failure and stays open.\<close>

definition with_socket :: "sock_calls \<Rightarrow> kernel \<Rightarrow> (int \<Rightarrow> kernel \<Rightarrow> sock_result) \<Rightarrow> sock_result" where
  "with_socket c k body =
     (if sk_socket c < 0 then (Some (sk_errno c), sk_socket c, k)
      else if sk_socket c = 0 then (Some (sk_errno c), 0, open_fd 0 k)
      else body (sk_socket c) (open_fd (sk_socket c) k))"

definition TcpServer :: "sock_calls \<Rightarrow> bool \<Rightarrow> bool \<Rightarrow> kernel \<Rightarrow> sock_result" where
  "TcpServer c reuseaddress reuseport k =
     with_socket c k (\<lambda>fd k.
       guard_call (if reuseaddress then sk_reuseaddr c else None) fd k
       (guard_call (if reuseport then sk_reuseport c else None) fd k
       (guard_call (sk_bind c) fd k
       (guard_call (sk_listen c) fd k (None, fd, k)))))"

definition UdpServer :: "sock_calls \<Rightarrow> kernel \<Rightarrow> sock_result" where
  "UdpServer c k = with_socket c k (\<lambda>fd k. guard_call (sk_bind c) fd k (None, fd, k))"

text \<open>\<^verbatim>\<open>UnixServer\<close> removes the name, whatever it leads to, before it binds the new socket to it.\<close>

definition unlink_path :: "string \<Rightarrow> kernel \<Rightarrow> kernel" where
  "unlink_path path k = k\<lparr>kn_paths := um_erase path (kn_paths k)\<rparr>"

definition bind_path :: "string \<Rightarrow> int \<Rightarrow> kernel \<Rightarrow> kernel" where
  "bind_path path fd k = k\<lparr>kn_paths := um_assign path fd (kn_paths k)\<rparr>"

definition UnixServer :: "sock_calls \<Rightarrow> sockaddr \<Rightarrow> kernel \<Rightarrow> sock_result" where
  "UnixServer c sa k =
     with_socket c k (\<lambda>fd k.
       let k = unlink_path (sun_path sa) k in
       guard_call (sk_bind c) fd k
       (let k = bind_path (sun_path sa) fd k in
        guard_call (sk_listen c) fd k (None, fd, k)))"

definition UdpConnect_any :: "sock_calls \<Rightarrow> kernel \<Rightarrow> sock_result" where
  "UdpConnect_any c k = with_socket c k (\<lambda>fd k. (None, fd, k))"

definition UdpConnect :: "sock_calls \<Rightarrow> kernel \<Rightarrow> sock_result" where
  "UdpConnect c k = with_socket c k (\<lambda>fd k. guard_call (sk_connect c) fd k (None, fd, k))"

text \<open>\<^verbatim>\<open>TcpAccept\<close> and \<^verbatim>\<open>UnixAccept\<close>: \<open>cli\<close> is what \<^verbatim>\<open>accept4\<close> returns.\<close>

definition TcpAccept :: "int \<Rightarrow> errno \<Rightarrow> errno option \<times> int" where
  "TcpAccept cli e = (if cli > 0 then (None, cli) else (Some e, cli))"

definition UnixAccept :: "int \<Rightarrow> errno \<Rightarrow> errno option \<times> int" where
  "UnixAccept cli e = (if cli > 0 then (None, cli) else (Some e, cli))"

section \<open>Options\<close>

text \<open>\<^verbatim>\<open>SetRecvTimeout\<close> and \<^verbatim>\<open>SetSendTimeout\<close>: seconds and microseconds.\<close>

definition timeval_of :: "nat \<Rightarrow> nat \<times> nat" where
  "timeval_of milliseconds = (milliseconds div 1000, (milliseconds mod 1000) * 1000)"

datatype sockopt = SO_KEEPALIVE int | TCP_KEEPCNT int | TCP_KEEPIDLE int | TCP_KEEPINTVL int

text \<open>\<^verbatim>\<open>SetKeepAlive\<close>: the options that are set, up to the first that fails.\<close>

definition keepalive_opts :: "bool \<Rightarrow> int \<Rightarrow> int \<Rightarrow> int \<Rightarrow> sockopt list" where
  "keepalive_opts enable count idle_sec intrvl_sec =
     [SO_KEEPALIVE (if enable then 1 else 0)] @ (if count \<ge> 0 then [TCP_KEEPCNT count] else [])
     @ (if idle_sec \<ge> 0 then [TCP_KEEPIDLE idle_sec] else []) @ (if intrvl_sec \<ge> 0 then [TCP_KEEPINTVL intrvl_sec] else [])"

fun set_opts :: "(sockopt \<Rightarrow> errno option) \<Rightarrow> sockopt list \<Rightarrow> errno option" where
  "set_opts setsockopt [] = None"
| "set_opts setsockopt (opt # opts) =
     (case setsockopt opt of None \<Rightarrow> set_opts setsockopt opts | Some e \<Rightarrow> Some e)"

definition SetKeepAlive :: "(sockopt \<Rightarrow> errno option) \<Rightarrow> bool \<Rightarrow> int \<Rightarrow> int \<Rightarrow> int \<Rightarrow> errno option" where
  "SetKeepAlive setsockopt enable count idle_sec intrvl_sec =
     set_opts setsockopt (keepalive_opts enable count idle_sec intrvl_sec)"

text \<open>\<^verbatim>\<open>SetNonBlock\<close>: the flags that are set; \<open>O_NONBLOCK\<close> is one bit.\<close>

definition nonblock_flags :: "u32 \<Rightarrow> bool \<Rightarrow> u32" where
  "nonblock_flags flags nonblock = (if nonblock then flags OR 0x800 else flags AND NOT 0x800)"

text \<open>\<^verbatim>\<open>GetErrorNo\<close>: the pending error of the socket, or why it could not be asked for.\<close>

definition GetErrorNo :: "errno + errno option \<Rightarrow> errno option" where
  "GetErrorNo ask = (case ask of Inr so_error \<Rightarrow> so_error | Inl e \<Rightarrow> if e = EAGAIN then None else Some e)"

section \<open>TLS contexts\<close>

text \<open>The steps on OpenSSL are parameters. A certificate or key that cannot be read ends the process.\<close>

datatype ssl_ctx_result = SslReady | SslError int | ExitFailure

definition use_cert_and_key :: "bool \<Rightarrow> bool \<Rightarrow> ssl_ctx_result" where
  "use_cert_and_key cert_ok key_ok = (if \<not> cert_ok then ExitFailure else if \<not> key_ok then ExitFailure else SslReady)"

definition SslCreateContext :: "bool \<Rightarrow> ssl_ctx_result \<Rightarrow> (string \<Rightarrow> bool) \<Rightarrow> (string \<Rightarrow> bool) \<Rightarrow> string \<Rightarrow> string \<Rightarrow> ssl_ctx_result" where
  "SslCreateContext ctx_new self_signed cert_ok key_ok certFile privateKeyFile =
     (if certFile \<noteq> [] \<and> privateKeyFile \<noteq> []
      then if ctx_new then use_cert_and_key (cert_ok certFile) (key_ok privateKeyFile) else SslError (- 1)
      else self_signed)"

definition SslCreateClientContext :: "bool \<Rightarrow> (string \<Rightarrow> bool) \<Rightarrow> (string \<Rightarrow> bool) \<Rightarrow> string \<Rightarrow> string \<Rightarrow> ssl_ctx_result" where
  "SslCreateClientContext ctx_new cert_ok key_ok certFile privateKeyFile =
     (if ctx_new
      then if certFile \<noteq> [] \<and> privateKeyFile \<noteq> [] then use_cert_and_key (cert_ok certFile) (key_ok privateKeyFile) else SslReady
      else SslError (- 22))"

text \<open>\<^verbatim>\<open>SslAcceptConnection\<close>: the result, and whether the caller holds a TLS object afterwards.\<close>

definition SslAcceptConnection :: "bool \<Rightarrow> bool \<Rightarrow> bool \<Rightarrow> errno option \<times> bool" where
  "SslAcceptConnection ssl_new set_fd accept =
     (if ssl_new then if set_fd \<and> accept then (None, True) else (Some EPROTO, False) else (Some ENOMEM, False))"

section \<open>The acceptor\<close>

datatype ipproto = IPPROTO_TCP | IPPROTO_UDP | IPPROTO_UNIX | IPPROTO_OTHER

record listen_t =
  ln_proto :: ipproto
  ln_maxlisten :: nat
  ln_af :: af
  ln_hostport :: string

text \<open>A socket, or the error with which \<^verbatim>\<open>runtime_error\<close> is thrown.\<close>

definition MakeListen :: "netlib \<Rightarrow> int \<Rightarrow> listen_t \<Rightarrow> sock_calls \<Rightarrow> kernel \<Rightarrow> (int \<times> kernel) outcome" where
  "MakeListen N errno0 listen c k =
     bind_outcome (GetSockAddr N errno0 (ln_hostport listen) ''0'' (ln_af listen)) (\<lambda>(res, sa).
       if res < 0 then Inl (Throw ''can not get address'')
       else
         (case ln_proto listen of
            IPPROTO_TCP \<Rightarrow>
              (case TcpServer c True True k of
                 (Some e, fd, k') \<Rightarrow> Inl (Throw ''create listen TCP socket'')
               | (None, fd, k') \<Rightarrow> Inr (fd, k'))
          | IPPROTO_UDP \<Rightarrow>
              (case UdpServer c k of
                 (Some e, fd, k') \<Rightarrow> Inl (Throw ''create listen UDP socket'')
               | (None, fd, k') \<Rightarrow> Inr (fd, k'))
          | IPPROTO_UNIX \<Rightarrow>
              (case UnixServer c sa k of
                 (Some e, fd, k') \<Rightarrow> Inl (Throw ''create listen UNIX socket'')
               | (None, fd, k') \<Rightarrow> Inr (fd, k'))
          | IPPROTO_OTHER \<Rightarrow> Inl (Throw ''wrong protocol type'')))"

text \<open>\<^verbatim>\<open>cacceptor::Listen\<close>: one socket for every worker, given with what its calls answer and what \<^verbatim>\<open>PollAdd\<close> gives. The sockets, in the
  order of the workers.\<close>

fun acceptor_Listen ::
  "netlib \<Rightarrow> int \<Rightarrow> listen_t \<Rightarrow> (sock_calls \<times> errno option) list \<Rightarrow> kernel \<Rightarrow> (int list \<times> kernel) outcome" where
  "acceptor_Listen N errno0 listen [] k = Inr ([], k)"
| "acceptor_Listen N errno0 listen ((c, polladd) # ws) k =
     bind_outcome (MakeListen N errno0 listen c k) (\<lambda>(newFd, k').
       case polladd of
         Some e \<Rightarrow> Inl (Throw ''Listen'')
       | None \<Rightarrow>
           bind_outcome (acceptor_Listen N errno0 listen ws k') (\<lambda>(fds, k''). Inr (newFd # fds, k'')))"

text \<open>\<^verbatim>\<open>TcpListen\<close> and \<^verbatim>\<open>UnixListen\<close> are the same call for their protocol.\<close>

definition TcpListen :: "netlib \<Rightarrow> int \<Rightarrow> string \<Rightarrow> nat \<Rightarrow> af \<Rightarrow> (sock_calls \<times> errno option) list \<Rightarrow> kernel \<Rightarrow> (int list \<times> kernel) outcome" where
  "TcpListen N errno0 hostport maxlisten af ws k =
     acceptor_Listen N errno0 \<lparr>ln_proto = IPPROTO_TCP, ln_maxlisten = maxlisten, ln_af = af, ln_hostport = hostport\<rparr> ws k"

definition UnixListen :: "netlib \<Rightarrow> int \<Rightarrow> string \<Rightarrow> nat \<Rightarrow> af \<Rightarrow> (sock_calls \<times> errno option) list \<Rightarrow> kernel \<Rightarrow> (int list \<times> kernel) outcome" where
  "UnixListen N errno0 hostport maxlisten af ws k =
     acceptor_Listen N errno0 \<lparr>ln_proto = IPPROTO_UNIX, ln_maxlisten = maxlisten, ln_af = af, ln_hostport = hostport\<rparr> ws k"

section \<open>The UDP server\<close>

text \<open>\<^verbatim>\<open>UdpListen\<close>: the result, the descriptor of the server and the kernel. When the address is wrong, what the server
  had open is closed.\<close>

definition close_srv :: "int \<Rightarrow> kernel \<Rightarrow> int \<times> kernel" where
  "close_srv fd k = (if fd > 0 then (-1, shut_fd fd k) else (fd, k))"

datatype udp_result = UdpReady | AddressError int | SocketError errno

definition UdpListen :: "netlib \<Rightarrow> int \<Rightarrow> string \<Rightarrow> sock_calls \<Rightarrow> int \<Rightarrow> kernel \<Rightarrow> (udp_result \<times> int \<times> kernel) outcome" where
  "UdpListen N errno0 hostport c srvFd k =
     bind_outcome (GetSockAddr N errno0 hostport ''0'' AF_INET) (\<lambda>(res, sa).
       if res = 0 then
         (case UdpServer c k of
            (None, fd, k') \<Rightarrow> Inr (UdpReady, fd, k')
          | (Some e, fd, k') \<Rightarrow> (case close_srv fd k' of (fd', k'') \<Rightarrow> Inr (SocketError e, fd', k'')))
       else (case close_srv srvFd k of (fd', k'') \<Rightarrow> Inr (AddressError res, fd', k'')))"

definition UdpClose :: "int \<Rightarrow> kernel \<Rightarrow> int \<times> kernel" where
  "UdpClose srvFd k = close_srv srvFd k"

text \<open>\<^verbatim>\<open>cudpserver::Listen\<close> registers the socket; \<open>polladd\<close> is the answer. \<^verbatim>\<open>OnAccept\<close> hands a readable socket to
  \<^verbatim>\<open>OnUdpData\<close>.\<close>

definition udp_Listen :: "int \<Rightarrow> errno option \<Rightarrow> int list outcome" where
  "udp_Listen srvFd polladd =
     (if srvFd > 0 then (case polladd of None \<Rightarrow> Inr [srvFd] | Some e \<Rightarrow> Inl (Throw ''UDP server fail'')) else Inr [])"

definition udp_OnAccept :: "int \<Rightarrow> bool \<Rightarrow> errno option \<Rightarrow> errno option \<times> int list \<times> signal list" where
  "udp_OnAccept fd epollin udp_data = OnAccept fd epollin (udp_data, [])"

section \<open>The unix server and the API on it\<close>

definition unix_Accept :: "errno option \<times> int \<Rightarrow> (int \<Rightarrow> errno option) \<Rightarrow> errno option \<times> int list" where
  "unix_Accept acc on_accept =
     (case acc of
        (None, cli) \<Rightarrow> (case on_accept cli of None \<Rightarrow> (None, []) | Some e \<Rightarrow> (Some e, close_fd cli))
      | (Some e, cli) \<Rightarrow> (Some e, if e \<noteq> EAGAIN then close_fd cli else []))"

definition unix_OnAccept :: "int \<Rightarrow> bool \<Rightarrow> workers \<Rightarrow> errno option \<times> int \<Rightarrow> (nat \<Rightarrow> int \<Rightarrow> errno option)
    \<Rightarrow> (errno option \<times> int list \<times> signal list) outcome \<times> workers" where
  "unix_OnAccept fd epollin w acc on_accept =
     (if epollin then
        (case PeekPoll w of
           (Inl f, w') \<Rightarrow> (Inl f, w')
         | (Inr i, w') \<Rightarrow> (case unix_Accept acc (on_accept i) of (res, shut) \<Rightarrow> (Inr (res, shut, []), w')))
      else (Inr (Some EINVAL, close_fd fd, [SIGPIPE]), w))"

text \<open>\<^verbatim>\<open>OnUnixAccept\<close>, and the same in the HTTP and websocket servers: the client goes to the worker's poll, if it lives.\<close>

definition OnTcpAccept :: "bool \<Rightarrow> errno option \<Rightarrow> errno option" where
  "OnTcpAccept poll_alive polladd = (if poll_alive then polladd else Some EPERM)"

definition unix_OnHttpData :: "bool \<Rightarrow> errno option \<Rightarrow> socket_call list" where
  "unix_OnHttpData poll_alive res =
     (if poll_alive then
        (case res of None \<Rightarrow> [CallRequest] | Some e \<Rightarrow> [CallHttpError, CallClose])
      else [CallClose])"

section \<open>No descriptor is lost\<close>

definition balanced :: "kernel \<Rightarrow> sock_result \<Rightarrow> bool" where
  "balanced k r =
     (case r of
        (None, fd, k') \<Rightarrow> fd > 0 \<and> kn_open k' = fd # kn_open k
      | (Some e, fd, k') \<Rightarrow> fd \<le> 0 \<and> kn_open k' = kn_open k)"

lemma guard_balanced:
  "kn_open k' = fd # kn_open k \<Longrightarrow> balanced k continue \<Longrightarrow> balanced k (guard_call res fd k' continue)"
  by (simp add: guard_call_def balanced_def shut_fd_def split: option.splits)

lemma with_socket_balanced:
  assumes "sk_socket c \<noteq> 0" "\<And>fd k'. fd > 0 \<Longrightarrow> kn_open k' = fd # kn_open k \<Longrightarrow> balanced k (body fd k')"
  shows "balanced k (with_socket c k body)"
  using assms by (simp add: with_socket_def balanced_def open_fd_def)

lemma kn_open_paths [simp]: "kn_open (unlink_path p k) = kn_open k" "kn_open (bind_path p fd k) = kn_open k"
  by (simp_all add: unlink_path_def bind_path_def)

lemmas server_defs = TcpServer_def UdpServer_def UnixServer_def UdpConnect_def UdpConnect_any_def

text \<open>
  Every call that makes a listening or a datagram socket either succeeds with one descriptor more, which is the one it
  gives, or fails with no descriptor more and none given, at whichever step it fails.
\<close>

theorem servers_balanced:
  assumes "sk_socket c \<noteq> 0"
  shows "\<forall>f \<in> {TcpServer c reuseaddress reuseport, UdpServer c, UnixServer c sa, UdpConnect c, UdpConnect_any c}.
    balanced k (f k)"
proof -
  have fin: "balanced k (None, fd, k')" if "fd > 0" "kn_open k' = fd # kn_open k" for fd k'
    using that by (simp add: balanced_def)
  show ?thesis
    by (auto simp: server_defs Let_def intro!: with_socket_balanced [OF assms] guard_balanced fin)
qed

definition good_calls :: "int \<Rightarrow> sock_calls" where
  "good_calls fd = \<lparr>sk_socket = fd, sk_errno = EMFILE, sk_reuseaddr = None, sk_reuseport = None, sk_bind = None,
     sk_listen = None, sk_connect = None\<rparr>"

theorem servers_balanced_witness:
  "TcpServer (good_calls 5) True True \<lparr>kn_open = [1], kn_paths = []\<rparr> = (None, 5, \<lparr>kn_open = [5, 1], kn_paths = []\<rparr>)
   \<and> balanced \<lparr>kn_open = [1], kn_paths = []\<rparr> (UdpServer ((good_calls 5)\<lparr>sk_bind := Some EACCES\<rparr>) \<lparr>kn_open = [1], kn_paths = []\<rparr>)"
  using servers_balanced [of "(good_calls 5)\<lparr>sk_bind := Some EACCES\<rparr>" True True _ "\<lparr>kn_open = [1], kn_paths = []\<rparr>"]
  by (simp add: good_calls_def TcpServer_def with_socket_def guard_call_def open_fd_def)

section \<open>Several workers on one unix name\<close>

lemma UnixServer_path:
  "UnixServer c sa k = (None, fd, k') \<Longrightarrow> sk_socket c = fd \<and> kn_paths k' = um_assign (sun_path sa) fd (um_erase (sun_path sa) (kn_paths k))"
  by (auto simp: UnixServer_def with_socket_def guard_call_def Let_def bind_path_def unlink_path_def open_fd_def
      split: if_splits option.splits)

lemma MakeListen_unix:
  assumes "MakeListen N errno0 listen c k = Inr (fd, k')" "ln_proto listen = IPPROTO_UNIX" "ln_af listen = AF_UNIX"
  shows "sk_socket c = fd
    \<and> kn_paths k' = um_assign (path108 (ln_hostport listen)) fd (um_erase (path108 (ln_hostport listen)) (kn_paths k))"
  using assms UnixServer_path [of c _ k fd k']
  by (auto simp: MakeListen_def GetSockAddr_def split: prod.splits option.splits)

text \<open>
  After the unix server has opened its socket for every accept worker, the name leads to the socket of the last one only:
  each worker removed the name the one before had bound. Names other than the server's are as before.
\<close>

theorem unix_name_last_worker:
  assumes "UnixListen N errno0 hostport maxlisten AF_UNIX ws k = Inr (fds, k')" "ws \<noteq> []"
  shows "fds = map (\<lambda>(c, p). sk_socket c) ws
    \<and> um_find (kn_paths k') (path108 hostport) = Some (last fds)
    \<and> (\<forall>p. p \<noteq> path108 hostport \<longrightarrow> um_find (kn_paths k') p = um_find (kn_paths k) p)"
  using assms unfolding UnixListen_def
proof (induction ws arbitrary: k fds)
  case (Cons w ws)
  let ?l = "\<lparr>ln_proto = IPPROTO_UNIX, ln_maxlisten = maxlisten, ln_af = AF_UNIX, ln_hostport = hostport\<rparr>"
  obtain c p where w: "w = (c, p)" by (cases w)
  obtain fd k1 fds' where m: "MakeListen N errno0 ?l c k = Inr (fd, k1)" and "p = None"
    and r: "acceptor_Listen N errno0 ?l ws k1 = Inr (fds', k')" and fds: "fds = fd # fds'"
    using Cons.prems(1) unfolding w by (auto simp: bind_outcome_eq_Inr split: option.splits)
  from MakeListen_unix [OF m] have m: "sk_socket c = fd"
    "kn_paths k1 = um_assign (path108 hostport) fd (um_erase (path108 hostport) (kn_paths k))" by simp_all
  show ?case
  proof (cases "ws = []")
    case True
    then show ?thesis using r m fds w by auto
  next
    case False
    with Cons.IH [OF r] show ?thesis using m fds w by (auto simp: last_map)
  qed
qed simp

theorem unix_name_last_worker_witness:
  "\<exists>k'. UnixListen sample_net 0 ''/run/api'' 16 AF_UNIX [(good_calls 5, None), (good_calls 6, None)] \<lparr>kn_open = [], kn_paths = []\<rparr>
       = Inr ([5, 6], k') \<and> um_find (kn_paths k') ''/run/api'' = Some 6 \<and> 5 \<in> set (kn_open k')"
proof -
  let ?k = "\<lparr>kn_open = [6, 5], kn_paths = [(''/run/api'', 6)]\<rparr>"
  have "UnixListen sample_net 0 ''/run/api'' 16 AF_UNIX [(good_calls 5, None), (good_calls 6, None)] \<lparr>kn_open = [], kn_paths = []\<rparr>
      = Inr ([5, 6], ?k)"
    by (simp add: UnixListen_def MakeListen_def GetSockAddr_def UnixServer_def with_socket_def guard_call_def good_calls_def
        open_fd_def unlink_path_def bind_path_def path108_def sa_zero_def um_assign_def um_erase_def)
  with unix_name_last_worker [OF this] show ?thesis by (intro exI [of _ ?k]) (simp add: path108_def)
qed

text \<open>On a failure \<^verbatim>\<open>UdpListen\<close> leaves nothing open that it or the server had opened.\<close>

lemma UdpListen_balanced:
  assumes "UdpListen N errno0 hostport c srvFd k = Inr (res, fd, k')" "sk_socket c \<noteq> 0" "srvFd \<le> 0 \<or> srvFd \<in> set (kn_open k)"
  shows "if res = UdpReady then fd > 0 \<and> kn_open k' = fd # kn_open k
    else fd \<le> 0 \<and> (kn_open k' = kn_open k \<or> kn_open k' = remove1 srvFd (kn_open k))"
proof -
  have "balanced k (UdpServer c k)"
    unfolding UdpServer_def by (intro with_socket_balanced guard_balanced) (simp_all add: assms(2) balanced_def)
  with assms show ?thesis
    by (auto simp: UdpListen_def bind_outcome_eq_Inr balanced_def close_srv_def shut_fd_def split: if_splits option.splits prod.splits)
qed

lemma timeval_exact: "case timeval_of ms of (sec, usec) \<Rightarrow> sec * 1000000 + usec = ms * 1000 \<and> usec < 1000000"
proof -
  have "ms = 1000 * (ms div 1000) + ms mod 1000" by simp
  then have "ms div 1000 * 1000000 + ms mod 1000 * 1000 = ms * 1000" by linarith
  moreover have "ms mod 1000 < 1000" by simp
  ultimately show ?thesis by (simp add: timeval_of_def)
qed

end
