(* ===== verification/Logging.thy ===== *)
theory Logging
  imports Config Address
begin

text \<open>
  Logging: the section of the configuration (\<^verbatim>\<open>cconfig::clogger_t\<close>), the sinks that \<^verbatim>\<open>util::log::initialize\<close> makes of it and the texts the
  formatters write (\<^verbatim>\<open>source/log/clog.cpp\<close>), the console sink with its colours and the datagrams of the remote sink
  (\<^verbatim>\<open>source/log/sink\<close>). The formatting of a message by spdlog is a parameter.
\<close>

section \<open>Levels and texts\<close>

datatype log_level = LTrace | LDebug | LInfo | LWarn | LErr | LCritical | LOff

primrec level_no :: "log_level \<Rightarrow> nat" where
  "level_no LTrace = 0"
| "level_no LDebug = 1"
| "level_no LInfo = 2"
| "level_no LWarn = 3"
| "level_no LErr = 4"
| "level_no LCritical = 5"
| "level_no LOff = 6"

text \<open>\<^verbatim>\<open>SpdlogLevel\<close>: the verbosity of the configuration is an \<^verbatim>\<open>int\<close>, here as \<^verbatim>\<open>size_t\<close>.\<close>

definition SpdlogLevel :: "u64 \<Rightarrow> log_level" where
  "SpdlogLevel level =
     (if level = 0 then LOff else if level = 1 then LErr else if level = 2 then LWarn else if level = 3 then LInfo
      else if level = 4 then LDebug else LTrace)"

text \<open>A sink takes the messages at or above its level.\<close>

definition should_log :: "log_level \<Rightarrow> log_level \<Rightarrow> bool" where
  "should_log sink_level msg_level \<longleftrightarrow> level_no msg_level \<ge> level_no sink_level"

definition escape_char :: "char \<Rightarrow> string" where
  "escape_char c =
     (if c = CHR 0x22 then [CHR 0x5C, CHR 0x22]
      else if c = CHR 0x5C then [CHR 0x5C, CHR 0x5C]
      else if c = CHR 0x08 then [CHR 0x5C, CHR ''b'']
      else if c = CHR 0x0C then [CHR 0x5C, CHR ''f'']
      else if c = LF then [CHR 0x5C, CHR ''n'']
      else if c = CR then [CHR 0x5C, CHR ''r'']
      else if c = CHR 0x09 then [CHR 0x5C, CHR ''t'']
      else [c])"

definition EscapeJson :: "string \<Rightarrow> string" where
  "EscapeJson s = concat (map escape_char s)"

text \<open>\<^verbatim>\<open>str.find\<close>: the text before the first occurrence and the text after it.\<close>

fun find_text :: "string \<Rightarrow> string \<Rightarrow> (string \<times> string) option" where
  "find_text pat s =
     (if starts_with pat s then Some ([], drop (length pat) s)
      else (case s of [] \<Rightarrow> None | c # cs \<Rightarrow> map_option (\<lambda>(a, b). (c # a, b)) (find_text pat cs)))"

declare find_text.simps [simp del]

definition StringReplace :: "string \<Rightarrow> string \<Rightarrow> string \<Rightarrow> string" where
  "StringReplace str pat to = (case find_text pat str of None \<Rightarrow> str | Some (a, b) \<Rightarrow> a @ to @ b)"

definition ReplacePatterns :: "string \<Rightarrow> string" where
  "ReplacePatterns inputPattern =
     (let s = StringReplace inputPattern ''%Timestamp'' ''%Y-%m-%d %H:%M:%S.%e'';
          s = StringReplace s ''%AppId'' ''%q'';
          s = StringReplace s ''%Tag'' ''%Q'';
          s = StringReplace s ''%Verbose'' ''%^%l%$'';
          s = StringReplace s ''%Message'' ''%v'' in
      StringReplace s ''%EscMessage'' ''%V'')"

section \<open>The configuration\<close>

record sink_cfg =
  lg_tag :: string
  lg_verbose :: int
  lg_pattern :: string

record file_cfg = sink_cfg +
  lg_number :: int
  lg_rotate :: int
  lg_path :: string

record syslog_cfg = sink_cfg +
  lg_facility :: string

record remote_cfg = sink_cfg +
  lg_url :: string

record clogger_t =
  stdoutSink :: "sink_cfg option"
  fileSink :: "file_cfg option"
  syslogSink :: "syslog_cfg option"
  remoteSink :: "remote_cfg option"

definition default_sink :: sink_cfg where
  "default_sink = \<lparr>lg_tag = [], lg_verbose = 4, lg_pattern = []\<rparr>"

text \<open>\<^verbatim>\<open>BaseInit\<close>: the common fields, each if it is a scalar.\<close>

definition base_field :: "'y yaml_lib \<Rightarrow> ('y \<Rightarrow> 'a outcome) \<Rightarrow> 'y \<Rightarrow> string \<Rightarrow> 'a \<Rightarrow> 'a outcome" where
  "base_field Y as cfg key old =
     bind_outcome (yAt Y cfg key) (\<lambda>n. bind_outcome (y_is Y (yIsScalar Y) n) (\<lambda>yes. if yes then as n else Inr old))"

definition BaseInit :: "'y yaml_lib \<Rightarrow> 'y \<Rightarrow> 'b sink_cfg_scheme \<Rightarrow> 'b sink_cfg_scheme outcome" where
  "BaseInit Y cfg sink =
     bind_outcome (base_field Y (yString Y) cfg ''tag'' (lg_tag sink)) (\<lambda>tag.
     bind_outcome (base_field Y (yString Y) cfg ''pattern'' (lg_pattern sink)) (\<lambda>pattern.
     bind_outcome (base_field Y (yInt Y) cfg ''verbose'' (lg_verbose sink)) (\<lambda>verbose.
       Inr (sink\<lparr>lg_tag := tag, lg_pattern := pattern, lg_verbose := verbose\<rparr>))))"

text \<open>One sink: the node under its name if that is a map, its own fields, then the common ones.\<close>

definition load_sink :: "'y yaml_lib \<Rightarrow> 'y \<Rightarrow> string \<Rightarrow> ('y \<Rightarrow> 'b sink_cfg_scheme outcome) \<Rightarrow> 'b sink_cfg_scheme option outcome" where
  "load_sink Y options key own =
     bind_outcome (yAt Y options key) (\<lambda>n.
     bind_outcome (y_is Y (yIsMap Y) n) (\<lambda>yes.
       if yes then bind_outcome (own n) (\<lambda>s. bind_outcome (BaseInit Y n s) (\<lambda>s. Inr (Some s))) else Inr None))"

definition file_fields :: "'y yaml_lib \<Rightarrow> 'y \<Rightarrow> file_cfg outcome" where
  "file_fields Y n =
     bind_outcome (bind_outcome (yAt Y n ''number'') (yInt Y)) (\<lambda>number.
     bind_outcome (bind_outcome (yAt Y n ''rotate'') (yInt Y)) (\<lambda>rotate.
     bind_outcome (bind_outcome (yAt Y n ''path'') (yString Y)) (\<lambda>path.
       Inr \<lparr>lg_tag = [], lg_verbose = 4, lg_pattern = [], lg_number = number, lg_rotate = rotate, lg_path = path\<rparr>)))"

definition syslog_fields :: "'y yaml_lib \<Rightarrow> 'y \<Rightarrow> syslog_cfg outcome" where
  "syslog_fields Y n =
     bind_outcome (bind_outcome (yAt Y n ''facility'') (yString Y)) (\<lambda>facility.
       Inr \<lparr>lg_tag = [], lg_verbose = 4, lg_pattern = [], lg_facility = facility\<rparr>)"

definition remote_fields :: "'y yaml_lib \<Rightarrow> 'y \<Rightarrow> remote_cfg outcome" where
  "remote_fields Y n =
     bind_outcome (bind_outcome (yAt Y n ''url'') (yString Y)) (\<lambda>url.
       Inr \<lparr>lg_tag = [], lg_verbose = 4, lg_pattern = [], lg_url = url\<rparr>)"

definition logger_Load :: "'y yaml_lib \<Rightarrow> 'y \<Rightarrow> clogger_t outcome" where
  "logger_Load Y options =
     bind_outcome (y_is Y (yIsMap Y) options) (\<lambda>yes.
       if yes then
         bind_outcome (load_sink Y options ''stdout'' (\<lambda>n. Inr default_sink)) (\<lambda>out.
         bind_outcome (load_sink Y options ''file'' (file_fields Y)) (\<lambda>file.
         bind_outcome (load_sink Y options ''syslog'' (syslog_fields Y)) (\<lambda>sys.
         bind_outcome (load_sink Y options ''remote'' (remote_fields Y)) (\<lambda>remote.
           Inr \<lparr>stdoutSink = out, fileSink = file, syslogSink = sys, remoteSink = remote\<rparr>))))
       else Inr \<lparr>stdoutSink = Some default_sink, fileSink = None, syslogSink = None, remoteSink = None\<rparr>)"

section \<open>The sinks\<close>

datatype sink_kind = StdoutSink | FileSink string int int | SyslogSink nat | UdpSink string u16

text \<open>A sink with its level and, if one was set, its pattern and tag. A new sink of spdlog takes every message and has
  the pattern of the library.\<close>

record log_sink =
  ls_kind :: sink_kind
  ls_level :: log_level
  ls_pattern :: "(string \<times> string) option"

definition MakeSink :: "'b sink_cfg_scheme \<Rightarrow> sink_kind \<Rightarrow> log_sink" where
  "MakeSink cfg kind =
     (if lg_pattern cfg = [] then \<lparr>ls_kind = kind, ls_level = LTrace, ls_pattern = None\<rparr>
      else \<lparr>ls_kind = kind, ls_level = SpdlogLevel (of_int (lg_verbose cfg)),
            ls_pattern = Some (ReplacePatterns (lg_pattern cfg), lg_tag cfg)\<rparr>)"

text \<open>The facilities by name, with the codes of \<^verbatim>\<open>syslog.h\<close>.\<close>

definition facilities :: "(string \<times> nat) list" where
  "facilities =
     [(''auth'', 32), (''authpriv'', 80), (''cron'', 72), (''daemon'', 24), (''ftp'', 88), (''kern'', 0), (''lpr'', 48),
      (''mail'', 16), (''news'', 56), (''security'', 32), (''syslog'', 40), (''user'', 8), (''uucp'', 64),
      (''local0'', 128), (''local1'', 136), (''local2'', 144), (''local3'', 152), (''local4'', 160), (''local5'', 168),
      (''local6'', 176), (''local7'', 184)]"

text \<open>The two expressions of the remote address, \<^verbatim>\<open>.*udp:\/\/(\d{1,3}\.\d{1,3}\.\d{1,3}\.\d{1,3}):(\d+).*\<close> and \<^verbatim>\<open>.*udp:\/\/(.+):([0-9]{4,5}).*\<close>.\<close>

definition re_udp_ip :: regex where
  "re_udp_ip =
     Seqs [Many dot, Lit ''udp://'',
       Grp 1 (Seqs [times 1 2 isdigit, Lit ''.'', times 1 2 isdigit, Lit ''.'', times 1 2 isdigit, Lit ''.'', times 1 2 isdigit]),
       Lit '':'', Grp 2 (Some1 isdigit), Many dot]"

definition re_udp_name :: regex where
  "re_udp_name = Seqs [Many dot, Lit ''udp://'', Grp 1 (Some1 dot), Lit '':'', Grp 2 (times 4 1 isdigit), Many dot]"

definition remote_sink :: "netlib \<Rightarrow> remote_cfg \<Rightarrow> log_sink list outcome" where
  "remote_sink N cfg =
     (case regex_match re_udp_ip (lg_url cfg) of
        Some match \<Rightarrow>
          bind_outcome (stoi (group match 2)) (\<lambda>p. Inr [MakeSink cfg (UdpSink (group match 1) (of_int p))])
      | None \<Rightarrow>
          (case regex_match re_udp_name (lg_url cfg) of
             Some match \<Rightarrow>
               bind_outcome (ResolveAddress N (group match 1) (group match 2)) (\<lambda>(res, sa).
                 if GetIp N sa \<noteq> []
                 then bind_outcome (stoi (group match 2)) (\<lambda>p. Inr [MakeSink cfg (UdpSink (GetIp N sa) (of_int p))])
                 else Inr [])
           | None \<Rightarrow> Inr []))"

text \<open>\<^verbatim>\<open>initialize\<close>: the sinks in order. The logger itself takes every message, so that the level is tested by the sinks.\<close>

definition syslog_sink :: "syslog_cfg \<Rightarrow> log_sink list outcome" where
  "syslog_sink s =
     (case map_of facilities (lg_facility s) of
        None \<Rightarrow> Inl (Throw ''unordered_map::at'')
      | Some f \<Rightarrow> Inr [MakeSink s (SyslogSink f)])"

definition initialize :: "netlib \<Rightarrow> clogger_t \<Rightarrow> log_sink list outcome" where
  "initialize N config =
     bind_outcome (case syslogSink config of None \<Rightarrow> Inr [] | Some s \<Rightarrow> syslog_sink s) (\<lambda>sys.
     bind_outcome (case remoteSink config of None \<Rightarrow> Inr [] | Some r \<Rightarrow> remote_sink N r) (\<lambda>remote.
       Inr ((case stdoutSink config of None \<Rightarrow> [] | Some s \<Rightarrow> [MakeSink s StdoutSink])
            @ (case fileSink config of None \<Rightarrow> [] | Some f \<Rightarrow> [MakeSink f (FileSink (lg_path f) (lg_rotate f) (lg_number f))])
            @ sys @ remote)))"

definition logger_level :: log_level where
  "logger_level = LTrace"

section \<open>The lines of the program\<close>

text \<open>The macros \<^verbatim>\<open>PSHT_DEFAULT_...\<close> of a level test the level of the logger before they format anything, the macros \<^verbatim>\<open>PSHT_...\<close> of a
  class write its name (\<^verbatim>\<open>log_as\<close>) before the text. The logger hands the line to each sink that takes its level.\<close>

definition psht_enabled :: "log_level \<Rightarrow> log_level \<Rightarrow> bool" where
  "psht_enabled logger level \<longleftrightarrow> level_no logger \<le> level_no level"

definition class_line :: "string \<Rightarrow> string \<Rightarrow> string" where
  "class_line tag line = ''['' @ tag @ ''] '' @ line"

definition psht_default :: "log_level \<Rightarrow> log_sink list \<Rightarrow> log_level \<Rightarrow> string \<Rightarrow> (sink_kind \<times> string) list" where
  "psht_default logger sinks level line =
     (if psht_enabled logger level then map (\<lambda>s. (ls_kind s, line)) (filter (\<lambda>s. should_log (ls_level s) level) sinks) else [])"

definition psht :: "log_level \<Rightarrow> log_sink list \<Rightarrow> string \<Rightarrow> log_level \<Rightarrow> string \<Rightarrow> (sink_kind \<times> string) list" where
  "psht logger sinks tag level line = psht_default logger sinks level (class_line tag line)"

text \<open>\<^verbatim>\<open>flush_on\<close> is called for info and then for errors, and the last call counts.\<close>

definition flush_level :: log_level where
  "flush_level = LErr"

text \<open>With the level of the logger the arguments of every line are formatted, whatever the verbosity of the sinks.\<close>

lemma psht_always_enabled: "psht_enabled logger_level level"
  by (simp add: psht_enabled_def logger_level_def)

lemma psht_reaches:
  "(kind, line') \<in> set (psht logger_level sinks tag level line) \<longleftrightarrow>
     line' = class_line tag line \<and> (\<exists>s \<in> set sinks. ls_kind s = kind \<and> level_no (ls_level s) \<le> level_no level)"
  by (auto simp: psht_def psht_default_def psht_always_enabled should_log_def)

section \<open>The console\<close>

text \<open>A piece of the output and the file it goes to: from warnings on it is \<^verbatim>\<open>stderr\<close>.\<close>

definition to_stderr :: "log_level \<Rightarrow> bool" where
  "to_stderr level \<longleftrightarrow> level_no level \<ge> 3"

abbreviation ESC :: char where
  "ESC \<equiv> CHR 0x1B"

primrec level_color :: "log_level \<Rightarrow> string" where
  "level_color LTrace = [ESC] @ ''[37m''"
| "level_color LDebug = [ESC] @ ''[36m''"
| "level_color LInfo = [ESC] @ ''[32m''"
| "level_color LWarn = [ESC] @ ''[33m'' @ [ESC] @ ''[1m''"
| "level_color LErr = [ESC] @ ''[31m'' @ [ESC] @ ''[1m''"
| "level_color LCritical = [ESC] @ ''[1m'' @ [ESC] @ ''[41m''"
| "level_color LOff = [ESC] @ ''[m''"

definition PrintRange :: "string \<Rightarrow> nat \<Rightarrow> nat \<Rightarrow> string" where
  "PrintRange formatted start stop = take (stop - start) (drop start formatted)"

text \<open>\<^verbatim>\<open>log\<close>: the text of the formatter with the range it marks.\<close>

definition console_log :: "bool \<Rightarrow> log_level \<Rightarrow> string \<times> nat \<times> nat \<Rightarrow> bool \<times> string list" where
  "console_log shouldDoColors level fmt =
     (case fmt of (formatted, start, stop) \<Rightarrow>
        (to_stderr level,
         if shouldDoColors \<and> stop > start
         then [PrintRange formatted 0 start, level_color level, PrintRange formatted start stop, [ESC] @ ''[m'',
               PrintRange formatted stop (length formatted)]
         else [PrintRange formatted 0 (length formatted)]))"

datatype color_mode = ColorAlways | ColorAutomatic | ColorNever

definition SetColorMode :: "bool \<Rightarrow> bool list \<Rightarrow> color_mode \<Rightarrow> bool" where
  "SetColorMode color_terminal in_terminal mode =
     (case mode of ColorAlways \<Rightarrow> True | ColorAutomatic \<Rightarrow> fold (\<lambda>t b. b \<and> t) in_terminal color_terminal | ColorNever \<Rightarrow> False)"

section \<open>The remote sink\<close>

definition Xor :: "bytes \<Rightarrow> bytes" where
  "Xor buffer = map (\<lambda>b. b XOR 0x40) buffer"

function sink_Pack :: "bytes \<Rightarrow> nat \<Rightarrow> bytes list" where
  "sink_Pack str mtu =
     (if str = [] \<or> mtu = 0 then [] else let len = min mtu (length str) in take len str # sink_Pack (drop len str) mtu)"
  by pat_completeness auto
termination
  by (relation "measure (\<lambda>(s, _). length s)") auto

declare sink_Pack.simps [simp del]

text \<open>The packed header: the magic number, eight bytes with the marks of the first and the last fragment and the number of the
  message, and the length of the message; low bytes first.\<close>

definition le8 :: "u64 \<Rightarrow> bytes" where
  "le8 w = map (\<lambda>i. ucast (drop_bit (8 * i) w)) [0..<8]"

definition interleaved_t :: "bool \<Rightarrow> bool \<Rightarrow> u32 \<Rightarrow> u64 \<Rightarrow> bytes" where
  "interleaved_t s e r l =
     [0x24] @ le8 (push_bit 2 (ucast r) OR (if e then 2 else 0) OR (if s then 1 else 0)) @ le8 l"

definition SendInterleaved :: "bytes \<Rightarrow> bool \<Rightarrow> bool \<Rightarrow> u32 \<Rightarrow> nat \<Rightarrow> bytes" where
  "SendInterleaved fragment start stop random len = interleaved_t start stop random (of_nat len) @ fragment"

fun send_fragments :: "bytes list \<Rightarrow> bool \<Rightarrow> u32 \<Rightarrow> nat \<Rightarrow> bytes list" where
  "send_fragments [] start random len = []"
| "send_fragments (f # fs) start random len =
     SendInterleaved f start (fs = []) random len # send_fragments fs False random len"

text \<open>\<^verbatim>\<open>sink_it_\<close>: the datagrams of a message; of the random number 32 bits are sent.\<close>

definition sink_it :: "u64 \<Rightarrow> bytes \<Rightarrow> bytes list" where
  "sink_it random formatted =
     (let x = Xor formatted in send_fragments (sink_Pack x 512) True (ucast random) (length x))"

section \<open>What is written can be read\<close>

lemma Xor_Xor [simp]: "Xor (Xor bs) = bs"
proof -
  have "(\<lambda>b :: u8. b XOR 0x40) \<circ> (\<lambda>b. b XOR 0x40) = id" by (simp add: fun_eq_iff xor.assoc)
  then show ?thesis by (simp add: Xor_def)
qed

lemma sink_Pack_fragments:
  "mtu > 0 \<Longrightarrow> concat (sink_Pack s mtu) = s \<and> (\<forall>f \<in> set (sink_Pack s mtu). f \<noteq> [] \<and> length f \<le> mtu)"
proof (induction s mtu rule: sink_Pack.induct)
  case (1 s mtu)
  show ?case
  proof (cases "s = []")
    case True
    then show ?thesis by (simp add: sink_Pack.simps)
  next
    case False
    have ne: "\<not> (s = [] \<or> mtu = 0)" using False 1(2) by simp
    note ih = 1(1) [OF ne refl 1(2)]
    then have IH: "concat (sink_Pack (drop (min mtu (length s)) s) mtu) = drop (min mtu (length s)) s"
      "\<forall>f \<in> set (sink_Pack (drop (min mtu (length s)) s) mtu). f \<noteq> [] \<and> length f \<le> mtu" by blast+
    have "sink_Pack s mtu = take (min mtu (length s)) s # sink_Pack (drop (min mtu (length s)) s) mtu"
      using False 1(2) by (subst sink_Pack.simps) (simp add: Let_def)
    moreover have "take (min mtu (length s)) s \<noteq> []" "length (take (min mtu (length s)) s) \<le> mtu"
      using False 1(2) by simp_all
    ultimately show ?thesis using IH by (simp only: concat.simps append_take_drop_id list.set ball_simps simp_thms)
  qed
qed

lemma length_interleaved [simp]: "length (interleaved_t s e r l) = 17"
  by (simp add: interleaved_t_def le8_def)

lemma interleaved_marks: "bit (interleaved_t s e r l ! 1) 0 = s" "bit (interleaved_t s e r l ! 1) 1 = e"
  by (auto simp: interleaved_t_def le8_def upt_rec bit_simps bit_1_iff bit_numeral_rec)

lemma send_fragments_nth:
  "i < length fs \<Longrightarrow> send_fragments fs start random len ! i =
     SendInterleaved (fs ! i) (start \<and> i = 0) (Suc i = length fs) random len"
  by (induction fs arbitrary: i start) (auto simp: nth_Cons split: nat.splits)

lemma send_fragments_length [simp]: "length (send_fragments fs start random len) = length fs"
  by (induction fs arbitrary: start) auto

lemma send_fragments_payload: "map (drop 17) (send_fragments fs start random len) = fs"
  by (induction fs arbitrary: start) (auto simp: SendInterleaved_def)

text \<open>
  the datagrams of a log message carry, behind their headers of 17 bytes, fragments of 1 to 512 bytes that put together and
  unscrambled give the message; the first and only the first is marked as the start, the last and only the last as the end.
\<close>

theorem remote_log_fragments:
  "Xor (concat (map (drop 17) (sink_it random formatted))) = formatted
   \<and> (\<forall>i < length (sink_it random formatted).
        17 < length (sink_it random formatted ! i) \<and> length (sink_it random formatted ! i) \<le> 529
        \<and> bit (sink_it random formatted ! i ! 1) 0 = (i = 0)
        \<and> bit (sink_it random formatted ! i ! 1) 1 = (i = length (sink_it random formatted) - 1))"
proof -
  let ?fs = "sink_Pack (Xor formatted) 512"
  have f: "concat ?fs = Xor formatted" "\<forall>f \<in> set ?fs. f \<noteq> [] \<and> length f \<le> 512"
    using sink_Pack_fragments [of 512 "Xor formatted"] by auto
  have d: "sink_it random formatted = send_fragments ?fs True (ucast random) (length (Xor formatted))"
    by (simp add: sink_it_def Let_def)
  have "17 < length (sink_it random formatted ! i) \<and> length (sink_it random formatted ! i) \<le> 529
      \<and> bit (sink_it random formatted ! i ! 1) 0 = (i = 0) \<and> bit (sink_it random formatted ! i ! 1) 1 = (i = length ?fs - 1)"
    if "i < length ?fs" for i
  proof -
    have "?fs ! i \<noteq> []" "length (?fs ! i) \<le> 512" using f(2) that by auto
    moreover have "i = length ?fs - 1 \<longleftrightarrow> Suc i = length ?fs" using that by linarith
    ultimately show ?thesis
      using that by (simp add: d send_fragments_nth SendInterleaved_def nth_append interleaved_marks [simplified])
  qed
  then show ?thesis by (auto simp: d send_fragments_payload f(1))
qed

theorem remote_log_fragments_witness:
  "Xor (concat (map (drop 17) (sink_it 7 (replicate 600 0x61)))) = replicate 600 0x61"
  using remote_log_fragments [of 7 "replicate 600 0x61"] by simp

section \<open>Levels and escapes\<close>

text \<open>A larger verbosity never shows less.\<close>

lemma verbosity_monotone:
  assumes "n \<le> m" "should_log (SpdlogLevel n) l"
  shows "should_log (SpdlogLevel m) l"
proof -
  have "level_no (SpdlogLevel x) = (if unat x = 0 then 6 else if unat x \<le> 4 then 5 - unat x else 0)" for x
    by (auto simp: SpdlogLevel_def word_unat_eq_iff)
  then have "level_no (SpdlogLevel m) \<le> level_no (SpdlogLevel n)" using assms(1) by (auto simp: word_le_nat_alt)
  then show ?thesis using assms(2) by (simp add: should_log_def)
qed

text \<open>Escaping loses nothing and leaves no quote and no line end unescaped; other control characters stay as they are.\<close>

lemma escape_char_cases:
  "escape_char c = [c] \<and> c \<noteq> CHR 0x5C \<and> c \<noteq> CHR 0x22 \<and> c \<noteq> LF \<and> c \<noteq> CR
   \<or> (\<exists>d. escape_char c = [CHR 0x5C, d])"
  by (simp add: escape_char_def)

lemma escape_char_inj: "escape_char c = escape_char d \<Longrightarrow> c = d"
  by (auto simp: escape_char_def split: if_splits)

lemma escape_char_prefix: "escape_char c @ s = escape_char d @ t \<Longrightarrow> escape_char c = escape_char d \<and> s = t"
  using escape_char_cases [of c] escape_char_cases [of d] by auto

lemma EscapeJson_inj: "EscapeJson s = EscapeJson t \<Longrightarrow> s = t"
proof (induction s arbitrary: t)
  case Nil
  then show ?case by (cases t) (auto simp: EscapeJson_def escape_char_def split: if_splits)
next
  case (Cons c s)
  show ?case
  proof (cases t)
    case Nil
    with Cons.prems show ?thesis by (auto simp: EscapeJson_def escape_char_def split: if_splits)
  next
    case (Cons d t')
    have "escape_char c = escape_char d \<and> EscapeJson s = EscapeJson t'"
      by (rule escape_char_prefix) (use Cons.prems Cons in \<open>simp add: EscapeJson_def\<close>)
    with Cons.IH Cons show ?thesis by (auto dest: escape_char_inj)
  qed
qed

lemma EscapeJson_control: "EscapeJson [CHR 0x01] = [CHR 0x01]"
  by (simp add: EscapeJson_def escape_char_def)

text \<open>
  Without a pattern the verbosity of a sink has no effect: every sink that is configured so takes all messages.
\<close>

theorem verbose_needs_pattern:
  assumes "initialize N config = Inr sinks" "sink \<in> set sinks" "ls_pattern sink = None"
  shows "should_log (ls_level sink) level"
proof -
  define ok where "ok s \<longleftrightarrow> (ls_pattern s = None \<longrightarrow> ls_level s = LTrace)" for s :: log_sink
  have [simp]: "ok (MakeSink cfg kind)" for cfg :: sink_cfg and kind by (simp add: ok_def MakeSink_def)
  have [simp]: "ok (MakeSink cfg kind)" for cfg :: file_cfg and kind by (simp add: ok_def MakeSink_def)
  have [simp]: "ok (MakeSink cfg kind)" for cfg :: syslog_cfg and kind by (simp add: ok_def MakeSink_def)
  have [simp]: "ok (MakeSink cfg kind)" for cfg :: remote_cfg and kind by (simp add: ok_def MakeSink_def)
  have remote: "remote_sink N r = Inr ss \<Longrightarrow> \<forall>s \<in> set ss. ok s" for r ss
    by (auto simp: remote_sink_def bind_outcome_eq_Inr split: option.splits if_splits)
  have sys: "syslog_sink r = Inr ss \<Longrightarrow> \<forall>s \<in> set ss. ok s" for r ss
    by (auto simp: syslog_sink_def split: option.splits)
  obtain a b where ab: "(case syslogSink config of None \<Rightarrow> Inr [] | Some s \<Rightarrow> syslog_sink s) = Inr a"
    "(case remoteSink config of None \<Rightarrow> Inr [] | Some r \<Rightarrow> remote_sink N r) = Inr b"
    "sinks = (case stdoutSink config of None \<Rightarrow> [] | Some s \<Rightarrow> [MakeSink s StdoutSink])
       @ (case fileSink config of None \<Rightarrow> [] | Some f \<Rightarrow> [MakeSink f (FileSink (lg_path f) (lg_rotate f) (lg_number f))]) @ a @ b"
    using assms(1) unfolding initialize_def bind_outcome_eq_Inr by auto
  have "\<forall>s \<in> set a. ok s" "\<forall>s \<in> set b. ok s"
    using ab(1,2) sys remote by (auto split: option.splits)
  then have "ok sink" using assms(2) ab(3) by (auto split: option.splits)
  then have "ls_level sink = LTrace" using assms(3) by (simp add: ok_def)
  then show ?thesis by (simp add: should_log_def)
qed

theorem verbose_needs_pattern_witness:
  "initialize sample_net \<lparr>stdoutSink = Some \<lparr>lg_tag = [], lg_verbose = 1, lg_pattern = []\<rparr>, fileSink = None, syslogSink = None,
       remoteSink = None\<rparr> = Inr [\<lparr>ls_kind = StdoutSink, ls_level = LTrace, ls_pattern = None\<rparr>]
   \<and> should_log LTrace LDebug"
proof -
  have "initialize sample_net \<lparr>stdoutSink = Some \<lparr>lg_tag = [], lg_verbose = 1, lg_pattern = []\<rparr>, fileSink = None, syslogSink = None,
       remoteSink = None\<rparr> = Inr [\<lparr>ls_kind = StdoutSink, ls_level = LTrace, ls_pattern = None\<rparr>]"
    by (simp add: initialize_def MakeSink_def)
  with verbose_needs_pattern [OF this, of _ LDebug] show ?thesis by simp
qed

text \<open>A facility that is not in the table ends the start with an exception.\<close>

lemma unknown_facility:
  "syslogSink config = Some s \<Longrightarrow> map_of facilities (lg_facility s) = None \<Longrightarrow>
     initialize N config = Inl (Throw ''unordered_map::at'')"
  by (simp add: initialize_def syslog_sink_def)

text \<open>The console writes the text of the formatter, with the codes of the colours around the marked range.\<close>

lemma console_log_text:
  assumes "start \<le> stop" "stop \<le> length formatted" "console_log colors level (formatted, start, stop) = (err, parts)"
  shows "err = to_stderr level \<and> concat parts =
    (if colors \<and> start < stop
     then take start formatted @ level_color level @ take (stop - start) (drop start formatted) @ [ESC] @ ''[m''
        @ drop stop formatted
     else formatted)"
  using assms by (auto simp: console_log_def PrintRange_def split: if_splits)

lemma StringReplace_first: "find_text pat s = Some (a, b) \<Longrightarrow> s = a @ pat @ b \<and> StringReplace s pat to = a @ to @ b"
proof -
  have "find_text pat s = Some (a, b) \<Longrightarrow> s = a @ pat @ b"
  proof (induction pat s arbitrary: a rule: find_text.induct)
    case (1 pat s)
    show ?case
    proof (cases "starts_with pat s")
      case True
      with 1(2) show ?thesis by (auto simp: find_text.simps [of pat s] starts_with_iff)
    next
      case False
      have "find_text pat s = (case s of [] \<Rightarrow> None | c # cs \<Rightarrow> map_option (\<lambda>(a, b). (c # a, b)) (find_text pat cs))"
        using False by (subst find_text.simps) simp
      with 1(2) obtain c cs a' where "s = c # cs" "find_text pat cs = Some (a', b)" "a = c # a'"
        by (cases s) (simp, cases "find_text pat (tl s)", auto)
      with 1(1) [OF False] show ?thesis by simp
    qed
  qed
  moreover assume "find_text pat s = Some (a, b)"
  ultimately show ?thesis by (simp add: StringReplace_def)
qed

end
