(* ===== verification/Cmdline.thy ===== *)
theory Cmdline
  imports Containers
begin

text \<open>
  The command line (\<^verbatim>\<open>source/core/cmd/ccmd.cpp\<close>) and the start of the program (\<^verbatim>\<open>application/push1st/main.cpp\<close>). \<^verbatim>\<open>getopt_long_only\<close> is
  a parameter: the list of what its calls return until it returns \<open>-1\<close>. The options are a list in the order of their names.
\<close>

section \<open>Options\<close>

record copt =
  op_longname :: string
  op_shortname :: char
  op_require :: nat
  op_help :: "string option"
  op_section :: "string option"
  op_arghelp :: "string option"
  op_value :: string

type_synonym options = "copt list"

abbreviation NUL :: char where
  "NUL \<equiv> CHR 0x00"

fun str_less :: "string \<Rightarrow> string \<Rightarrow> bool" where
  "str_less s [] = False"
| "str_less [] (d # ds) = True"
| "str_less (c # cs) (d # ds) = (of_char c < (of_char d :: nat) \<or> c = d \<and> str_less cs ds)"

text \<open>\<^verbatim>\<open>Option\<close>: \<^verbatim>\<open>std::map::emplace\<close>, the first option of a name stays.\<close>

fun add_option :: "copt \<Rightarrow> options \<Rightarrow> options" where
  "add_option opt [] = [opt]"
| "add_option opt (o1 # os) =
     (if str_less (op_longname opt) (op_longname o1) then opt # o1 # os
      else if op_longname opt = op_longname o1 then o1 # os
      else o1 # add_option opt os)"

definition find_option :: "options \<Rightarrow> string \<Rightarrow> copt option" where
  "find_option os name = find (\<lambda>opt. op_longname opt = name) os"

definition set_value :: "string \<Rightarrow> string \<Rightarrow> options \<Rightarrow> options" where
  "set_value name v os = map (\<lambda>opt. if op_longname opt = name then opt\<lparr>op_value := v\<rparr> else opt) os"

text \<open>The two descriptions that \<^verbatim>\<open>getopt_long_only\<close> gets: the short options with their colons, and the long ones.\<close>

definition short_text :: "copt \<Rightarrow> string" where
  "short_text opt =
     (if op_shortname opt = NUL then []
      else op_shortname opt # (if op_require opt = 2 then ''::'' else if op_require opt = 1 then '':'' else []))"

definition options_short :: "options \<Rightarrow> string" where
  "options_short os = concat (map short_text os)"

text \<open>What a call returns: an unknown option or a missing argument, a long option without a letter (by its index), or the
  letter of an option; with the argument.\<close>

datatype getopt = OptError | OptLong nat "string option" | OptShort char "string option"

definition option_of :: "options \<Rightarrow> getopt \<Rightarrow> (copt \<times> string option) option" where
  "option_of os ev =
     (case ev of
        OptError \<Rightarrow> None
      | OptLong i arg \<Rightarrow> if i < length os then Some (os ! i, arg) else None
      | OptShort c arg \<Rightarrow> map_option (\<lambda>opt. (opt, arg)) (find (\<lambda>opt. op_shortname opt = c) os))"

definition cmd_step :: "getopt \<Rightarrow> options \<Rightarrow> options outcome" where
  "cmd_step ev os =
     (case option_of os ev of
        None \<Rightarrow> Inr os
      | Some (opt, arg) \<Rightarrow>
          if op_require opt = 1 \<and> arg = None then Inl (Throw (op_longname opt))
          else Inr (set_value (op_longname opt) (case arg of Some a \<Rightarrow> a | None \<Rightarrow> op_longname opt) os))"

fun cmd_parse :: "getopt list \<Rightarrow> options \<Rightarrow> options outcome" where
  "cmd_parse [] os = Inr os"
| "cmd_parse (ev # evs) os = bind_outcome (cmd_step ev os) (cmd_parse evs)"

definition Isset :: "options \<Rightarrow> string \<Rightarrow> bool" where
  "Isset os name = (case find_option os name of Some opt \<Rightarrow> op_value opt \<noteq> [] | None \<Rightarrow> False)"

definition cmd_get :: "options \<Rightarrow> string \<Rightarrow> string" where
  "cmd_get os name = (case find_option os name of Some opt \<Rightarrow> op_value opt | None \<Rightarrow> [])"

section \<open>The help text\<close>

text \<open>\<^verbatim>\<open>CmdlineTrimLine\<close> reads one character past a blank line; in the help text that is the line end or the NUL.\<close>

definition CmdlineTrimLine :: "string \<Rightarrow> string" where
  "CmdlineTrimLine v = dropWhileEnd isspace (dropWhile isspace v)"

function split_lines :: "string \<Rightarrow> string list" where
  "split_lines s =
     (case split_at (\<lambda>c. c = LF) s of
        None \<Rightarrow> [CmdlineTrimLine s]
      | Some (a, _, b) \<Rightarrow> CmdlineTrimLine a # split_lines b)"
  by pat_completeness auto
termination
  by (relation "measure length") (auto dest: split_at_length)

declare split_lines.simps [simp del]

definition CmdlineSplitHelp :: "string option \<Rightarrow> string list outcome" where
  "CmdlineSplitHelp usage_help =
     (case usage_help of
        None \<Rightarrow> Inl (UB ''string_view of a null pointer'')
      | Some s \<Rightarrow> Inr (split_lines s))"

text \<open>\<^verbatim>\<open>%-*s\<close> and \<^verbatim>\<open>%*s\<close>.\<close>

definition pad_right :: "nat \<Rightarrow> string \<Rightarrow> string" where
  "pad_right w s = s @ replicate (w - length s) (CHR '' '')"

definition pad_left :: "nat \<Rightarrow> string \<Rightarrow> string" where
  "pad_left w s = replicate (w - length s) (CHR '' '') @ s"

type_synonym help_line = "string \<times> string \<times> char \<times> string list"

definition help_name :: "copt \<Rightarrow> string" where
  "help_name opt = op_longname opt @ (case op_arghelp opt of Some a \<Rightarrow> ''='' @ a | None \<Rightarrow> [])"

fun help_lines :: "options \<Rightarrow> help_line list outcome" where
  "help_lines [] = Inr []"
| "help_lines (opt # os) =
     bind_outcome (CmdlineSplitHelp (op_help opt)) (\<lambda>ls.
     bind_outcome (help_lines os) (\<lambda>rest.
       Inr ((case op_section opt of None \<Rightarrow> [] | Some s \<Rightarrow> s, help_name opt, op_shortname opt, ls) # rest)))"

text \<open>The order of \<^verbatim>\<open>std::multimap\<close>: by section, options of one section in the order they came.\<close>

fun multi_insert :: "help_line \<Rightarrow> help_line list \<Rightarrow> help_line list" where
  "multi_insert l [] = [l]"
| "multi_insert l (m # ms) = (if str_less (fst l) (fst m) then l # m # ms else m # multi_insert l ms)"

definition by_section :: "help_line list \<Rightarrow> help_line list" where
  "by_section ls = fold multi_insert ls []"

definition max_size :: "options \<Rightarrow> nat" where
  "max_size os = foldl (\<lambda>n opt. max n (length (help_name opt))) 0 os"

definition print_line :: "string \<Rightarrow> nat \<Rightarrow> help_line \<Rightarrow> string" where
  "print_line sep w l =
     (case l of (_, longname, shortname, ls) \<Rightarrow>
        (if shortname \<noteq> NUL then ''   -'' @ [shortname] @ '', '' else ''       '')
        @ (if longname \<noteq> [] then ''--'' @ pad_right w longname @ sep else ''  '' @ pad_left w '' '' @ '' '' @ [CHR 0x09])
        @ (case ls of
             [] \<Rightarrow> []
           | h # hs \<Rightarrow> h @ concat (map (\<lambda>x. [LF] @ pad_left (7 + 2 + w + 1) '' '' @ [CHR 0x09] @ x) hs))
        @ [LF])"

fun print_sections :: "nat \<Rightarrow> string \<Rightarrow> help_line list \<Rightarrow> string" where
  "print_sections w section [] = []"
| "print_sections w section (l # ls) =
     (if fst l = [] then print_sections w section ls
      else (if section \<noteq> fst l then [LF] @ ''  '' @ fst l @ '':'' @ [LF, LF] else [])
        @ print_line [CHR 0x09] w l @ print_sections w (fst l) ls)"

definition Print :: "string \<Rightarrow> string \<Rightarrow> options \<Rightarrow> string outcome" where
  "Print program banner os =
     bind_outcome (help_lines os) (\<lambda>ls.
       let ls = by_section ls; w = max_size os in
       Inr ((if banner \<noteq> [] then banner @ (if last banner \<noteq> LF then [LF] else [])
             else ''Usage: '' @ program @ '' [OPTIONS] ... '' @ [LF])
            @ print_sections w [] ls
            @ (if list_ex (\<lambda>l. fst l \<noteq> []) ls then [LF] @ ''   '' @ [LF, LF] else [])
            @ concat (map (print_line ('' '' @ [CHR 0x09]) w) (filter (\<lambda>l. fst l = []) ls))))"

section \<open>The start of the program\<close>

definition main_options :: options where
  "main_options =
     fold add_option
       [\<lparr>op_longname = ''config'', op_shortname = CHR ''c'', op_require = 1,
         op_help = Some ''Location of the config yaml file'', op_section = None, op_arghelp = Some ''server.yaml'', op_value = []\<rparr>,
        \<lparr>op_longname = ''help'', op_shortname = CHR ''h'', op_require = 0,
         op_help = Some ''Show command line usage parameters'', op_section = None, op_arghelp = None, op_value = []\<rparr>,
        \<lparr>op_longname = ''version'', op_shortname = CHR ''v'', op_require = 0,
         op_help = Some ''Show version and exit'', op_section = None, op_arghelp = None, op_value = []\<rparr>,
        \<lparr>op_longname = ''log'', op_shortname = CHR ''l'', op_require = 1,
         op_help = Some ''Log file store path'', op_section = None, op_arghelp = None, op_value = []\<rparr>] []"

text \<open>What the process does: print, start the broker with a configuration file, and the code with which it exits. \<open>reopen\<close> tells
  whether a log file could be opened, \<open>run\<close> is loading the configuration, the log and the broker's run.\<close>

datatype main_action = Printed string | ReopenFailed | RunBroker string

definition path_join :: "string \<Rightarrow> string \<Rightarrow> string" where
  "path_join dir name = dir @ (if last dir = CHR ''/'' then [] else ''/'') @ name"

definition main_run ::
  "string \<Rightarrow> string \<Rightarrow> (string \<Rightarrow> bool) \<Rightarrow> (string \<Rightarrow> unit outcome) \<Rightarrow> getopt list \<Rightarrow> (nat \<times> main_action list) outcome" where
  "main_run program version reopen run evs =
     bind_outcome (cmd_parse evs main_options) (\<lambda>cmd.
       let log = cmd_get cmd ''log'' in
       if Isset cmd ''log'' \<and> \<not> reopen (path_join log ''push1st.log'') then Inr (1, [ReopenFailed])
       else if Isset cmd ''log'' \<and> \<not> reopen (path_join log ''push1st.err'') then Inr (1, [ReopenFailed])
       else if Isset cmd ''version'' then Inr (0, [Printed version])
       else if Isset cmd ''help'' then bind_outcome (Print program [] cmd) (\<lambda>txt. Inr (0, [Printed txt]))
       else
         let configFile = (if Isset cmd ''config'' then cmd_get cmd ''config'' else ''./server.yaml'') in
         case run configFile of
           Inl (Throw m) \<Rightarrow> Inr (1, [RunBroker configFile])
         | Inl (UB m) \<Rightarrow> Inl (UB m)
         | Inr _ \<Rightarrow> Inr (0, [RunBroker configFile]))"

section \<open>Options and their values\<close>

lemma str_less_irrefl [simp]: "\<not> str_less s s"
  by (induction s) auto

lemma str_less_trans: "str_less a b \<Longrightarrow> str_less b c \<Longrightarrow> str_less a c"
proof (induction a b arbitrary: c rule: str_less.induct)
  case (2 d ds)
  then show ?case by (cases c) auto
next
  case (3 x xs y ys)
  then show ?case by (cases c) auto
qed simp

lemma of_char_neq: "c \<noteq> d \<Longrightarrow> of_char c \<noteq> (of_char d :: nat)"
  by (metis char_of_char)

lemma str_less_total: "a \<noteq> b \<Longrightarrow> \<not> str_less a b \<Longrightarrow> str_less b a"
proof (induction a b rule: str_less.induct)
  case (1 s)
  then show ?case by (cases s) auto
next
  case (3 c cs d ds)
  have "c = d \<or> of_char c < (of_char d :: nat) \<or> of_char d < (of_char c :: nat)"
    using of_char_neq [of c d] by linarith
  with 3 show ?case by auto
qed simp

abbreviation names_sorted :: "options \<Rightarrow> bool" where
  "names_sorted os \<equiv> sorted_wrt str_less (map op_longname os)"

lemma set_add_option:
  "op_longname ` set (add_option opt os) = insert (op_longname opt) (op_longname ` set os)"
  by (induction os) auto

lemma add_option_sorted: "names_sorted os \<Longrightarrow> names_sorted (add_option opt os)"
proof (induction os)
  case (Cons o1 os)
  consider "str_less (op_longname opt) (op_longname o1)" | "op_longname opt = op_longname o1"
    | "\<not> str_less (op_longname opt) (op_longname o1)" "op_longname opt \<noteq> op_longname o1" by blast
  then show ?case
  proof cases
    case 1
    with Cons.prems show ?thesis by (auto intro: str_less_trans)
  next
    case 3
    then have "str_less (op_longname o1) (op_longname opt)" by (metis str_less_total)
    moreover have "names_sorted (add_option opt os)" using Cons by simp
    moreover have "\<forall>n \<in> op_longname ` set (add_option opt os). str_less (op_longname o1) n"
      unfolding set_add_option using Cons.prems \<open>str_less (op_longname o1) (op_longname opt)\<close> by simp
    ultimately show ?thesis using 3 by simp
  qed (use Cons.prems in simp)
qed simp

lemma cmd_get_set_value:
  "cmd_get (set_value n v os) m = (if m = n \<and> find_option os n \<noteq> None then v else cmd_get os m)"
  by (induction os) (auto simp: cmd_get_def find_option_def set_value_def)

text \<open>The option that an event sets, and the value; it depends on the names and letters only.\<close>

definition target :: "options \<Rightarrow> getopt \<Rightarrow> (string \<times> string) option" where
  "target os ev =
     map_option (\<lambda>(opt, arg). (op_longname opt, case arg of Some a \<Rightarrow> a | None \<Rightarrow> op_longname opt)) (option_of os ev)"

lemma find_set_value:
  "find (\<lambda>opt. op_shortname opt = c) (set_value n v os) =
     map_option (\<lambda>opt. if op_longname opt = n then opt\<lparr>op_value := v\<rparr> else opt) (find (\<lambda>opt. op_shortname opt = c) os)"
  by (induction os) (auto simp: set_value_def)

lemma target_set_value: "target (set_value n v os) = target os"
proof
  fix ev
  show "target (set_value n v os) ev = target os ev"
  proof (cases ev)
    case (OptLong i arg)
    then show ?thesis by (auto simp: target_def option_of_def set_value_def split: option.splits)
  next
    case (OptShort c arg)
    show ?thesis
      unfolding OptShort target_def option_of_def getopt.case find_set_value
      by (cases "find (\<lambda>opt. op_shortname opt = c) os") (auto split: option.splits)
  qed (simp add: target_def option_of_def)
qed

lemma option_of_find: "option_of os ev = Some (opt, arg) \<Longrightarrow> find_option os (op_longname opt) \<noteq> None"
proof -
  assume "option_of os ev = Some (opt, arg)"
  then have "opt \<in> set os" by (auto simp: option_of_def find_Some_iff split: getopt.splits if_splits)
  then show ?thesis by (auto simp: find_option_def find_None_iff)
qed

definition last_value :: "options \<Rightarrow> getopt list \<Rightarrow> string \<Rightarrow> string" where
  "last_value os evs name =
     fold (\<lambda>ev v. case target os ev of Some (n, x) \<Rightarrow> if n = name then x else v | None \<Rightarrow> v) evs (cmd_get os name)"

lemma cmd_parse_value: "cmd_parse evs os = Inr os' \<Longrightarrow> cmd_get os' name = last_value os evs name"
proof (induction evs arbitrary: os)
  case (Cons ev evs)
  then obtain os1 where s: "cmd_step ev os = Inr os1" and r: "cmd_parse evs os1 = Inr os'"
    by (auto simp: bind_outcome_eq_Inr)
  have "target os1 = target os \<and> cmd_get os1 name =
      (case target os ev of Some (n, x) \<Rightarrow> if n = name then x else cmd_get os name | None \<Rightarrow> cmd_get os name)"
  proof (cases "option_of os ev")
    case None
    then show ?thesis using s by (simp add: cmd_step_def target_def)
  next
    case (Some p)
    obtain opt arg where p: "p = (opt, arg)" by (cases p)
    have "find_option os (op_longname opt) \<noteq> None" using option_of_find Some p by simp
    then show ?thesis
      using s Some p by (auto simp: cmd_step_def target_def target_set_value cmd_get_set_value split: if_splits)
  qed
  then show ?case using Cons.IH [OF r] by (simp add: last_value_def)
qed (simp add: last_value_def)

lemma Isset_cmd_get: "Isset os name \<longleftrightarrow> cmd_get os name \<noteq> []"
  by (simp add: Isset_def cmd_get_def split: option.splits)

text \<open>
  the broker is started only without a request for the version or the help, with the configuration file given
  last (or \<^verbatim>\<open>./server.yaml\<close>), and the program exits with 0 exactly if loading and running it threw nothing.
\<close>

theorem main_starts_broker:
  assumes "main_run program version reopen run evs = Inr (code, acts)" "RunBroker f \<in> set acts"
  shows "last_value main_options evs ''version'' = [] \<and> last_value main_options evs ''help'' = []
    \<and> f = (if last_value main_options evs ''config'' = [] then ''./server.yaml'' else last_value main_options evs ''config'')
    \<and> (code = 0 \<longleftrightarrow> run f = Inr ())"
proof -
  obtain cmd where c: "cmd_parse evs main_options = Inr cmd"
    using assms(1) by (auto simp: main_run_def bind_outcome_eq_Inr)
  note [simp] = Isset_cmd_get cmd_parse_value [OF c]
  show ?thesis
    using assms c by (auto simp: main_run_def Let_def bind_outcome_eq_Inr split: if_splits sum.splits failure.splits)
qed

theorem main_starts_broker_witness:
  "main_run ''push1st'' ''1'' (\<lambda>_. True) (\<lambda>_. Inr ()) [OptShort (CHR ''c'') (Some ''a.yaml''), OptError] = Inr (0, [RunBroker ''a.yaml''])
   \<and> last_value main_options [OptShort (CHR ''c'') (Some ''a.yaml''), OptError] ''version'' = []"
proof -
  have "main_run ''push1st'' ''1'' (\<lambda>_. True) (\<lambda>_. Inr ()) [OptShort (CHR ''c'') (Some ''a.yaml''), OptError] =
      Inr (0, [RunBroker ''a.yaml''])"
    by (simp add: main_run_def main_options_def cmd_step_def option_of_def set_value_def Isset_def cmd_get_def find_option_def)
  with main_starts_broker [OF this] show ?thesis by simp
qed

end
