(* ===== verification/Broker.thy ===== *)
theory Broker
  imports Listen Config Logging Cmdline K8s Api Hooks
begin

text \<open>
  The whole process: the poll threads and their ends (\<^verbatim>\<open>source/inet/cepoll.cpp\<close>), the servers as groups of threads
  (\<^verbatim>\<open>ctcpserver.cpp\<close>, \<^verbatim>\<open>cunixserver.cpp\<close>, \<^verbatim>\<open>cacceptor.h\<close>), the constructors of the cluster, the API and the websocket server,
  \<^verbatim>\<open>cconfig::Load\<close>, and \<^verbatim>\<open>cbroker::Initialize\<close>, which starts everything, waits for a signal and joins the threads. A step
  of the start can succeed, throw, end the process or not return.
\<close>

section \<open>Steps of the start\<close>

datatype 'a start = Started 'a | Refused failure | Exits | NoReturn

fun bind_start :: "'a start \<Rightarrow> ('a \<Rightarrow> 'b start) \<Rightarrow> 'b start" where
  "bind_start (Started a) f = f a"
| "bind_start (Refused e) f = Refused e"
| "bind_start Exits f = Exits"
| "bind_start NoReturn f = NoReturn"

fun lift_outcome :: "'a outcome \<Rightarrow> 'a start" where
  "lift_outcome (Inr a) = Started a"
| "lift_outcome (Inl e) = Refused e"

text \<open>A \<^verbatim>\<open>catch\<close> of \<^verbatim>\<open>std::exception\<close> that throws again with another message.\<close>

fun rethrow :: "(string \<Rightarrow> string) \<Rightarrow> 'a outcome \<Rightarrow> 'a outcome" where
  "rethrow f (Inl (Throw m)) = Inl (Throw (f m))"
| "rethrow f (Inl (UB m)) = Inl (UB m)"
| "rethrow f (Inr a) = Inr a"

lemma rethrow_eq_Inr: "rethrow f x = Inr a \<longleftrightarrow> x = Inr a"
  by (cases "(f, x)" rule: rethrow.cases) auto

lemma bind_start_eq_Started: "bind_start x f = Started b \<longleftrightarrow> (\<exists>a. x = Started a \<and> f a = Started b)"
  by (cases x) auto

lemma lift_outcome_eq_Started: "lift_outcome x = Started a \<longleftrightarrow> x = Inr a"
  by (cases x) auto

section \<open>Poll threads\<close>

record poll_life =
  pl_fdPoll :: int
  pl_exitFd :: int
  pl_thread :: bool

text \<open>The constructor: what \<^verbatim>\<open>epoll_create1\<close> and \<^verbatim>\<open>eventfd\<close> give.\<close>

definition cpoll_new :: "int \<times> int \<Rightarrow> poll_life outcome" where
  "cpoll_new fds =
     (if fst fds \<le> 0 then Inl (Throw ''cpoll'')
      else if snd fds \<le> 0 then Inl (Throw ''cpoll'')
      else Inr \<lparr>pl_fdPoll = fst fds, pl_exitFd = snd fds, pl_thread = False\<rparr>)"

definition cpoll_Listen :: "errno option \<Rightarrow> poll_life \<Rightarrow> (errno option \<times> poll_life) outcome" where
  "cpoll_Listen ctl p =
     (if pl_fdPoll p > 0 \<and> \<not> pl_thread p then
        (case ctl of
           Some e \<Rightarrow> Inl (Throw ''Listen'')
         | None \<Rightarrow> Inr (None, p\<lparr>pl_thread := True\<rparr>))
      else Inr (Some EALREADY, p))"

text \<open>\<^verbatim>\<open>Join\<close> waits for the thread, and gives the descriptors it closes.\<close>

definition cpoll_Join :: "poll_life \<Rightarrow> poll_life \<times> int list" where
  "cpoll_Join p =
     (\<lparr>pl_fdPoll = (if pl_fdPoll p > 0 then -1 else pl_fdPoll p), pl_exitFd = (if pl_exitFd p > 0 then -1 else pl_exitFd p),
       pl_thread = False\<rparr>,
      (if pl_exitFd p > 0 then [pl_exitFd p] else []) @ (if pl_fdPoll p > 0 then [pl_fdPoll p] else []))"

section \<open>Servers\<close>

text \<open>What the system gives a server: the descriptors of its polls, the answers when their exits are registered, and the
  calls on its listening sockets.\<close>

record server_env =
  se_accept :: "nat \<Rightarrow> int \<times> int"
  se_worker :: "nat \<Rightarrow> int \<times> int"
  se_accept_ctl :: "nat \<Rightarrow> errno option"
  se_worker_ctl :: "nat \<Rightarrow> errno option"
  se_sock :: "nat \<Rightarrow> sock_calls \<times> errno option"

record server_life =
  sl_accept :: "poll_life list"
  sl_workers :: "poll_life list"
  sl_sockets :: "int list"

fun make_polls :: "(nat \<Rightarrow> int \<times> int) \<Rightarrow> nat \<Rightarrow> poll_life list outcome" where
  "make_polls fds 0 = Inr []"
| "make_polls fds (Suc n) =
     bind_outcome (make_polls fds n) (\<lambda>ps. bind_outcome (cpoll_new (fds n)) (\<lambda>p. Inr (ps @ [p])))"

definition ctcpserver_new :: "server_env \<Rightarrow> nat \<Rightarrow> nat \<Rightarrow> server_life outcome" where
  "ctcpserver_new se numthreads numaccept =
     bind_outcome (make_polls (se_accept se) numaccept) (\<lambda>accept.
     bind_outcome (make_polls (se_worker se) numthreads) (\<lambda>workers.
       Inr \<lparr>sl_accept = accept, sl_workers = workers, sl_sockets = []\<rparr>))"

fun listen_polls :: "(nat \<Rightarrow> errno option) \<Rightarrow> nat \<Rightarrow> poll_life list \<Rightarrow> poll_life list outcome" where
  "listen_polls ctl i [] = Inr []"
| "listen_polls ctl i (p # ps) =
     bind_outcome (cpoll_Listen (ctl i) p) (\<lambda>(_, p').
     bind_outcome (listen_polls ctl (Suc i) ps) (\<lambda>ps'. Inr (p' # ps')))"

text \<open>The loop of \<^verbatim>\<open>cacceptor::Listen\<close> over the polls: each gets a socket (\<^verbatim>\<open>acceptor_Listen\<close> of theory \<open>Listen\<close> for one worker), then
  its thread.\<close>

fun acceptor_run ::
  "netlib \<Rightarrow> int \<Rightarrow> listen_t \<Rightarrow> server_env \<Rightarrow> nat \<Rightarrow> poll_life list \<Rightarrow> kernel \<Rightarrow> (poll_life list \<times> int list \<times> kernel) outcome" where
  "acceptor_run N errno0 listen se i [] k = Inr ([], [], k)"
| "acceptor_run N errno0 listen se i (p # ps) k =
     bind_outcome (acceptor_Listen N errno0 listen [se_sock se i] k) (\<lambda>(fds, k').
     bind_outcome (cpoll_Listen (se_accept_ctl se i) p) (\<lambda>(_, p').
     bind_outcome (acceptor_run N errno0 listen se (Suc i) ps k') (\<lambda>(ps', fds', k'').
       Inr (p' # ps', fds @ fds', k''))))"

text \<open>\<^verbatim>\<open>TcpListen\<close> and \<^verbatim>\<open>UnixListen\<close>: the workers first, then the acceptors.\<close>

definition server_listen :: "netlib \<Rightarrow> int \<Rightarrow> listen_t \<Rightarrow> server_env \<Rightarrow> server_life \<Rightarrow> kernel \<Rightarrow> (server_life \<times> kernel) outcome" where
  "server_listen N errno0 listen se s k =
     bind_outcome (listen_polls (se_worker_ctl se) 0 (sl_workers s)) (\<lambda>workers.
     bind_outcome (acceptor_run N errno0 listen se 0 (sl_accept s) k) (\<lambda>(accept, fds, k').
       Inr (\<lparr>sl_accept = accept, sl_workers = workers, sl_sockets = fds\<rparr>, k')))"

text \<open>\<^verbatim>\<open>TcpJoin\<close> and \<^verbatim>\<open>UnixJoin\<close>: the acceptors first, then the workers. The listening sockets are not closed.\<close>

definition server_Join :: "server_life \<Rightarrow> server_life \<times> int list" where
  "server_Join s =
     (s\<lparr>sl_accept := map (fst \<circ> cpoll_Join) (sl_accept s), sl_workers := map (fst \<circ> cpoll_Join) (sl_workers s)\<rparr>,
      concat (map (snd \<circ> cpoll_Join) (sl_accept s)) @ concat (map (snd \<circ> cpoll_Join) (sl_workers s)))"

section \<open>TLS\<close>

text \<open>\<^verbatim>\<open>ssloptions_t::Context\<close>: whether there is a context. The result of making one is not looked at; \<open>create\<close> is
  \<^verbatim>\<open>SslCreateClientContext\<close> or \<^verbatim>\<open>SslCreateContext\<close>.\<close>

definition Context :: "(bool \<Rightarrow> string \<Rightarrow> string \<Rightarrow> ssl_ctx_result) \<Rightarrow> ssloptions_t \<Rightarrow> bool start" where
  "Context create ssl =
     (if ssl_Enable ssl then
        (case create (ssl_Client ssl) (ssl_Cert ssl) (ssl_Key ssl) of
           SslReady \<Rightarrow> Started True
         | SslError e \<Rightarrow> Started False
         | ExitFailure \<Rightarrow> Exits)
      else Started False)"

section \<open>The environment of the start\<close>

record start_env =
  st_net :: netlib
  st_errno :: int
  st_exists :: "string \<Rightarrow> bool"
  st_local :: "u32 list"
  st_ssl :: "bool \<Rightarrow> string \<Rightarrow> string \<Rightarrow> ssl_ctx_result"
  st_dirs :: bool
  st_tapi :: server_env
  st_uapi :: server_env
  st_ws :: server_env
  st_udp :: sock_calls
  st_udp_add :: "errno option"
  st_poll :: "int \<times> int"
  st_poll_ctl :: "errno option"
  st_smpp_poll :: "int \<times> int"
  st_smpp_ctl :: "errno option"
  st_k8s_poll :: "int \<times> int"
  st_k8s_ctl :: "errno option"
  st_parse :: "string \<Rightarrow> json option"
  st_pod_io :: call_io
  st_set_io :: call_io
  st_k8s_net :: net_call
  st_k8s_add :: "int \<Rightarrow> errno option"
  st_k8s_send :: "string \<Rightarrow> errno option"

section \<open>The cluster\<close>

text \<open>\<^verbatim>\<open>clistadapter\<close>: the nodes in turn, each resolved and then taken in as in \<open>clistadapter_loop\<close>. Resolving can throw.\<close>

definition node_resolve :: "netlib \<Rightarrow> int \<Rightarrow> string \<Rightarrow> string \<Rightarrow> ((u32 \<times> nat) \<times> sockaddr) option outcome" where
  "node_resolve N errno0 port n =
     (if n = [] then Inr None
      else bind_outcome (GetSockAddr N errno0 n port AF_INET) (\<lambda>(res, sa).
        Inr (if res = 0 then Some ((GetIp4 sa, unat (GetPort sa)), sa) else None)))"

fun clistadapter_nodes ::
  "netlib \<Rightarrow> int \<Rightarrow> u32 list \<Rightarrow> string \<Rightarrow> u16 \<Rightarrow> string list \<Rightarrow> sockaddr peers \<Rightarrow> sockaddr peers outcome" where
  "clistadapter_nodes N errno0 locals port portInt [] nodes = Inr nodes"
| "clistadapter_nodes N errno0 locals port portInt (n # ns) nodes =
     bind_outcome (node_resolve N errno0 port n) (\<lambda>r.
       clistadapter_nodes N errno0 locals port portInt ns
         (clistadapter_loop (\<lambda>_. r) (IsLocalIp locals) (unat portInt) [n] nodes))"

definition clistadapter_new :: "netlib \<Rightarrow> int \<Rightarrow> u32 list \<Rightarrow> string list \<Rightarrow> string \<Rightarrow> sockaddr peers outcome" where
  "clistadapter_new N errno0 locals nodes port =
     bind_outcome (Address.stoi port) (\<lambda>p. clistadapter_nodes N errno0 locals port (htons (of_int p)) nodes [])"

datatype adapter = NoAdapter | ListAdapter "sockaddr peers" | K8sAdapter "sockaddr ck8sadapter" poll_life

definition MakeInterface :: "start_env \<Rightarrow> cluster_t \<Rightarrow> adapter start" where
  "MakeInterface st cl =
     (case cl_Type cl of
        type_peers \<Rightarrow>
          lift_outcome
            (bind_outcome (dsn_Port (snd (Assign (cl_Listen cl) cdsn_new)) []) (\<lambda>port.
             bind_outcome (clistadapter_new (st_net st) (st_errno st) (st_local st) (cl_Nodes cl) port) (\<lambda>nodes.
               Inr (ListAdapter nodes))))
      | type_k8s \<Rightarrow>
          bind_start (lift_outcome (cpoll_new (st_k8s_poll st))) (\<lambda>p.
          bind_start (Context (st_ssl st) (cl_Ssl cl)) (\<lambda>ssl.
          bind_start (lift_outcome (GetSockAddr (st_net st) (st_errno st) (cl_Url cl) ''0'' AF_INET)) (\<lambda>(res, sa).
            if res < 0 then Refused (Throw ''can't get k8s address'')
            else Started (K8sAdapter (ck8sadapter_new sa_zero sa (cl_Url cl) (cl_Namespace cl) (cl_Token cl) (cl_PodName cl) ssl) p))))
      | type_nil \<Rightarrow> Started NoAdapter)"

text \<open>\<^verbatim>\<open>Start\<close> of the adapter. Without an adapter the call goes through a null pointer.\<close>

fun adapter_Start :: "start_env \<Rightarrow> adapter \<Rightarrow> adapter start" where
  "adapter_Start st NoAdapter = Refused (UB ''null adapter'')"
| "adapter_Start st (ListAdapter nodes) = Started (ListAdapter nodes)"
| "adapter_Start st (K8sAdapter a p) =
     bind_start (case fst (k8s_Init (st_parse st) (st_pod_io st) (st_set_io st) sa_zero a) of
                   None \<Rightarrow> NoReturn | Some r \<Rightarrow> lift_outcome r) (\<lambda>a.
     bind_start (lift_outcome (cpoll_Listen (st_k8s_ctl st) p)) (\<lambda>(_, p).
       Started (K8sAdapter (fst (k8s_Connect (st_k8s_net st) (st_k8s_add st) (st_k8s_send st) a)) p)))"

definition adapter_peers :: "adapter \<Rightarrow> sockaddr peers option" where
  "adapter_peers ad =
     (case ad of NoAdapter \<Rightarrow> None | ListAdapter nodes \<Rightarrow> Some nodes | K8sAdapter a p \<Rightarrow> Some (k8s_nodes a))"

record cluster_life =
  cc_cluster :: "sockaddr ccluster"
  cc_adapter :: adapter
  cc_fd :: int
  cc_module :: "string option"

definition ccluster_new :: "start_env \<Rightarrow> cluster_t \<Rightarrow> kernel \<Rightarrow> (cluster_life \<times> kernel) start" where
  "ccluster_new st cl k =
     bind_start (lift_outcome (read_view (ds_Path (snd (Assign (cl_Module cl) cdsn_new))))) (\<lambda>path.
     let idle = \<lparr>cc_cluster = \<lparr>clusPingInterval = int (cl_PingInterval cl), clusPingTime = 0, clusGcTime = 0, clusSync = cl_Sync cl,
                   clusNodes = None\<rparr>,
                 cc_adapter = NoAdapter, cc_fd = -1, cc_module = (if st_exists st path then Some path else None)\<rparr> in
     if cl_Enable cl then
       bind_start (MakeInterface st cl) (\<lambda>ad.
       bind_start (lift_outcome (read_view (ds_HostPort (snd (Assign (cl_Listen cl) cdsn_new))))) (\<lambda>hostport.
       bind_start (lift_outcome (UdpListen (st_net st) (st_errno st) hostport (st_udp st) (- 1) k)) (\<lambda>(res, fd, k').
         if res \<noteq> UdpReady then Refused (Throw ''Cluster server exception'')
         else
           bind_start (adapter_Start st ad) (\<lambda>ad'.
             Started (idle\<lparr>cc_cluster := (cc_cluster idle)\<lparr>clusNodes := adapter_peers ad'\<rparr>, cc_adapter := ad', cc_fd := fd\<rparr>, k')))))
     else Started (idle, k))"

text \<open>\<^verbatim>\<open>CallModule\<close> and the reports that only a script sees.\<close>

definition CallModule :: "cluster_life \<Rightarrow> string \<Rightarrow> string list \<Rightarrow> (string \<times> string \<times> string list) list" where
  "CallModule cc method args = (case cc_module cc of Some script \<Rightarrow> [(script, method, args)] | None \<Rightarrow> [])"

definition cluster_OnClusterReg :: "cluster_life \<Rightarrow> string \<Rightarrow> string \<Rightarrow> (string \<times> string \<times> string list) list" where
  "cluster_OnClusterReg cc ip data = CallModule cc ''OnClusterRegister'' [ip, data]"

definition cluster_OnClusterUnReg :: "cluster_life \<Rightarrow> string \<Rightarrow> string \<Rightarrow> (string \<times> string \<times> string list) list" where
  "cluster_OnClusterUnReg cc ip data = CallModule cc ''OnClusterUnRegister'' [ip, data]"

section \<open>The servers of the broker\<close>

text \<open>\<^verbatim>\<open>chttpserver\<close> and \<^verbatim>\<open>cwsserver\<close>: the threads are made and the constructor already listens.\<close>

definition http_server_new ::
  "start_env \<Rightarrow> server_env \<Rightarrow> nat \<Rightarrow> nat \<Rightarrow> string \<Rightarrow> ssloptions_t \<Rightarrow> kernel \<Rightarrow> (server_life \<times> kernel) start" where
  "http_server_new st se threads accept listen ssl k =
     bind_start (lift_outcome (read_view (ds_HostPort (snd (Assign listen cdsn_new))))) (\<lambda>hostport.
     bind_start (Context (st_ssl st) ssl) (\<lambda>ctx.
     lift_outcome
       (bind_outcome (ctcpserver_new se threads accept) (\<lambda>s.
         server_listen (st_net st) (st_errno st) \<lparr>ln_proto = IPPROTO_TCP, ln_maxlisten = 4096, ln_af = AF_INET, ln_hostport = hostport\<rparr>
           se s k))))"

definition cunixapiserver_new :: "start_env \<Rightarrow> interface_t \<Rightarrow> kernel \<Rightarrow> (server_life \<times> kernel) outcome" where
  "cunixapiserver_new st i k =
     bind_outcome (ctcpserver_new (st_uapi st) (if_Threads i) (if_Accept i)) (\<lambda>s.
       rethrow (\<lambda>_. ''Unix API server exception'')
         (bind_outcome (read_view (ds_Path (snd (Assign (if_Unix i) cdsn_new)))) (\<lambda>path.
            if \<not> st_dirs st then Inl (Throw ''create_directories'')
            else server_listen (st_net st) (st_errno st)
              \<lparr>ln_proto = IPPROTO_UNIX, ln_maxlisten = 16, ln_af = AF_UNIX, ln_hostport = path\<rparr> (st_uapi st) s k)))"

text \<open>The SMPP service: its poll and, for a web hook, the address.\<close>

definition smpp_service_new :: "start_env \<Rightarrow> smpp_t \<Rightarrow> poll_life outcome" where
  "smpp_service_new st sm =
     bind_outcome (cpoll_new (st_smpp_poll st)) (\<lambda>p.
     bind_outcome (if sm_Hook sm = [] then Inr () else bind_outcome (dsn_of (snd (Assign (sm_Hook sm) cdsn_new))) (\<lambda>_. Inr ())) (\<lambda>_.
       Inr p))"

record api_life =
  al_tcp :: "server_life option"
  al_unix :: "server_life option"
  al_routes :: "api_route routes"
  al_smpp :: "poll_life option"

definition smpp_path :: "smpp_t \<Rightarrow> string option" where
  "smpp_path sm = (if sm_Enable sm \<and> sm_Path sm \<noteq> [] then Some (sm_Path sm) else None)"

text \<open>A server that is made only if its address is set.\<close>

definition optional :: "bool \<Rightarrow> (kernel \<Rightarrow> (server_life \<times> kernel) start) \<Rightarrow> kernel \<Rightarrow> (server_life option \<times> kernel) start" where
  "optional wanted create k = (if wanted then bind_start (create k) (\<lambda>(s, k'). Started (Some s, k')) else Started (None, k))"

definition capiserver_new :: "start_env \<Rightarrow> interface_t \<Rightarrow> kernel \<Rightarrow> (api_life \<times> kernel) start" where
  "capiserver_new st i k =
     bind_start (optional (if_Tcp i \<noteq> []) (http_server_new st (st_tapi st) (if_Threads i) (if_Accept i) (if_Tcp i) (if_Ssl i)) k)
       (\<lambda>(tcp, k).
     bind_start (optional (if_Unix i \<noteq> []) (\<lambda>k. lift_outcome (cunixapiserver_new st i k)) k) (\<lambda>(unix, k).
     bind_start (lift_outcome (api_routes (if_Path i) None)) (\<lambda>rs.
       if smpp_path (if_Smpp i) = None then Started (\<lparr>al_tcp = tcp, al_unix = unix, al_routes = rs, al_smpp = None\<rparr>, k)
       else
         bind_start (lift_outcome (smpp_service_new st (if_Smpp i))) (\<lambda>p.
         bind_start (lift_outcome (api_routes (if_Path i) (smpp_path (if_Smpp i)))) (\<lambda>rs.
         bind_start (lift_outcome (cpoll_Listen (st_smpp_ctl st) p)) (\<lambda>(_, p).
           Started (\<lparr>al_tcp = tcp, al_unix = unix, al_routes = rs, al_smpp = Some p\<rparr>, k)))))))"

definition capiserver_Join :: "api_life \<Rightarrow> api_life \<times> int list" where
  "capiserver_Join a =
     (let join = (\<lambda>s. case s of None \<Rightarrow> (None, []) | Some s \<Rightarrow> (Some (fst (server_Join s)), snd (server_Join s)));
          (tcp, shut) = join (al_tcp a); (unix, shut') = join (al_unix a) in
      (a\<lparr>al_tcp := tcp, al_unix := unix\<rparr>, shut @ shut'))"

text \<open>The protocols of \<^verbatim>\<open>cwebsocketserver\<close>: the paths under which the enabled ones are served (\<open>ProtoRoutes\<close> of theory \<open>Servers\<close>).\<close>

definition enabled_path :: "server_t \<Rightarrow> protocols_t \<Rightarrow> srvproto_t \<Rightarrow> string option" where
  "enabled_path sv pr sp = (if has_flag (sv_Proto sv) (protocols_code pr) then Some (sp_Path sp) else None)"

definition ws_config :: "server_t \<Rightarrow> server_config" where
  "ws_config sv =
     \<lparr>sc_websocket = enabled_path sv proto_websocket (sv_WebSocket sv), sc_pusher = enabled_path sv proto_pusher (sv_Pusher sv),
      sc_mqtt = enabled_path sv proto_mqtt3 (sv_MQTT sv), sc_Path = sv_Path sv\<rparr>"

section \<open>The configuration\<close>

record cconfig =
  cf_Path :: string
  cf_Server :: server_t
  cf_Cluster :: cluster_t
  cf_Api :: interface_t
  cf_Credentials :: "credential_t list"
  cf_Logger :: clogger_t

definition parent_path :: "string \<Rightarrow> string" where
  "parent_path file =
     (case rev (dropWhile (\<lambda>c. c = CHR ''/'') (dropWhile (\<lambda>c. c \<noteq> CHR ''/'') (rev file))) of [] \<Rightarrow> ''/'' | dir \<Rightarrow> dir)"

text \<open>\<^verbatim>\<open>cconfig::Load\<close>: every exception is turned into one with the name of the file.\<close>

definition cconfig_Load :: "'y yaml_lib \<Rightarrow> 'y dir_env \<Rightarrow> pod_env \<Rightarrow> string \<Rightarrow> cconfig outcome" where
  "cconfig_Load Y D pe configfile =
     rethrow (\<lambda>m. ''Load config file ( '' @ configfile @ '' )'' @ m)
          (bind_outcome (absolute_path pe configfile) (\<lambda>file.
           bind_outcome (de_load D file) (\<lambda>cfgOptions.
           bind_outcome (bind_outcome (yRef Y cfgOptions ''server'') (\<lambda>n. server_Load Y n server_new)) (\<lambda>server.
           bind_outcome (bind_outcome (yRef Y cfgOptions ''cluster'') (\<lambda>n. cluster_Load Y pe n cluster_new)) (\<lambda>cluster.
           bind_outcome (bind_outcome (yRef Y cfgOptions ''api'') (\<lambda>n. interface_Load Y n interface_new)) (\<lambda>api.
           bind_outcome (bind_outcome (yRef Y cfgOptions ''credentials'') (\<lambda>n. credentials_Load Y D (parent_path file) n [])) (\<lambda>creds.
           bind_outcome (bind_outcome (yRef Y cfgOptions ''log'') (logger_Load Y)) (\<lambda>log.
             Inr \<lparr>cf_Path = parent_path file, cf_Server = server, cf_Cluster = cluster, cf_Api = api, cf_Credentials = creds,
               cf_Logger = log\<rparr>))))))))"

section \<open>The broker\<close>

record broker_life =
  bl_cluster :: cluster_life
  bl_channels :: cchannels
  bl_credentials :: ccredentials
  bl_api :: api_life
  bl_ws :: "server_life option"
  bl_poll :: poll_life

text \<open>The hooks that the applications register when they are constructed.\<close>

fun register_hooks :: "start_env \<Rightarrow> (string \<times> bool) list \<Rightarrow> chook list outcome" where
  "register_hooks st [] = Inr []"
| "register_hooks st ((endpoint, keepalive) # hooks) =
     bind_outcome (RegisterHook (st_ssl st True [] [] = SslReady) (st_exists st) endpoint keepalive) (\<lambda>h.
     bind_outcome (register_hooks st hooks) (\<lambda>hs. Inr (h # hs)))"

definition app_endpoints :: "credential_t list \<Rightarrow> (string \<times> bool) list" where
  "app_endpoints apps =
     concat (map (\<lambda>app. app_hooks (capplication_new app)) (filter (\<lambda>app. \<not> (cr_Id app = [] \<or> cflag_Empty (cr_Channels app))) apps))"

text \<open>The first part of \<^verbatim>\<open>Initialize\<close>, up to the wait.\<close>

definition broker_start :: "start_env \<Rightarrow> cconfig \<Rightarrow> kernel \<Rightarrow> (broker_life \<times> kernel) start" where
  "broker_start st cfg k =
     (if sv_Threads (cf_Server cfg) = 0 then Refused (Throw ''Invalid worker threads number ( zero count )'')
      else
        bind_start (ccluster_new st (cf_Cluster cfg) k) (\<lambda>(cluster, k).
        bind_start (lift_outcome (register_hooks st (app_endpoints (cf_Credentials cfg)))) (\<lambda>_.
        bind_start (capiserver_new st (cf_Api cfg) k) (\<lambda>(api, k).
        bind_start (optional (\<not> cflag_Empty (sv_Proto (cf_Server cfg)))
          (http_server_new st (st_ws st) (sv_Threads (cf_Server cfg)) (sv_Accept (cf_Server cfg)) (sv_Listen (cf_Server cfg))
            (sv_Ssl (cf_Server cfg))) k) (\<lambda>(ws, k).
        bind_start (lift_outcome (cpoll_new (st_poll st))) (\<lambda>p.
        bind_start (lift_outcome (udp_Listen (cc_fd cluster) (st_udp_add st))) (\<lambda>_.
        bind_start (lift_outcome (cpoll_Listen (st_poll_ctl st) p)) (\<lambda>(_, p).
          Started (\<lparr>bl_cluster = cluster, bl_channels = [], bl_credentials = ccredentials_new (cf_Credentials cfg), bl_api = api,
            bl_ws = ws, bl_poll = p\<rparr>, k)))))))))"

text \<open>The part after the wait. The websocket server is joined whether there is one or not.\<close>

definition broker_Join :: "broker_life \<Rightarrow> (broker_life \<times> int list) outcome" where
  "broker_Join b =
     (let (p, shut1) = cpoll_Join (bl_poll b); (api, shut2) = capiserver_Join (bl_api b) in
      case bl_ws b of
        None \<Rightarrow> Inl (UB ''null websocket server'')
      | Some ws \<Rightarrow>
          Inr (b\<lparr>bl_poll := p, bl_api := api, bl_ws := Some (fst (server_Join ws))\<rparr>, shut1 @ shut2 @ snd (server_Join ws)))"

text \<open>\<open>sigs\<close> are the signals that come while the main thread waits.\<close>

definition broker_Initialize :: "start_env \<Rightarrow> signal list \<Rightarrow> cconfig \<Rightarrow> kernel \<Rightarrow> (broker_life \<times> int list) start" where
  "broker_Initialize st sigs cfg k =
     bind_start (broker_start st cfg k) (\<lambda>(b, k').
       if WaitFor_stops sigs then lift_outcome (broker_Join b) else NoReturn)"

text \<open>What \<^verbatim>\<open>main\<close> runs with the file of the configuration.\<close>

definition run_broker ::
  "'y yaml_lib \<Rightarrow> 'y dir_env \<Rightarrow> pod_env \<Rightarrow> start_env \<Rightarrow> signal list \<Rightarrow> kernel \<Rightarrow> string \<Rightarrow> (broker_life \<times> int list) start" where
  "run_broker Y D pe st sigs k configFile =
     bind_start (lift_outcome (cconfig_Load Y D pe configFile)) (\<lambda>cfg.
     bind_start (lift_outcome (initialize (st_net st) (cf_Logger cfg))) (\<lambda>_.
       broker_Initialize st sigs cfg k))"

section \<open>Threads that are started are ended\<close>

definition fresh :: "poll_life \<Rightarrow> bool" where
  "fresh p \<longleftrightarrow> pl_fdPoll p > 0 \<and> pl_exitFd p > 0 \<and> \<not> pl_thread p"

definition running :: "poll_life \<Rightarrow> bool" where
  "running p \<longleftrightarrow> pl_fdPoll p > 0 \<and> pl_exitFd p > 0 \<and> pl_thread p"

definition ended :: poll_life where
  "ended = \<lparr>pl_fdPoll = -1, pl_exitFd = -1, pl_thread = False\<rparr>"

lemmas start_simps = bind_start_eq_Started lift_outcome_eq_Started bind_outcome_eq_Inr

lemma cpoll_new_fresh: "cpoll_new fds = Inr p \<Longrightarrow> fresh p"
  by (auto simp: cpoll_new_def fresh_def split: if_splits)

lemma cpoll_Listen_running: "fresh p \<Longrightarrow> cpoll_Listen ctl p = Inr (r, p') \<Longrightarrow> r = None \<and> running p'"
  by (auto simp: cpoll_Listen_def fresh_def running_def split: option.splits)

lemma cpoll_Join_running: "running p \<Longrightarrow> cpoll_Join p = (ended, [pl_exitFd p, pl_fdPoll p])"
  by (simp add: cpoll_Join_def running_def ended_def)

text \<open>A poll that was joined can be joined again, which does nothing, and never gets a thread again.\<close>

lemma ended_stays: "cpoll_Join ended = (ended, [])" "cpoll_Listen ctl ended = Inr (Some EALREADY, ended)"
  by (simp_all add: cpoll_Join_def cpoll_Listen_def ended_def)

lemma make_polls_fresh: "make_polls fds n = Inr ps \<Longrightarrow> length ps = n \<and> list_all fresh ps"
  by (induction n arbitrary: ps) (auto simp: bind_outcome_eq_Inr dest: cpoll_new_fresh)

lemma listen_polls_running:
  "listen_polls ctl i ps = Inr ps' \<Longrightarrow> list_all fresh ps \<Longrightarrow> length ps' = length ps \<and> list_all running ps'"
  by (induction ps arbitrary: i ps') (auto simp: bind_outcome_eq_Inr dest: cpoll_Listen_running)

lemma acceptor_run_running:
  "acceptor_run N errno0 listen se i ps k = Inr (ps', fds, k') \<Longrightarrow> list_all fresh ps \<Longrightarrow>
     length ps' = length ps \<and> list_all running ps' \<and> length fds = length ps"
proof (induction ps arbitrary: i ps' fds k)
  case (Cons p ps)
  obtain c pa where se: "se_sock se i = (c, pa)" by (cases "se_sock se i")
  from Cons show ?case
    by (auto simp: bind_outcome_eq_Inr se split: option.splits dest: cpoll_Listen_running)
qed simp

text \<open>A server with its threads, as many as asked for.\<close>

definition serving :: "nat \<Rightarrow> nat \<Rightarrow> server_life \<Rightarrow> bool" where
  "serving threads accept s \<longleftrightarrow> length (sl_workers s) = threads \<and> length (sl_accept s) = accept
     \<and> length (sl_sockets s) = accept \<and> list_all running (sl_workers s) \<and> list_all running (sl_accept s)"

lemma server_listen_serving:
  assumes "ctcpserver_new se threads accept = Inr s" "server_listen N errno0 listen se s k = Inr (s', k')"
  shows "serving threads accept s'"
proof -
  have s: "length (sl_workers s) = threads" "length (sl_accept s) = accept" "list_all fresh (sl_workers s)" "list_all fresh (sl_accept s)"
    using assms(1) by (auto simp: ctcpserver_new_def bind_outcome_eq_Inr dest: make_polls_fresh)
  with assms(2) show ?thesis
    by (auto simp: server_listen_def bind_outcome_eq_Inr serving_def dest: listen_polls_running acceptor_run_running)
qed

lemma http_server_serving: "http_server_new st se threads accept listen ssl k = Started (s, k') \<Longrightarrow> serving threads accept s"
  by (auto simp: http_server_new_def start_simps intro: server_listen_serving)

lemma unix_server_serving: "cunixapiserver_new st i k = Inr (s, k') \<Longrightarrow> serving (if_Threads i) (if_Accept i) s"
  by (auto simp: cunixapiserver_new_def bind_outcome_eq_Inr rethrow_eq_Inr split: if_splits intro: server_listen_serving)

definition optional_serving :: "bool \<Rightarrow> nat \<Rightarrow> nat \<Rightarrow> server_life option \<Rightarrow> bool" where
  "optional_serving wanted threads accept s = (case s of None \<Rightarrow> \<not> wanted | Some s \<Rightarrow> wanted \<and> serving threads accept s)"

lemma optional_started:
  assumes "optional wanted create k = Started (s, k')" "\<And>s k k'. create k = Started (s, k') \<Longrightarrow> serving threads accept s"
  shows "optional_serving wanted threads accept s"
  using assms by (auto simp: optional_def bind_start_eq_Started optional_serving_def split: if_splits)

lemma capiserver_serving:
  assumes "capiserver_new st i k = Started (a, k')"
  shows "optional_serving (if_Tcp i \<noteq> []) (if_Threads i) (if_Accept i) (al_tcp a)
    \<and> optional_serving (if_Unix i \<noteq> []) (if_Threads i) (if_Accept i) (al_unix a)"
proof -
  from assms obtain k1 k2 where
    "optional (if_Tcp i \<noteq> []) (http_server_new st (st_tapi st) (if_Threads i) (if_Accept i) (if_Tcp i) (if_Ssl i)) k = Started (al_tcp a, k1)"
    "optional (if_Unix i \<noteq> []) (\<lambda>k. lift_outcome (cunixapiserver_new st i k)) k1 = Started (al_unix a, k2)"
    by (auto simp: capiserver_new_def bind_start_eq_Started split: if_splits)
  note this [THEN optional_started]
  then show ?thesis by (simp add: http_server_serving unix_server_serving lift_outcome_eq_Started)
qed

fun server_polls :: "server_life option \<Rightarrow> poll_life list" where
  "server_polls None = []"
| "server_polls (Some s) = sl_accept s @ sl_workers s"

definition broker_polls :: "broker_life \<Rightarrow> poll_life list" where
  "broker_polls b =
     bl_poll b # server_polls (al_tcp (bl_api b)) @ server_polls (al_unix (bl_api b)) @ server_polls (bl_ws b)"

lemma optional_polls:
  "optional_serving wanted threads accept s \<Longrightarrow>
     list_all running (server_polls s) \<and> length (server_polls s) = (if wanted then threads + accept else 0)
     \<and> (s = None \<longleftrightarrow> \<not> wanted)"
  by (cases s) (auto simp: optional_serving_def serving_def)

definition poll_fds :: "poll_life list \<Rightarrow> int list" where
  "poll_fds ps = concat (map (\<lambda>p. [pl_exitFd p, pl_fdPoll p]) ps)"

lemma joined_polls:
  "list_all running ps \<Longrightarrow> map (fst \<circ> cpoll_Join) ps = replicate (length ps) ended \<and> concat (map (snd \<circ> cpoll_Join) ps) = poll_fds ps"
  by (induction ps) (auto simp: cpoll_Join_running poll_fds_def)

lemma server_Join_polls:
  assumes "list_all running (server_polls (Some s))"
  shows "server_polls (Some (fst (server_Join s))) = replicate (length (server_polls (Some s))) ended
    \<and> snd (server_Join s) = poll_fds (server_polls (Some s))"
  using assms joined_polls [of "sl_accept s"] joined_polls [of "sl_workers s"]
  by (simp add: server_Join_def replicate_add poll_fds_def)

lemma capiserver_Join_polls:
  assumes "list_all running (server_polls (al_tcp a))" "list_all running (server_polls (al_unix a))"
  shows "server_polls (al_tcp (fst (capiserver_Join a))) = replicate (length (server_polls (al_tcp a))) ended
    \<and> server_polls (al_unix (fst (capiserver_Join a))) = replicate (length (server_polls (al_unix a))) ended
    \<and> snd (capiserver_Join a) = poll_fds (server_polls (al_tcp a) @ server_polls (al_unix a))"
  using assms server_Join_polls [of "the (al_tcp a)"] server_Join_polls [of "the (al_unix a)"]
  by (cases "al_tcp a"; cases "al_unix a") (simp_all add: capiserver_Join_def poll_fds_def)

lemma broker_start_parts:
  assumes "broker_start st cfg k = Started (b, k')"
  shows "optional_serving (if_Tcp (cf_Api cfg) \<noteq> []) (if_Threads (cf_Api cfg)) (if_Accept (cf_Api cfg)) (al_tcp (bl_api b))
    \<and> optional_serving (if_Unix (cf_Api cfg) \<noteq> []) (if_Threads (cf_Api cfg)) (if_Accept (cf_Api cfg)) (al_unix (bl_api b))
    \<and> optional_serving (\<not> cflag_Empty (sv_Proto (cf_Server cfg))) (sv_Threads (cf_Server cfg)) (sv_Accept (cf_Server cfg)) (bl_ws b)
    \<and> running (bl_poll b)"
proof -
  from assms obtain k1 k2 k3 p r where
    "capiserver_new st (cf_Api cfg) k1 = Started (bl_api b, k2)"
    "optional (\<not> cflag_Empty (sv_Proto (cf_Server cfg)))
       (http_server_new st (st_ws st) (sv_Threads (cf_Server cfg)) (sv_Accept (cf_Server cfg)) (sv_Listen (cf_Server cfg))
         (sv_Ssl (cf_Server cfg))) k2 = Started (bl_ws b, k3)"
    "cpoll_new (st_poll st) = Inr p" "cpoll_Listen (st_poll_ctl st) p = Inr (r, bl_poll b)"
    by (auto simp: broker_start_def start_simps split: if_splits)
  note parts = capiserver_serving [OF this(1)] optional_started [OF this(2) http_server_serving]
    cpoll_Listen_running [OF cpoll_new_fresh [OF this(3)] this(4)]
  then show ?thesis by simp
qed


text \<open>A configuration with one websocket server, and a system on which every call succeeds.\<close>

definition good_server :: "int \<Rightarrow> server_env" where
  "good_server n = \<lparr>se_accept = (\<lambda>i. (n + 1, n + 2)), se_worker = (\<lambda>i. (n + 6 + 2 * int i, n + 7 + 2 * int i)), se_accept_ctl = (\<lambda>_. None),
     se_worker_ctl = (\<lambda>_. None), se_sock = (\<lambda>_. (good_calls (n + 5), None))\<rparr>"

definition sample_call_io :: call_io where
  "sample_call_io = \<lparr>ci_net = Hooks.sample_net, ci_send = (\<lambda>_. None), ci_recvs = []\<rparr>"

definition sample_start :: start_env where
  "sample_start = \<lparr>st_net = Address.sample_net, st_errno = 0, st_exists = (\<lambda>_. False), st_local = [], st_ssl = (\<lambda>_ _ _. SslReady),
     st_dirs = True, st_tapi = good_server 10, st_uapi = good_server 20, st_ws = good_server 30, st_udp = good_calls 4, st_udp_add = None,
     st_poll = (6, 7), st_poll_ctl = None, st_smpp_poll = (8, 9), st_smpp_ctl = None, st_k8s_poll = (50, 51), st_k8s_ctl = None,
     st_parse = (\<lambda>_. None), st_pod_io = sample_call_io, st_set_io = sample_call_io, st_k8s_net = Hooks.sample_net,
     st_k8s_add = (\<lambda>_. None), st_k8s_send = (\<lambda>_. None)\<rparr>"

definition sample_cconfig :: cconfig where
  "sample_cconfig = \<lparr>cf_Path = ''/'', cf_Server = server_new\<lparr>sv_Proto := protocols_code proto_websocket, sv_Threads := 2, sv_Accept := 1,
       sv_Listen := ''tcp://1.2.3.4:80''\<rparr>, cf_Cluster = cluster_new, cf_Api = interface_new, cf_Credentials = [],
     cf_Logger = \<lparr>stdoutSink = None, fileSink = None, syslogSink = None, remoteSink = None\<rparr>\<rparr>"

lemma sample_hostport: "ds_HostPort (snd (Assign ''tcp://1.2.3.4:80'' cdsn_new)) = View ''1.2.3.4:80''"
proof -
  have "address_ok ''tcp'' ''1.2.3.4'' ''80'' [] []" by code_simp
  from match_address [OF this] show ?thesis
    by (simp add: Assign_def cdsn_new_def stale_view_def proto_data_def Regex.group_def port_text_def Let_def has_host_def strncasecmp_eq_def)
qed

lemma sample_address: "\<exists>sa. GetSockAddr Address.sample_net 0 ''1.2.3.4:80'' ''0'' AF_INET = Inr (0, sa)"
proof -
  have "regex_match reHostPort ''1.2.3.4:80'' = Some [(4, ''80''), (1, ''1.2.3.4'')]"
    using match_ip4 [of "''1''" "''2.3.4''" "''80''" "'':''"] by (simp add: digdot_def isdigit_def)
  moreover have "inet_pton4 ''1.2.3.4'' = Some [1, 2, 3, 4]" "Address.stoi ''80'' = Inr 80" by code_simp+
  ultimately show ?thesis by (simp add: GetSockAddr_def host_addr_def set_port_def Regex.group_def)
qed

lemma empty_address: "regex_match re_dsn [] = None" by code_simp


lemma sample_started: "\<exists>b k'. broker_start sample_start sample_cconfig \<lparr>kn_open = [], kn_paths = []\<rparr> = Started (b, k')"
proof -
  obtain sa where sa: "GetSockAddr Address.sample_net 0 ''1.2.3.4:80'' ''0'' AF_INET = Inr (0, sa)" using sample_address by blast
  have e: "ds_Path (snd (Assign [] cdsn_new)) = Unset" by (simp add: Assign_def empty_address cdsn_new_def stale_view_def)
  have "isl (api_routes [] None) = False" by code_simp
  then obtain rs where rs: "api_routes [] None = Inr rs" by (cases "api_routes [] None :: api_route routes outcome") auto
  show ?thesis
    by (simp add: broker_start_def sample_cconfig_def sample_start_def server_new_def cluster_new_def interface_new_def
      ccluster_new_def e read_view_def app_endpoints_def capiserver_new_def optional_def rs smpp_path_def
      http_server_new_def sample_hostport Context_def ssloptions_new_def ctcpserver_new_def
      good_server_def cpoll_new_def server_listen_def cpoll_Listen_def MakeListen_def sa good_calls_def TcpServer_def
      with_socket_def guard_call_def open_fd_def udp_Listen_def cflag_Empty_def numeral_2_eq_2)
qed



section \<open>The configuration and the start\<close>

lemma load_nodes_type: "load_nodes Y ns cl = Inr cl' \<Longrightarrow> cl_Type cl' = cl_Type cl"
  by (induction ns arbitrary: cl) (auto simp: bind_outcome_eq_Inr Let_def split: if_splits)

lemma load_k8s_type: "load_k8s Y pe family cl = Inr cl' \<Longrightarrow> cl_Type cl' = cl_Type cl"
  by (auto simp: load_k8s_def load_in_pod_def load_k8s_ssl_def bind_outcome_eq_Inr split: option.splits if_splits)

lemma FromStr_type: "cluster_FromStr s = Inr t \<Longrightarrow> t \<noteq> type_nil"
  by (auto simp: cluster_FromStr_def split: if_splits)

text \<open>
  A cluster section that loads and leaves the cluster enabled names an adapter, so the start does not call one through a null
  pointer: when the interface of the cluster is made, it is a list of peers or the one of Kubernetes.
\<close>

lemma enabled_cluster_has_adapter:
  assumes "cluster_Load Y pe options cluster_new = Inr cl" "cl_Enable cl" "MakeInterface st cl = Started ad"
  shows "ad \<noteq> NoAdapter"
proof -
  have "cl_Type cl \<noteq> type_nil"
    using assms(1,2)
    by (auto simp: cluster_Load_def cluster_new_def Let_def bind_outcome_eq_Inr split: if_splits cluster_type.splits
        dest: load_nodes_type load_k8s_type) (metis cluster_type.exhaust)
  with assms(3) show ?thesis
    by (cases "cl_Type cl") (auto simp: MakeInterface_def start_simps split: if_splits)
qed

text \<open>Nodes without a listening address: loading enables the cluster, and the start ends with the exception of the number that
  is not there.\<close>

lemma peers_without_listen:
  assumes "cl_Type cl = type_peers" "cl_Enable cl" "cl_Listen cl = []" "cl_Module cl = []"
  shows "ccluster_new st cl k = Refused (Throw ''stoi: invalid_argument'')"
proof -
  have "ds_Path (snd (Assign [] cdsn_new)) = Unset" "ds_Port (snd (Assign [] cdsn_new)) = Unset"
    by (simp_all add: Assign_def empty_address cdsn_new_def stale_view_def)
  moreover have "Address.stoi [] = Inl (Throw ''stoi: invalid_argument'')" by code_simp
  ultimately show ?thesis
    using assms by (simp add: ccluster_new_def MakeInterface_def read_view_def dsn_Port_def clistadapter_new_def)
qed

lemma load_nodes_enables:
  "load_nodes Y ns cl = Inr cl' \<Longrightarrow> cl_Enable cl \<and> cl_Nodes cl \<noteq> [] \<or> ns \<noteq> [] \<Longrightarrow> cl_Enable cl' \<and> cl_Listen cl' = cl_Listen cl"
proof (induction ns arbitrary: cl)
  case (Cons n ns)
  then obtain node nodes where nodes: "load_nodes Y ns (cl\<lparr>cl_Nodes := nodes, cl_Enable := (nodes \<noteq> [])\<rparr>) = Inr cl'"
      "nodes = (if node \<in> set (cl_Nodes cl) then cl_Nodes cl else cl_Nodes cl @ [node])"
    by (auto simp: bind_outcome_eq_Inr Let_def)
  have "nodes \<noteq> []" using nodes(2) by auto
  with nodes(1) Cons.IH show ?case by fastforce
qed simp

text \<open>TLS that is enabled but cannot be set up: the server starts without it.\<close>

lemma tls_failure_serves_plain:
  "ssl_Enable ssl \<Longrightarrow> st_ssl st (ssl_Client ssl) (ssl_Cert ssl) (ssl_Key ssl) = SslError e \<Longrightarrow>
     http_server_new st se threads accept listen ssl k = http_server_new st se threads accept listen (ssl\<lparr>ssl_Enable := False\<rparr>) k"
  by (simp add: http_server_new_def Context_def)

lemma zero_threads_refused:
  "sv_Threads (cf_Server cfg) = 0 \<Longrightarrow> broker_Initialize st sigs cfg k = Refused (Throw ''Invalid worker threads number ( zero count )'')"
  by (simp add: broker_Initialize_def broker_start_def)

end
