(* ===== verification/Nodes.thy ===== *)
theory Nodes
  imports Broker ApiProps
begin

text \<open>
  Brokers as one system: what the cluster makes of the effects of a channel, and \<^verbatim>\<open>ccluster::OnUdpData\<close> with the handlers behind it, on
  the channels and the peers of the node that receives. A message published on one node is followed from the channel there, over
  the frame and the socket, to the subscribers of the other.
\<close>

section \<open>Sending\<close>

text \<open>The calls of a channel that go to the cluster; \<open>apps\<close> gives the application of a channel.\<close>

fun effect_frames :: "(json \<Rightarrow> string) \<Rightarrow> (string \<Rightarrow> capplication) \<Rightarrow> 'sa ccluster \<Rightarrow> effect \<Rightarrow> ('sa \<times> bytes) list" where
  "effect_frames dump apps c (ClusterPush type app name msg) = cluster_Push dump c (apps app) type name msg"
| "effect_frames dump apps c (ClusterTrigger type trigger app name session data) =
     cluster_Trigger dump c (apps app) trigger name data"
| "effect_frames dump apps c _ = []"

definition frames :: "(json \<Rightarrow> string) \<Rightarrow> (string \<Rightarrow> capplication) \<Rightarrow> 'sa ccluster \<Rightarrow> effect list \<Rightarrow> ('sa \<times> bytes) list" where
  "frames dump apps c effs = concat (map (effect_frames dump apps c) effs)"

section \<open>Receiving\<close>

record node =
  nd_channels :: cchannels
  nd_cluster :: "sockaddr ccluster"
  nd_MsgId :: u64

record node_env =
  ne_net :: netlib
  ne_parse :: "string \<Rightarrow> json option"
  ne_env :: env
  ne_locks :: "string \<Rightarrow> bool \<times> bool"
  ne_now :: int

definition settled :: "(cchannels \<times> effect list) outcome \<Rightarrow> node \<Rightarrow> effect list outcome \<times> node" where
  "settled r nd =
     (case r of Inl f \<Rightarrow> (Inl f, nd) | Inr (chans, effs) \<Rightarrow> (Inr effs, nd\<lparr>nd_channels := chans\<rparr>))"

text \<open>The switch over the operations; registrations change nothing here.\<close>

fun cluster_dispatch :: "node_env \<Rightarrow> sockaddr \<Rightarrow> udp_action \<Rightarrow> node \<Rightarrow> effect list outcome \<times> node" where
  "cluster_dispatch ne sa (UdpPush payload) nd =
     settled (cluster_OnClusterPush (ne_parse ne) (ne_env ne) (ne_locks ne) (GetIp (ne_net ne) sa) (map char_of_byte payload)
       (nd_channels nd)) nd"
| "cluster_dispatch ne sa (UdpPing payload) nd =
     (Inr [], nd\<lparr>nd_cluster := cluster_OnClusterPing (ne_now ne) (GetIp4 sa) sa (nd_cluster nd)\<rparr>)"
| "cluster_dispatch ne sa (UdpReg payload) nd = (Inr [], nd)"
| "cluster_dispatch ne sa (UdpUnReg payload) nd = (Inr [], nd)"
| "cluster_dispatch ne sa (UdpJoin payload) nd =
     (case cluster_OnClusterJoin (ne_parse ne) (ne_env ne) (ne_locks ne) (ne_now ne) (nd_MsgId nd) (map char_of_byte payload)
         (nd_channels nd) of (r, m) \<Rightarrow> settled r (nd\<lparr>nd_MsgId := m\<rparr>))"
| "cluster_dispatch ne sa (UdpLeave payload) nd =
     (case cluster_OnClusterLeave (ne_parse ne) (ne_env ne) (ne_locks ne) (ne_now ne) (nd_MsgId nd) (map char_of_byte payload)
         (nd_channels nd) of (r, m) \<Rightarrow> settled r (nd\<lparr>nd_MsgId := m\<rparr>))"

text \<open>One call of \<^verbatim>\<open>OnUdpData\<close> for a datagram from \<open>sa\<close>: the returned value, what was done, the datagrams left, the node. \<open>None\<close> when it
  waits.\<close>

definition node_receive ::
  "node_env \<Rightarrow> errno option \<Rightarrow> sockaddr \<Rightarrow> recv_result list \<Rightarrow> node
     \<Rightarrow> (errno option \<times> effect list outcome \<times> recv_result list \<times> node) option" where
  "node_receive ne errno0 sa q nd =
     (case OnUdpData errno0 q of
        None \<Rightarrow> None
      | Some (res, None, q') \<Rightarrow> Some (res, Inr [], q', nd)
      | Some (res, Some act, q') \<Rightarrow>
          (case cluster_dispatch ne sa act nd of (r, nd') \<Rightarrow> Some (res, r, q', nd')))"

section \<open>A message reaches the subscribers of the other node\<close>

definition with_host :: "string \<Rightarrow> (string, json) umap \<Rightarrow> json" where
  "with_host ip fs = JObj (um_assign ''#from-host'' (JStr ip) fs)"

lemma with_host_head:
  "msg_delivery (with_host ip fs) = msg_delivery (JObj fs)" "msg_from (with_host ip fs) = msg_from (JObj fs)"
  "msg_socket (with_host ip fs) = msg_socket (JObj fs)"
  by (simp_all add: with_host_def msg_delivery_def msg_from_def msg_socket_def contains_def)

lemma OnClusterPush_report:
  assumes "parse (dump (report dump app name (JObj fs))) = Some (report dump app name (JObj fs))" "parse (dump (JObj fs)) = Some (JObj fs)"
    and "fs \<noteq> []" "GetChannel app name chans = Some ch"
    and "OnClusterPush e locks (with_host ip fs) ch = Inr (n, ch', effs)"
  shows "cluster_OnClusterPush parse e locks ip (dump (report dump app name (JObj fs))) chans = Inr (settle ch' effs chans)"
proof -
  have "cjson_Unserialize parse (dump (JObj fs)) = Some (JObj fs)" using assms(2,3) by (simp add: cjson_Unserialize_def)
  then show ?thesis
    using assms(4,5) Unserialize_report [of parse dump app name "JObj fs", OF assms(1)]
    by (simp add: cluster_OnClusterPush_def report_parsed with_host_def)
qed

lemma receive_report:
  assumes "ne_parse ne (dump (report dump app name (JObj fs))) = Some (report dump app name (JObj fs))"
    and "ne_parse ne (dump (JObj fs)) = Some (JObj fs)" "length (dump (report dump app name (JObj fs))) < MaxFrameSize - 3"
    and "GetChannel app name (nd_channels nd) = Some there" "distinct (chSubscribers there)"
    and "msg_delivery (JObj fs) = Inr d" "msg_from (JObj fs) = Inr sender" "msg_socket (JObj fs) = Inr sock"
  shows "\<exists>effs chans. node_receive ne errno0 sa (Recv (Pack dump op_push (report dump app name (JObj fs))) # q) nd
      = Some (None, Inr effs, q, nd\<lparr>nd_channels := chans\<rparr>)
    \<and> deliveries effs = map (\<lambda>s. (s, with_host (GetIp (ne_net ne) sa) fs))
        (filter (\<lambda>s. alive (ne_env ne) s \<and> recipient d sender sock s) (chSubscribers there))
    \<and> cluster_pushes effs = []"
proof -
  let ?report = "report dump app name (JObj fs)" and ?msg = "with_host (GetIp (ne_net ne) sa) fs"
  have read: "OnUdpData errno0 (Recv (Pack dump op_push ?report) # q) = Some (None, Some (UdpPush (map byte_of (dump ?report))), q)"
    using OnUdpData_frame [of "map byte_of (dump ?report)" errno0 op_push q] assms(3)
    by (simp add: Pack_def udp_action_def)
  have "fs \<noteq> []" using assms(6) by (auto simp: msg_delivery_def um_find_def)
  obtain there' effs where push: "OnClusterPush (ne_env ne) (ne_locks ne) ?msg there =
        Inr (length (filter (\<lambda>s. alive (ne_env ne) s \<and> recipient d sender sock s) (chSubscribers there)), there', effs)"
      and del: "deliveries effs = map (\<lambda>s. (s, ?msg)) (filter (\<lambda>s. alive (ne_env ne) s \<and> recipient d sender sock s) (chSubscribers there))"
    using base_Push_recipients [of ?msg d sender sock there "ne_env ne" "ne_locks ne"] assms(5-8)
    by (auto simp: with_host_head OnClusterPush_def)
  obtain chans effs' where s: "settle there' effs (nd_channels nd) = (chans, effs')" by force
  have "cluster_pushes effs = []" using push by (auto simp: OnClusterPush_def dest: cluster_pushes_base_Push)
  moreover have "node_receive ne errno0 sa (Recv (Pack dump op_push ?report) # q) nd = Some (None, Inr effs', q, nd\<lparr>nd_channels := chans\<rparr>)"
    using OnClusterPush_report [where parse = "ne_parse ne" and dump = dump, OF assms(1,2) \<open>fs \<noteq> []\<close> assms(4) push] s
    by (simp add: node_receive_def read settled_def comp_def)
  ultimately show ?thesis using cluster_pushes_settle [OF s] del by fastforce
qed


definition sample_publisher :: capplication where
  "sample_publisher = capplication_new (credential_new\<lparr>cr_Id := ''7'', cr_Channels := channels_code ch_pub,
     cr_Hooks := hook_code hook_push\<rparr>)"

definition sample_dump :: "json \<Rightarrow> string" where
  "sample_dump v = (if v = sample_message then ''m'' else ''r'')"

definition sample_node :: node where
  "sample_node = \<lparr>nd_channels = [(''7#news'', sample_channel)],
     nd_cluster = \<lparr>clusPingInterval = 0, clusPingTime = 0, clusGcTime = 0, clusSync = 0, clusNodes = None\<rparr>, nd_MsgId = 0\<rparr>"

definition sample_peer :: "sockaddr node_t" where
  "sample_peer = \<lparr>NodeLastActivity = 0, NodeAddress = sa_zero\<lparr>ss_family := AF_INET, sin_addr := [10, 0, 0, 2]\<rparr>\<rparr>"

definition sample_node_env :: node_env where
  "sample_node_env = \<lparr>ne_net = Address.sample_net,
     ne_parse = (\<lambda>s. Some (if s = ''m'' then sample_message else report sample_dump ''7'' ''news'' sample_message)),
     ne_env = sample_env, ne_locks = (\<lambda>_. (True, True)), ne_now = 0\<rparr>"

lemma sample_report: "report sample_dump ''7'' ''news'' sample_message \<noteq> sample_message"
  by (simp add: report_def sample_message_def)


section \<open>Pings keep a node among the peers\<close>

lemma UpdatePeer_found:
  "\<exists>node. um_find (UpdatePeer now ip sa nodes) ip = Some node \<and> NodeLastActivity node = now"
  by (cases "um_find nodes ip") (auto simp: UpdatePeer_def um_find_emplace)

lemma peers_Gc_keeps:
  assumes "um_find nodes ip = Some node" "\<not> node_expired now interval node"
  shows "um_find (snd (peers_Gc now interval nodes)) ip = Some node"
  using assms by (induction nodes) (auto simp: peers_Gc_def um_find_def split: if_splits)

text \<open>
  C15: a node that is due to ping sends a frame to each of its peers; the peer that takes the frame from its socket has the sender
  among its own peers from then on, known before or not, and every collection up to the interval and ten seconds later keeps it.
\<close>

theorem ping_keeps_peer:
  assumes "clusPingInterval c \<noteq> 0" "clusPingTime c \<le> now" "clusNodes c = Some nodes" "(ip, peer) \<in> set nodes"
    and "length (dump (JObj [])) < MaxFrameSize - 3" "clusNodes (nd_cluster nd) = Some peers"
    and "later \<le> ne_now ne + clusPingInterval (nd_cluster nd) + 10"
  shows "\<exists>frame nd' peers' node. (NodeAddress peer, frame) \<in> set (snd (Check dump now c))
    \<and> node_receive ne errno0 sa (Recv frame # q) nd = Some (None, Inr [], q, nd')
    \<and> clusNodes (nd_cluster nd') = Some peers'
    \<and> um_find (snd (peers_Gc later (clusPingInterval (nd_cluster nd)) peers')) (GetIp4 sa) = Some node
    \<and> NodeLastActivity node = ne_now ne"
proof -
  let ?frame = "Pack dump op_cping (JObj [])" and ?peers = "UpdatePeer (ne_now ne) (GetIp4 sa) sa peers"
  let ?nd = "nd\<lparr>nd_cluster := cluster_OnClusterPing (ne_now ne) (GetIp4 sa) sa (nd_cluster nd)\<rparr>"
  have "snd (Check dump now c) = map (\<lambda>(ip, node). (NodeAddress node, ?frame)) nodes"
    using assms(1-3,5) by (simp add: Check_def cluster_Send_def Pack_def MaxFrameSize_def Let_def)
  then have sent: "(NodeAddress peer, ?frame) \<in> set (snd (Check dump now c))" using assms(4) by force
  have "OnUdpData errno0 (Recv ?frame # q) = Some (None, Some (UdpPing (map byte_of (dump (JObj [])))), q)"
    using OnUdpData_frame [of "map byte_of (dump (JObj []))" errno0 op_cping q] assms(5) by (simp add: Pack_def udp_action_def)
  then have read: "node_receive ne errno0 sa (Recv ?frame # q) nd = Some (None, Inr [], q, ?nd)" by (simp add: node_receive_def)
  obtain node where node: "um_find ?peers (GetIp4 sa) = Some node" "NodeLastActivity node = ne_now ne"
    using UpdatePeer_found [of "ne_now ne" "GetIp4 sa" sa peers] by auto
  then have "\<not> node_expired later (clusPingInterval (nd_cluster nd)) node" using assms(7) by (simp add: node_expired_def)
  note peers_Gc_keeps [OF node(1) this]
  moreover have "clusNodes (nd_cluster ?nd) = Some ?peers" using assms(6) by (simp add: cluster_OnClusterPing_def)
  ultimately show ?thesis using sent read node(2) by blast
qed

theorem ping_keeps_peer_witness:
  "\<exists>frame nd' peers' node. (NodeAddress sample_peer, frame) \<in> set (snd (Check (\<lambda>_. ''{}'') 100
        \<lparr>clusPingInterval = 30, clusPingTime = 90, clusGcTime = 0, clusSync = 0, clusNodes = Some [(7, sample_peer)]\<rparr>))
    \<and> node_receive (sample_node_env\<lparr>ne_now := 101\<rparr>) None (NodeAddress sample_peer) (Recv frame # [])
        (sample_node\<lparr>nd_cluster := (nd_cluster sample_node)\<lparr>clusPingInterval := 30, clusNodes := Some []\<rparr>\<rparr>) = Some (None, Inr [], [], nd')
    \<and> clusNodes (nd_cluster nd') = Some peers'
    \<and> um_find (snd (peers_Gc 141 30 peers')) (GetIp4 (NodeAddress sample_peer)) = Some node"
  using ping_keeps_peer [where c = "\<lparr>clusPingInterval = 30, clusPingTime = 90, clusGcTime = 0, clusSync = 0,
        clusNodes = Some [(7, sample_peer)]\<rparr>" and now = 100 and nodes = "[(7, sample_peer)]" and ip = 7 and peer = sample_peer
      and dump = "\<lambda>_. ''{}''" and ne = "sample_node_env\<lparr>ne_now := 101\<rparr>" and later = 141 and peers = "[]" and ?errno0.0 = None
      and nd = "sample_node\<lparr>nd_cluster := (nd_cluster sample_node)\<lparr>clusPingInterval := 30, clusNodes := Some []\<rparr>\<rparr>"
      and sa = "NodeAddress sample_peer" and q = "[]"]
  by (fastforce simp: MaxFrameSize_def)

end
