(* ===== verification/System.thy ===== *)
theory System
  imports Nodes
begin

text \<open>
  The running broker as one system: the channels, the sessions and the peers of a node, and everything that happens to them. An
  event is one call of a handler by a thread: a first request on a websocket connection, bytes on a session, an error or a hang-up,
  a message pushed to a session, the collection of sessions and of channels, the end of a session, a request to the API and a
  datagram of the cluster. The handlers are those of the other theories; here they act on the shared state, in any order, with
  any surroundings (the arguments of the event). An exception leaves what was done before it, and the others go on.
\<close>

section \<open>State\<close>

record 'sa system =
  sy_broker :: broker
  sy_cluster :: "sockaddr ccluster"
  sy_sessions :: "(string, proto \<times> 'sa session) umap"
  sy_SessionId :: u64

text \<open>What the websocket server was configured with.\<close>

record site =
  st_config :: server_config
  st_creds :: ccredentials
  st_sha1 :: "bytes \<Rightarrow> bytes"
  st_WebSocket :: srvproto_t
  st_Pusher :: srvproto_t

section \<open>Sessions begin\<close>

text \<open>The constructors of the two kinds of sessions.\<close>

definition cpushersession_new :: "io \<Rightarrow> srvproto_t \<Rightarrow> capplication \<Rightarrow> 'sa csocket \<Rightarrow> string \<Rightarrow> 'sa session" where
  "cpushersession_new io sp app fd sid =
     \<lparr>subsId = sid, so = fd, MaxMessageLength = sp_MaxPayloadSize sp, KeepAlive = int (sp_ActivityTimeout sp),
      ActivityCheckTime = io_now io + int (sp_ActivityTimeout sp), SubscribedTo = [], App = app,
      EnablePushOnChannels = sp_PushOn sp, SessionUserId = [], SessionPresenceData = []\<rparr>"

definition cwssession_new :: "io \<Rightarrow> srvproto_t \<Rightarrow> capplication \<Rightarrow> 'sa csocket \<Rightarrow> string \<Rightarrow> 'sa session" where
  "cwssession_new io sp app fd sid =
     \<lparr>subsId = sid, so = fd, MaxMessageLength = sp_MaxPayloadSize sp, KeepAlive = int (sp_ActivityTimeout sp),
      ActivityCheckTime = io_now io + int (sp_ActivityTimeout sp) + 5, SubscribedTo = [], App = app,
      EnablePushOnChannels = sp_PushOn sp, SessionUserId = [], SessionPresenceData = []\<rparr>"

text \<open>The functions of \<^verbatim>\<open>ProtoRoutes\<close>: a session is made and asked whether it takes the client. The prefix of the identifier
  of a websocket session comes with the request.\<close>

definition proto_route ::
  "site \<Rightarrow> io \<Rightarrow> nat \<Rightarrow> 'sa csocket \<Rightarrow> http_request \<Rightarrow> u64 \<Rightarrow> broker \<Rightarrow> proto \<Rightarrow> capplication \<Rightarrow> bool \<times> 'sa step" where
  "proto_route st io rnd fd rq n bk r app =
     (if r = ProtoPusher then
        pusher_OnWsConnect io (cpushersession_new io (st_Pusher st) app fd (fst (csubscriber_new [] n rnd))) bk
      else
        ws_OnWsConnect io (rq_uri rq) (rq_headers rq)
          (cwssession_new io (st_WebSocket st) app fd (fst (csubscriber_new (uri_Arg (rq_uri rq) ''session'') n rnd))) bk)"

section \<open>Events\<close>

datatype 'sa event =
    Upgrade io nat "'sa csocket" http_request "errno option" "errno option"
  | Frame string io bytes errno bytes
  | SocketError string io
  | PushTo string io json
  | LeaveUs string io
  | SessionEnd string io
  | ApiRequest api_env "api_route routes" string uri_t headers_t string
  | Datagram node_env "errno option" sockaddr bytes
  | Idle env "string \<Rightarrow> bool" "json \<Rightarrow> string" int

type_synonym 'sa happening = "failure option \<times> 'sa system \<times> effect list"

fun sess_effects :: "sess_out list \<Rightarrow> effect list" where
  "sess_effects [] = []"
| "sess_effects (OutEffect e # out) = e # sess_effects out"
| "sess_effects (_ # out) = sess_effects out"

text \<open>A handler of a session: the session is written back. Nothing happens to a session that is gone.\<close>

definition on_session :: "string \<Rightarrow> (proto \<Rightarrow> 'sa session \<Rightarrow> broker \<Rightarrow> 'sa step) \<Rightarrow> 'sa system \<Rightarrow> 'sa happening" where
  "on_session sid k sy =
     (case um_find (sy_sessions sy) sid of
        None \<Rightarrow> (None, sy, [])
      | Some (r, s) \<Rightarrow>
          (case k r s (sy_broker sy) of (f, s', bk, out) \<Rightarrow>
             (f, sy\<lparr>sy_broker := bk, sy_sessions := um_assign sid (r, s') (sy_sessions sy)\<rparr>, sess_effects out)))"

text \<open>The first request: \<^verbatim>\<open>WsAccept\<close> decides for which protocol and application a session is made; one that does not take the
  client is not kept. An error of \<^verbatim>\<open>PollUpdate\<close> goes to the session.\<close>

definition on_upgrade ::
  "site \<Rightarrow> io \<Rightarrow> nat \<Rightarrow> 'sa csocket \<Rightarrow> http_request \<Rightarrow> errno option \<Rightarrow> errno option \<Rightarrow> 'sa system \<Rightarrow> 'sa happening" where
  "on_upgrade st io rnd fd rq send update sy =
     (case WsAccept (st_config st) (st_creds st) (st_sha1 st) send (\<lambda>_ _. True) update True True (None, rq) of
        Inl f \<Rightarrow> (Some f, sy, [])
      | Inr (None, acts) \<Rightarrow> (None, sy, [])
      | Inr (Some (r, app), acts) \<Rightarrow>
          (case proto_route st io rnd fd rq (sy_SessionId sy) (sy_broker sy) r app of (accepted, f, s, bk, out) \<Rightarrow>
             let sy = sy\<lparr>sy_broker := bk, sy_SessionId := sy_SessionId sy + 1\<rparr> in
             if accepted \<and> f = None then
               (case (if update = None then (None, s, bk, []) else OnSocketError io s bk) of (f, s, bk, out') \<Rightarrow>
                  (f, sy\<lparr>sy_broker := bk, sy_sessions := um_assign (subsId s) (r, s) (sy_sessions sy)\<rparr>, sess_effects (out @ out')))
             else (f, sy, sess_effects out)))"

definition on_api ::
  "api_env \<Rightarrow> api_route routes \<Rightarrow> string \<Rightarrow> uri_t \<Rightarrow> headers_t \<Rightarrow> string \<Rightarrow> 'sa system \<Rightarrow> 'sa happening" where
  "on_api ae routes method path headers content sy =
     (case OnHttpRequest ae routes method path headers content (sy_broker sy) of
        Inl f \<Rightarrow> (Some f, sy, [])
      | Inr (bk, out) \<Rightarrow> (None, sy\<lparr>sy_broker := bk\<rparr>, api_effects out))"

definition on_datagram :: "node_env \<Rightarrow> errno option \<Rightarrow> sockaddr \<Rightarrow> bytes \<Rightarrow> 'sa system \<Rightarrow> 'sa happening" where
  "on_datagram ne errno0 sa data sy =
     (case node_receive ne errno0 sa [Recv data]
         \<lparr>nd_channels = bk_channels (sy_broker sy), nd_cluster = sy_cluster sy, nd_MsgId = bk_msgid (sy_broker sy)\<rparr> of
        None \<Rightarrow> (None, sy, [])
      | Some (res, r, q, nd) \<Rightarrow>
          ((case r of Inl f \<Rightarrow> Some f | Inr effs \<Rightarrow> None),
           sy\<lparr>sy_broker := (sy_broker sy)\<lparr>bk_channels := nd_channels nd, bk_msgid := nd_MsgId nd\<rparr>, sy_cluster := nd_cluster nd\<rparr>,
           (case r of Inl f \<Rightarrow> [] | Inr effs \<Rightarrow> effs)))"

definition on_idle :: "env \<Rightarrow> (string \<Rightarrow> bool) \<Rightarrow> (json \<Rightarrow> string) \<Rightarrow> int \<Rightarrow> 'sa system \<Rightarrow> 'sa happening" where
  "on_idle e locks dump now sy =
     (case OnIdle e locks dump now (bk_channels (sy_broker sy)) (sy_cluster sy) of ((chans, effs), cluster, sent) \<Rightarrow>
        (None, sy\<lparr>sy_broker := (sy_broker sy)\<lparr>bk_channels := chans\<rparr>, sy_cluster := cluster\<rparr>, effs))"

fun handle :: "site \<Rightarrow> 'sa event \<Rightarrow> 'sa system \<Rightarrow> 'sa happening" where
  "handle st (Upgrade io rnd fd rq send update) sy = on_upgrade st io rnd fd rq send update sy"
| "handle st (Frame sid io junk fail inp) sy =
     on_session sid (\<lambda>r. if r = ProtoPusher then pusher_OnSocketRecv io junk fail inp else ws_OnSocketRecv io junk fail inp) sy"
| "handle st (SocketError sid io) sy = on_session sid (\<lambda>r. OnSocketError io) sy"
| "handle st (PushTo sid io msg) sy =
     on_session sid (\<lambda>r s bk. snd (if r = ProtoPusher then pusher_Push io msg s bk else ws_Push io msg s bk)) sy"
| "handle st (LeaveUs sid io) sy =
     on_session sid (\<lambda>r s bk. if r = ProtoPusher then snd (pusher_IsLeaveUs io s bk) else (None, s, bk, [])) sy"
| "handle st (SessionEnd sid io) sy =
     (case um_find (sy_sessions sy) sid of
        None \<Rightarrow> (None, sy, [])
      | Some (r, s) \<Rightarrow>
          (case (if r = ProtoPusher then pusher_destroy io s (sy_broker sy) else (sy_broker sy, [])) of (bk, out) \<Rightarrow>
             (None, sy\<lparr>sy_broker := bk, sy_sessions := um_erase sid (sy_sessions sy)\<rparr>, sess_effects out)))"
| "handle st (ApiRequest ae routes method path headers content) sy = on_api ae routes method path headers content sy"
| "handle st (Datagram ne errno0 sa data) sy = on_datagram ne errno0 sa data sy"
| "handle st (Idle e locks dump now) sy = on_idle e locks dump now sy"

text \<open>A run of the broker from its start; after undefined behaviour there is no state to speak of.\<close>

definition sys_start :: "sockaddr ccluster \<Rightarrow> u64 \<Rightarrow> u64 \<Rightarrow> 'sa system" where
  "sys_start cluster n m = \<lparr>sy_broker = \<lparr>bk_channels = [], bk_born = [], bk_msgid = m\<rparr>, sy_cluster = cluster, sy_sessions = [],
     sy_SessionId = n\<rparr>"

inductive sys_run :: "site \<Rightarrow> 'sa system \<Rightarrow> 'sa event list \<Rightarrow> 'sa system \<Rightarrow> bool" for st where
  sys_run_refl: "sys_run st sy [] sy"
| sys_run_step: "sys_run st sy evs sy1 \<Longrightarrow> handle st ev sy1 = (f, sy2, effs) \<Longrightarrow> \<forall>u. f \<noteq> Some (UB u) \<Longrightarrow>
    sys_run st sy (evs @ [ev]) sy2"

section \<open>Operations that subscribe nobody\<close>

text \<open>What a change of the registry that subscribes nobody keeps, with the effects that go with it.\<close>

definition calm :: "cchannels \<Rightarrow> cchannels \<Rightarrow> effect list \<Rightarrow> bool" where
  "calm chans chans' effs \<longleftrightarrow> (channels_ok chans \<longrightarrow> channels_ok chans'
     \<and> (\<forall>k ch' sid. um_find chans' k = Some ch' \<longrightarrow> sid \<in> set (chSubscribers ch') \<longrightarrow>
          (\<exists>ch. um_find chans k = Some ch \<and> sid \<in> set (chSubscribers ch)))
     \<and> (\<forall>x msg. Deliver x msg \<in> set effs \<longrightarrow> (\<exists>k ch. um_find chans k = Some ch \<and> x \<in> set (chSubscribers ch))))"

lemma calm_refl [simp]: "(\<And>x msg. Deliver x msg \<notin> set effs) \<Longrightarrow> calm chans chans effs"
  by (auto simp: calm_def)

lemma calm_trans: "calm chans chans1 effs1 \<Longrightarrow> calm chans1 chans2 effs2 \<Longrightarrow> calm chans chans2 (effs1 @ effs2)"
  unfolding calm_def set_append Un_iff by (intro impI conjI allI) metis+

lemma calm_settle:
  assumes "um_find chans k = Some ch" "settle ch' effs chans = (chans', effs')"
    and "channel_ok k ch \<Longrightarrow> same_channel ch ch' \<and> distinct (chSubscribers ch')"
    and "set (chSubscribers ch') \<subseteq> set (chSubscribers ch)" "\<And>x msg. Deliver x msg \<in> set effs \<Longrightarrow> x \<in> set (chSubscribers ch)"
  shows "calm chans chans' effs'"
proof -
  have "channels_ok chans'
      \<and> (\<forall>j c' sid. um_find chans' j = Some c' \<longrightarrow> sid \<in> set (chSubscribers c') \<longrightarrow>
          (\<exists>c. um_find chans j = Some c \<and> sid \<in> set (chSubscribers c)))"
    if ok: "channels_ok chans"
  proof -
    note ch = channels_ok_find [OF ok assms(1)]
    have "channels_ok chans'" using settle_channels_ok [OF ok ch _ _ assms(2)] assms(3) [OF ch] by blast
    moreover have "chUid ch' = k" using assms(3) [OF ch] ch by (auto simp: same_channel_def channel_ok_def)
    ultimately show ?thesis using assms(1,2,4)
      by (auto simp: settle_def UnRegister_def split: if_splits)
  qed
  moreover have "\<exists>j c. um_find chans j = Some c \<and> x \<in> set (chSubscribers c)" if "Deliver x msg \<in> set effs'" for x msg
    using that assms(1,5) settle_no_delivery [OF assms(2)] by blast
  ultimately show ?thesis by (auto simp: calm_def)
qed

lemma sound_same: "sound_op ch ch' effs \<Longrightarrow> same_channel ch ch' \<and> distinct (chSubscribers ch')"
  by (simp add: sound_op_def)

lemma push_calm:
  assumes "um_find chans k = Some ch" "base_Push e locks msg ch = Inr (n, ch', effs)" "settle ch' effs chans = (chans', effs')"
  shows "calm chans chans' effs'"
  by (rule calm_settle [OF assms(1,3)])
    (use base_Push_sound [OF assms(2)] sound_same base_Push_subset [OF assms(2)] base_Push_deliveries [OF assms(2)] in blast)+

lemma push_made_calm:
  assumes "um_find chans k = Some ch" "push_made e locks now m doc ch = (Inr (n, ch', effs), m')" "settle ch' effs chans = (chans', effs')"
  shows "calm chans chans' effs'"
  by (rule calm_settle [OF assms(1,3)])
    (use push_made_sound [OF assms(2)] sound_same push_made_spread [OF assms(2)] in blast)+

lemma unsubscribe_calm:
  assumes "unsubscribe_all io sid ws bk = (bk', effs)"
  shows "calm (bk_channels bk) (bk_channels bk') effs"
  using unsubscribe_all_leaving [OF assms] unsubscribe_all_no_delivery [OF assms]
  by (auto simp: calm_def members_def subset_iff)

lemma members_calm: "calm (bk_channels bk) (bk_channels bk') effs \<Longrightarrow> channels_ok (bk_channels bk) \<Longrightarrow>
    uid \<in> members bk' sid \<Longrightarrow> uid \<in> members bk sid"
  by (fastforce simp: calm_def members_def)

lemma admits_calm:
  assumes "calm (bk_channels bk) (bk_channels bk') effs" "subsId s' = subsId s" "App s' = App s"
    and "\<And>x msg. (x, msg) \<in> delivered out \<Longrightarrow> Deliver x msg \<in> set effs"
  shows "admits grant s bk (f, s', bk', out)"
proof -
  have "\<exists>uid. uid \<in> members bk x" if "(x, msg) \<in> delivered out" "channels_ok (bk_channels bk)" for x msg
    using assms(1) assms(4) [OF that(1)] that(2) by (fastforce simp: calm_def members_def)
  with assms(1-3) members_calm [OF assms(1)] show ?thesis by (simp add: admits_def calm_def) blast
qed

section \<open>What each handler admits\<close>

lemma unsubscribe_from_calm:
  assumes "unsubscribe_from io sid w bk = (bk', effs)"
  shows "calm (bk_channels bk) (bk_channels bk') effs"
  using unsubscribe_calm [of io sid "[([], w)]" bk bk' effs] assms by simp

lemma OnPusherUnSubscribe_admits: "admits grant s bk (OnPusherUnSubscribe io msg s bk)"
  by (auto simp: OnPusherUnSubscribe_def Let_def intro!: admits_calm unsubscribe_from_calm
      split: sum.split json.split option.split prod.split)

lemma pusher_touch_fields [simp]: "subsId (pusher_touch io s) = subsId s" "App (pusher_touch io s) = App s"
  and ws_touch_fields [simp]: "subsId (ws_touch io s) = subsId s" "App (ws_touch io s) = App s"
  by (simp_all add: pusher_touch_def ws_touch_def)

lemmas errors_admit = leaving_admits [OF sess_error_leaving] leaving_admits [OF OnSocketError_leaving]
  leaving_admits [OF ws_react_leaving] leaving_admits [OF sess_write_leaving]

lemma OnPusherPing_admits: "admits grant s bk (OnPusherPing io s bk)"
proof -
  obtain res st where w: "sess_write io (io_dump io (JObj [(''event'', JStr ''pusher:pong'')])) s bk = (res, st)" by (meson surj_pair)
  have "admits grant s bk st"
    using errors_admit(4) [of grant s bk io "io_dump io (JObj [(''event'', JStr ''pusher:pong'')])"] by (simp add: w)
  then show ?thesis by (simp add: OnPusherPing_def w admits_andthen)
qed

lemma OnPusherPush_admits: "admits grant s bk (OnPusherPush io msg s bk)"
  by (auto simp: OnPusherPush_def errors_admit split: sum.split)

text \<open>Who may be subscribed by a message to a Pusher session: itself, to a channel of its application, with leave.\<close>

definition pusher_grant :: "io \<Rightarrow> 'sa session \<Rightarrow> string \<Rightarrow> string \<Rightarrow> bool" where
  "pusher_grant io s sid uid \<longleftrightarrow> sid = subsId s \<and> (\<exists>name token data. uid = chan_uid (cr_Id (app_cred (App s))) name
     \<and> IsAllowChannelSession (io_hmac io) (App s) (ChannelType name) (subsId s) name token data [] = Inr True)"

lemma pusher_grant_cong: "subsId s' = subsId s \<Longrightarrow> App s' = App s \<Longrightarrow> pusher_grant io s' = pusher_grant io s"
  by (simp add: pusher_grant_def fun_eq_iff)

lemma pusher_dispatch_admits: "admits (pusher_grant io s) s bk (pusher_dispatch io msg s bk)"
proof -
  have "admits (pusher_grant io s) s bk (OnPusherSubscribe io msg s bk)"
    by (rule admits_mono [OF OnPusherSubscribe_admits]) (auto simp: pusher_grant_def)
  then show ?thesis
    by (auto simp: pusher_dispatch_def OnPusherUnSubscribe_admits OnPusherPing_admits OnPusherPush_admits errors_admit
        split: sum.split json.split)
qed

lemma pusher_OnWsMessage_admits: "admits (pusher_grant io s) s bk (pusher_OnWsMessage io data s bk)"
proof -
  let ?s = "pusher_touch io s"
  obtain message m where u: "msg_Unserialize (io_parse io) (bk_msgid bk) (io_clock io) data (subsId ?s) = (message, m)" by force
  have "admits (pusher_grant io s) ?s (bk\<lparr>bk_msgid := m\<rparr>) (pusher_OnWsMessage io data s bk)"
    using pusher_dispatch_admits [of io ?s "bk\<lparr>bk_msgid := m\<rparr>"] u
    by (cases message) (simp_all add: pusher_OnWsMessage_def Let_def errors_admit pusher_grant_cong [of ?s s])
  then show ?thesis by (simp add: admits_cong [of ?s s "bk\<lparr>bk_msgid := m\<rparr>" bk])
qed

lemma ws_deliver_admits:
  assumes "um_find (bk_channels bk) k = Some ch"
  shows "admits grant s bk (ws_deliver io name msg ch s bk)"
proof (cases "base_Push (io_env io) (io_sub_locks io) msg ch")
  case (Inl f)
  then show ?thesis by (auto simp: ws_deliver_def channel_Push_def delivered_def)
next
  case (Inr r)
  obtain n ch' effs where r: "r = (n, ch', effs)" by (metis prod_cases3)
  obtain chans effs' where t: "settle ch' effs (bk_channels bk) = (chans, effs')" by force
  note push_calm [OF assms Inr [unfolded r] t]
  then show ?thesis using Inr r t
    by (auto simp: ws_deliver_def channel_Push_def delivered_def intro!: admits_calm)
qed

lemma ws_OnWsMessage_admits: "admits grant s bk (ws_OnWsMessage io data s bk)"
proof -
  let ?s = "ws_touch io s"
  obtain message bk0 where u: "ws_UnPack io data ?s bk = (message, bk0)" by force
  have bk0: "bk_channels bk0 = bk_channels bk" using u by (auto simp: ws_UnPack_def Let_def split: prod.splits)
  have "admits grant ?s bk0 (snd (ws_try io data ?s bk))"
    using u ws_deliver_admits [of bk0]
    by (auto simp: ws_try_def lock_weak_def split: option.splits sum.splits if_splits)
  then have body: "admits grant s bk (snd (ws_try io data ?s bk))"
    using admits_cong [of ?s s bk0 bk] bk0 by simp
  obtain r f s1 bk1 out where t: "ws_try io data ?s bk = (r, f, s1, bk1, out)" by (metis prod_cases5)
  have tried: "admits grant s bk (g, s1, bk1, out)" for g using body by (simp add: t admits_def)
  show ?thesis using tried admits_andthen [OF tried errors_admit(2)] by (simp add: ws_OnWsMessage_def t)
qed

lemma run_events_admits:
  assumes "\<And>data s' bk'. subsId s' = subsId s \<Longrightarrow> App s' = App s \<Longrightarrow> admits grant s' bk' (onmsg data s' bk')"
    and "\<And>s'. subsId (touch s') = subsId s' \<and> App (touch s') = App s'"
  shows "admits grant s bk (run_events io touch onmsg junk evs s bk)"
  using assms(1)
proof (induction evs arbitrary: s bk)
  case (Cons ev evs)
  have "admits grant s bk
      (case ev of
         OnWsMessage opc payload n \<Rightarrow> onmsg (map char_of_byte (case payload of Some p \<Rightarrow> p | None \<Rightarrow> take n junk)) s bk
       | OnWsPing \<Rightarrow> (None, touch s, bk, [])
       | OnWsClose \<Rightarrow> OnSocketError io s bk
       | OnWsError err \<Rightarrow> OnSocketError io s bk
       | WsSend data \<Rightarrow> (None, s, bk, [OutBytes data]))"
    using Cons.prems [of s bk] assms(2) by (auto simp: errors_admit split: ws_event.split)
  then show ?case unfolding run_events.simps by (rule admits_andthen) (rule Cons.IH, simp add: Cons.prems)
qed simp

lemma pusher_OnSocketRecv_admits: "admits (pusher_grant io s) s bk (pusher_OnSocketRecv io junk fail inp s bk)"
  unfolding pusher_OnSocketRecv_def
proof (rule run_events_admits)
  fix data bk' and s' :: "'a session"
  assume "subsId s' = subsId s" "App s' = App s"
  from pusher_grant_cong [OF this]
  show "admits (pusher_grant io s) s' bk' (pusher_OnWsMessage io data s' bk')"
    using pusher_OnWsMessage_admits [of io s' bk' data] by simp
qed simp

lemma ws_OnSocketRecv_admits: "admits grant s bk (ws_OnSocketRecv io junk fail inp s bk)"
  unfolding ws_OnSocketRecv_def by (rule run_events_admits) (simp_all add: ws_OnWsMessage_admits)

lemma pusher_Push_admits: "admits grant s bk (snd (pusher_Push io msg s bk))"
  by (auto simp: pusher_Push_def Let_def errors_admit intro!: admits_andthen split: sum.split prod.split)

lemma ws_Push_admits: "admits grant s bk (snd (ws_Push io msg s bk))"
  by (auto simp: ws_Push_def Let_def errors_admit intro!: admits_andthen split: sum.split prod.split)

lemma pusher_IsLeaveUs_admits: "admits grant s bk (snd (pusher_IsLeaveUs io s bk))"
  by (simp add: pusher_IsLeaveUs_def errors_admit)

lemma pusher_OnWsConnect_admits: "admits grant s bk (snd (pusher_OnWsConnect io s bk))"
proof -
  define reply where "reply = io_dump io (JObj [(''event'', JStr ''pusher:connection_established''),
      (''data'', JStr (io_dump io (JObj [(''socket_id'', JStr (subsId s)),
         (''activity_timeout'', JStr (to_string (nat (KeepAlive s))))])))])"
  obtain res st where w: "sess_write io reply s bk = (res, st)" by (meson surj_pair)
  have "admits grant s bk st" using errors_admit(4) [of grant s bk io reply] by (simp add: w)
  then show ?thesis by (auto simp: pusher_OnWsConnect_def w simp flip: reply_def intro!: admits_andthen)
qed

text \<open>The API publishes, but subscribes nobody.\<close>

definition api_calm :: "broker \<Rightarrow> api_step \<Rightarrow> bool" where
  "api_calm bk st \<longleftrightarrow> (case st of (f, bk', out) \<Rightarrow> calm (bk_channels bk) (bk_channels bk') (api_effects out))"

lemma api_effects_refuse [simp]: "api_effects (refuse code) = []"
  by (simp add: refuse_def)

lemma api_calm_done [simp]: "bk_channels bk' = bk_channels bk \<Longrightarrow> api_effects out = [] \<Longrightarrow> api_calm bk (f, bk', out)"
  by (simp add: api_calm_def)

lemma api_calm_answer [simp]: "bk_channels bk' = bk_channels bk \<Longrightarrow> api_calm bk (api_answer ae code bk')"
  by (simp add: api_answer_def)

lemma api_calm_bind: "(\<And>x. m = Inr x \<Longrightarrow> api_calm bk (k x)) \<Longrightarrow> bk_channels bk' = bk_channels bk \<Longrightarrow> api_calm bk (api_bind m bk' k)"
  by (cases m) (simp_all add: api_bind_def)

lemma api_calm_then:
  assumes "api_calm bk st" "\<And>bk'. api_calm bk' (k bk')"
  shows "api_calm bk (api_then st k)"
proof -
  obtain f bk1 out1 where st: "st = (f, bk1, out1)" by (metis prod_cases3)
  obtain f2 bk2 out2 where k: "k bk1 = (f2, bk2, out2)" by (metis prod_cases3)
  show ?thesis using assms(1) assms(2) [of bk1] st k calm_trans
    by (cases f) (auto simp: api_calm_def api_then_def)
qed

lemma api_push_channel_calm: "api_calm bk (snd (api_push_channel ae app msg name bk))"
proof (cases "GetChannel app name (bk_channels bk)")
  case None
  then show ?thesis by (simp add: api_push_channel_def)
next
  case (Some ch)
  show ?thesis
  proof (cases "DupChannelMessage msg name")
    case (Inl f)
    with Some show ?thesis by (simp add: api_push_channel_def)
  next
    case dup: (Inr d)
    show ?thesis
    proof (cases "base_Push (io_env (ae_io ae)) (io_sub_locks (ae_io ae)) d ch")
      case (Inl f)
      with Some dup show ?thesis by (simp add: api_push_channel_def channel_Push_def api_calm_def)
    next
      case (Inr r)
      obtain n ch' effs where r: "r = (n, ch', effs)" by (metis prod_cases3)
      obtain chans effs' where t: "settle ch' effs (bk_channels bk) = (chans, effs')" by force
      have "calm (bk_channels bk) chans effs'"
        using push_calm [OF Some [unfolded GetChannel_def] Inr [unfolded r] t] .
      from calm_trans [OF calm_refl this, of "[ClusterPush (chType ch) (chApp ch) (chName ch) d]"] Some dup Inr r t show ?thesis
        by (simp add: api_push_channel_def channel_Push_def api_calm_def)
    qed
  qed
qed

lemma api_cluster_push_calm: "api_calm bk (api_cluster_push app msg name bk)"
  by (auto simp: api_cluster_push_def intro!: api_calm_bind) (simp add: api_calm_def)

lemma api_push_all_calm: "api_calm bk (snd (api_push_all ae app msg js reply bk))"
proof (induction js arbitrary: reply bk)
  case (Cons j js)
  show ?case
  proof (cases "get_string j")
    case (Inl f)
    then show ?thesis by simp
  next
    case (Inr name)
    obtain n st where p: "api_push_channel ae app msg name bk = (n, st)" by (meson surj_pair)
    have st: "api_calm bk (api_then st (api_cluster_push app msg name))"
      using api_push_channel_calm [of bk ae app msg name] by (simp add: p api_calm_then api_cluster_push_calm)
    have "snd (api_push_all ae app msg (j # js) reply bk) =
        api_then (api_then st (api_cluster_push app msg name))
          (\<lambda>bk. snd (api_push_all ae app msg js (um_assign name (JInt (int n)) reply) bk))"
      using Inr p by (auto simp: api_then_def split: prod.splits option.splits)
    then show ?thesis using api_calm_then [OF st Cons.IH] by simp
  qed
qed simp

lemma ApiOnEvents_calm: "api_calm bk (ApiOnEvents ae vals method headers content bk)"
proof -
  have publish: "api_calm bk (case api_push_all ae app msg names [] bk' of (reply, st) \<Rightarrow> api_then st (\<lambda>bk.
      api_bind (json_at msg ''#msg-id'') bk (\<lambda>mid. (None, bk, ApiResponse ae ''200'' (answer mid reply) keep))))"
    if "bk_channels bk' = bk_channels bk" for app msg names bk' keep and answer :: "json \<Rightarrow> (string, json) umap \<Rightarrow> string"
  proof -
    obtain reply st where p: "api_push_all ae app msg names [] bk' = (reply, st)" by (meson surj_pair)
    have "api_calm bk' st" using api_push_all_calm [of bk' ae app msg names "[]"] by (simp add: p)
    then have "api_calm bk st" using that by (simp add: api_calm_def)
    then show ?thesis by (auto simp: p intro!: api_calm_then api_calm_bind)
  qed
  obtain r n where u: "msg_Unserialize (io_parse (ae_io ae)) (bk_msgid bk) (io_clock (ae_io ae)) content ''api'' = (r, n)"
    by (meson surj_pair)
  have message: "api_calm bk (api_bind (api_channels_field msg) (bk\<lparr>bk_msgid := n\<rparr>) (\<lambda>msg.
      case json_find msg ''channels'' of
        Some (JArr names) \<Rightarrow>
          if contains msg ''name'' then
            case api_push_all ae app msg names [] (bk\<lparr>bk_msgid := n\<rparr>) of (reply, st) \<Rightarrow>
            api_then st (\<lambda>bk. api_bind (json_at msg ''#msg-id'') bk (\<lambda>mid. (None, bk, ApiResponse ae ''200'' (answer mid reply) keep)))
          else api_answer ae ''400'' (bk\<lparr>bk_msgid := n\<rparr>)
      | _ \<Rightarrow> api_answer ae ''400'' (bk\<lparr>bk_msgid := n\<rparr>)))"
    for app msg keep and answer :: "json \<Rightarrow> (string, json) umap \<Rightarrow> string"
    by (rule api_calm_bind) (auto split: option.split json.split intro!: publish)
  show ?thesis
    unfolding ApiOnEvents_def u Let_def
    by (auto intro!: api_calm_bind message split: option.split)
qed

lemma api_handler_calm: "api_calm bk (api_handler ae route vals method headers content bk)"
  by (cases route)
    (auto simp: ApiOnEvents_calm ApiOnChannels_def ApiOnToken_def ApiOnModuleSmpp_def intro!: api_calm_bind split: option.split)

lemma OnHttpRequest_calm:
  assumes "OnHttpRequest ae routes method path headers content bk = Inr (bk', out)"
  shows "calm (bk_channels bk) (bk_channels bk') (api_effects out)"
proof (cases "Call routes path")
  case (Inl f)
  with assms show ?thesis by (cases f) (auto simp: OnHttpRequest_def)
next
  case (Inr r)
  show ?thesis
  proof (cases r)
    case None
    with Inr assms show ?thesis by (auto simp: OnHttpRequest_def)
  next
    case (Some rv)
    obtain route vals where rv: "rv = (route, vals)" by force
    show ?thesis
      using assms Inr Some rv api_handler_calm [of bk ae route vals "method" headers content]
      by (auto simp: OnHttpRequest_def api_calm_def split: prod.splits option.splits failure.splits)
  qed
qed

text \<open>So does the cluster, and the idle round only removes.\<close>

lemma report_channel_found: "report_channel v chans = Inr (Some ch) \<Longrightarrow> \<exists>k. um_find chans k = Some ch"
  by (auto simp: report_channel_def GetChannel_def bind_outcome_eq_Inr)

lemma cluster_OnClusterPush_calm:
  "cluster_OnClusterPush parse e locks ip data chans = Inr (chans', effs') \<Longrightarrow> calm chans chans' effs'"
  by (auto simp: cluster_OnClusterPush_def OnClusterPush_def bind_outcome_eq_Inr dest!: report_channel_found
      split: option.splits if_splits) (metis push_calm)

lemma OnClusterJoin_calm:
  assumes "OnClusterJoin e locks now m val ch = (Inr (n, ch', effs), m')" "um_find chans k = Some ch" "settle ch' effs chans = (chans', effs')"
  shows "calm chans chans' effs'"
  using assms push_made_calm [OF assms(2)] calm_settle [OF assms(2,3)]
  by (auto simp: OnClusterJoin_def same_channel_def channel_ok_def split: if_splits sum.splits)

lemma OnClusterLeave_calm:
  assumes "OnClusterLeave e locks now m val ch = (Inr (n, ch', effs), m')" "um_find chans k = Some ch" "settle ch' effs chans = (chans', effs')"
  shows "calm chans chans' effs'"
  using assms push_made_calm [OF assms(2)] calm_settle [OF assms(2,3)]
  by (auto simp: OnClusterLeave_def same_channel_def channel_ok_def split: if_splits sum.splits)

lemma cluster_OnClusterJoin_calm:
  "cluster_OnClusterJoin parse e locks now m data chans = (Inr (chans', effs'), m') \<Longrightarrow> calm chans chans' effs'"
  by (auto simp: cluster_OnClusterJoin_def bind_outcome_eq_Inr dest!: report_channel_found dest: OnClusterJoin_calm
      split: option.splits if_splits sum.splits prod.splits)

lemma cluster_OnClusterLeave_calm:
  "cluster_OnClusterLeave parse e locks now m data chans = (Inr (chans', effs'), m') \<Longrightarrow> calm chans chans' effs'"
  by (auto simp: cluster_OnClusterLeave_def bind_outcome_eq_Inr dest!: report_channel_found dest: OnClusterLeave_calm
      split: option.splits if_splits sum.splits prod.splits)

lemma cluster_dispatch_calm:
  assumes "cluster_dispatch ne sa act nd = (r, nd')"
  shows "calm (nd_channels nd) (nd_channels nd') (case r of Inl f \<Rightarrow> [] | Inr effs \<Rightarrow> effs)"
  using assms
  by (cases act) (auto simp: settled_def split: sum.splits prod.splits
      dest: cluster_OnClusterPush_calm cluster_OnClusterJoin_calm cluster_OnClusterLeave_calm)

lemma channel_Gc_calm:
  assumes "um_find chans k = Some ch" "channel_Gc e locked ch = (n, ch', effs)" "settle ch' effs chans = (chans', effs')"
  shows "calm chans chans' effs' \<and> (channel_ok k ch \<longrightarrow> chUid ch' = k)"
proof -
  have f: "same_channel ch ch'" "set (chSubscribers ch') \<subseteq> set (chSubscribers ch)"
      "distinct (chSubscribers ch) \<Longrightarrow> distinct (chSubscribers ch')" "Deliver x msg \<notin> set effs" for x msg
    using assms(2) by (auto simp: channel_Gc_def Let_def same_channel_def close_if_empty_def split: if_splits)
  have "calm chans chans' effs'" by (rule calm_settle [OF assms(1,3)]) (use f in \<open>auto simp: channel_ok_def\<close>)
  with f(1) show ?thesis by (auto simp: same_channel_def channel_ok_def)
qed

lemma UnRegister_calm: "calm chans (UnRegister k chans) []"
  using channels_ok_erase [of chans k] by (auto simp: calm_def UnRegister_def)

lemma idle_collect_calm:
  assumes "distinct (map fst rest)" "\<forall>(name, ch) \<in> set rest. um_find chans name = Some ch"
    and "idle_collect e locks rest chans = (chans', effs)"
  shows "calm chans chans' effs"
proof (cases "channels_ok chans")
  case True
  with assms show ?thesis
  proof (induction rest arbitrary: chans effs)
    case (Cons p rest)
    obtain name ch where p: "p = (name, ch)" by force
    obtain n ch' effs0 where g: "channel_Gc e (locks name) ch = (n, ch', effs0)" by (metis prod_cases3)
    obtain chans1 effs1 where s: "settle ch' effs0 chans = (chans1, effs1)" by force
    have found: "um_find chans name = Some ch" using Cons.prems(2) p by auto
    note gc = channel_Gc_calm [OF found g s]
    have uid: "chUid ch' = name" using gc channels_ok_find [OF Cons.prems(4) found] by blast
    have ok1: "channels_ok chans1" using gc Cons.prems(4) by (simp add: calm_def)
    note keep = settle_keeps_rest [OF s uid Cons.prems(1,2) [unfolded p]]
    show ?case
    proof (cases "n = 0")
      case True
      then show ?thesis using Cons.prems(3) p g s calm_trans [OF conjunct1 [OF gc] UnRegister_calm, of name] by simp
    next
      case False
      obtain chans2 effs2 where r: "idle_collect e locks rest chans1 = (chans2, effs2)" by force
      have d: "distinct (map fst rest)" using Cons.prems(1) by simp
      from False Cons.IH [OF d keep _ ok1, of effs2] Cons.prems(3) p g s r gc calm_trans show ?thesis by fastforce
    qed
  qed simp
qed (simp add: calm_def)

text \<open>
  No more than this can be said of the registry: a subscription to a presence channel whose signed data are no object throws
  after the channel was registered and before anybody was subscribed, and the empty channel stays until it is collected.
\<close>

lemma presence_data_leaves_channel:
  assumes "sub_channel msg = Inr (Some name)" "ChannelType name = ch_pres"
    and "sub_field msg ''auth'' = Inr (Some auth)" "sub_field msg ''channel_data'' = Inr (Some cd)"
    and "IsAllowChannelSession (io_hmac io) (App s) ch_pres (subsId s) name auth cd [] = Inr True"
    and "cjson_Unserialize (io_parse io) cd = Some ui" "json_at ui ''user_id'' = Inl f"
    and "um_find (bk_channels bk) (chan_uid (cr_Id (app_cred (App s))) name) = None"
  shows "\<exists>s' bk' out ch. OnPusherSubscribe io msg s bk = (Some f, s', bk', out)
    \<and> um_find (bk_channels bk') (chan_uid (cr_Id (app_cred (App s))) name) = Some ch \<and> chSubscribers ch = []"
proof -
  let ?s = "(pusher_touch io s)\<lparr>SessionPresenceData := cd\<rparr>"
  have "OnPusherSubscribe io msg s bk = join_and_reply io ch_pres name (set_user io) (presence_text io name) ?s bk"
    using assms(1-5) by (simp add: OnPusherSubscribe_def Let_def guarded_def allowed_def)
  moreover have "set_user io ?s = Inl f" using assms(6,7) by (simp add: set_user_def)
  ultimately show ?thesis using assms(8)
    by (simp add: join_and_reply_def join_channel_def Register_def Let_def andthen_def new_channel_def um_find_emplace)
qed

section \<open>Who was let in\<close>

text \<open>An event that lets a session into a channel, in the state it happens in: the first request of a websocket session that
  names the channel in its path, or bytes of a Pusher session, and the check of the token has succeeded.\<close>

fun lets_in :: "site \<Rightarrow> 'sa event \<Rightarrow> 'sa system \<Rightarrow> string \<Rightarrow> string \<Rightarrow> bool" where
  "lets_in st (Upgrade io rnd fd rq send update) sy sid uid \<longleftrightarrow>
     sid = fst (csubscriber_new (uri_Arg (rq_uri rq) ''session'') (sy_SessionId sy) rnd)
     \<and> (\<exists>key app. \<exists>name \<in> set (drop 4 (uriPathList (rq_uri rq))). GetAppByKey (st_creds st) key = Some app
        \<and> uid = chan_uid (cr_Id (app_cred app)) name
        \<and> IsAllowChannelToken (io_hmac io) (io_dec io) (nat (io_now io)) app (ChannelType name) name
            (GetValue (rq_headers rq) ''authorization'' (uri_Arg (rq_uri rq) ''token'')) (GetValue (rq_headers rq) ''origin'' []) = Inr True)"
| "lets_in st (Frame sid' io junk fail inp) sy sid uid \<longleftrightarrow>
     sid' = sid \<and> (\<exists>s key name token data. um_find (sy_sessions sy) sid = Some (ProtoPusher, s)
        \<and> GetAppByKey (st_creds st) key = Some (App s) \<and> uid = chan_uid (cr_Id (app_cred (App s))) name
        \<and> IsAllowChannelSession (io_hmac io) (App s) (ChannelType name) sid name token data [] = Inr True)"
| "lets_in st _ sy sid uid \<longleftrightarrow> False"

text \<open>What holds of the state in every run.\<close>

definition sys_ok :: "site \<Rightarrow> 'sa system \<Rightarrow> bool" where
  "sys_ok st sy \<longleftrightarrow> channels_ok (bk_channels (sy_broker sy))
     \<and> (\<forall>sid r s. um_find (sy_sessions sy) sid = Some (r, s) \<longrightarrow>
          subsId s = sid \<and> r \<noteq> ProtoMqtt \<and> (\<exists>key. GetAppByKey (st_creds st) key = Some (App s)))"

text \<open>What an event may do to a state of that kind.\<close>

definition obeys :: "site \<Rightarrow> (string \<Rightarrow> string \<Rightarrow> bool) \<Rightarrow> 'sa system \<Rightarrow> 'sa happening \<Rightarrow> bool" where
  "obeys st grant sy h \<longleftrightarrow> (case h of (f, sy', effs) \<Rightarrow>
     sys_ok st sy' \<and> (\<forall>sid uid. uid \<in> members (sy_broker sy') sid \<longrightarrow> uid \<in> members (sy_broker sy) sid \<or> grant sid uid)
     \<and> (\<forall>x msg. Deliver x msg \<in> set effs \<longrightarrow> (\<exists>uid. uid \<in> members (sy_broker sy) x \<or> grant x uid)))"

lemma sess_effects_delivered: "Deliver x msg \<in> set (sess_effects out) \<longleftrightarrow> (x, msg) \<in> delivered out"
  by (induction out rule: sess_effects.induct) (auto simp: delivered_def)

lemma sess_effects_map [simp]: "sess_effects (map OutEffect effs) = effs"
  by (induction effs) simp_all

lemma obeys_same: "sys_ok st sy \<Longrightarrow> obeys st grant sy (f, sy, [])"
  by (simp add: obeys_def)

lemma obeys_calm:
  assumes "sys_ok st sy" "calm (bk_channels (sy_broker sy)) (bk_channels (sy_broker sy')) effs"
    and "\<And>sid x. um_find (sy_sessions sy') sid = Some x \<Longrightarrow> um_find (sy_sessions sy) sid = Some x"
  shows "obeys st grant sy (f, sy', effs)"
proof -
  have ok: "channels_ok (bk_channels (sy_broker sy))" using assms(1) by (simp add: sys_ok_def)
  have "channels_ok (bk_channels (sy_broker sy'))" using ok assms(2) by (simp add: calm_def)
  with assms(1,3) have "sys_ok st sy'" unfolding sys_ok_def by blast
  moreover have "\<exists>uid. uid \<in> members (sy_broker sy) x" if "Deliver x msg \<in> set effs" for x msg
    using assms(2) ok that by (fastforce simp: calm_def members_def)
  ultimately show ?thesis using members_calm [OF assms(2) ok] by (simp add: obeys_def) blast
qed

lemma obeys_session:
  assumes "sys_ok st sy" and "\<And>r s. um_find (sy_sessions sy) sid = Some (r, s) \<Longrightarrow> subsId s = sid \<Longrightarrow>
      \<exists>key. GetAppByKey (st_creds st) key = Some (App s) \<Longrightarrow> admits grant s (sy_broker sy) (k r s (sy_broker sy))"
  shows "obeys st grant sy (on_session sid k sy)"
proof (cases "um_find (sy_sessions sy) sid")
  case None
  with assms(1) show ?thesis by (simp add: on_session_def obeys_same)
next
  case (Some rs)
  obtain r s where rs: "rs = (r, s)" by force
  obtain f s' bk out where k: "k r s (sy_broker sy) = (f, s', bk, out)" by (metis prod_cases4)
  have s: "subsId s = sid" "r \<noteq> ProtoMqtt" "\<exists>key. GetAppByKey (st_creds st) key = Some (App s)"
    using assms(1) Some rs by (auto simp: sys_ok_def)
  have "admits grant s (sy_broker sy) (f, s', bk, out)" using assms(2) [OF Some [unfolded rs] s(1,3)] k by simp
  with assms(1) s Some rs k show ?thesis
    by (auto simp: on_session_def obeys_def sys_ok_def admits_def sess_effects_delivered)
qed

lemma admits_trans:
  assumes "admits grant s bk (f, s1, bk1, out1)" "admits grant s1 bk1 (g, s2, bk2, out2)"
  shows "admits grant s bk (g, s2, bk2, out1 @ out2)"
  using assms by (simp add: admits_def) blast

lemma WsAccept_app:
  assumes "WsAccept cfg creds sha1 send takes update poll_alive epollin (res, rq) = Inr (Some (r, app), acts)"
  shows "r \<noteq> ProtoMqtt \<and> (\<exists>key. GetAppByKey creds key = Some app)"
  using assms
  by (auto simp: WsAccept_def WsUpgrade_def OnWsUpgrade_def bind_outcome_eq_Inr split: if_splits option.splits proto.splits)

text \<open>The session that the server starts is the one of the state: \<^verbatim>\<open>WsAccept\<close> with the session's own answer.\<close>

lemma OnWsUpgrade_started:
  "OnWsUpgrade cfg creds takes path = Inr (Some (r, app), acts) \<longleftrightarrow>
     OnWsUpgrade cfg creds (\<lambda>_ _. True) path = Inr (Some (r, app), acts) \<and> takes r app"
proof (cases "app_key cfg path"; cases "uri_At path 1")
  fix key p assume "app_key cfg path = Inr key" "uri_At path 1 = Inr p"
  then show ?thesis
    by (cases "um_find (ProtoRoutes cfg) p"; cases "GetAppByKey creds key"; cases "the (um_find (ProtoRoutes cfg) p)")
      (auto simp: OnWsUpgrade_def)
qed (simp_all add: OnWsUpgrade_def)

lemma WsAccept_started:
  "(\<exists>acts. WsAccept cfg creds sha1 send takes update True True (None, rq) = Inr (Some (r, app), acts)) \<longleftrightarrow>
     (\<exists>acts. WsAccept cfg creds sha1 send (\<lambda>_ _. True) update True True (None, rq) = Inr (Some (r, app), acts)) \<and> takes r app"
proof (cases "wants_upgrade (rq_method rq) (rq_headers rq) \<and> (\<exists>acts. WsUpgrade cfg creds sha1 send (rq_uri rq) (rq_headers rq) = Inr (None, acts))")
  case True
  then obtain acts where "WsUpgrade cfg creds sha1 send (rq_uri rq) (rq_headers rq) = Inr (None, acts)" by blast
  with True have *: "(\<exists>acts. WsAccept cfg creds sha1 send t update True True (None, rq) = Inr (Some (r, app), acts)) \<longleftrightarrow>
      (\<exists>acts. OnWsUpgrade cfg creds t (rq_uri rq) = Inr (Some (r, app), acts))" for t
    by (simp add: WsAccept_def bind_outcome_eq_Inr)
  show ?thesis unfolding * using OnWsUpgrade_started [of cfg creds takes "rq_uri rq" r app] by blast
next
  case False
  then have "WsAccept cfg creds sha1 send t update True True (None, rq) \<noteq> Inr (Some (r, app), acts)" for t acts
    by (auto simp: WsAccept_def bind_outcome_eq_Inr split: if_splits)
  then show ?thesis by blast
qed

lemma obeys_upgrade:
  assumes "sys_ok st sy"
  shows "obeys st (lets_in st (Upgrade io rnd fd rq send update) sy) sy (on_upgrade st io rnd fd rq send update sy)"
    (is "obeys st ?grant sy _")
proof (cases "WsAccept (st_config st) (st_creds st) (st_sha1 st) send (\<lambda>_ _. True) update True True (None, rq)")
  case (Inl f)
  with assms show ?thesis by (simp add: on_upgrade_def obeys_same)
next
  case (Inr ca)
  show ?thesis
  proof (cases "fst ca")
    case None
    with Inr assms show ?thesis by (cases ca) (simp add: on_upgrade_def obeys_same)
  next
    case (Some ra)
    obtain r app acts where ca: "ca = (Some (r, app), acts)" using Some by (cases ca; cases ra) auto
    have app: "r \<noteq> ProtoMqtt" "\<exists>key. GetAppByKey (st_creds st) key = Some app" using WsAccept_app Inr ca by blast+
    obtain accepted f s bk out where p:
        "proto_route st io rnd fd rq (sy_SessionId sy) (sy_broker sy) r app = (accepted, f, s, bk, out)" by (metis prod_cases5)
    define s0 where "s0 = (if r = ProtoPusher then cpushersession_new io (st_Pusher st) app fd (fst (csubscriber_new [] (sy_SessionId sy) rnd))
      else cwssession_new io (st_WebSocket st) app fd (fst (csubscriber_new (uri_Arg (rq_uri rq) ''session'') (sy_SessionId sy) rnd)))"
    have "App s0 = app" by (simp add: s0_def cpushersession_new_def cwssession_new_def)
    have starts: "admits ?grant s0 (sy_broker sy) (f, s, bk, out)"
    proof (cases "r = ProtoPusher")
      case True
      then show ?thesis using p pusher_OnWsConnect_admits [of ?grant s0 "sy_broker sy" io]
        by (simp add: proto_route_def s0_def)
    next
      case False
      then have id: "subsId s0 = fst (csubscriber_new (uri_Arg (rq_uri rq) ''session'') (sy_SessionId sy) rnd)"
        by (simp add: s0_def cwssession_new_def)
      from False p have w: "snd (ws_OnWsConnect io (rq_uri rq) (rq_headers rq) s0 (sy_broker sy)) = (f, s, bk, out)"
        by (simp add: proto_route_def s0_def)
      show ?thesis unfolding w [symmetric]
        by (rule admits_mono [OF ws_OnWsConnect_admits]) (use app(2) \<open>App s0 = app\<close> id in auto)
    qed
    show ?thesis
    proof (cases "accepted \<and> f = None")
      case False
      let ?sy = "sy\<lparr>sy_broker := bk, sy_SessionId := sy_SessionId sy + 1\<rparr>"
      have "on_upgrade st io rnd fd rq send update sy = (f, ?sy, sess_effects out)"
        using False Inr ca p by (auto simp: on_upgrade_def)
      moreover have "sys_ok st ?sy" using starts assms by (simp add: sys_ok_def admits_def)
      moreover have "channels_ok (bk_channels (sy_broker sy))" using assms by (simp add: sys_ok_def)
      ultimately show ?thesis using starts by (simp add: obeys_def admits_def sess_effects_delivered)
    next
      case True
      obtain g s1 bk1 out1 where u: "(if update = None then (None, s, bk, []) else OnSocketError io s bk) = (g, s1, bk1, out1)"
        by (metis prod_cases4)
      have "admits ?grant s bk (g, s1, bk1, out1)"
        using errors_admit(2) [of ?grant s bk io] u by (cases "update = None") auto
      then have a: "admits ?grant s0 (sy_broker sy) (g, s1, bk1, out @ out1)" by (rule admits_trans [OF starts])
      let ?sy = "sy\<lparr>sy_broker := bk1, sy_SessionId := sy_SessionId sy + 1, sy_sessions := um_assign (subsId s1) (r, s1) (sy_sessions sy)\<rparr>"
      have "sys_ok st ?sy" using a assms app \<open>App s0 = app\<close> by (auto simp: sys_ok_def admits_def)
      moreover have "on_upgrade st io rnd fd rq send update sy = (g, ?sy, sess_effects (out @ out1))"
        using True Inr ca p u by (simp add: on_upgrade_def)
      moreover have "channels_ok (bk_channels (sy_broker sy))" using assms by (simp add: sys_ok_def)
      ultimately show ?thesis using a by (simp add: obeys_def admits_def sess_effects_delivered)
    qed
  qed
qed

lemma handle_obeys:
  assumes "sys_ok st sy"
  shows "obeys st (lets_in st ev sy) sy (handle st ev sy)"
proof (cases ev)
  case (Upgrade io rnd fd rq send update)
  with obeys_upgrade [OF assms] show ?thesis by simp
next
  case (Frame sid io junk fail inp)
  have "admits (lets_in st ev sy) s (sy_broker sy)
      ((if r = ProtoPusher then pusher_OnSocketRecv io junk fail inp else ws_OnSocketRecv io junk fail inp) s (sy_broker sy))"
    if "um_find (sy_sessions sy) sid = Some (r, s)" "subsId s = sid" "\<exists>key. GetAppByKey (st_creds st) key = Some (App s)" for r s
    using that Frame admits_mono [OF pusher_OnSocketRecv_admits, of io s "lets_in st ev sy" "sy_broker sy" junk fail inp]
    by (auto simp: pusher_grant_def ws_OnSocketRecv_admits)
  with Frame show ?thesis unfolding Frame handle.simps by (intro obeys_session [OF assms]) auto
next
  case (SessionEnd sid io)
  show ?thesis
  proof (cases "um_find (sy_sessions sy) sid")
    case None
    with SessionEnd assms show ?thesis by (simp add: obeys_same)
  next
    case (Some rs)
    obtain r s where rs: "rs = (r, s)" by force
    obtain bk out where d: "(if r = ProtoPusher then pusher_destroy io s (sy_broker sy) else (sy_broker sy, [])) = (bk, out)" by force
    have "calm (bk_channels (sy_broker sy)) (bk_channels bk) (sess_effects out)"
      using d unsubscribe_calm [of io "subsId s" "SubscribedTo s" "sy_broker sy"]
      by (auto simp: pusher_destroy_def sess_effects_map split: if_splits prod.splits)
    with Some rs SessionEnd d show ?thesis by (auto intro!: obeys_calm [OF assms] split: if_splits)
  qed
next
  case (ApiRequest ae routes verb path headers content)
  then show ?thesis
    using OnHttpRequest_calm
    by (auto simp: on_api_def intro!: obeys_same [OF assms] obeys_calm [OF assms] split: sum.split)
next
  case (Datagram ne errno0 sa data)
  let ?nd = "\<lparr>nd_channels = bk_channels (sy_broker sy), nd_cluster = sy_cluster sy, nd_MsgId = bk_msgid (sy_broker sy)\<rparr>"
  have "calm (bk_channels (sy_broker sy)) (nd_channels nd) (case r of Inl f \<Rightarrow> [] | Inr effs \<Rightarrow> effs)"
    if "node_receive ne errno0 sa [Recv data] ?nd = Some (res, r, q, nd)" for res r q nd
    using that cluster_dispatch_calm [of ne sa _ ?nd r nd]
    by (fastforce simp: node_receive_def split: option.splits prod.splits)
  with Datagram show ?thesis
    by (auto simp: on_datagram_def intro!: obeys_same [OF assms] obeys_calm [OF assms] split: option.split)
next
  case (Idle e locks dump now)
  let ?chans = "bk_channels (sy_broker sy)"
  obtain chans effs where i: "idle_collect e locks ?chans ?chans = (chans, effs)" by force
  have "um_wf ?chans" using assms by (simp add: sys_ok_def channels_ok_def)
  then have "distinct (map fst ?chans)" "\<forall>(name, ch) \<in> set ?chans. um_find ?chans name = Some ch"
    by (auto simp: um_wf_def um_find_def)
  from idle_collect_calm [OF this i] Idle i show ?thesis
    by (auto simp: on_idle_def OnIdle_def ListChannels_def intro!: obeys_calm [OF assms] split: prod.split)
qed (auto intro!: obeys_session [OF assms] simp: errors_admit pusher_Push_admits ws_Push_admits pusher_IsLeaveUs_admits)

section \<open>Runs\<close>

lemma sys_run_ok:
  assumes "sys_run st sy0 evs sy" "sys_ok st sy0"
  shows "sys_ok st sy"
  using assms
proof induction
  case (sys_run_step sy evs sy1 ev f sy2 effs)
  with handle_obeys [of st sy1 ev] show ?case by (simp add: obeys_def)
qed

lemma sys_start_ok: "sys_ok st (sys_start cluster n m)"
  by (simp add: sys_ok_def sys_start_def channels_ok_def um_wf_def um_find_def)

lemma subscribers_let_in:
  assumes "sys_run st sy0 evs sy" "sys_ok st sy0" "uid \<in> members (sy_broker sy) sid" "uid \<notin> members (sy_broker sy0) sid"
  shows "\<exists>pre ev post sy1. evs = pre @ ev # post \<and> sys_run st sy0 pre sy1 \<and> lets_in st ev sy1 sid uid"
  using assms
proof induction
  case (sys_run_step sy evs sy1 ev f sy2 effs)
  show ?case
  proof (cases "uid \<in> members (sy_broker sy1) sid")
    case True
    with sys_run_step obtain pre e post sy' where "evs = pre @ e # post" "sys_run st sy pre sy'" "lets_in st e sy' sid uid" by blast
    then have "evs @ [ev] = pre @ e # (post @ [ev])" "sys_run st sy pre sy'" "lets_in st e sy' sid uid" by simp_all
    then show ?thesis by blast
  next
    case False
    with handle_obeys [OF sys_run_ok [OF sys_run_step.hyps(1) sys_run_step.prems(1)], of ev] sys_run_step
    have "lets_in st ev sy1 sid uid" by (auto simp: obeys_def)
    with sys_run_step.hyps(1) show ?thesis by blast
  qed
qed simp


definition sample_site :: site where
  "sample_site = \<lparr>st_config = sample_config, st_creds = \<lparr>appIds = [], appCreds = [(''k'', App sample_session)]\<rparr>,
     st_sha1 = (\<lambda>b. []), st_WebSocket = srvproto_new, st_Pusher = srvproto_new\<rparr>"

definition sample_start :: "nat system" where
  "sample_start = sys_start (nd_cluster sample_node) 0 0"

definition sample_connect :: "nat event" where
  "sample_connect = Upgrade SessionProps.sample_io 5 (csocket_new 5 0 False True)
     (sample_upgrade ''upgrade'' [''/'', ''ws'', ''v1'', ''k'', ''news'']) None None"

definition sample_sid :: string where
  "sample_sid = fst (csubscriber_new [] 0 5)"

lemma sample_accepts:
  "WsAccept sample_config (st_creds sample_site) sha1 None (\<lambda>_ _. True) None True True
     (None, sample_upgrade ''upgrade'' [''/'', ''ws'', ''v1'', ''k'', ''news'']) =
   Inr (Some (ProtoWebSocket, App sample_session),
     [Respond ''101'' (upgrade_headers sha1 (rq_headers (sample_upgrade ''upgrade'' [''/'', ''ws'', ''v1'', ''k'', ''news'']))),
      StartSession ProtoWebSocket (App sample_session)])"
  using sample_wants [of "[''/'', ''ws'', ''v1'', ''k'', ''news'']"]
  by (simp add: WsAccept_def WsUpgrade_def OnWsUpgrade_def sample_config_def ProtoRoutes_def um_assign_def um_find_def
      app_key_def uri_At_def sample_upgrade_def sample_site_def GetAppByKey_def sample_session_def sample_app_def
      capplication_new_def credential_copy_def credential_new_def)

lemma sample_connects:
  "\<exists>sy effs. handle sample_site sample_connect sample_start = (None, sy, effs)
    \<and> bk_channels (sy_broker sy) = [(''7#news'', (new_channel PublicChannel ''7#news'' ''news'' ''7'' autoclose_yes)\<lparr>chSubscribers := [sample_sid]\<rparr>)]"
proof -
  have t: "ChannelType ''news'' = ch_pub" by (simp add: ChannelType_def starts_with_def)
  have f: "cr_Id (app_cred (App sample_session)) = ''7''" "has_flag (cr_Channels (app_cred (App sample_session))) 1"
    "cr_Origins (app_cred (App sample_session)) = []"
    by (simp_all add: sample_session_def sample_app_def capplication_new_def credential_copy_def credential_new_def cflag_and_def)
  have p: "uriPathList (rq_uri (sample_upgrade ''upgrade'' [''/'', ''ws'', ''v1'', ''k'', ''news''])) = [''/'', ''ws'', ''v1'', ''k'', ''news'']"
    "uri_Arg (rq_uri (sample_upgrade ''upgrade'' [''/'', ''ws'', ''v1'', ''k'', ''news''])) k = []" for k
    by (simp_all add: sample_upgrade_def uri_Arg_def empty_uri_def um_find_def)
  have s: "st_config sample_site = sample_config" by (simp add: sample_site_def)
  show ?thesis
    by (simp add: sample_connect_def on_upgrade_def s sample_accepts proto_route_def ws_OnWsConnect_def p t f IsAllowChannelToken_def
        ws_touch_def cwssession_new_def join_channel_def sample_start_def sys_start_def Register_def Let_def um_find_def chan_uid_def
        channel_Subscribe_def Subscribe_def subs_emplace_def settle_def new_channel_def um_emplace_def um_assign_def born_def
        triggers_def constructed_def andthen_def sample_sid_def)
qed


text \<open>
  C4: in every run the state is sound: the keys of the registry are unique and name the application and channel of
  their entry, a channel has the kind its type says and lists no subscriber twice; a session is stored under its own identifier
  and belongs to an enabled application of the configuration.
\<close>

theorem system_invariant:
  assumes "sys_run st (sys_start cluster n m) evs sy"
  shows "sys_ok st sy"
  using sys_run_ok [OF assms sys_start_ok] .

theorem system_invariant_witness:
  "\<exists>sy. sys_run sample_site sample_start [sample_connect] sy \<and> bk_channels (sy_broker sy) \<noteq> [] \<and> sys_ok sample_site sy"
proof -
  obtain sy effs where c: "handle sample_site sample_connect sample_start = (None, sy, effs)" "bk_channels (sy_broker sy) \<noteq> []"
    using sample_connects by force
  have "sys_run sample_site sample_start [sample_connect] sy" using sys_run_step [OF sys_run_refl c(1)] by simp
  with c(2) system_invariant [OF this [unfolded sample_start_def]] show ?thesis by blast
qed

end
