(* ===== verification/Threads.thy ===== *)
theory Threads
  imports Channels
begin

text \<open>
  The registry of channels as the threads of the broker share it. Channels are objects behind \<^verbatim>\<open>std::shared_ptr\<close>: the registry
  \<^verbatim>\<open>cchannels\<close> holds one pointer per name, the threads hold others on their stacks, sessions hold weak ones, and an object whose
  last pointer is gone is destroyed. The steps are the critical sections of the locks (\<^verbatim>\<open>Sync\<close> of the registry,
  \<^verbatim>\<open>chSubscribersLock\<close> of a channel) and the ends of scopes; the threads take them in any order. Run without interruption,
  joining and leaving do to the registry what \<open>Channels\<close> says; interrupted, they may not.
\<close>

section \<open>State\<close>

record shared =
  sh_objs :: "(nat, cchannel) umap"
  sh_Channels :: "(string, nat) umap"
  sh_held :: "nat list"
  sh_next :: nat

definition shared_new :: shared where
  "shared_new = \<lparr>sh_objs = [], sh_Channels = [], sh_held = [], sh_next = 0\<rparr>"

text \<open>Objects that no pointer refers to are destroyed.\<close>

definition referenced :: "shared \<Rightarrow> nat \<Rightarrow> bool" where
  "referenced sh r \<longleftrightarrow> r \<in> snd ` set (sh_Channels sh) \<or> r \<in> set (sh_held sh)"

definition release :: "shared \<Rightarrow> shared" where
  "release sh = sh\<lparr>sh_objs := filter (\<lambda>(r, ch). referenced sh r) (sh_objs sh)\<rparr>"

section \<open>Steps\<close>

text \<open>\<^verbatim>\<open>Register\<close>, \<^verbatim>\<open>Get\<close> and \<^verbatim>\<open>UnRegister\<close> of the registry, \<^verbatim>\<open>lock\<close> of a weak pointer, the end of a pointer's scope, and the locked
  parts of \<^verbatim>\<open>Subscribe\<close>, \<^verbatim>\<open>UnSubscribe\<close>, \<^verbatim>\<open>Gc\<close> and \<^verbatim>\<open>Push\<close>; their calls of \<^verbatim>\<open>UnRegister\<close> are steps of their own.\<close>

datatype action =
    DoRegister channels_t string string
  | DoGet string string
  | DoLock nat
  | DoDrop nat
  | DoUnRegister string
  | DoSubscribe nat string
  | DoErase nat string
  | DoGc env nat
  | DoSelect env json nat

definition hold :: "nat \<Rightarrow> shared \<Rightarrow> shared" where
  "hold r sh = sh\<lparr>sh_held := r # sh_held sh\<rparr>"

definition on_object :: "nat \<Rightarrow> (cchannel \<Rightarrow> cchannel) \<Rightarrow> shared \<Rightarrow> shared option" where
  "on_object r f sh =
     (if r \<in> set (sh_held sh) then
        map_option (\<lambda>ch. sh\<lparr>sh_objs := um_assign r (f ch) (sh_objs sh)\<rparr>) (um_find (sh_objs sh) r)
      else None)"

definition shared_Register :: "channels_t \<Rightarrow> string \<Rightarrow> string \<Rightarrow> shared \<Rightarrow> shared" where
  "shared_Register type app name sh =
     (let uid = chan_uid app name in
      case um_find (sh_Channels sh) uid of
        Some r \<Rightarrow> hold r sh
      | None \<Rightarrow>
          (case kind_of type of
             None \<Rightarrow> sh
           | Some kind \<Rightarrow>
               hold (sh_next sh) (sh\<lparr>sh_objs := um_emplace (sh_next sh) (new_channel kind uid name app autoclose_yes) (sh_objs sh),
                 sh_Channels := um_emplace uid (sh_next sh) (sh_Channels sh), sh_next := Suc (sh_next sh)\<rparr>)))"

fun act :: "action \<Rightarrow> shared \<Rightarrow> shared option" where
  "act (DoRegister type app name) sh = Some (shared_Register type app name sh)"
| "act (DoGet app name) sh = Some (case um_find (sh_Channels sh) (chan_uid app name) of Some r \<Rightarrow> hold r sh | None \<Rightarrow> sh)"
| "act (DoLock r) sh = Some (if um_find (sh_objs sh) r = None then sh else hold r sh)"
| "act (DoDrop r) sh = (if r \<in> set (sh_held sh) then Some (release (sh\<lparr>sh_held := remove1 r (sh_held sh)\<rparr>)) else None)"
| "act (DoUnRegister uid) sh = Some (release (sh\<lparr>sh_Channels := um_erase uid (sh_Channels sh)\<rparr>))"
| "act (DoSubscribe r s) sh = on_object r (\<lambda>ch. ch\<lparr>chSubscribers := subs_emplace s (chSubscribers ch)\<rparr>) sh"
| "act (DoErase r s) sh = on_object r (\<lambda>ch. ch\<lparr>chSubscribers := subs_erase s (chSubscribers ch)\<rparr>) sh"
| "act (DoGc e r) sh =
     on_object r (\<lambda>ch. ch\<lparr>chSubscribers := filter (\<lambda>s. alive e s \<and> connected e s) (chSubscribers ch)\<rparr>) sh"
| "act (DoSelect e msg r) sh =
     on_object r (\<lambda>ch. case select_subscribers (alive e) msg (chSubscribers ch) of
        Inr (to, kept) \<Rightarrow> ch\<lparr>chSubscribers := kept\<rparr> | Inl f \<Rightarrow> ch) sh"

fun acts :: "action list \<Rightarrow> shared \<Rightarrow> shared option" where
  "acts [] sh = Some sh"
| "acts (a # as) sh = (case act a sh of None \<Rightarrow> None | Some sh' \<Rightarrow> acts as sh')"

lemma acts_append: "acts (as @ bs) sh = (case acts as sh of None \<Rightarrow> None | Some sh' \<Rightarrow> acts bs sh')"
  by (induction as arbitrary: sh) (auto split: option.splits)

section \<open>What the threads do\<close>

text \<open>The pointer \<^verbatim>\<open>Register\<close> returns.\<close>

definition registered :: "string \<Rightarrow> shared \<Rightarrow> nat" where
  "registered uid sh = (case um_find (sh_Channels sh) uid of Some r \<Rightarrow> r | None \<Rightarrow> sh_next sh)"

text \<open>A session joins, and leaves through its weak pointer; \<open>last_one\<close> is whether the channel was empty then.\<close>

definition join_thread :: "channels_t \<Rightarrow> string \<Rightarrow> string \<Rightarrow> string \<Rightarrow> shared \<Rightarrow> action list" where
  "join_thread type app name s sh =
     [DoRegister type app name, DoSubscribe (registered (chan_uid app name) sh) s, DoDrop (registered (chan_uid app name) sh)]"

definition leave_thread :: "nat \<Rightarrow> string \<Rightarrow> cchannel \<Rightarrow> action list" where
  "leave_thread r s ch =
     [DoLock r, DoErase r s] @ (if subs_erase s (chSubscribers ch) = [] \<and> chMode ch = autoclose_yes then [DoUnRegister (chUid ch)] else []) @ [DoDrop r]"

text \<open>The idle round on one channel, of which \<^verbatim>\<open>List\<close> gave it a pointer: \<^verbatim>\<open>Gc\<close>, which unregisters a channel that nobody is left in and
  returns the number of those left, and the call after it.\<close>

definition gc_left :: "env \<Rightarrow> cchannel \<Rightarrow> string list" where
  "gc_left e ch = filter (\<lambda>s. alive e s \<and> connected e s) (chSubscribers ch)"

definition idle_Gc :: "env \<Rightarrow> nat \<Rightarrow> cchannel \<Rightarrow> action list" where
  "idle_Gc e r ch = [DoLock r, DoGc e r] @ (if gc_left e ch = [] \<and> chMode ch = autoclose_yes then [DoUnRegister (chUid ch)] else [])"

definition idle_UnRegister :: "env \<Rightarrow> nat \<Rightarrow> cchannel \<Rightarrow> action list" where
  "idle_UnRegister e r ch = (if gc_left e ch = [] then [DoUnRegister (chUid ch)] else []) @ [DoDrop r]"

section \<open>The invariant\<close>

definition shared_ok :: "shared \<Rightarrow> bool" where
  "shared_ok sh \<longleftrightarrow> um_wf (sh_objs sh) \<and> um_wf (sh_Channels sh)
     \<and> (\<forall>uid r. um_find (sh_Channels sh) uid = Some r \<longrightarrow> (\<exists>ch. um_find (sh_objs sh) r = Some ch \<and> chUid ch = uid))
     \<and> (\<forall>r \<in> set (sh_held sh). um_find (sh_objs sh) r \<noteq> None)
     \<and> (\<forall>r ch. um_find (sh_objs sh) r = Some ch \<longrightarrow> r < sh_next sh \<and> referenced sh r \<and> channel_ok (chUid ch) ch)"

lemma referenced_find: "um_wf (sh_Channels sh) \<Longrightarrow> referenced sh r \<longleftrightarrow> (\<exists>uid. um_find (sh_Channels sh) uid = Some r) \<or> r \<in> set (sh_held sh)"
  by (force simp: referenced_def um_find_iff)

lemma release_find:
  "um_wf (sh_objs sh) \<Longrightarrow> um_find (sh_objs (release sh)) r = (if referenced sh r then um_find (sh_objs sh) r else None)"
  by (auto simp: release_def um_find_filter split: option.split)

lemma release_simps [simp]:
  "sh_Channels (release sh) = sh_Channels sh" "sh_held (release sh) = sh_held sh" "sh_next (release sh) = sh_next sh"
  "referenced (release sh) = referenced sh"
  by (simp_all add: release_def referenced_def fun_eq_iff)

text \<open>A store that may still hold objects without pointers.\<close>

definition shared_loose :: "shared \<Rightarrow> bool" where
  "shared_loose sh \<longleftrightarrow> um_wf (sh_objs sh) \<and> um_wf (sh_Channels sh)
     \<and> (\<forall>uid r. um_find (sh_Channels sh) uid = Some r \<longrightarrow> (\<exists>ch. um_find (sh_objs sh) r = Some ch \<and> chUid ch = uid))
     \<and> (\<forall>r \<in> set (sh_held sh). um_find (sh_objs sh) r \<noteq> None)
     \<and> (\<forall>r ch. um_find (sh_objs sh) r = Some ch \<longrightarrow> r < sh_next sh \<and> channel_ok (chUid ch) ch)"

lemma shared_ok_loose: "shared_ok sh \<longleftrightarrow> shared_loose sh \<and> (\<forall>r ch. um_find (sh_objs sh) r = Some ch \<longrightarrow> referenced sh r)"
  by (auto simp: shared_ok_def shared_loose_def)

lemma release_ok:
  assumes "shared_loose sh"
  shows "shared_ok (release sh)"
proof -
  have wf: "um_wf (sh_objs sh)" "um_wf (sh_Channels sh)" using assms by (simp_all add: shared_loose_def)
  moreover have "um_wf (sh_objs (release sh))" using wf by (simp add: release_def)
  ultimately show ?thesis
    using assms unfolding shared_ok_def shared_loose_def release_simps release_find [OF wf(1)] referenced_find [OF wf(2)]
    by (auto split: if_splits)
qed

lemma on_object_ok:
  assumes "shared_ok sh" "on_object r f sh = Some sh'"
    and "\<And>ch. channel_ok (chUid ch) ch \<Longrightarrow> chUid (f ch) = chUid ch \<and> channel_ok (chUid ch) (f ch)"
  shows "shared_ok sh'"
proof -
  obtain ch where ch: "um_find (sh_objs sh) r = Some ch" and sh': "sh' = sh\<lparr>sh_objs := um_assign r (f ch) (sh_objs sh)\<rparr>"
    using assms(2) by (auto simp: on_object_def split: if_splits)
  have "channel_ok (chUid ch) ch" using assms(1) ch by (auto simp: shared_ok_def)
  with assms(1,3) ch sh' show ?thesis
    by (auto simp: shared_ok_def referenced_def split: if_splits) (metis option.sel)+
qed

lemma hold_ok: "shared_ok sh \<Longrightarrow> um_find (sh_objs sh) r \<noteq> None \<Longrightarrow> shared_ok (hold r sh)"
  by (auto simp: shared_ok_def hold_def referenced_def)

lemma registered_exists:
  assumes "shared_ok sh" "um_find (sh_Channels sh) uid = Some r"
  shows "\<exists>ch. um_find (sh_objs sh) r = Some ch \<and> channel_ok uid ch"
  using assms unfolding shared_ok_def by metis

lemma shared_Register_ok:
  assumes "shared_ok sh"
  shows "shared_ok (shared_Register type app name sh)"
proof (cases "um_find (sh_Channels sh) (chan_uid app name)")
  case (Some r)
  then have "um_find (sh_objs sh) r \<noteq> None" using registered_exists [OF assms] by fastforce
  with Some hold_ok [OF assms] show ?thesis by (simp add: shared_Register_def Let_def)
next
  case None
  show ?thesis
  proof (cases "kind_of type")
    case None
    with assms \<open>um_find (sh_Channels sh) (chan_uid app name) = None\<close> show ?thesis by (simp add: shared_Register_def Let_def)
  next
    case (Some kind)
    let ?ch = "new_channel kind (chan_uid app name) name app autoclose_yes"
    let ?sh = "sh\<lparr>sh_objs := um_emplace (sh_next sh) ?ch (sh_objs sh),
       sh_Channels := um_emplace (chan_uid app name) (sh_next sh) (sh_Channels sh), sh_next := Suc (sh_next sh)\<rparr>"
    have new: "um_find (sh_objs sh) (sh_next sh) = None" using assms by (auto simp: shared_ok_def) (metis less_irrefl option.exhaust)
    have ch: "chUid ?ch = chan_uid app name" "channel_ok (chan_uid app name) ?ch"
      by (cases kind; simp add: channel_ok_def new_channel_def)+
    have wf: "um_wf (sh_Channels ?sh)" "um_wf (sh_Channels sh)" using assms by (simp_all add: shared_ok_def)
    have "shared_ok ?sh"
      using assms new ch \<open>um_find (sh_Channels sh) (chan_uid app name) = None\<close>
      unfolding shared_ok_def referenced_find [OF wf(1)] referenced_find [OF wf(2)]
      by (auto simp: um_find_emplace less_Suc_eq split: if_splits) (metis option.distinct(1))+
    moreover have "um_find (sh_objs ?sh) (sh_next sh) \<noteq> None" by (simp add: um_find_emplace new)
    ultimately have "shared_ok (hold (sh_next sh) ?sh)" by (rule hold_ok)
    with None Some show ?thesis by (simp add: shared_Register_def Let_def)
  qed
qed

lemma act_ok:
  assumes "shared_ok sh" "act a sh = Some sh'"
  shows "shared_ok sh'"
proof (cases a)
  case (DoRegister type app name)
  with assms show ?thesis using shared_Register_ok by auto
next
  case (DoGet app name)
  show ?thesis
  proof (cases "um_find (sh_Channels sh) (chan_uid app name)")
    case (Some r)
    then have "um_find (sh_objs sh) r \<noteq> None" using registered_exists [OF assms(1)] by fastforce
    with Some DoGet assms hold_ok show ?thesis by auto
  qed (use DoGet assms in auto)
next
  case (DoLock r)
  with assms hold_ok show ?thesis by (auto split: if_splits)
next
  case (DoDrop r)
  have "shared_loose (sh\<lparr>sh_held := remove1 r (sh_held sh)\<rparr>)"
    using assms(1) by (auto simp: shared_ok_loose shared_loose_def dest: notin_set_remove1 [rotated] set_remove1_subset [THEN subsetD])
  with DoDrop assms release_ok show ?thesis by (auto split: if_splits)
next
  case (DoUnRegister uid)
  have "shared_loose (sh\<lparr>sh_Channels := um_erase uid (sh_Channels sh)\<rparr>)"
    using assms(1) by (auto simp: shared_ok_loose shared_loose_def split: if_splits)
  with DoUnRegister assms release_ok show ?thesis by auto
next
  case (DoSelect e msg r)
  have "chUid (case select_subscribers (alive e) msg (chSubscribers ch) of Inr (to, kept) \<Rightarrow> ch\<lparr>chSubscribers := kept\<rparr> | Inl f \<Rightarrow> ch) = chUid ch
      \<and> channel_ok (chUid ch) (case select_subscribers (alive e) msg (chSubscribers ch) of
           Inr (to, kept) \<Rightarrow> ch\<lparr>chSubscribers := kept\<rparr> | Inl f \<Rightarrow> ch)"
    if "channel_ok (chUid ch) ch" for ch
    using that select_kept [of "alive e" msg "chSubscribers ch"] by (auto simp: channel_ok_def split: sum.split)
  with DoSelect assms(2) show ?thesis by (auto intro: on_object_ok [OF assms(1)])
qed (use assms(2) in \<open>auto intro!: on_object_ok [OF assms(1)] simp: channel_ok_def subs_emplace_def subs_erase_def\<close>)

lemma acts_ok: "shared_ok sh0 \<Longrightarrow> acts as sh0 = Some sh \<Longrightarrow> shared_ok sh"
  by (induction as arbitrary: sh0) (auto split: option.splits dest: act_ok)



section \<open>Alone, a thread does what the registry promises\<close>

text \<open>The registry the shared state stands for.\<close>

definition represents :: "shared \<Rightarrow> cchannels \<Rightarrow> bool" where
  "represents sh chans \<longleftrightarrow> (\<forall>uid. um_find chans uid = Option.bind (um_find (sh_Channels sh) uid) (um_find (sh_objs sh)))"

lemma shared_unique:
  assumes "shared_ok sh" "um_find (sh_Channels sh) uid = Some r" "um_find (sh_Channels sh) uid' = Some r"
  shows "uid = uid'"
  using assms by (metis shared_ok_def option.inject)

lemma release_represents:
  assumes "um_wf (sh_objs sh)" "um_wf (sh_Channels sh)" "represents sh chans"
  shows "represents (release sh) chans"
  using assms(3) unfolding represents_def release_simps release_find [OF assms(1)] referenced_find [OF assms(2)]
  by (auto split: bind_split)

lemma Register_represents:
  assumes "shared_ok sh" "represents sh chans" "Register type app name chans = (Some ch, chans1, effs)"
  shows "represents (shared_Register type app name sh) chans1
    \<and> um_find (sh_Channels (shared_Register type app name sh)) (chan_uid app name) = Some (registered (chan_uid app name) sh)
    \<and> um_find (sh_objs (shared_Register type app name sh)) (registered (chan_uid app name) sh) = Some ch
    \<and> sh_held (shared_Register type app name sh) = registered (chan_uid app name) sh # sh_held sh"
proof (cases "um_find (sh_Channels sh) (chan_uid app name)")
  case (Some r)
  then obtain c where c: "um_find (sh_objs sh) r = Some c" using registered_exists [OF assms(1)] by blast
  then have "um_find chans (chan_uid app name) = Some c" using assms(2) Some by (simp add: represents_def)
  with assms(2,3) Some c show ?thesis by (auto simp: Register_def shared_Register_def registered_def hold_def represents_def Let_def)
next
  case None
  then have "um_find chans (chan_uid app name) = None" using assms(2) by (simp add: represents_def)
  then obtain kind where kind: "kind_of type = Some kind" and ch: "ch = new_channel kind (chan_uid app name) name app autoclose_yes"
      and chans1: "chans1 = um_emplace (chan_uid app name) ch chans"
    using assms(3) by (auto simp: Register_def Let_def split: option.splits)
  have new: "um_find (sh_objs sh) (sh_next sh) = None" using assms(1) by (auto simp: shared_ok_def) (metis less_irrefl option.exhaust)
  have old: "um_find (sh_Channels sh) uid \<noteq> Some (sh_next sh)" for uid using registered_exists [OF assms(1)] new by fastforce
  show ?thesis
    using None kind ch chans1 assms(2) new old \<open>um_find chans (chan_uid app name) = None\<close>
    by (auto simp: shared_Register_def registered_def hold_def represents_def um_find_emplace Let_def split: bind_split)
qed

lemma object_represents:
  assumes "shared_ok sh" "represents sh chans" "um_find (sh_Channels sh) uid = Some r" "um_find (sh_objs sh) r = Some ch" "r \<in> set (sh_held sh)"
  shows "\<exists>sh'. on_object r f sh = Some sh' \<and> represents sh' (um_assign uid (f ch) chans)
    \<and> sh_Channels sh' = sh_Channels sh \<and> sh_held sh' = sh_held sh"
proof -
  let ?sh = "sh\<lparr>sh_objs := um_assign r (f ch) (sh_objs sh)\<rparr>"
  have "um_find (um_assign uid (f ch) chans) j = Option.bind (um_find (sh_Channels ?sh) j) (um_find (sh_objs ?sh))" for j
  proof (cases "j = uid")
    case False
    then have "um_find (sh_Channels sh) j \<noteq> Some r" using shared_unique [OF assms(1,3)] by blast
    with False assms(2) show ?thesis by (cases "um_find (sh_Channels sh) j") (auto simp: represents_def)
  qed (use assms(3) in simp)
  then have "represents ?sh (um_assign uid (f ch) chans)" unfolding represents_def by blast
  with assms(4,5) show ?thesis by (auto simp: on_object_def)
qed

lemma drop_represents:
  assumes "shared_ok sh" "represents sh chans" "r \<in> set (sh_held sh)"
  shows "\<exists>sh'. act (DoDrop r) sh = Some sh' \<and> represents sh' chans"
  using assms by (auto intro!: release_represents simp: shared_ok_def) (simp add: represents_def)

lemma UnRegister_represents:
  assumes "shared_ok sh" "represents sh chans"
  shows "\<exists>sh'. act (DoUnRegister uid) sh = Some sh' \<and> represents sh' (UnRegister uid chans) \<and> sh_held sh' = sh_held sh"
  using assms by (auto intro!: release_represents simp: shared_ok_def) (simp add: represents_def UnRegister_def)

lemma join_thread_represents:
  assumes "shared_ok sh" "represents sh chans"
    and reg: "Register type app name chans = (Some ch, chans1, e1)" and sub: "Subscribe s ch = (ch1, e2)"
    and settled: "settle ch1 e2 chans1 = (chans2, e3)"
  shows "\<exists>sh'. acts (join_thread type app name s sh) sh = Some sh' \<and> represents sh' chans2"
proof -
  let ?r = "registered (chan_uid app name) sh" and ?sh = "shared_Register type app name sh"
  have R: "represents ?sh chans1" "um_find (sh_Channels ?sh) (chan_uid app name) = Some ?r" "um_find (sh_objs ?sh) ?r = Some ch"
      "?r \<in> set (sh_held ?sh)"
    using Register_represents [OF assms(1,2) reg] by simp_all
  have ok: "shared_ok ?sh" by (rule shared_Register_ok [OF assms(1)])
  have uid: "chUid ch = chan_uid app name" using registered_exists [OF ok R(2)] R(3) by (auto simp: channel_ok_def)
  obtain sh1 where sh1: "act (DoSubscribe ?r s) ?sh = Some sh1" "represents sh1 (um_assign (chan_uid app name) ch1 chans1)"
      "sh_held sh1 = sh_held ?sh"
    using object_represents [OF ok R, of "\<lambda>ch. ch\<lparr>chSubscribers := subs_emplace s (chSubscribers ch)\<rparr>"] sub
    by (auto simp: Subscribe_def Let_def)
  have "chans2 = um_assign (chan_uid app name) ch1 chans1"
    using settled sub uid by (auto simp: Subscribe_def settle_def triggers_def Let_def)
  with sh1 drop_represents [OF act_ok [OF ok sh1(1)] sh1(2)] R(4)
  show ?thesis
    by (auto simp: join_thread_def)
qed

lemma leave_thread_represents:
  assumes "shared_ok sh" "represents sh chans"
    and find: "um_find (sh_Channels sh) uid = Some r" "um_find chans uid = Some ch" "chKind ch \<noteq> PresenceChannel"
    and unsub: "UnSubscribe True l s ch = (ch1, e2)" and settled: "settle ch1 e2 chans = (chans2, e3)"
  shows "\<exists>sh'. acts (leave_thread r s ch) sh = Some sh' \<and> represents sh' chans2"
proof -
  let ?sh = "hold r sh"
  have obj: "um_find (sh_objs sh) r = Some ch" using assms(2) find(1,2) by (simp add: represents_def split: bind_splits)
  then have uid: "chUid ch = uid" using registered_exists [OF assms(1) find(1)] by (auto simp: channel_ok_def)
  have ok: "shared_ok ?sh" using hold_ok [OF assms(1)] obj by simp
  have rep: "represents ?sh chans" using assms(2) by (simp add: represents_def hold_def)
  have ch1: "ch1 = ch\<lparr>chSubscribers := subs_erase s (chSubscribers ch)\<rparr>" using unsub find(3) by (auto simp: UnSubscribe_def Let_def)
  obtain sh1 where sh1: "act (DoErase r s) ?sh = Some sh1" "represents sh1 (um_assign uid ch1 chans)" "sh_held sh1 = sh_held ?sh"
    using object_represents [OF ok rep, of uid r ch "\<lambda>ch. ch\<lparr>chSubscribers := subs_erase s (chSubscribers ch)\<rparr>"] find(1) obj ch1
    by (auto simp: hold_def)
  have ok1: "shared_ok sh1" by (rule act_ok [OF ok sh1(1)])
  have held: "r \<in> set (sh_held sh1)" by (simp add: sh1(3) hold_def)
  have lock: "act (DoLock r) sh = Some ?sh" using obj by simp
  show ?thesis
  proof (cases "subs_erase s (chSubscribers ch) = [] \<and> chMode ch = autoclose_yes")
    case True
    obtain sh2 where sh2: "act (DoUnRegister uid) sh1 = Some sh2" "represents sh2 (UnRegister uid (um_assign uid ch1 chans))" "sh_held sh2 = sh_held sh1"
      using UnRegister_represents [OF ok1 sh1(2)] by blast
    have "UnRegisterChannel uid \<in> set e2" using unsub True uid by (auto simp: UnSubscribe_def close_if_empty_def Let_def)
    then have "chans2 = UnRegister uid chans" using settled ch1 uid by (auto simp: settle_def)
    moreover have "um_find (UnRegister uid (um_assign uid ch1 chans)) j = um_find (UnRegister uid chans) j" for j by (simp add: UnRegister_def)
    ultimately have "represents sh2 chans2" using sh2(2) by (simp add: represents_def)
    then obtain sh3 where "act (DoDrop r) sh2 = Some sh3" "represents sh3 chans2"
      using drop_represents [OF act_ok [OF ok1 sh2(1)]] held sh2(3) by metis
    with True lock sh1(1) sh2(1) uid show ?thesis by (simp add: leave_thread_def del: act.simps)
  next
    case False
    then have "UnRegisterChannel uid \<notin> set e2" using unsub uid find(3) by (auto simp: UnSubscribe_def close_if_empty_def triggers_def Let_def)
    then have "chans2 = um_assign uid ch1 chans" using settled ch1 uid by (auto simp: settle_def)
    then obtain sh3 where "act (DoDrop r) sh1 = Some sh3" "represents sh3 chans2"
      using drop_represents [OF ok1 sh1(2) held] by blast
    with False lock sh1(1) show ?thesis by (auto simp: leave_thread_def simp del: act.simps)
  qed
qed


definition sample_shared :: shared where
  "sample_shared = \<lparr>sh_objs = [(0, (new_channel PublicChannel ''7#news'' ''news'' ''7'' autoclose_yes)\<lparr>chSubscribers := [''s1'']\<rparr>)],
     sh_Channels = [(''7#news'', 0)], sh_held = [], sh_next = 1\<rparr>"

lemma sample_shared_ok: "shared_ok sample_shared"
  by (auto simp: shared_ok_def sample_shared_def um_wf_def um_find_def referenced_def channel_ok_def new_channel_def chan_uid_def
      split: if_splits)

lemma sample_represents:
  "represents sample_shared [(''7#news'', (new_channel PublicChannel ''7#news'' ''news'' ''7'' autoclose_yes)\<lparr>chSubscribers := [''s1'']\<rparr>)]"
  by (simp add: represents_def sample_shared_def um_find_def)


section \<open>Interrupted, a subscription may be lost\<close>

lemma idle_Gc_acts:
  assumes "um_find (sh_objs sh) r = Some ch" "gc_left e ch = []" "chMode ch = autoclose_yes"
  shows "\<exists>sh'. acts (idle_Gc e r ch) sh = Some sh' \<and> sh_Channels sh' = um_erase (chUid ch) (sh_Channels sh)
    \<and> sh_held sh' = r # sh_held sh \<and> sh_next sh' = sh_next sh"
  using assms by (simp add: idle_Gc_def hold_def on_object_def)

lemma join_thread_acts:
  assumes "shared_ok sh" "um_find (sh_Channels sh) (chan_uid app name) = None" "kind_of type = Some kind"
  shows "\<exists>sh' ch. acts (join_thread type app name s sh) sh = Some sh' \<and> um_find (sh_Channels sh') (chan_uid app name) = Some (sh_next sh)
    \<and> um_find (sh_objs sh') (sh_next sh) = Some ch \<and> chSubscribers ch = [s] \<and> sh_held sh' = sh_held sh"
proof -
  let ?n = "sh_next sh" and ?uid = "chan_uid app name"
  let ?ch = "new_channel kind ?uid name app autoclose_yes"
  have new: "um_find (sh_objs sh) ?n = None" using assms(1) by (auto simp: shared_ok_def) (metis less_irrefl option.exhaust)
  have wf: "um_wf (sh_objs sh)" "um_wf (sh_Channels sh)" using assms(1) by (simp_all add: shared_ok_def)
  define sh1 where "sh1 = shared_Register type app name sh"
  have sh1: "sh1 = hold ?n (sh\<lparr>sh_objs := um_emplace ?n ?ch (sh_objs sh), sh_Channels := um_emplace ?uid ?n (sh_Channels sh), sh_next := Suc ?n\<rparr>)"
    using assms(2,3) by (simp add: sh1_def shared_Register_def Let_def)
  define sh2 where "sh2 = sh1\<lparr>sh_objs := um_assign ?n (?ch\<lparr>chSubscribers := [s]\<rparr>) (sh_objs sh1), sh_held := sh_held sh\<rparr>"
  have "registered ?uid sh = ?n" using assms(2) by (simp add: registered_def)
  then have "acts (join_thread type app name s sh) sh = Some (release sh2)"
    using new by (simp add: join_thread_def flip: sh1_def)
      (simp add: sh1 sh2_def hold_def on_object_def um_find_emplace new_channel_def subs_emplace_def)
  moreover have "um_find (sh_Channels sh2) ?uid = Some ?n" using assms(2) by (simp add: sh2_def sh1 hold_def um_find_emplace)
  moreover have "um_find (sh_objs sh2) ?n = Some (?ch\<lparr>chSubscribers := [s]\<rparr>)" "um_wf (sh_objs sh2)" "um_wf (sh_Channels sh2)"
    using wf by (simp_all add: sh2_def sh1 hold_def)
  moreover from calculation have "referenced sh2 ?n" using referenced_find by blast
  ultimately show ?thesis by (simp add: release_find) (simp add: sh2_def)
qed

text \<open>
  C39: the idle round can undo a subscription that succeeded. \<^verbatim>\<open>OnIdle\<close> collects a channel of which nobody is left, which
  unregisters it, and then unregisters its name once more; if a session joins the channel between the two, it is
  subscribed to a new channel of that name and told so, but the second call removes this channel from the registry, and with the
  last pointer gone it is destroyed: the session is subscribed to nothing.
\<close>

theorem idle_loses_subscriber:
  assumes "shared_ok sh" "sh_held sh = []" "um_find (sh_Channels sh) (chan_uid app name) = Some r" "um_find (sh_objs sh) r = Some ch"
    and "\<And>x. x \<in> set (chSubscribers ch) \<Longrightarrow> \<not> (alive e x \<and> connected e x)" "kind_of type = Some kind"
  shows "\<exists>sh1 sh2 sh3 new. acts (idle_Gc e r ch) sh = Some sh1
    \<and> acts (join_thread type app name s sh1) sh1 = Some sh2
    \<and> Option.bind (um_find (sh_Channels sh2) (chan_uid app name)) (um_find (sh_objs sh2)) = Some new \<and> s \<in> set (chSubscribers new)
    \<and> acts (idle_UnRegister e r ch) sh2 = Some sh3
    \<and> um_find (sh_Channels sh3) (chan_uid app name) = None
    \<and> (\<forall>r' ch'. um_find (sh_objs sh3) r' = Some ch' \<longrightarrow> chUid ch' \<noteq> chan_uid app name)"
proof -
  let ?uid = "chan_uid app name"
  have ch: "chUid ch = ?uid" "chMode ch = autoclose_yes" using registered_exists [OF assms(1,3)] assms(4) by (auto simp: channel_ok_def)
  have left: "gc_left e ch = []" using assms(5) by (auto simp: gc_left_def filter_empty_conv)
  obtain sh1 where sh1: "acts (idle_Gc e r ch) sh = Some sh1" "sh_Channels sh1 = um_erase ?uid (sh_Channels sh)" "sh_held sh1 = [r]"
    using idle_Gc_acts [OF assms(4) left] assms(2) ch by auto
  have ok1: "shared_ok sh1" by (rule acts_ok [OF assms(1) sh1(1)])
  obtain sh2 new where sh2: "acts (join_thread type app name s sh1) sh1 = Some sh2" "um_find (sh_Channels sh2) ?uid = Some (sh_next sh1)"
      "um_find (sh_objs sh2) (sh_next sh1) = Some new" "chSubscribers new = [s]" "sh_held sh2 = [r]"
    using join_thread_acts [OF ok1 _ assms(6), of app name s] sh1(2,3) by auto
  obtain sh3 where sh3: "acts (idle_UnRegister e r ch) sh2 = Some sh3" "sh_Channels sh3 = um_erase ?uid (sh_Channels sh2)" "sh_held sh3 = []"
    by (simp add: idle_UnRegister_def sh2(5) left ch)
  have ok3: "shared_ok sh3" by (rule acts_ok [OF acts_ok [OF ok1 sh2(1)] sh3(1)])
  have "chUid ch' \<noteq> ?uid" if "um_find (sh_objs sh3) r' = Some ch'" for r' ch'
  proof -
    have "referenced sh3 r'" "um_wf (sh_Channels sh3)" using ok3 that by (auto simp: shared_ok_def)
    then obtain uid where u: "um_find (sh_Channels sh3) uid = Some r'" using sh3(3) by (auto simp: referenced_find)
    then have "chUid ch' = uid" using registered_exists [OF ok3 u] that by (auto simp: channel_ok_def)
    with u sh3(2) show ?thesis by auto
  qed
  with sh1 sh2 sh3 show ?thesis by simp
qed

theorem idle_loses_subscriber_witness:
  "\<exists>ch sh1 sh2 sh3. acts (idle_Gc (sample_env\<lparr>alive := \<lambda>_. False\<rparr>) 0 ch) sample_shared = Some sh1
    \<and> acts (join_thread ch_pub ''7'' ''news'' ''s2'' sh1) sh1 = Some sh2
    \<and> acts (idle_UnRegister (sample_env\<lparr>alive := \<lambda>_. False\<rparr>) 0 ch) sh2 = Some sh3 \<and> um_find (sh_Channels sh3) ''7#news'' = None"
proof -
  have uid: "chan_uid ''7'' ''news'' = ''7#news''" by (simp add: chan_uid_def)
  have "um_find (sh_Channels sample_shared) ''7#news'' = Some 0" "sh_held sample_shared = []" "\<exists>ch. um_find (sh_objs sample_shared) 0 = Some ch"
    by (simp_all add: sample_shared_def um_find_def)
  then show ?thesis
    using idle_loses_subscriber [OF sample_shared_ok, of "''7''" "''news''" 0 _ "sample_env\<lparr>alive := \<lambda>_. False\<rparr>" ch_pub PublicChannel "''s2''"]
    unfolding uid by simp blast
qed

text \<open>Likewise a session that joins while the last member leaves: \<^verbatim>\<open>Register\<close> gave it the old channel, which the other thread then
  unregisters, and the channel ends with the handler that joined it.\<close>

lemma join_races_leave:
  assumes "shared_ok sh" "sh_held sh = []" "um_find (sh_Channels sh) (chan_uid app name) = Some r" "um_find (sh_objs sh) r = Some ch"
    and "chSubscribers ch = [x]" "chMode ch = autoclose_yes"
  shows "\<exists>sh1 sh2 sh3. acts [DoRegister type app name] sh = Some sh1 \<and> acts (leave_thread r x ch) sh1 = Some sh2
    \<and> acts [DoSubscribe r s, DoDrop r] sh2 = Some sh3 \<and> um_find (sh_Channels sh3) (chan_uid app name) = None
    \<and> um_find (sh_objs sh3) r = None"
proof -
  let ?uid = "chan_uid app name"
  have uid: "chUid ch = ?uid" using registered_exists [OF assms(1,3)] assms(4) by (auto simp: channel_ok_def)
  define sh1 where "sh1 = hold r sh"
  have a1: "acts [DoRegister type app name] sh = Some sh1" using assms(3) by (simp add: shared_Register_def sh1_def Let_def)
  have ok1: "shared_ok sh1" by (rule acts_ok [OF assms(1) a1])
  obtain sh2 where a2: "acts (leave_thread r x ch) sh1 = Some sh2" "sh_Channels sh2 = um_erase ?uid (sh_Channels sh)" "sh_held sh2 = [r]"
    using assms(2,4-6) uid by (simp add: leave_thread_def sh1_def hold_def on_object_def subs_erase_def)
  have ok2: "shared_ok sh2" by (rule acts_ok [OF ok1 a2(1)])
  have "um_find (sh_objs sh2) r \<noteq> None" using ok2 a2(3) by (simp add: shared_ok_def)
  then obtain sh3 where a3: "acts [DoSubscribe r s, DoDrop r] sh2 = Some sh3" "sh_Channels sh3 = um_erase ?uid (sh_Channels sh)" "sh_held sh3 = []"
    using a2 by (auto simp: on_object_def)
  have ok3: "shared_ok sh3" by (rule acts_ok [OF ok2 a3(1)])
  have "\<not> referenced sh3 r"
    using a3 ok3 shared_unique [OF assms(1,3)] by (auto simp: referenced_find shared_ok_def split: if_splits)
  then have "um_find (sh_objs sh3) r = None" using ok3 by (auto simp: shared_ok_def) (metis option.exhaust)
  with a1 a2 a3 show ?thesis by auto
qed

end
