(* ===== verification/HookLife.thy ===== *)
theory HookLife
  imports Broker
begin

text \<open>
  The life of a hook, from the trigger of a channel to the request that the application server reads: a channel calls
  \<^verbatim>\<open>capplication::Trigger\<close>, this calls \<^verbatim>\<open>Trigger\<close> of every endpoint that was registered when the application was constructed, an
  endpoint puts a job into the queue all hooks share, a worker takes it, connects and writes a request, and the server on the
  other side parses it. Components: \<open>Channels\<close>, \<open>Credentials\<close>, \<open>Dsn\<close>, \<open>Hooks\<close>, \<open>Workers\<close>, \<open>HttpConn\<close>, \<open>Http\<close>.
\<close>

section \<open>From the channel to the queue\<close>

text \<open>\<^verbatim>\<open>chook::Trigger\<close> is virtual.\<close>

fun chook_Trigger :: "(json \<Rightarrow> string) \<Rightarrow> chook \<Rightarrow> hook_call \<Rightarrow> hook_job casyncqueue \<Rightarrow> hook_job casyncqueue" where
  "chook_Trigger dump (WebHook wh) c q = web_Trigger dump wh (hc_trigger c) (hc_app c) (hc_channel c) (hc_session c) (hc_data c) q"
| "chook_Trigger dump (LuaHook lh) c q = lua_Trigger dump lh (hc_trigger c) (hc_app c) (hc_channel c) (hc_session c) (hc_data c) q"

text \<open>The loop over \<^verbatim>\<open>HookEndpoints\<close>, for the hooks that \<open>register_hooks\<close> made of the endpoints of the application.\<close>

definition call_hooks ::
  "(json \<Rightarrow> string) \<Rightarrow> capplication \<Rightarrow> chook list \<Rightarrow> hook_trigger_t \<Rightarrow> string \<Rightarrow> string \<Rightarrow> json
     \<Rightarrow> hook_job casyncqueue \<Rightarrow> hook_job casyncqueue" where
  "call_hooks dump app hooks trigger channel session data q =
     fold (\<lambda>(h, c). chook_Trigger dump h c) (zip hooks (Trigger app trigger channel session data)) q"

text \<open>The triggers among the effects of an operation on a channel, in order.\<close>

fun raise_hooks :: "(json \<Rightarrow> string) \<Rightarrow> capplication \<Rightarrow> chook list \<Rightarrow> effect list \<Rightarrow> hook_job casyncqueue \<Rightarrow> hook_job casyncqueue" where
  "raise_hooks dump app hooks [] q = q"
| "raise_hooks dump app hooks (HookTrigger type trigger channel session data # effs) q =
     raise_hooks dump app hooks effs (call_hooks dump app hooks trigger channel session data q)"
| "raise_hooks dump app hooks (_ # effs) q = raise_hooks dump app hooks effs q"

section \<open>What is in the queue\<close>

fun hook_jobs :: "(json \<Rightarrow> string) \<Rightarrow> chook \<Rightarrow> hook_call \<Rightarrow> hook_job list" where
  "hook_jobs dump (WebHook wh) c =
     [WebJob wh (trigger_job dump wh (hc_trigger c) (hc_app c) (hc_channel c) (hc_session c) (hc_data c))]"
| "hook_jobs dump (LuaHook lh) c =
     (if luaAllowed lh
      then [LuaJob (luaScript lh) ''OnTrigger'' [Str_hook (hc_trigger c), hc_app c, hc_channel c, hc_session c, dump (hc_data c)]]
      else [])"

lemma quJobs_Enqueue [simp]: "quJobs (Enqueue j q) = quJobs q @ [j]"
  by (simp add: Enqueue_def)

lemma chook_Trigger_jobs [simp]: "quJobs (chook_Trigger dump h c q) = quJobs q @ hook_jobs dump h c"
  by (cases h) (simp_all add: web_Trigger_def lua_Trigger_def)

lemma call_hooks_jobs:
  "quJobs (call_hooks dump app hooks trigger channel session data q) =
     quJobs q @ concat (map (\<lambda>(h, c). hook_jobs dump h c) (zip hooks (Trigger app trigger channel session data)))"
proof -
  have "quJobs (fold (\<lambda>(h, c). chook_Trigger dump h c) hcs q) = quJobs q @ concat (map (\<lambda>(h, c). hook_jobs dump h c) hcs)" for hcs
    by (induction hcs arbitrary: q) auto
  then show ?thesis by (simp add: call_hooks_def)
qed

lemma raise_hooks_grow: "\<exists>js. quJobs (raise_hooks dump app hooks effs q) = quJobs q @ js"
  by (induction dump app hooks effs q rule: raise_hooks.induct) (auto simp: call_hooks_jobs)

lemma raise_hooks_jobs:
  assumes "HookTrigger type trigger channel session data \<in> set effs"
  shows "set (concat (map (\<lambda>(h, c). hook_jobs dump h c) (zip hooks (Trigger app trigger channel session data))))
    \<subseteq> set (quJobs (raise_hooks dump app hooks effs q))"
  using assms
proof (induction dump app hooks effs q rule: raise_hooks.induct)
  case (2 dump app hooks type' trigger' channel' session' data' effs q)
  obtain js where "quJobs (raise_hooks dump app hooks effs (call_hooks dump app hooks trigger' channel' session' data' q)) =
      quJobs (call_hooks dump app hooks trigger' channel' session' data' q) @ js"
    using raise_hooks_grow by blast
  with 2 show ?case by (auto simp: call_hooks_jobs)
qed auto

text \<open>One job for every endpoint that is a web address.\<close>

lemma register_hooks_nth:
  assumes "register_hooks st eps = Inr hooks" "i < length eps"
  shows "length hooks = length eps
    \<and> RegisterHook (st_ssl st True [] [] = SslReady) (st_exists st) (fst (eps ! i)) (snd (eps ! i)) = Inr (hooks ! i)"
  using assms
proof (induction eps arbitrary: hooks i)
  case (Cons ep eps)
  obtain h hs where h: "RegisterHook (st_ssl st True [] [] = SslReady) (st_exists st) (fst ep) (snd ep) = Inr h"
      "register_hooks st eps = Inr hs" "hooks = h # hs"
    using Cons.prems(1) by (cases ep) (auto simp: bind_outcome_eq_Inr)
  show ?case
  proof (cases i)
    case 0
    have "length hs = length eps"
    proof (cases eps)
      case (Cons e es)
      then show ?thesis using Cons.IH [OF h(2), of 0] by simp
    qed (use h(2) in simp)
    with 0 h show ?thesis by simp
  next
    case (Suc j)
    with Cons.IH [OF h(2), of j] Cons.prems(2) h show ?thesis by simp
  qed
qed simp

text \<open>A hook on a web address without TLS is a web hook for exactly this address.\<close>

lemma RegisterHook_web:
  assumes "address_ok ''http'' host port path args"
  shows "RegisterHook ctx_ok exists_file (''http'' @ ''://'' @ host @ port_text port @ path @ args) keepalive =
    Inr (WebHook (cwebhook_new \<lparr>dsn_https = False, dsn_Host = host, dsn_HostPort = host @ port_text port, dsn_Url = path @ args\<rparr>
      keepalive ctx_ok))"
proof -
  let ?t = "''http'' @ ''://'' @ host @ port_text port @ path @ args"
  have a: "snd (Assign ?t cdsn_new) =
       \<lparr>ds_Value = ?t, ds_Proto = View (''http'' @ ''://''), ds_User = View [], ds_Pwd = View [],
        ds_HostPort = View (host @ port_text port), ds_Host = View host, ds_Port = View port,
        ds_Url = View (path @ args), ds_Path = View path, ds_Args = View args\<rparr>"
    using dsn_roundtrip [OF assms _ refl match_address [OF assms]] by simp
  show ?thesis unfolding RegisterHook_def a
    by (simp add: IsWeb_def IsHttps_def proto_text_def web_text_def strncasecmp_eq_def dsn_of_def read_view_def tolower_def)
qed

section \<open>From the queue to the server\<close>

text \<open>The request of a job, when the connection is made and the text is sent.\<close>

lemma web_job_sent:
  assumes "\<not> wh_fdSslCtx wh" "nc_sockaddr nc ''80'' = None" "nc_connect nc = None"
    and "send (request_text (hj_method job) (hj_uri job) (hj_headers job) (hj_body job)) = None"
  shows "fst (hook_Write nc send readok job wh) = [request_text (hj_method job) (hj_uri job) (hj_headers job) (hj_body job)]"
  using assms
  by (auto simp: hook_Write_def hook_Connect_def TcpConnect_def inet_Close_def hook_ReadResponse_def HttpWriteRequest_def Let_def)

lemma trigger_request_parsed:
  assumes "word_ok (dsn_Url (wh_endpoint wh))" "word_ok (dsn_Host (wh_endpoint wh))"
    and "job = trigger_job dump wh trigger app channel session msg" "body_ok (hj_body job)" "length (hj_body job) < 2 ^ 64"
  shows "\<exists>rq. ParseRequest (request_text (hj_method job) (hj_uri job) (hj_headers job) (hj_body job)) =
      (Inr (length (request_text (hj_method job) (hj_uri job) (hj_headers job) (hj_body job))), rq)
    \<and> rq_method rq = ''POST'' \<and> rq_uri rq = parse_uri (dsn_Url (wh_endpoint wh))
    \<and> um_find (rq_headers rq) ''host'' = Some (dsn_Host (wh_endpoint wh)) \<and> rq_content rq = hj_body job"
proof -
  have m: "word_ok (hj_method job)" "word_ok (hj_uri job)"
    using assms(1,3) by (auto simp: trigger_job_def word_ok_def isspace_def)
  have host: "header_ok (''Host'', dsn_Host (wh_endpoint wh))"
    using assms(2) by (auto simp: header_ok_def word_ok_def isspace_def)
  have low: "ToLower ''Accept'' = ''accept''" "ToLower ''Content-Type'' = ''content-type''" "ToLower ''Connection'' = ''connection''"
      "ToLower ''Host'' = ''host''" "ToLower ''Content-Length'' = ''content-length''" by code_simp+
  have h: "\<forall>hv \<in> set (hj_headers job). header_ok hv" "\<forall>hv \<in> set (hj_headers job). ToLower (fst hv) \<noteq> ''content-length''"
    using assms(3) host low by (auto simp: trigger_job_def header_ok_def word_ok_def isspace_def)
  have "um_find (collect_headers (length_headers (hj_body job) @ hj_headers job) []) ''host'' = Some (dsn_Host (wh_endpoint wh))"
    using assms(3) by (simp add: collect_headers_find trigger_job_def length_headers_def low)
  with http_request_roundtrip [OF m h(1) assms(4) h(2) assms(5)] assms(3) show ?thesis
    by (simp add: trigger_job_def)
qed


definition hooked_app :: capplication where
  "hooked_app = \<lparr>app_cred = credential_new\<lparr>cr_Id := ''7'', cr_Hooks := hook_code hook_join\<rparr>, app_hooks = [(''http://h:81/x'', False)]\<rparr>"

definition joined_document :: json where
  "joined_document = trigger_document (\<lambda>_. ''{}'') hook_join ''7'' ''news'' ''s1'' JNull"


text \<open>An endpoint without a path, \<^verbatim>\<open>http://host\<close>, gets requests without a target, which no server can read: where the version is
  expected, there is the value of the first header.\<close>

lemma hook_without_path:
  assumes "body \<noteq> []"
  shows "fst (ParseRequest (request_text ''POST'' [] headers body)) = Inl EPROTONOSUPPORT"
proof -
  define rest where "rest = CRLF @ concat (map header_line headers) @ CRLF @ body"
  let ?n = "to_string (length body)"
  have req: "request_text ''POST'' [] headers body = ''POST'' @ CHR '' '' # '' HTTP/1.1'' @ CRLF @ ''Content-Length: '' @ ?n @ rest"
    using assms by (simp add: request_text_def length_headers_def header_line_def rest_def)
  have 1: "ParserNext (request_text ''POST'' [] headers body) (CHR '' '') = (''POST'', ''HTTP/1.1'' @ CRLF @ ''Content-Length: '' @ ?n @ rest)"
    unfolding req by (subst ParserNext_word) (simp_all add: word_ok_def isspace_def)
  obtain d ds where n: "?n = d # ds" "isdigit d" using to_string_digits [of "length body"] to_string_nonempty by (cases ?n) auto
  then have "\<not> isspace d" "isspace (CHR '' '')" using isdigit_not_space by (simp_all add: isspace_def)
  then have "dropWhile isspace (CHR '' '' # ?n @ rest) = ?n @ rest" using n by simp
  then have 2: "\<exists>uri. ParserNext (''HTTP/1.1'' @ CRLF @ ''Content-Length: '' @ ?n @ rest) (CHR '' '') = (uri, ?n @ rest)"
    by (simp add: ParserNext_def)
  have space: "\<forall>c \<in> set ?n. \<not> isspace c" using to_string_digits [of "length body"] isdigit_not_space by blast
  then have "takeWhile (\<lambda>c. c \<noteq> LF) (?n @ rest) = ?n @ [CR]" by (subst takeWhile_append2) (auto simp: rest_def isspace_def)
  moreover have "trim_with isspace (?n @ [CR]) = ?n" using trim_value [of ?n] space by (simp add: trim_with_def)
  ultimately have "fst (ParserNext (?n @ rest) LF) = ?n" using n by (simp add: ParserNext_def)
  moreover have "\<not> http_proto ?n" using n by (auto simp: http_proto_def starts_with_def isdigit_def)
  ultimately show ?thesis using 1 2 by (auto simp: ParseRequest_def split_beta)
qed

end
