(* ===== verification/Spec2Isabelle.thy ===== *)
theory Spec2Isabelle
  imports Flags Base64 HttpConn Auth Router Websocket Workers Poll Cluster SmppProps ApiProps Hooks Servers K8s Config Lua Nodes System Threads HookLife
begin

text \<open>
  Verification of push1st, a publish/subscribe broker that speaks the Pusher and a plain websocket
  protocol, with an HTTP interface for publishers, hooks to application servers, a cluster of brokers
  and a gateway for short messages (SMPP). All paths below are under \<^verbatim>\<open>src/\<close>.

  \<^bold>\<open>How the program works and where it is modelled.\<close> A connection is accepted and handed to one of the
  poll threads; the first request is read and parsed; it is an upgrade to a websocket, which starts a
  session of one of the two protocols, or a call of the HTTP interface. Sessions and the interface
  subscribe to and push into channels; a push reaches the subscribers of the channel, the hooks of the
  application and, through the cluster, the channels of the same name on other brokers. Channels that
  nobody listens to close by themselves, sessions and peers that are silent are collected.

  The theories, in the order of dependence:

  \<^item> \<open>Prelude\<close>: machine integers, outcomes (a value, an exception or undefined behaviour), characters, views,
    decimal printing. \<open>Containers\<close>: unordered maps and queues, each a locale with its laws; all
    components use the maps through the interpretation \<open>um\<close>, and the job queue, the rate limiter and the
    collector interpret \<open>fifo_queue\<close>.
  \<^item> \<open>Flags\<close>: option enumerations and flag sets (\<^verbatim>\<open>cflag.h\<close>, \<^verbatim>\<open>medium.h\<close>); the locale \<open>flag_enum\<close> says that the
    enumerators are disjoint bits. \<open>Base64\<close>: both codecs (\<^verbatim>\<open>cbase62.cpp\<close>, \<^verbatim>\<open>chttp.cpp\<close>) as interpretations of one locale.
  \<^item> \<open>Http\<close>, \<open>HttpText\<close>, \<open>HttpConn\<close>: the parser of requests and responses and the text helpers (\<^verbatim>\<open>chttp.cpp\<close>), reading and
    writing messages (\<^verbatim>\<open>chttpconn.cpp\<close>). \<open>Md5Hash\<close>, \<open>Auth\<close>: \<^verbatim>\<open>http::Md5\<close> and the basic and digest challenges of \<^verbatim>\<open>chttp.cpp\<close>. \<open>Router\<close>: \<^verbatim>\<open>crouter.h\<close> against a specification of patterns.
  \<^item> \<open>Sockets\<close>: the loops around \<^verbatim>\<open>recv\<close> and \<^verbatim>\<open>send\<close>, with and without TLS (\<^verbatim>\<open>csocket.cpp\<close>). \<open>Websocket\<close>: frames and
    their reading (\<^verbatim>\<open>cwebsocket.cpp\<close>, \<^verbatim>\<open>cwsconn.cpp\<close>).
  \<^item> \<open>Workers\<close>: \<^verbatim>\<open>casyncqueue\<close> as a step relation of its threads, \<^verbatim>\<open>cratelimiter\<close>, \<^verbatim>\<open>cspinlock\<close>. \<open>Poll\<close>: \<^verbatim>\<open>cpoll\<close> and \<^verbatim>\<open>ctimer\<close>.
  \<^item> \<open>Json\<close>, \<open>Message\<close>: JSON access as \<^verbatim>\<open>nlohmann::json\<close> does it, messages and subscriber ids.
  \<^item> \<open>Credentials\<close>: applications, session tokens and access tokens (\<^verbatim>\<open>ccredentials.cpp\<close>). \<open>Config\<close>: loading the
    configuration (\<^verbatim>\<open>cconfig.cpp\<close>).
  \<^item> \<open>Regex\<close>: a backtracking matcher with groups, as \<^verbatim>\<open>std::regex_match\<close> does it, proved to accept the language of the expression.
    \<open>Dsn\<close>: addresses of the configuration (\<^verbatim>\<open>cdsn\<close>) with their views. \<open>Address\<close>: socket addresses, resolution and network
    interfaces (\<^verbatim>\<open>cinet.cpp\<close>, \<^verbatim>\<open>ciface.cpp\<close>); both over the matcher.
  \<^item> \<open>Channels\<close>: all kinds of channels and their registry (\<^verbatim>\<open>source/channels\<close>). \<open>Cluster\<close>: frames, peers, handlers
    (\<^verbatim>\<open>ccluster.cpp\<close>, \<^verbatim>\<open>cadapter.cpp\<close>, \<^verbatim>\<open>clistadapter.cpp\<close>).
  \<^item> \<open>Sessions\<close>, \<open>SessionProps\<close>: the Pusher and the websocket session (\<^verbatim>\<open>cpushersession.cpp\<close>, \<^verbatim>\<open>cwssession.cpp\<close>) over the
    channels, the credentials and the connection.
  \<^item> \<open>Smpp\<close>, \<open>SmppService\<close>, \<open>SmppProps\<close>: the codec of protocol units, where every parameter interprets the locale \<open>smpp_param\<close>
    (what is packed is unpacked), and the service (\<^verbatim>\<open>csmppservice.cpp\<close>).
  \<^item> \<open>Api\<close>, \<open>ApiProps\<close>: the HTTP interface (\<^verbatim>\<open>capiserver.cpp\<close>). \<open>Hooks\<close>: web hooks and connecting (\<^verbatim>\<open>chooks.cpp\<close>, \<^verbatim>\<open>cinet.cpp\<close>).
  \<^item> \<open>HttpClient\<close>, \<open>K8s\<close>: responses, chunked responses and calls (\<^verbatim>\<open>chttpconn.cpp\<close>, \<^verbatim>\<open>chttprequest.cpp\<close>), and the adapter
    that takes the peers of the cluster from Kubernetes (\<^verbatim>\<open>ck8sadapter.cpp\<close>).
  \<^item> \<open>Servers\<close>: accepting, the first request, the poll thread with its handlers, the idle work of the broker
    (\<^verbatim>\<open>cacceptor.h\<close>, \<^verbatim>\<open>ctcpserver.cpp\<close>, \<^verbatim>\<open>cwsserver.cpp\<close>, \<^verbatim>\<open>cwebsocketserver.cpp\<close>, \<^verbatim>\<open>chttpserver.cpp\<close>, \<^verbatim>\<open>cbroker.cpp\<close>).
    \<open>Listen\<close>: listening sockets over a kernel of open descriptors and unix names, the UDP and the unix server (\<^verbatim>\<open>cinet.cpp\<close>,
    \<^verbatim>\<open>cudpserver.cpp\<close>, \<^verbatim>\<open>cunixserver.cpp\<close>).
  \<^item> \<open>Logging\<close>: the sinks, the console and the remote log (\<^verbatim>\<open>source/log\<close>). \<open>Cmdline\<close>: options and \<^verbatim>\<open>main\<close>. \<open>Lua\<close>: the script engine
    over an abstract stack (\<^verbatim>\<open>clua.cpp\<close>).
  \<^item> \<open>Broker\<close>: threads, servers, cluster and \<^verbatim>\<open>cbroker::Initialize\<close> put together, from the configuration file to the end of the process.
    \<open>Nodes\<close>: brokers as one system, the frames of one as the datagrams of the other.
  \<^item> \<open>System\<close>: one running broker. Its state is the registry of channels, the sessions and the cluster; its events are the calls
    of the handlers above (first requests, frames, errors, pushes, API requests, datagrams, the idle round) in any order, and a
    run is a sequence of them. \<open>Threads\<close>: the registry behind shared pointers, with the locked sections of the handlers as
    steps that threads take in any order. \<open>HookLife\<close>: the way of a hook from the trigger of a channel through the queue of the
    hook workers to the request that the application server parses.

  \<^bold>\<open>State and effects.\<close> An object is a record, its operations take and return it; the registry of
  channels with the counter of messages is the record \<open>broker\<close>. Locks that are tried, clocks, random numbers and
  the results of system calls are parameters. What an operation does outside of its state (deliver, trigger a
  hook, tell the cluster, write to the socket, close a descriptor, raise a signal) is a list in its result,
  in order. Exceptions and undefined behaviour are values of type \<open>failure\<close>, error codes of type \<open>errno\<close>.

  \<^bold>\<open>Loops.\<close> Every loop over data is a total function. A loop that waits for the network takes the list of results
  of its system calls and is \<open>None\<close> when they are used up: it has not returned. No other fuel is used. The
  threads of the job queue, the handlers of the SMPP service and the events of the Kubernetes adapter
  are step relations, and what is said of them holds in every reachable state; so are the runs of \<open>System\<close> and the interleavings
  of \<open>Threads\<close>.

  \<^bold>\<open>What is proved.\<close> Who may do what: sessions are started, subscribed and heard only with leave
  (\<open>Servers\<close>, \<open>SessionProps\<close>), tokens are accepted exactly when they were issued (\<open>Credentials\<close>, \<open>ApiProps\<close>). What arrives: a push
  reaches exactly its recipients and keeps the registry sound (\<open>Channels\<close>), streams of bytes, frames, requests,
  chunks, cluster frames and protocol units are read as they were written (\<open>Sockets\<close>, \<open>Websocket\<close>, \<open>HttpConn\<close>, \<open>HttpClient\<close>,
  \<open>Cluster\<close>, \<open>Smpp\<close>). How often: a job is run once, a short message is sent four times at most and follows an
  abstract life cycle that the service refines (\<open>Workers\<close>, \<open>SmppProps\<close>). What the peers are: the
  Kubernetes adapter applies its events exactly and keeps its status true (\<open>K8s\<close>). What the parts do together: a message
  is delivered only to sessions that an earlier event of the run let in (\<open>System\<close>); threads on the shared registry keep it sound
  however they are interleaved, and do what the operations of \<open>Channels\<close> promise when they are not (\<open>Threads\<close>); an event of a
  channel arrives at the application's endpoint as a request with its document (\<open>HookLife\<close>); a message
  published on one node reaches exactly its recipients on the others, pings keep the nodes known to each other (\<open>Nodes\<close>),
  the broker runs the threads its configuration asks for and ends all of them (\<open>Broker\<close>), addresses are read as they are
  written (\<open>Dsn\<close>, \<open>Address\<close>), scripts get the values they are given, and class objects unless they are in a container (\<open>Lua\<close>). And where the program fails: inputs
  that throw, overrun a buffer, are lost, leak a descriptor or stop the broker, each as a theorem
  for all inputs of that kind.

  \<^bold>\<open>Parameters.\<close> Code that is not in the sources is an argument of the definitions that use it: HMAC and AES, SHA-1,
  parsing and printing JSON text, the YAML library, name resolution, \<^verbatim>\<open>fnmatch\<close>, scripts. Theorems that need a law of one of
  them state it as a hypothesis, and their witnesses give a function that has it.

  \<^bold>\<open>Not modelled.\<close> The vendored libraries (\<^verbatim>\<open>third\<close>), of which the program uses JSON and logging: the JSON operations it calls are in \<open>Json\<close>,
  formatting and queueing of log lines are spdlog's own. The script calls that accompany a report
  of a peer change nothing in the broker and are modelled only where a report does nothing else (\<open>Broker\<close>).
  Memory is modelled only as far as lengths of buffers, views, shared pointers and descriptors go. Threads interleave where the code
  hands work between them (\<open>Workers\<close>), where a lock is only tried (\<open>Channels\<close>) and on the registry (\<open>Threads\<close>); in \<open>System\<close> a
  handler runs to its end before the next begins, and reads without a lock (the number of subscribers in a log line) have no
  effect there. In \<open>Threads\<close> the call of \<^verbatim>\<open>UnRegister\<close> at the end of a locked section is a step of its own, which allows more
  interleavings than the lock of the channel does.
\<close>

end
